(* ===== verification/Prelude.thy ===== *)
theory Prelude
  imports Main "HOL-Library.Char_ord" "HOL-Library.List_Lexorder" "HOL-Library.Product_Lexorder" "HOL-Library.Word"
begin

text \<open>
  Shared vocabulary of the development: the environment an operation runs in, SQL tables as lists
  of rows, and the contract of a transition system with an invariant.

  \<^item> The state of a component is a record of tables; a table is the list of its rows in insertion
    order. \<open>SELECT ... WHERE key = k\<close> is \<open>select_by\<close>, \<open>UPDATE ... WHERE\<close> is \<open>update_where\<close>,
    \<open>DELETE ... WHERE\<close> is \<open>delete_where\<close>, \<open>INSERT\<close> appends and
    \<open>ORDER BY ... LIMIT\<close> is \<open>order_limit\<close>.
  \<^item> An operation takes the environment \<^emph>\<open>explicitly\<close>: which of its calls on the database (or on another
    process) fail, what the clocks show and which random bytes are drawn. It returns
    the Go result (\<open>Inl\<close> an error value, \<open>Inr\<close> the result) with the new state, so that a
    transaction that is rolled back is an operation that returns the old state.
  \<^item> Time is an integer, Go's zero \<open>time.Time\<close> is \<open>0\<close>, and a \<open>time.Duration\<close> is an
    integer of nanoseconds.
\<close>

named_theorems table_simps \<open>rewriting of selections over updated tables\<close>
named_theorems op_defs \<open>definitions of the store operations\<close>

type_synonym time = int
type_synonym duration = int
type_synonym json = string
type_synonym ('e, 'a, 's) outcome = "('e + 'a) \<times> 's"

abbreviation second :: duration where
  "second \<equiv> 1000000000"

abbreviation minute :: duration where
  "minute \<equiv> 60000000000"

abbreviation hour :: duration where
  "hour \<equiv> 3600000000000"

abbreviation IsZero :: "time \<Rightarrow> bool" where
  "IsZero t \<equiv> t = 0"

section \<open>The environment of an operation\<close>

text \<open>
  \<open>fails n\<close> says that the \<open>n\<close>-th fallible call of the operation returns an error: a lost
  connection, a rejected statement (a malformed UUID literal, a violated \<open>CHECK\<close> or
  foreign-key constraint) or a failed commit. Primary-key and unique constraints are checked in the
  operations themselves, since the invariants rest on them. \<open>clock\<close> is \<open>time.Now().UTC()\<close>,
  \<open>db_clock\<close> is \<open>now()\<close> of the transaction, and \<open>entropy n\<close> is the byte stream the
  \<open>n\<close>-th \<open>rand.Read\<close> reads from, \<open>None\<close> when the source is unavailable;
  \<open>rand_read\<close> fills a buffer of the given length from it.
\<close>

record env =
  fails :: "nat \<Rightarrow> bool"
  clock :: time
  db_clock :: time
  entropy :: "nat \<Rightarrow> (nat \<Rightarrow> 8 word) option"

definition rand_read :: "env \<Rightarrow> nat \<Rightarrow> nat \<Rightarrow> 8 word list option" where
  "rand_read E n len = map_option (\<lambda>bytes. map bytes [0..<len]) (entropy E n)"

lemma rand_read_length: "rand_read E n len = Some bs \<Longrightarrow> length bs = len"
  by (auto simp: rand_read_def)

text \<open>The errors that come from outside the program's own logic.\<close>

datatype external_error = ErrDatabase | ErrEntropy

definition quiet_env :: "time \<Rightarrow> (nat \<Rightarrow> (nat \<Rightarrow> 8 word) option) \<Rightarrow> env" where
  "quiet_env t rnd = \<lparr>fails = (\<lambda>_. False), clock = t, db_clock = t, entropy = rnd\<rparr>"

lemma quiet_env_simps [simp]:
  "fails (quiet_env t rnd) n = False"
  "clock (quiet_env t rnd) = t"
  "db_clock (quiet_env t rnd) = t"
  "entropy (quiet_env t rnd) = rnd"
  by (simp_all add: quiet_env_def)

text \<open>
  An operation that calls others hands its \<open>k\<close>-th call the part of the environment that belongs to it.
\<close>

definition call :: "env \<Rightarrow> nat \<Rightarrow> env" where
  "call E k = E\<lparr>fails := (\<lambda>n. fails E (16 * k + n)), entropy := (\<lambda>n. entropy E (16 * k + n))\<rparr>"

lemma call_simps [simp]:
  "clock (call E k) = clock E" "db_clock (call E k) = db_clock E"
  "fails (call E k) n = fails E (16 * k + n)" "entropy (call E k) n = entropy E (16 * k + n)"
  by (simp_all add: call_def)

lemma outcome_Inr: "\<not> isl (fst x) \<Longrightarrow> x = (Inr (projr (fst x)), snd x)"
  by (cases x) (simp add: sum.collapse(2))

lemma outcome_Inl: "isl (fst x) \<Longrightarrow> x = (Inl (projl (fst x)), snd x)"
  by (cases x) (simp add: sum.collapse(1))

section \<open>Tables\<close>

definition select_by :: "('r \<Rightarrow> 'k) \<Rightarrow> 'k \<Rightarrow> 'r list \<Rightarrow> 'r option" where
  "select_by key k rows = find (\<lambda>r. key r = k) rows"

definition update_where :: "('r \<Rightarrow> bool) \<Rightarrow> ('r \<Rightarrow> 'r) \<Rightarrow> 'r list \<Rightarrow> 'r list" where
  "update_where P f rows = map (\<lambda>r. if P r then f r else r) rows"

definition delete_where :: "('r \<Rightarrow> bool) \<Rightarrow> 'r list \<Rightarrow> 'r list" where
  "delete_where P rows = filter (\<lambda>r. \<not> P r) rows"

definition order_limit :: "('r \<Rightarrow> 'k::linorder) \<Rightarrow> int \<Rightarrow> 'r list \<Rightarrow> 'r list" where
  "order_limit k n rows = take (nat n) (sort_key k rows)"

lemma select_by_Nil [simp]: "select_by key k [] = None"
  by (simp add: select_by_def)

lemma select_by_Cons [simp]:
  "select_by key k (r # rows) = (if key r = k then Some r else select_by key k rows)"
  by (simp add: select_by_def)

lemma select_by_append [table_simps]:
  "select_by key k (xs @ ys) =
     (case select_by key k xs of None \<Rightarrow> select_by key k ys | Some r \<Rightarrow> Some r)"
  by (induction xs) auto

lemma select_by_SomeD:
  "select_by key k rows = Some r \<Longrightarrow> r \<in> set rows \<and> key r = k"
  by (induction rows) (auto split: if_splits)

lemma select_by_None_iff [simp]:
  "select_by key k rows = None \<longleftrightarrow> k \<notin> key ` set rows"
  by (induction rows) auto

lemma select_by_unique:
  "distinct (map key rows) \<Longrightarrow> r \<in> set rows \<Longrightarrow> select_by key (key r) rows = Some r"
proof (induction rows)
  case Nil
  then show ?case by simp
next
  case (Cons x xs)
  show ?case
  proof (cases "r = x")
    case False
    with Cons.prems have "r \<in> set xs" and "key r \<noteq> key x"
      by (auto simp: rev_image_eqI)
    with Cons show ?thesis by auto
  qed simp
qed

lemma distinct_filter_key: "distinct (map key rows) \<Longrightarrow> length (filter (\<lambda>r. key r = k) rows) \<le> 1"
proof (induction rows)
  case (Cons r rows)
  moreover have "filter (\<lambda>x. key x = k) rows = []" if "key r = k"
    using that Cons.prems by (auto simp: filter_empty_conv image_iff)
  ultimately show ?case by auto
qed simp

lemma length_filter_imp:
  "(\<And>r. P r \<Longrightarrow> Q r) \<Longrightarrow> length (filter P rows) \<le> length (filter Q rows)"
  by (induction rows) (auto simp: le_SucI)

lemma update_where_Nil [simp]: "update_where P f [] = []"
  by (simp add: update_where_def)

lemma update_where_Cons [simp]:
  "update_where P f (r # rows) = (if P r then f r else r) # update_where P f rows"
  by (simp add: update_where_def)

lemma set_update_where [table_simps]:
  "set (update_where P f rows) = (\<lambda>r. if P r then f r else r) ` set rows"
  by (simp add: update_where_def)

lemma length_update_where [simp]: "length (update_where P f rows) = length rows"
  by (simp add: update_where_def)

lemma map_update_where:
  "(\<And>r. g (f r) = g r) \<Longrightarrow> map g (update_where P f rows) = map g rows"
  by (induction rows) auto

lemma select_by_update_where [table_simps]:
  assumes "\<And>r. key (f r) = key r"
  shows "select_by key k (update_where P f rows) =
    map_option (\<lambda>r. if P r then f r else r) (select_by key k rows)"
  using assms by (induction rows) auto

lemma update_where_id: "(\<And>r. r \<in> set rows \<Longrightarrow> \<not> P r) \<Longrightarrow> update_where P f rows = rows"
  by (induction rows) auto

lemma set_delete_where [table_simps]:
  "set (delete_where P rows) = {r \<in> set rows. \<not> P r}"
  by (auto simp: delete_where_def)

lemma distinct_delete_where:
  "distinct (map g rows) \<Longrightarrow> distinct (map g (delete_where P rows))"
  by (auto simp: delete_where_def distinct_map inj_on_def)

lemma select_by_delete_where [table_simps]:
  assumes "distinct (map key rows)"
  shows "select_by key k (delete_where P rows) =
    (case select_by key k rows of None \<Rightarrow> None | Some r \<Rightarrow> if P r then None else Some r)"
  using assms
proof (induction rows)
  case (Cons x xs)
  have none: "select_by key k (delete_where P xs) = None" if "key x = k"
    using Cons.prems that by (auto simp: delete_where_def)
  with Cons show ?case by (auto simp: delete_where_def)
qed (simp add: delete_where_def)

lemma set_order_limit: "set (order_limit k n rows) \<subseteq> set rows"
  using set_take_subset by (fastforce simp: order_limit_def)

lemma length_order_limit: "length (order_limit k n rows) \<le> nat n"
  by (simp add: order_limit_def)

lemma sorted_order_limit: "sorted (map k (order_limit k n rows))"
  by (simp add: order_limit_def take_map [symmetric] sorted_wrt_take)

lemma set_order_limit_all:
  "length rows \<le> nat n \<Longrightarrow> set (order_limit k n rows) = set rows"
  by (simp add: order_limit_def)

text \<open>The bound every list endpoint applies to a requested page size.\<close>

definition page_limit :: "int \<Rightarrow> int" where
  "page_limit n = (if n \<le> 0 \<or> n > 200 then 100 else n)"

lemma page_limit_bounds: "1 \<le> page_limit n \<and> page_limit n \<le> 200"
  by (simp add: page_limit_def)

section \<open>Transition systems and invariants\<close>

text \<open>
  The contract of a component whose operations interleave: start states, a step relation and an
  invariant that holds at the start and that every step keeps.
\<close>

inductive reachable :: "('s \<Rightarrow> bool) \<Rightarrow> ('s \<Rightarrow> 's \<Rightarrow> bool) \<Rightarrow> 's \<Rightarrow> bool"
  for start step
  where
    reach_start: "start s \<Longrightarrow> reachable start step s"
  | reach_step: "reachable start step s \<Longrightarrow> step s t \<Longrightarrow> reachable start step t"

locale transition_system =
  fixes start :: "'s \<Rightarrow> bool"
    and step :: "'s \<Rightarrow> 's \<Rightarrow> bool"
    and inv :: "'s \<Rightarrow> bool"
  assumes start_inv: "start s \<Longrightarrow> inv s"
    and step_inv: "step s t \<Longrightarrow> inv s \<Longrightarrow> inv t"
begin

lemma reachable_inv: "reachable start step s \<Longrightarrow> inv s"
  by (induction rule: reachable.induct) (auto intro: start_inv step_inv)

lemma reachable_star: "step\<^sup>*\<^sup>* s t \<Longrightarrow> reachable start step s \<Longrightarrow> reachable start step t"
  by (induction rule: rtranclp_induct) (auto intro: reach_step)

lemma stable_star:
  assumes keep: "\<And>s t. inv s \<Longrightarrow> step s t \<Longrightarrow> P s \<Longrightarrow> P t"
    and run: "step\<^sup>*\<^sup>* s t" and here: "inv s" "P s"
  shows "inv t \<and> P t"
  using run here by (induction rule: rtranclp_induct) (auto intro: step_inv keep)

end

end
