(* ===== verification/Go_Strings.thy ===== *)
theory Go_Strings
  imports Prelude "HOL-Library.Sublist"
begin

text \<open>
  The functions of Go's \<open>strings\<close>, \<open>unicode/utf8\<close>, \<open>encoding/hex\<close> and \<open>fmt\<close>
  packages that the sources use, on byte strings: a Go string is a sequence of bytes and so is
  \<open>string\<close>, whose characters are the 256 byte values.
\<close>

section \<open>Trimming\<close>

text \<open>The UTF-8 encodings of the code points with the Unicode property White_Space.\<close>

definition space_runes :: "string list" where
  "space_runes =
    [[CHR 0x09], [CHR 0x0A], [CHR 0x0B], [CHR 0x0C], [CHR 0x0D], [CHR 0x20],
     [CHR 0xC2, CHR 0x85], [CHR 0xC2, CHR 0xA0], [CHR 0xE1, CHR 0x9A, CHR 0x80],
     [CHR 0xE2, CHR 0x80, CHR 0x80], [CHR 0xE2, CHR 0x80, CHR 0x81],
     [CHR 0xE2, CHR 0x80, CHR 0x82], [CHR 0xE2, CHR 0x80, CHR 0x83],
     [CHR 0xE2, CHR 0x80, CHR 0x84], [CHR 0xE2, CHR 0x80, CHR 0x85],
     [CHR 0xE2, CHR 0x80, CHR 0x86], [CHR 0xE2, CHR 0x80, CHR 0x87],
     [CHR 0xE2, CHR 0x80, CHR 0x88], [CHR 0xE2, CHR 0x80, CHR 0x89],
     [CHR 0xE2, CHR 0x80, CHR 0x8A], [CHR 0xE2, CHR 0x80, CHR 0xA8],
     [CHR 0xE2, CHR 0x80, CHR 0xA9], [CHR 0xE2, CHR 0x80, CHR 0xAF],
     [CHR 0xE2, CHR 0x81, CHR 0x9F], [CHR 0xE3, CHR 0x80, CHR 0x80]]"

definition leading :: "string list \<Rightarrow> string \<Rightarrow> string option" where
  "leading ps s = find (\<lambda>p. p \<noteq> [] \<and> prefix p s) ps"

function strip_leading :: "string list \<Rightarrow> string \<Rightarrow> string" where
  "strip_leading ps s =
     (case leading ps s of None \<Rightarrow> s | Some p \<Rightarrow> strip_leading ps (drop (length p) s))"
  by pat_completeness auto
termination
proof (relation "measure (\<lambda>(ps, s). length s)", goal_cases)
  case (2 ps s p)
  then have "p \<noteq> []" and "prefix p s"
    by (auto simp: leading_def find_Some_iff)
  then have "0 < length p" and "length p \<le> length s"
    by (auto dest: prefix_length_le)
  then have "length s - length p < length s" by linarith
  then show ?case by simp
qed simp

declare strip_leading.simps [simp del]

definition TrimSpace :: "string \<Rightarrow> string" where
  "TrimSpace s = rev (strip_leading (map rev space_runes) (rev (strip_leading space_runes s)))"

lemma leading_None_iff: "leading ps s = None \<longleftrightarrow> (\<forall>p \<in> set ps. p \<noteq> [] \<longrightarrow> \<not> prefix p s)"
  by (auto simp: leading_def find_None_iff)

lemma leading_strip: "leading ps (strip_leading ps s) = None"
proof (induction ps s rule: strip_leading.induct)
  case (1 ps s)
  then show ?case
    by (cases "leading ps s") (auto simp: strip_leading.simps [of ps s])
qed

lemma strip_leading_id: "leading ps s = None \<Longrightarrow> strip_leading ps s = s"
  by (simp add: strip_leading.simps)

lemma strip_leading_suffix: "suffix (strip_leading ps s) s"
proof (induction ps s rule: strip_leading.induct)
  case (1 ps s)
  show ?case
  proof (cases "leading ps s")
    case None
    then show ?thesis by (simp add: strip_leading_id)
  next
    case (Some p)
    with 1 have "suffix (strip_leading ps (drop (length p) s)) (drop (length p) s)"
      by simp
    then have "suffix (strip_leading ps (drop (length p) s)) s"
      using suffix_drop suffix_order.trans by blast
    with Some show ?thesis by (simp add: strip_leading.simps [of ps s])
  qed
qed

lemma strip_leading_Nil [simp]: "strip_leading ps [] = []"
  using strip_leading_suffix [of ps "[]"] by simp

lemma TrimSpace_Nil [simp]: "TrimSpace [] = []"
  by (simp add: TrimSpace_def)

lemma prefix_rev_strip: "prefix (rev (strip_leading ps (rev s))) s"
proof -
  have "suffix (strip_leading ps (rev s)) (rev s)"
    by (rule strip_leading_suffix)
  then show ?thesis by (simp add: suffix_to_prefix)
qed

lemma leading_prefix: "prefix t s \<Longrightarrow> leading ps s = None \<Longrightarrow> leading ps t = None"
  by (auto simp: leading_None_iff intro: prefix_order.trans)

lemma TrimSpace_idem [simp]: "TrimSpace (TrimSpace s) = TrimSpace s"
proof -
  let ?l = "strip_leading space_runes s"
  let ?t = "rev (strip_leading (map rev space_runes) (rev ?l))"
  have "leading space_runes ?t = None"
    using leading_prefix [OF prefix_rev_strip leading_strip] .
  then have "strip_leading space_runes ?t = ?t"
    by (rule strip_leading_id)
  moreover have "strip_leading (map rev space_runes) (rev ?t) = rev ?t"
    by (simp add: strip_leading_id leading_strip)
  ultimately show ?thesis by (simp add: TrimSpace_def)
qed

lemma length_TrimSpace: "length (TrimSpace s) \<le> length s"
proof -
  have "length (TrimSpace s) \<le> length (strip_leading space_runes s)"
    using prefix_rev_strip [THEN prefix_length_le] by (simp add: TrimSpace_def)
  also have "\<dots> \<le> length s"
    using strip_leading_suffix [THEN suffix_length_le] .
  finally show ?thesis .
qed

lemma set_TrimSpace: "set (TrimSpace s) \<subseteq> set s"
  using set_mono_prefix [OF prefix_rev_strip, of "map rev space_runes" "strip_leading space_runes s"]
    set_mono_suffix [OF strip_leading_suffix, of space_runes s]
  by (auto simp: TrimSpace_def)

text \<open>A string of visible ASCII characters is trimmed already.\<close>

definition visible :: "char \<Rightarrow> bool" where
  "visible c = (let n = of_char c :: nat in 33 \<le> n \<and> n < 127)"

lemma strip_leading_visible:
  assumes "list_all (\<lambda>p. p = [] \<or> \<not> visible (hd p)) ps" "list_all visible s"
  shows "strip_leading ps s = s"
proof (rule strip_leading_id)
  have "\<not> prefix p s" if "p \<in> set ps" "p \<noteq> []" for p
    using assms that by (cases p; cases s) (auto simp: list_all_iff)
  then show "leading ps s = None" by (auto simp: leading_None_iff)
qed

lemma TrimSpace_visible:
  assumes "list_all visible s"
  shows "TrimSpace s = s"
proof -
  have "list_all (\<lambda>p. p = [] \<or> \<not> visible (hd p)) space_runes"
    "list_all (\<lambda>p. p = [] \<or> \<not> visible (hd p)) (map rev space_runes)" by code_simp+
  with assms show ?thesis
    by (simp add: TrimSpace_def strip_leading_visible)
qed

abbreviation blank :: "string \<Rightarrow> bool" where
  "blank s \<equiv> TrimSpace s = []"

section \<open>Searching and splitting\<close>

abbreviation HasPrefix :: "string \<Rightarrow> string \<Rightarrow> bool" where
  "HasPrefix s p \<equiv> prefix p s"

fun Contains :: "string \<Rightarrow> string \<Rightarrow> bool" where
  "Contains [] sub = (sub = [])"
| "Contains (c # s) sub = (prefix sub (c # s) \<or> Contains s sub)"

lemma Contains_iff: "Contains s sub \<longleftrightarrow> sublist sub s"
  by (induction s) (auto simp: sublist_Cons_right)

definition ContainsAny :: "string \<Rightarrow> string \<Rightarrow> bool" where
  "ContainsAny s chars = list_ex (\<lambda>c. c \<in> set chars) s"

lemma ContainsAny_iff: "ContainsAny s chars \<longleftrightarrow> set s \<inter> set chars \<noteq> {}"
  by (auto simp: ContainsAny_def list_ex_iff)

fun Split :: "string \<Rightarrow> char \<Rightarrow> string list" where
  "Split [] sep = [[]]"
| "Split (c # s) sep =
     (if c = sep then [] # Split s sep
      else (case Split s sep of [] \<Rightarrow> [[c]] | part # parts \<Rightarrow> (c # part) # parts))"

fun Join :: "string list \<Rightarrow> string \<Rightarrow> string" where
  "Join [] sep = []"
| "Join [s] sep = s"
| "Join (s # t # ss) sep = s @ sep @ Join (t # ss) sep"

lemma Split_nonempty [simp]: "Split s sep \<noteq> []"
  by (induction s) (auto split: list.splits)

lemma Split_no_sep: "part \<in> set (Split s sep) \<Longrightarrow> sep \<notin> set part"
  by (induction s arbitrary: part) (auto split: list.splits if_splits)

lemma Join_Cons: "ss \<noteq> [] \<Longrightarrow> Join (s # ss) sep = s @ sep @ Join ss sep"
  by (cases ss) auto

lemma Join_Cons_head: "Join ((c # s) # ss) sep = c # Join (s # ss) sep"
  by (cases ss) auto

lemma Join_Split: "Join (Split s sep) [sep] = s"
proof (induction s)
  case (Cons c s)
  then show ?case
    by (cases "Split s sep") (auto simp: Join_Cons Join_Cons_head)
qed simp

definition ReplaceByte :: "string \<Rightarrow> char \<Rightarrow> char \<Rightarrow> string" where
  "ReplaceByte s old new = map (\<lambda>c. if c = old then new else c) s"

section \<open>Case mapping\<close>

text \<open>
  \<open>strings.ToLower\<close> lowers the ASCII letters of an ASCII string. On other strings it consults the
  Unicode case tables, which enter as the parameter \<open>uni\<close>.
\<close>

definition ascii_lower :: "char \<Rightarrow> char" where
  "ascii_lower c = (let n = of_char c :: nat in if 65 \<le> n \<and> n \<le> 90 then char_of (n + 32) else c)"

definition ToLower :: "(string \<Rightarrow> string) \<Rightarrow> string \<Rightarrow> string" where
  "ToLower uni s =
     (if list_all (\<lambda>c. (of_char c :: nat) < 128) s then map ascii_lower s else uni s)"

section \<open>Hexadecimal digits and identifiers\<close>

definition hex_digits :: string where
  "hex_digits = ''0123456789abcdef''"

definition hex_digit :: "nat \<Rightarrow> char" where
  "hex_digit n = hex_digits ! (n mod 16)"

fun EncodeToString :: "8 word list \<Rightarrow> string" where
  "EncodeToString [] = []"
| "EncodeToString (b # bs) =
     hex_digit (unat b div 16) # hex_digit (unat b mod 16) # EncodeToString bs"

definition is_hex_char :: "char \<Rightarrow> bool" where
  "is_hex_char c =
     (let n = of_char c :: nat
      in (48 \<le> n \<and> n \<le> 57) \<or> (97 \<le> n \<and> n \<le> 102) \<or> (65 \<le> n \<and> n \<le> 70))"

abbreviation is_hex :: "string \<Rightarrow> bool" where
  "is_hex s \<equiv> list_all is_hex_char s"

lemma length_EncodeToString [simp]: "length (EncodeToString bs) = 2 * length bs"
  by (induction bs) auto

lemma hex_digit_is_hex [simp]: "is_hex_char (hex_digit n)"
proof -
  have "n mod 16 \<in> {0,1,2,3,4,5,6,7,8,9,10,11,12,13,14,15}"
    by auto presburger
  then show ?thesis
    by (auto simp: hex_digit_def hex_digits_def is_hex_char_def)
qed

lemma EncodeToString_is_hex: "is_hex (EncodeToString bs)"
  by (induction bs) auto

text \<open>The text of a 16-byte identifier, \<open>%08x-%04x-%04x-%04x-%012x\<close>.\<close>

definition format_uuid :: "8 word list \<Rightarrow> string" where
  "format_uuid v =
     EncodeToString (take 4 v) @ ''-'' @ EncodeToString (take 2 (drop 4 v)) @ ''-'' @
     EncodeToString (take 2 (drop 6 v)) @ ''-'' @ EncodeToString (take 2 (drop 8 v)) @ ''-'' @
     EncodeToString (take 6 (drop 10 v))"

lemma length_format_uuid: "length v = 16 \<Longrightarrow> length (format_uuid v) = 36"
  by (simp add: format_uuid_def)

lemma is_hex_visible: "is_hex_char c \<Longrightarrow> visible c"
  by (auto simp: is_hex_char_def visible_def Let_def)

lemma TrimSpace_format_uuid [simp]: "TrimSpace (format_uuid v) = format_uuid v"
proof (rule TrimSpace_visible)
  have "list_all visible (EncodeToString bs)" for bs
    using EncodeToString_is_hex [of bs] is_hex_visible by (auto simp: list_all_iff)
  moreover have "visible (CHR ''-'')" by code_simp
  ultimately show "list_all visible (format_uuid v)" by (simp add: format_uuid_def)
qed

lemma format_uuid_nonempty [simp]: "format_uuid v \<noteq> []"
  by (simp add: format_uuid_def)


section \<open>Decimal numbers\<close>

text \<open>\<open>fmt\<close>'s \<open>%d\<close>.\<close>

fun itoa_nat :: "nat \<Rightarrow> string" where
  "itoa_nat n = (if n < 10 then [char_of (48 + n)] else itoa_nat (n div 10) @ [char_of (48 + n mod 10)])"

declare itoa_nat.simps [simp del]

definition itoa :: "int \<Rightarrow> string" where
  "itoa i = (if i < 0 then CHR ''-'' # itoa_nat (nat (- i)) else itoa_nat (nat i))"

lemma itoa_nat_nonempty [simp]: "itoa_nat n \<noteq> []"
  by (subst itoa_nat.simps) simp

end
