(* ===== verification/Tasks.thy ===== *)
theory Tasks
  imports Go_Strings
begin

unbundle bit_operations_syntax

text \<open>
  The task queue of \<open>src/server/internal/tasks\<close>: its vocabulary and state machine (types.go), the
  PostgreSQL store (store.go) over the tables of migration 000004, and the service that forwards to
  it (service.go).

  The tables are the fields of \<open>tasks_db\<close>; every operation of the store is a function on it, and
  is polymorphic in the record's extension, so that the components which keep their tables in the same
  database use the operations unchanged. A NULL \<open>uuid\<close> column is the empty string, the value the
  store reads for it (\<open>COALESCE(...::text, '')\<close>), and other nullable columns are options.
  Rows that tie in an \<open>ORDER BY\<close> come in insertion order.
\<close>

section \<open>Vocabulary (types.go)\<close>

datatype Kind = KindCodeReview | KindCIDiagnosis | KindIssueRepair | KindOther string

datatype Status = StatusQueued | StatusRunning | StatusAwaitingApproval | StatusSucceeded
  | StatusFailed | StatusCancelled | StatusSuperseded | StatusOther string

datatype task_error = ErrInvalidKind | ErrInvalidStatus | ErrInvalidTransition Status Status
  | ErrTaskNotFound | ErrRunNotFound | ErrIdempotency | ErrLeaseLost
  | TaskMessage string | TaskExternal external_error

record Task =
  task_ID :: string
  task_Kind :: Kind
  task_Status :: Status
  task_Title :: string
  task_RepositoryID :: string
  task_RepositoryName :: string
  task_SourceKey :: string
  task_Payload :: json
  task_Priority :: int
  task_Attempts :: int
  task_MaxAttempts :: int
  task_AvailableAt :: time
  task_LeaseOwner :: string
  task_LeaseUntil :: "time option"
  task_LastError :: string
  task_SupersededBy :: string
  task_CreatedBy :: string
  task_CreatedAt :: time
  task_UpdatedAt :: time
  task_StartedAt :: "time option"
  task_FinishedAt :: "time option"

record Run =
  run_ID :: string
  run_TaskID :: string
  run_Attempt :: int
  run_Status :: Status
  run_CorrelationID :: string
  run_ExternalRunID :: string
  run_ErrorCode :: string
  run_ErrorMessage :: string
  run_CreatedAt :: time
  run_StartedAt :: "time option"
  run_FinishedAt :: "time option"

record RunEvent =
  ev_RunID :: string
  ev_Sequence :: int
  ev_Kind :: string
  ev_Stream :: string
  ev_Message :: string
  ev_Payload :: json
  ev_Terminal :: bool
  ev_CreatedAt :: time

text \<open>A confidence is a \<open>float64\<close>, kept as its 64 bits: no operation computes with it.\<close>

record Finding =
  fin_ID :: string
  fin_TaskID :: string
  fin_RunID :: string
  fin_Severity :: string
  fin_Category :: string
  fin_Path :: string
  fin_LineStart :: "int option"
  fin_LineEnd :: "int option"
  fin_Explanation :: string
  fin_Evidence :: json
  fin_Confidence :: "64 word option"
  fin_Remediation :: string
  fin_CreatedAt :: time

record Evidence =
  evd_ID :: string
  evd_TaskID :: string
  evd_RunID :: string
  evd_Kind :: string
  evd_Title :: string
  evd_Content :: json
  evd_Digest :: string
  evd_CreatedAt :: time

record AuditEvent =
  aud_ID :: string
  aud_ActorID :: string
  aud_Action :: string
  aud_ResourceType :: string
  aud_ResourceID :: string
  aud_Outcome :: string
  aud_CorrelationID :: string
  aud_Metadata :: json
  aud_CreatedAt :: time

record CreateInput =
  in_Kind :: Kind
  in_Title :: string
  in_RepositoryID :: string
  in_RepositoryName :: string
  in_SourceKey :: string
  in_Payload :: "json option"
  in_Priority :: int
  in_MaxAttempts :: int
  in_CreatedBy :: string
  in_CreatedAt :: time

record FindingInput =
  fi_TaskID :: string
  fi_RunID :: string
  fi_Severity :: string
  fi_Category :: string
  fi_Path :: string
  fi_LineStart :: "int option"
  fi_LineEnd :: "int option"
  fi_Explanation :: string
  fi_Evidence :: "json option"
  fi_Confidence :: "64 word option"
  fi_Remediation :: string

record EvidenceInput =
  ei_TaskID :: string
  ei_RunID :: string
  ei_Kind :: string
  ei_Title :: string
  ei_Content :: "json option"
  ei_Digest :: string

record ListFilter =
  lf_Status :: Status
  lf_Kind :: Kind
  lf_Limit :: int

record AuditFilter =
  af_ResourceType :: string
  af_ResourceID :: string
  af_Limit :: int

record RunEventInput =
  rei_Kind :: string
  rei_Stream :: string
  rei_Message :: string
  rei_Payload :: "json option"
  rei_Terminal :: bool

record AuditInput =
  ai_ActorID :: string
  ai_Action :: string
  ai_ResourceType :: string
  ai_ResourceID :: string
  ai_Outcome :: string
  ai_CorrelationID :: string
  ai_Metadata :: "json option"

definition ValidKind :: "Kind \<Rightarrow> bool" where
  "ValidKind kind \<longleftrightarrow> kind = KindCodeReview \<or> kind = KindCIDiagnosis \<or> kind = KindIssueRepair"

fun ValidStatus :: "Status \<Rightarrow> bool" where
  "ValidStatus (StatusOther _) = False"
| "ValidStatus _ = True"

fun allowed :: "Status \<Rightarrow> Status list" where
  "allowed StatusQueued = [StatusRunning, StatusCancelled, StatusSuperseded]"
| "allowed StatusRunning =
     [StatusAwaitingApproval, StatusSucceeded, StatusFailed, StatusCancelled, StatusSuperseded]"
| "allowed StatusAwaitingApproval =
     [StatusQueued, StatusSucceeded, StatusFailed, StatusCancelled, StatusSuperseded]"
| "allowed StatusFailed = [StatusQueued, StatusCancelled, StatusSuperseded]"
| "allowed StatusCancelled = [StatusQueued, StatusSuperseded]"
| "allowed StatusSucceeded = [StatusSuperseded]"
| "allowed StatusSuperseded = []"
| "allowed (StatusOther _) = []"

definition CanTransition :: "Status \<Rightarrow> Status \<Rightarrow> bool" where
  "CanTransition from to =
     (if from = to then from = StatusRunning \<or> from = StatusAwaitingApproval
      else to \<in> set (allowed from))"

section \<open>The store (store.go)\<close>

record tasks_db =
  tasks :: "Task list"
  runs :: "Run list"
  run_events :: "RunEvent list"
  findings :: "Finding list"
  evidence :: "Evidence list"
  audit_events :: "AuditEvent list"

definition newID :: "env \<Rightarrow> nat \<Rightarrow> string option" where
  "newID E n = map_option (\<lambda>v. format_uuid
     (v[6 := ((v ! 6) AND 0x0f) OR 0x40, 8 := ((v ! 8) AND 0x3f) OR 0x80])) (rand_read E n 16)"

definition CreateTask ::
  "env \<Rightarrow> CreateInput \<Rightarrow> 'z tasks_db_scheme \<Rightarrow> (task_error, Task, 'z tasks_db_scheme) outcome"
  where
  "CreateTask E input db =
    (if \<not> ValidKind (in_Kind input) then (Inl ErrInvalidKind, db)
     else if blank (in_Title input) \<or> blank (in_SourceKey input) \<or>
       (in_CreatedBy input = [] \<and> \<not> HasPrefix (in_SourceKey input) ''github:'')
     then (Inl (TaskMessage ''task title, source key, and creator are required''), db)
     else
       let maxAttempts = (if in_MaxAttempts input \<le> 0 then 3 else in_MaxAttempts input);
         payload = (case in_Payload input of None \<Rightarrow> ''{}'' | Some p \<Rightarrow> p);
         createdAt = (if IsZero (in_CreatedAt input) then clock E else in_CreatedAt input)
       in case newID E 0 of
         None \<Rightarrow> (Inl (TaskExternal ErrEntropy), db)
       | Some newId \<Rightarrow>
           if fails E 0 then (Inl (TaskExternal ErrDatabase), db)
           else (case select_by task_SourceKey (in_SourceKey input) (tasks db) of
             Some task \<Rightarrow> (Inr task, db)
           | None \<Rightarrow>
               if newId \<in> task_ID ` set (tasks db) then (Inl (TaskExternal ErrDatabase), db)
               else
                 let task = \<lparr>task_ID = newId, task_Kind = in_Kind input, task_Status = StatusQueued,
                   task_Title = TrimSpace (in_Title input),
                   task_RepositoryID = in_RepositoryID input,
                   task_RepositoryName = in_RepositoryName input,
                   task_SourceKey = in_SourceKey input, task_Payload = payload,
                   task_Priority = in_Priority input, task_Attempts = 0,
                   task_MaxAttempts = maxAttempts, task_AvailableAt = db_clock E,
                   task_LeaseOwner = [], task_LeaseUntil = None, task_LastError = [],
                   task_SupersededBy = [], task_CreatedBy = in_CreatedBy input,
                   task_CreatedAt = createdAt, task_UpdatedAt = createdAt,
                   task_StartedAt = None, task_FinishedAt = None\<rparr>
                 in (Inr task, db\<lparr>tasks := tasks db @ [task]\<rparr>)))"

definition GetTask :: "env \<Rightarrow> string \<Rightarrow> 'z tasks_db_scheme \<Rightarrow> task_error + Task" where
  "GetTask E ident db =
    (if fails E 0 then Inl (TaskExternal ErrDatabase)
     else case select_by task_ID ident (tasks db) of None \<Rightarrow> Inl ErrTaskNotFound | Some task \<Rightarrow> Inr task)"

definition ListTasks :: "env \<Rightarrow> ListFilter \<Rightarrow> 'z tasks_db_scheme \<Rightarrow> task_error + Task list" where
  "ListTasks E flt db =
    (if fails E 0 then Inl (TaskExternal ErrDatabase)
     else Inr (order_limit (\<lambda>t. - task_UpdatedAt t) (page_limit (lf_Limit flt))
       (filter (\<lambda>t. (lf_Status flt = StatusOther [] \<or> task_Status t = lf_Status flt) \<and>
                    (lf_Kind flt = KindOther [] \<or> task_Kind t = lf_Kind flt)) (tasks db))))"

definition active_status :: "Status \<Rightarrow> bool" where
  "active_status s \<longleftrightarrow> s = StatusQueued \<or> s = StatusRunning \<or> s = StatusAwaitingApproval"

definition cancel_task :: "time \<Rightarrow> string \<Rightarrow> Task \<Rightarrow> Task" where
  "cancel_task now reason t = t\<lparr>task_Status := StatusCancelled, task_LastError := TrimSpace reason,
     task_LeaseOwner := [], task_LeaseUntil := None, task_FinishedAt := Some now, task_UpdatedAt := now\<rparr>"

definition cancel_run :: "time \<Rightarrow> string \<Rightarrow> Run \<Rightarrow> Run" where
  "cancel_run now reason r = r\<lparr>run_Status := StatusCancelled, run_ErrorCode := ''cancelled'',
     run_ErrorMessage := TrimSpace reason, run_FinishedAt := Some now\<rparr>"

definition CancelTask ::
  "env \<Rightarrow> string \<Rightarrow> string \<Rightarrow> 'z tasks_db_scheme \<Rightarrow> (task_error, Task, 'z tasks_db_scheme) outcome"
  where
  "CancelTask E ident reason db =
    (if fails E 0 \<or> fails E 1 then (Inl (TaskExternal ErrDatabase), db)
     else case select_by task_ID ident (tasks db) of
       None \<Rightarrow> (Inl ErrTaskNotFound, db)
     | Some task \<Rightarrow>
         if \<not> CanTransition (task_Status task) StatusCancelled
         then (Inl (ErrInvalidTransition (task_Status task) StatusCancelled), db)
         else
           let now = clock E
           in if fails E 2 \<or> fails E 3 \<or> fails E 4 then (Inl (TaskExternal ErrDatabase), db)
              else (Inr (cancel_task now reason task),
                db\<lparr>tasks := update_where (\<lambda>t. task_ID t = ident) (cancel_task now reason) (tasks db),
                   runs := update_where (\<lambda>r. run_TaskID r = ident \<and> active_status (run_Status r))
                     (cancel_run now reason) (runs db)\<rparr>))"

definition retry_task :: "time \<Rightarrow> string \<Rightarrow> Task \<Rightarrow> Task" where
  "retry_task now reason t = t\<lparr>task_Status := StatusQueued, task_LastError := TrimSpace reason,
     task_AvailableAt := now, task_LeaseOwner := [], task_LeaseUntil := None,
     task_FinishedAt := None, task_UpdatedAt := now\<rparr>"

definition RetryTask ::
  "env \<Rightarrow> string \<Rightarrow> string \<Rightarrow> 'z tasks_db_scheme \<Rightarrow> (task_error, Task, 'z tasks_db_scheme) outcome"
  where
  "RetryTask E ident reason db =
    (if fails E 0 \<or> fails E 1 then (Inl (TaskExternal ErrDatabase), db)
     else case select_by task_ID ident (tasks db) of
       None \<Rightarrow> (Inl ErrTaskNotFound, db)
     | Some task \<Rightarrow>
         if \<not> CanTransition (task_Status task) StatusQueued
         then (Inl (ErrInvalidTransition (task_Status task) StatusQueued), db)
         else
           let now = clock E
           in if fails E 2 \<or> fails E 3 then (Inl (TaskExternal ErrDatabase), db)
              else (Inr (retry_task now reason task),
                db\<lparr>tasks := update_where (\<lambda>t. task_ID t = ident) (retry_task now reason) (tasks db)\<rparr>))"

text \<open>
  \<open>claimable now t\<close> is the \<open>WHERE\<close> clause of the claim and \<open>claim_key\<close> its
  \<open>ORDER BY\<close>. The predicate \<open>locked\<close> holds of the rows that concurrent transactions have
  locked and \<open>SKIP LOCKED\<close> passes over.
\<close>

definition claimable :: "time \<Rightarrow> Task \<Rightarrow> bool" where
  "claimable now t \<longleftrightarrow>
     ((task_Status t = StatusQueued \<or> task_Status t = StatusFailed) \<and> task_AvailableAt t \<le> now \<or>
      task_Status t = StatusRunning \<and> (case task_LeaseUntil t of None \<Rightarrow> False | Some u \<Rightarrow> u < now)) \<and>
     task_Attempts t < task_MaxAttempts t"

definition claim_key :: "Task \<Rightarrow> int \<times> time \<times> time" where
  "claim_key t = (- task_Priority t, task_AvailableAt t, task_CreatedAt t)"

definition expire_run :: "time \<Rightarrow> Run \<Rightarrow> Run" where
  "expire_run now r = r\<lparr>run_Status := StatusFailed, run_ErrorCode := ''lease_expired'',
     run_ErrorMessage := ''worker lease expired'', run_FinishedAt := Some now\<rparr>"

definition lease_task :: "time \<Rightarrow> string \<Rightarrow> time \<Rightarrow> int \<Rightarrow> Task \<Rightarrow> Task" where
  "lease_task now owner leaseUntil attempt t = t\<lparr>task_Status := StatusRunning,
     task_Attempts := attempt, task_LeaseOwner := owner, task_LeaseUntil := Some leaseUntil,
     task_StartedAt := (case task_StartedAt t of None \<Rightarrow> Some now | Some s \<Rightarrow> Some s),
     task_UpdatedAt := now\<rparr>"

definition started_run :: "time \<Rightarrow> string \<Rightarrow> string \<Rightarrow> int \<Rightarrow> string \<Rightarrow> Run" where
  "started_run now runID taskID attempt correlationID =
     \<lparr>run_ID = runID, run_TaskID = taskID, run_Attempt = attempt, run_Status = StatusRunning,
      run_CorrelationID = correlationID, run_ExternalRunID = [], run_ErrorCode = [],
      run_ErrorMessage = [], run_CreatedAt = now, run_StartedAt = Some now, run_FinishedAt = None\<rparr>"

definition ClaimTask ::
  "(string \<Rightarrow> bool) \<Rightarrow> env \<Rightarrow> string \<Rightarrow> duration \<Rightarrow> 'z tasks_db_scheme \<Rightarrow>
   (task_error, Task \<times> Run, 'z tasks_db_scheme) outcome"
  where
  "ClaimTask locked E owner lease db =
    (if blank owner then (Inl (TaskMessage ''worker owner is required''), db)
     else if lease \<le> 0 then (Inl (TaskMessage ''lease must be positive''), db)
     else if fails E 0 \<or> fails E 1 then (Inl (TaskExternal ErrDatabase), db)
     else case order_limit claim_key 1
         (filter (\<lambda>t. claimable (db_clock E) t \<and> \<not> locked (task_ID t)) (tasks db)) of
       [] \<Rightarrow> (Inl ErrTaskNotFound, db)
     | task # _ \<Rightarrow>
         let now = clock E;
           leaseUntil = now + lease;
           attempt = task_Attempts task + 1;
           runs1 = (if task_Status task = StatusRunning
             then update_where (\<lambda>r. run_TaskID r = task_ID task \<and> run_Status r = StatusRunning)
               (expire_run now) (runs db)
             else runs db)
         in if task_Status task = StatusRunning \<and> fails E 2 \<or> fails E 3
            then (Inl (TaskExternal ErrDatabase), db)
            else (case newID E 0 of None \<Rightarrow> (Inl (TaskExternal ErrEntropy), db) | Some runID \<Rightarrow>
              (case newID E 1 of None \<Rightarrow> (Inl (TaskExternal ErrEntropy), db) | Some correlationID \<Rightarrow>
                let run = started_run now runID (task_ID task) attempt correlationID
                in if fails E 4 \<or> runID \<in> run_ID ` set runs1 \<or>
                     (task_ID task, attempt) \<in> (\<lambda>r. (run_TaskID r, run_Attempt r)) ` set runs1 \<or>
                     correlationID \<in> run_CorrelationID ` set runs1 \<or> fails E 5
                   then (Inl (TaskExternal ErrDatabase), db)
                   else (Inr ((lease_task now owner leaseUntil attempt task)\<lparr>task_StartedAt := Some now\<rparr>, run),
                     db\<lparr>tasks := update_where (\<lambda>t. task_ID t = task_ID task)
                          (lease_task now owner leaseUntil attempt) (tasks db),
                        runs := runs1 @ [run]\<rparr>))))"

definition Heartbeat ::
  "env \<Rightarrow> string \<Rightarrow> string \<Rightarrow> duration \<Rightarrow> 'z tasks_db_scheme \<Rightarrow> (task_error, unit, 'z tasks_db_scheme) outcome"
  where
  "Heartbeat E ident owner lease db =
    (if lease \<le> 0 then (Inl (TaskMessage ''lease must be positive''), db)
     else
       let sel = (\<lambda>t. task_ID t = ident \<and> task_Status t = StatusRunning \<and> task_LeaseOwner t = owner);
         until = clock E + lease;
         rows = filter sel (tasks db);
         db' = db\<lparr>tasks := update_where sel
           (\<lambda>t. t\<lparr>task_LeaseUntil := Some until, task_UpdatedAt := until\<rparr>) (tasks db)\<rparr>
       in if fails E 0 then (Inl (TaskExternal ErrDatabase), db)
          else if length rows \<noteq> 1 then (Inl ErrLeaseLost, db')
          else (Inr (), db'))"

definition terminal_status :: "Status \<Rightarrow> bool" where
  "terminal_status s \<longleftrightarrow> s = StatusSucceeded \<or> s = StatusFailed \<or> s = StatusCancelled"

definition complete_task :: "time \<Rightarrow> bool \<Rightarrow> Status \<Rightarrow> string \<Rightarrow> Task \<Rightarrow> Task" where
  "complete_task now finished status message t = t\<lparr>task_Status := status,
     task_LastError := TrimSpace message, task_LeaseOwner := [], task_LeaseUntil := None,
     task_FinishedAt := (if finished then Some now else task_FinishedAt t), task_UpdatedAt := now\<rparr>"

definition complete_run :: "time \<Rightarrow> bool \<Rightarrow> Status \<Rightarrow> string \<Rightarrow> string \<Rightarrow> Run \<Rightarrow> Run" where
  "complete_run now finished status code message r = r\<lparr>run_Status := status,
     run_ErrorCode := TrimSpace code, run_ErrorMessage := TrimSpace message,
     run_FinishedAt := (if finished then Some now else run_FinishedAt r)\<rparr>"

definition CompleteTask ::
  "env \<Rightarrow> string \<Rightarrow> string \<Rightarrow> Status \<Rightarrow> string \<Rightarrow> string \<Rightarrow> 'z tasks_db_scheme \<Rightarrow>
   (task_error, unit, 'z tasks_db_scheme) outcome"
  where
  "CompleteTask E taskID runID status code message db =
    (if status \<noteq> StatusSucceeded \<and> status \<noteq> StatusFailed \<and> status \<noteq> StatusCancelled \<and>
        status \<noteq> StatusAwaitingApproval
     then (Inl ErrInvalidStatus, db)
     else if fails E 0 \<or> fails E 1 then (Inl (TaskExternal ErrDatabase), db)
     else case select_by task_ID taskID (tasks db) of
       None \<Rightarrow> (Inl ErrTaskNotFound, db)
     | Some task \<Rightarrow>
         let current = task_Status task;
           locked_run = find (\<lambda>r. run_ID r = runID \<and> run_TaskID r = taskID) (runs db);
           commit = (\<lambda>out. if fails E 5 then (Inl (TaskExternal ErrDatabase), db) else (Inr (), out));
           continue = (if current = status \<and> terminal_status status then commit db
             else if \<not> CanTransition current status
             then (Inl (ErrInvalidTransition current status), db)
             else
               let now = clock E;
                 finished = terminal_status status;
                 tasks' = update_where (\<lambda>t. task_ID t = taskID)
                   (complete_task now finished status message) (tasks db);
                 runs' = update_where (\<lambda>r. run_ID r = runID \<and> run_TaskID r = taskID)
                   (complete_run now finished status code message) (runs db)
               in if fails E 3 \<or> runID \<noteq> [] \<and> fails E 4 then (Inl (TaskExternal ErrDatabase), db)
                  else commit (db\<lparr>tasks := tasks',
                    runs := (if runID \<noteq> [] then runs' else runs db)\<rparr>))
         in if runID = [] then continue
            else if fails E 2 then (Inl (TaskExternal ErrDatabase), db)
            else (case locked_run of
              None \<Rightarrow> (Inl ErrRunNotFound, db)
            | Some run \<Rightarrow>
                if run_Status run \<noteq> StatusRunning then
                  if current = status \<and> run_Status run = status then commit db
                  else (Inl ErrLeaseLost, db)
                else continue))"

definition GetRun :: "env \<Rightarrow> string \<Rightarrow> 'z tasks_db_scheme \<Rightarrow> task_error + Run" where
  "GetRun E ident db =
    (if fails E 0 then Inl (TaskExternal ErrDatabase)
     else case select_by run_ID ident (runs db) of None \<Rightarrow> Inl ErrRunNotFound | Some run \<Rightarrow> Inr run)"

definition ListRuns :: "env \<Rightarrow> string \<Rightarrow> 'z tasks_db_scheme \<Rightarrow> task_error + Run list" where
  "ListRuns E taskID db =
    (if fails E 0 then Inl (TaskExternal ErrDatabase)
     else if taskID \<notin> task_ID ` set (tasks db) then Inl ErrTaskNotFound
     else if fails E 1 then Inl (TaskExternal ErrDatabase)
     else Inr (sort_key (\<lambda>r. - run_Attempt r) (filter (\<lambda>r. run_TaskID r = taskID) (runs db))))"

definition ListAllRuns :: "env \<Rightarrow> int \<Rightarrow> 'z tasks_db_scheme \<Rightarrow> task_error + Run list" where
  "ListAllRuns E limit db =
    (if fails E 0 then Inl (TaskExternal ErrDatabase)
     else Inr (order_limit (\<lambda>r. - run_CreatedAt r) (page_limit limit) (runs db)))"

definition ListRunEvents ::
  "env \<Rightarrow> string \<Rightarrow> int \<Rightarrow> 'z tasks_db_scheme \<Rightarrow> task_error + RunEvent list" where
  "ListRunEvents E runID after db =
    (if fails E 0 then Inl (TaskExternal ErrDatabase)
     else if runID \<notin> run_ID ` set (runs db) then Inl ErrRunNotFound
     else if fails E 1 then Inl (TaskExternal ErrDatabase)
     else Inr (sort_key ev_Sequence
       (filter (\<lambda>e. ev_RunID e = runID \<and> after < ev_Sequence e) (run_events db))))"

definition next_sequence :: "string \<Rightarrow> RunEvent list \<Rightarrow> int" where
  "next_sequence runID evs =
     (case filter (\<lambda>e. ev_RunID e = runID) evs of
        [] \<Rightarrow> 0 | own \<Rightarrow> Max (set (map ev_Sequence own))) + 1"

definition AppendRunEvent ::
  "env \<Rightarrow> string \<Rightarrow> RunEventInput \<Rightarrow> 'z tasks_db_scheme \<Rightarrow>
   (task_error, RunEvent, 'z tasks_db_scheme) outcome"
  where
  "AppendRunEvent E runID input db =
    (if fails E 0 \<or> fails E 1 then (Inl (TaskExternal ErrDatabase), db)
     else case select_by run_ID runID (runs db) of
       None \<Rightarrow> (Inl ErrRunNotFound, db)
     | Some run \<Rightarrow>
         if run_ID run = [] then (Inl ErrRunNotFound, db)
         else
           let payload = (case rei_Payload input of None \<Rightarrow> ''{}'' | Some p \<Rightarrow> p);
             event = \<lparr>ev_RunID = runID, ev_Sequence = next_sequence runID (run_events db),
               ev_Kind = rei_Kind input, ev_Stream = rei_Stream input,
               ev_Message = rei_Message input, ev_Payload = payload,
               ev_Terminal = rei_Terminal input, ev_CreatedAt = db_clock E\<rparr>
           in if fails E 2 \<or> fails E 3 then (Inl (TaskExternal ErrDatabase), db)
              else (Inr event, db\<lparr>run_events := run_events db @ [event]\<rparr>))"

definition ListAuditEvents ::
  "env \<Rightarrow> AuditFilter \<Rightarrow> 'z tasks_db_scheme \<Rightarrow> task_error + AuditEvent list" where
  "ListAuditEvents E flt db =
    (if fails E 0 then Inl (TaskExternal ErrDatabase)
     else Inr (order_limit (\<lambda>a. - aud_CreatedAt a) (page_limit (af_Limit flt))
       (filter (\<lambda>a. (af_ResourceType flt = [] \<or> aud_ResourceType a = af_ResourceType flt) \<and>
                    (af_ResourceID flt = [] \<or> aud_ResourceID a = af_ResourceID flt))
          (audit_events db))))"

definition RecordAudit ::
  "env \<Rightarrow> AuditInput \<Rightarrow> 'z tasks_db_scheme \<Rightarrow> (task_error, AuditEvent, 'z tasks_db_scheme) outcome"
  where
  "RecordAudit E input db =
    (let metadata = (case ai_Metadata input of None \<Rightarrow> ''{}'' | Some m \<Rightarrow> m)
     in case newID E 0 of
       None \<Rightarrow> (Inl (TaskExternal ErrEntropy), db)
     | Some newId \<Rightarrow>
         let event = \<lparr>aud_ID = newId, aud_ActorID = ai_ActorID input, aud_Action = ai_Action input,
           aud_ResourceType = ai_ResourceType input, aud_ResourceID = ai_ResourceID input,
           aud_Outcome = ai_Outcome input, aud_CorrelationID = ai_CorrelationID input,
           aud_Metadata = metadata, aud_CreatedAt = db_clock E\<rparr>
         in if fails E 0 \<or> newId \<in> aud_ID ` set (audit_events db)
            then (Inl (TaskExternal ErrDatabase), db)
            else (Inr event, db\<lparr>audit_events := audit_events db @ [event]\<rparr>))"

text \<open>\<open>round54\<close> is what a \<open>NUMERIC(5,4)\<close> column keeps of a \<open>float64\<close>.\<close>

definition CreateFinding ::
  "(64 word \<Rightarrow> 64 word) \<Rightarrow> env \<Rightarrow> FindingInput \<Rightarrow> 'z tasks_db_scheme \<Rightarrow>
   (task_error, Finding, 'z tasks_db_scheme) outcome"
  where
  "CreateFinding round54 E input db =
    (let evd = (case fi_Evidence input of None \<Rightarrow> ''{}'' | Some e \<Rightarrow> e)
     in case newID E 0 of
       None \<Rightarrow> (Inl (TaskExternal ErrEntropy), db)
     | Some newId \<Rightarrow>
         let finding = \<lparr>fin_ID = newId, fin_TaskID = fi_TaskID input, fin_RunID = fi_RunID input,
           fin_Severity = fi_Severity input, fin_Category = fi_Category input,
           fin_Path = fi_Path input, fin_LineStart = fi_LineStart input,
           fin_LineEnd = fi_LineEnd input, fin_Explanation = fi_Explanation input,
           fin_Evidence = evd, fin_Confidence = map_option round54 (fi_Confidence input),
           fin_Remediation = fi_Remediation input, fin_CreatedAt = db_clock E\<rparr>
         in if fails E 0 \<or> newId \<in> fin_ID ` set (findings db)
            then (Inl (TaskExternal ErrDatabase), db)
            else (Inr finding, db\<lparr>findings := findings db @ [finding]\<rparr>))"

definition ListFindings :: "env \<Rightarrow> string \<Rightarrow> 'z tasks_db_scheme \<Rightarrow> task_error + Finding list" where
  "ListFindings E taskID db =
    (if fails E 0 then Inl (TaskExternal ErrDatabase)
     else Inr (sort_key (\<lambda>f. (fin_CreatedAt f, fin_ID f))
       (filter (\<lambda>f. fin_TaskID f = taskID) (findings db))))"

definition CreateEvidence ::
  "env \<Rightarrow> EvidenceInput \<Rightarrow> 'z tasks_db_scheme \<Rightarrow> (task_error, Evidence, 'z tasks_db_scheme) outcome"
  where
  "CreateEvidence E input db =
    (let content = (case ei_Content input of None \<Rightarrow> ''{}'' | Some c \<Rightarrow> c)
     in case newID E 0 of
       None \<Rightarrow> (Inl (TaskExternal ErrEntropy), db)
     | Some newId \<Rightarrow>
         let item = \<lparr>evd_ID = newId, evd_TaskID = ei_TaskID input, evd_RunID = ei_RunID input,
           evd_Kind = ei_Kind input, evd_Title = ei_Title input, evd_Content = content,
           evd_Digest = ei_Digest input, evd_CreatedAt = db_clock E\<rparr>
         in if fails E 0 \<or> newId \<in> evd_ID ` set (evidence db)
            then (Inl (TaskExternal ErrDatabase), db)
            else (Inr item, db\<lparr>evidence := evidence db @ [item]\<rparr>))"

definition ListEvidence :: "env \<Rightarrow> string \<Rightarrow> 'z tasks_db_scheme \<Rightarrow> task_error + Evidence list" where
  "ListEvidence E taskID db =
    (if fails E 0 then Inl (TaskExternal ErrDatabase)
     else Inr (sort_key (\<lambda>e. (evd_CreatedAt e, evd_ID e))
       (filter (\<lambda>e. evd_TaskID e = taskID) (evidence db))))"

text \<open>
  \<open>repoField\<close> and \<open>prField\<close> are PostgreSQL's \<open>payload->>'repositoryId'\<close> and
  \<open>(payload->>'pullRequestNumber')::int\<close>, \<open>None\<close> for NULL. A comparison with NULL is not true,
  which is what \<open>superseded_by_sel\<close> writes out. A cast of a field that is no integer fails the
  statement, and so does an empty \<open>newTaskID\<close>, which is no UUID.
\<close>

definition superseded_by_sel ::
  "(json \<Rightarrow> string option) \<Rightarrow> (json \<Rightarrow> int option) \<Rightarrow> string \<Rightarrow> string \<Rightarrow> int \<Rightarrow> string \<Rightarrow> Task \<Rightarrow> bool"
  where
  "superseded_by_sel repoField prField repositoryID providerRepositoryID pullRequest newTaskID t \<longleftrightarrow>
     task_Kind t = KindCodeReview \<and> task_ID t \<noteq> newTaskID \<and>
     (repositoryID \<noteq> [] \<and> task_RepositoryID t = repositoryID \<or>
      task_RepositoryID t = [] \<and> providerRepositoryID \<noteq> [] \<and>
        repoField (task_Payload t) = Some providerRepositoryID) \<and>
     prField (task_Payload t) = Some pullRequest \<and> task_Status t \<noteq> StatusSuperseded"

definition supersede_task :: "time \<Rightarrow> string \<Rightarrow> Task \<Rightarrow> Task" where
  "supersede_task now newTaskID t = t\<lparr>task_Status := StatusSuperseded,
     task_SupersededBy := newTaskID, task_LeaseOwner := [], task_LeaseUntil := None,
     task_FinishedAt := (case task_FinishedAt t of None \<Rightarrow> Some now | Some f \<Rightarrow> Some f),
     task_UpdatedAt := now\<rparr>"

definition superseded_ids :: "string \<Rightarrow> Task list \<Rightarrow> string list" where
  "superseded_ids newTaskID ts =
     map task_ID (filter (\<lambda>t. task_Kind t = KindCodeReview \<and> task_SupersededBy t = newTaskID) ts)"

definition supersede_run :: "time \<Rightarrow> Run \<Rightarrow> Run" where
  "supersede_run now r = r\<lparr>run_Status := StatusSuperseded, run_ErrorCode := ''superseded'',
     run_ErrorMessage := ''superseded by a newer pull request commit'', run_FinishedAt := Some now\<rparr>"

definition SupersedeCodeReviews ::
  "(json \<Rightarrow> string option) \<Rightarrow> (json \<Rightarrow> int option) \<Rightarrow> env \<Rightarrow> string \<Rightarrow> string \<Rightarrow> int \<Rightarrow> string \<Rightarrow>
   'z tasks_db_scheme \<Rightarrow> (task_error, unit, 'z tasks_db_scheme) outcome"
  where
  "SupersedeCodeReviews repoField prField E repositoryID providerRepositoryID pullRequest newTaskID db =
    (let now = db_clock E;
       tasks' = update_where
         (superseded_by_sel repoField prField repositoryID providerRepositoryID pullRequest newTaskID)
         (supersede_task now newTaskID) (tasks db);
       runs' = update_where
         (\<lambda>r. run_TaskID r \<in> set (superseded_ids newTaskID tasks') \<and> active_status (run_Status r))
         (supersede_run now) (runs db)
     in if fails E 0 \<or> newTaskID = [] \<or> fails E 1 \<or> fails E 2 \<or> fails E 3
        then (Inl (TaskExternal ErrDatabase), db)
        else (Inr (), db\<lparr>tasks := tasks', runs := runs'\<rparr>))"

text \<open>
  The service (service.go) forwards every call to the store. The methods other components call are named here;
  \<open>normalizePayload\<close> is its one function of its own.
\<close>

definition service_Create where "service_Create = CreateTask"
definition service_Cancel where "service_Cancel = CancelTask"
definition service_Retry where "service_Retry = RetryTask"
definition service_Claim where "service_Claim = ClaimTask"
definition service_Heartbeat where "service_Heartbeat = Heartbeat"
definition service_Complete where "service_Complete = CompleteTask"
definition service_AppendEvent where "service_AppendEvent = AppendRunEvent"
definition service_RecordAudit where "service_RecordAudit = RecordAudit"
definition service_CreateFinding where "service_CreateFinding = CreateFinding"
definition service_CreateEvidence where "service_CreateEvidence = CreateEvidence"

lemmas service_defs = service_Create_def service_Cancel_def service_Retry_def service_Claim_def
  service_Heartbeat_def service_Complete_def service_AppendEvent_def service_RecordAudit_def
  service_CreateFinding_def service_CreateEvidence_def

text \<open>
  Two tables of the queue are history that retention (\<open>src/server/internal/retention/retention.go\<close>) removes once it is older
  than a cutoff: \<open>Cutoff\<close> computes it, and \<open>prune_history\<close> is the part of its transaction that falls on them. The transaction
  itself is in Retention. \<open>AddDate(0, 0, -days)\<close> of a UTC time moves it by whole days of 24 hours.
\<close>

datatype retention_error = RetentionMessage string | RetentionExternal external_error

definition Cutoff :: "time \<Rightarrow> int \<Rightarrow> retention_error + time" where
  "Cutoff now days =
    (if days \<le> 0 then Inl (RetentionMessage ''retention days must be positive'') else Inr (now - days * 24 * hour))"

definition old_event :: "time \<Rightarrow> RunEvent \<Rightarrow> bool" where
  "old_event cutoff e \<longleftrightarrow> ev_CreatedAt e < cutoff"

definition old_audit :: "time \<Rightarrow> AuditEvent \<Rightarrow> bool" where
  "old_audit cutoff e \<longleftrightarrow> aud_CreatedAt e < cutoff"

definition prune_history :: "time \<Rightarrow> 'z tasks_db_scheme \<Rightarrow> 'z tasks_db_scheme" where
  "prune_history cutoff db = db\<lparr>run_events := delete_where (old_event cutoff) (run_events db),
     audit_events := delete_where (old_audit cutoff) (audit_events db)\<rparr>"

definition normalizePayload :: "json \<Rightarrow> json" where
  "normalizePayload payload = (if payload = [] then ''{}'' else payload)"

lemmas [op_defs] =
  CreateTask_def CancelTask_def RetryTask_def ClaimTask_def Heartbeat_def CompleteTask_def
  AppendRunEvent_def RecordAudit_def CreateFinding_def CreateEvidence_def SupersedeCodeReviews_def
  prune_history_def

section \<open>The invariant\<close>

definition task_ok :: "Task \<Rightarrow> bool" where
  "task_ok t \<longleftrightarrow> ValidKind (task_Kind t) \<and> ValidStatus (task_Status t) \<and>
     0 \<le> task_Attempts t \<and> task_Attempts t \<le> task_MaxAttempts t \<and>
     (task_Status t = StatusRunning \<longleftrightarrow> task_LeaseOwner t \<noteq> []) \<and>
     (task_Status t = StatusRunning \<longleftrightarrow> task_LeaseUntil t \<noteq> None) \<and>
     (task_Status t = StatusSuperseded \<longleftrightarrow> task_SupersededBy t \<noteq> [])"

text \<open>What a run and the task it belongs to agree on.\<close>

definition run_link :: "Task \<Rightarrow> Run \<Rightarrow> bool" where
  "run_link t r \<longleftrightarrow> (run_TaskID r = task_ID t \<longrightarrow>
     1 \<le> run_Attempt r \<and> run_Attempt r \<le> task_Attempts t \<and>
     (run_Status r = StatusRunning \<longrightarrow>
       task_Status t = StatusRunning \<and> run_Attempt r = task_Attempts t))"

definition has_running_run :: "Run list \<Rightarrow> Task \<Rightarrow> bool" where
  "has_running_run rs t \<longleftrightarrow> (\<exists>r \<in> set rs. run_TaskID r = task_ID t \<and> run_Status r = StatusRunning)"

definition tasks_wf :: "Task list \<Rightarrow> bool" where
  "tasks_wf ts \<longleftrightarrow> distinct (map task_ID ts) \<and> distinct (map task_SourceKey ts) \<and> (\<forall>t \<in> set ts. task_ok t)"

definition runs_wf :: "Task list \<Rightarrow> Run list \<Rightarrow> bool" where
  "runs_wf ts rs \<longleftrightarrow>
     distinct (map run_ID rs) \<and> distinct (map run_CorrelationID rs) \<and>
     distinct (map (\<lambda>r. (run_TaskID r, run_Attempt r)) rs) \<and>
     (\<forall>r \<in> set rs. run_ID r \<noteq> [] \<and> run_TaskID r \<in> task_ID ` set ts \<and> (\<forall>t \<in> set ts. run_link t r)) \<and>
     (\<forall>t \<in> set ts. task_Status t = StatusRunning \<longrightarrow> has_running_run rs t)"

definition events_wf :: "Run list \<Rightarrow> RunEvent list \<Rightarrow> bool" where
  "events_wf rs evs \<longleftrightarrow>
     (\<forall>e \<in> set evs. 1 \<le> ev_Sequence e \<and> ev_RunID e \<in> run_ID ` set rs) \<and>
     sorted_wrt (\<lambda>a b. ev_RunID a = ev_RunID b \<longrightarrow> ev_Sequence a < ev_Sequence b) evs"

definition tasks_inv :: "'z tasks_db_scheme \<Rightarrow> bool" where
  "tasks_inv db \<longleftrightarrow> tasks_wf (tasks db) \<and> runs_wf (tasks db) (runs db) \<and> events_wf (runs db) (run_events db)"

section \<open>Helper lemmas\<close>

lemma CanTransition_simps [simp]:
  "CanTransition s StatusQueued \<longleftrightarrow> s \<in> {StatusAwaitingApproval, StatusFailed, StatusCancelled}"
  "CanTransition s StatusCancelled \<longleftrightarrow>
     s \<in> {StatusQueued, StatusRunning, StatusAwaitingApproval, StatusFailed}"
  "CanTransition s StatusSuperseded \<longleftrightarrow> ValidStatus s \<and> s \<noteq> StatusSuperseded"
  by (cases s; simp add: CanTransition_def)+

lemma CanTransition_complete:
  "CanTransition s to \<Longrightarrow> to \<in> {StatusSucceeded, StatusFailed, StatusCancelled, StatusAwaitingApproval} \<Longrightarrow>
   s \<in> {StatusQueued, StatusRunning, StatusAwaitingApproval, StatusFailed}"
  by (cases s) (auto simp: CanTransition_def)

lemma newID_nonempty: "newID E n = Some i \<Longrightarrow> i \<noteq> []"
  by (auto simp: newID_def)

lemma newID_shape: "newID E n = Some i \<Longrightarrow> length i = 36"
  by (auto simp: newID_def dest: rand_read_length intro!: length_format_uuid)

lemma distinct_map_update:
  "(\<And>r. g (f r) = g r) \<Longrightarrow> distinct (map g (update_where P f rows)) = distinct (map g rows)"
  by (simp add: map_update_where)

lemma image_update:
  "(\<And>r. g (f r) = g r) \<Longrightarrow> g ` set (update_where P f rows) = g ` set rows"
  by (metis list.set_map map_update_where)

lemmas row_defs = cancel_task_def cancel_run_def retry_task_def lease_task_def expire_run_def
  started_run_def complete_task_def complete_run_def supersede_task_def supersede_run_def

text \<open>
  Rewriting rows in place keeps the invariant when the rewritten rows still agree with each other.
\<close>

lemma tasks_wf_update:
  assumes "tasks_wf ts"
    and "\<And>t. task_ID (f t) = task_ID t" "\<And>t. task_SourceKey (f t) = task_SourceKey t"
    and "\<And>t. t \<in> set ts \<Longrightarrow> task_ok t \<Longrightarrow> P t \<Longrightarrow> task_ok (f t)"
  shows "tasks_wf (update_where P f ts)"
  using assms by (auto simp: tasks_wf_def distinct_map_update set_update_where)

lemma runs_wf_update:
  fixes P f Q g
  defines "F \<equiv> \<lambda>t. if P t then f t else t" and "G \<equiv> \<lambda>r. if Q r then g r else r"
  assumes wf: "runs_wf ts rs"
    and idf: "\<And>t. task_ID (f t) = task_ID t"
    and keep: "\<And>r. run_ID (g r) = run_ID r" "\<And>r. run_TaskID (g r) = run_TaskID r"
      "\<And>r. run_Attempt (g r) = run_Attempt r" "\<And>r. run_CorrelationID (g r) = run_CorrelationID r"
    and link: "\<And>t r. t \<in> set ts \<Longrightarrow> r \<in> set rs \<Longrightarrow> run_link t r \<Longrightarrow> run_link (F t) (G r)"
    and live: "\<And>t. t \<in> set ts \<Longrightarrow> task_Status (F t) = StatusRunning \<Longrightarrow>
      \<exists>r \<in> set rs. run_TaskID r = task_ID t \<and> run_Status (G r) = StatusRunning"
  shows "runs_wf (update_where P f ts) (update_where Q g rs)"
proof -
  have ts: "set (update_where P f ts) = F ` set ts" and rs: "set (update_where Q g rs) = G ` set rs"
    by (simp_all add: set_update_where F_def G_def)
  have ids: "task_ID (F t) = task_ID t" "run_ID (G r) = run_ID r" "run_TaskID (G r) = run_TaskID r" for t r
    using idf keep by (simp_all add: F_def G_def)
  have "run_ID r \<noteq> [] \<and> run_TaskID r \<in> task_ID ` set (update_where P f ts) \<and>
      (\<forall>t \<in> set (update_where P f ts). run_link t r)" if "r \<in> set (update_where Q g rs)" for r
  proof -
    from that obtain r0 where r0: "r0 \<in> set rs" "r = G r0" unfolding rs by auto
    with wf have "run_ID r0 \<noteq> []" "run_TaskID r0 \<in> task_ID ` set ts" "\<forall>t \<in> set ts. run_link t r0"
      by (auto simp: runs_wf_def)
    moreover have "\<forall>t \<in> F ` set ts. run_link t r"
      using r0 link \<open>\<forall>t \<in> set ts. run_link t r0\<close> by auto
    ultimately show ?thesis
      using r0 by (simp add: ids ts image_image)
  qed
  moreover have "has_running_run (update_where Q g rs) t"
    if t: "t \<in> set (update_where P f ts)" and run: "task_Status t = StatusRunning" for t
  proof -
    from t obtain t0 where t0: "t0 \<in> set ts" "t = F t0" unfolding ts by auto
    with live [of t0] run show ?thesis
      unfolding has_running_run_def rs by (auto simp: ids)
  qed
  ultimately show ?thesis
    using wf by (simp add: runs_wf_def distinct_map_update keep)
qed

lemma events_wf_update:
  "(\<And>r. run_ID (g r) = run_ID r) \<Longrightarrow> events_wf rs evs \<Longrightarrow> events_wf (update_where Q g rs) evs"
  by (simp add: events_wf_def image_update)

text \<open>The running run of a task is the one of its current attempt.\<close>

lemma running_run_unique:
  assumes "runs_wf ts rs" "t \<in> set ts" "r \<in> set rs" "r' \<in> set rs"
    and "run_TaskID r = task_ID t" "run_TaskID r' = task_ID t"
    and "run_Status r = StatusRunning" "run_Status r' = StatusRunning"
  shows "r = r'"
proof -
  have "run_Attempt r = task_Attempts t" "run_Attempt r' = task_Attempts t"
    using assms unfolding runs_wf_def run_link_def by blast+
  moreover have "inj_on (\<lambda>r. (run_TaskID r, run_Attempt r)) (set rs)"
    using assms(1) by (simp add: runs_wf_def distinct_map)
  ultimately show ?thesis
    using assms(3-6) by (metis (mono_tags, lifting) inj_onD)
qed

lemma runs_wf_task: "runs_wf ts rs \<Longrightarrow> r \<in> set rs \<Longrightarrow> run_TaskID r \<in> task_ID ` set ts"
  by (simp add: runs_wf_def)

lemma runs_wf_link: "runs_wf ts rs \<Longrightarrow> t \<in> set ts \<Longrightarrow> r \<in> set rs \<Longrightarrow> run_link t r"
  by (simp add: runs_wf_def)

lemma runs_wf_live:
  "runs_wf ts rs \<Longrightarrow> t \<in> set ts \<Longrightarrow> task_Status t = StatusRunning \<Longrightarrow>
   \<exists>r \<in> set rs. run_TaskID r = task_ID t \<and> run_Status r = StatusRunning"
  by (auto simp: runs_wf_def has_running_run_def)

lemma tasks_wf_unique: "tasks_wf ts \<Longrightarrow> t \<in> set ts \<Longrightarrow> t' \<in> set ts \<Longrightarrow> task_ID t = task_ID t' \<Longrightarrow> t = t'"
  by (auto simp: tasks_wf_def distinct_map dest: inj_onD)

text \<open>Ending tasks together with their running runs keeps the invariant.\<close>

lemma runs_wf_retire:
  assumes wf: "runs_wf ts rs"
    and f: "\<And>t. task_ID (f t) = task_ID t" "\<And>t. task_Attempts (f t) = task_Attempts t"
      "\<And>t. task_Status (f t) \<noteq> StatusRunning"
    and g: "\<And>r. run_ID (g r) = run_ID r" "\<And>r. run_TaskID (g r) = run_TaskID r"
      "\<And>r. run_Attempt (g r) = run_Attempt r" "\<And>r. run_CorrelationID (g r) = run_CorrelationID r"
      "\<And>r. run_Status (g r) \<noteq> StatusRunning"
    and sel: "\<And>t r. t \<in> set ts \<Longrightarrow> r \<in> set rs \<Longrightarrow> run_TaskID r = task_ID t \<Longrightarrow>
      run_Status r = StatusRunning \<Longrightarrow> P t \<longleftrightarrow> Q r"
  shows "runs_wf (update_where P f ts) (update_where Q g rs)"
proof (rule runs_wf_update [OF wf f(1) g(1-4)])
  fix t assume t: "t \<in> set ts" and run: "task_Status (if P t then f t else t) = StatusRunning"
  with f(3) have "\<not> P t" and "task_Status t = StatusRunning" by (auto split: if_splits)
  with runs_wf_live [OF wf t] sel [OF t]
  show "\<exists>r \<in> set rs. run_TaskID r = task_ID t \<and> run_Status (if Q r then g r else r) = StatusRunning"
    by auto
qed (auto simp: run_link_def f g sel)

section \<open>Every operation keeps the invariant\<close>

lemma tasks_invI:
  "tasks_wf (tasks db) \<Longrightarrow> runs_wf (tasks db) (runs db) \<Longrightarrow> events_wf (runs db) (run_events db) \<Longrightarrow>
   tasks_inv db"
  by (simp add: tasks_inv_def)

lemma tasks_invD:
  assumes "tasks_inv db"
  shows "tasks_wf (tasks db)" "runs_wf (tasks db) (runs db)" "events_wf (runs db) (run_events db)"
  using assms by (simp_all add: tasks_inv_def)

lemma select_task:
  "tasks_inv db \<Longrightarrow> select_by task_ID i (tasks db) = Some t \<Longrightarrow>
   t \<in> set (tasks db) \<and> task_ID t = i \<and> task_ok t \<and> (\<forall>t' \<in> set (tasks db). task_ID t' = i \<longrightarrow> t' = t)"
  by (auto simp: tasks_inv_def tasks_wf_def distinct_map dest!: select_by_SomeD dest: inj_onD)

lemma insert_task_inv:
  assumes inv: "tasks_inv db" and t: "task_ok t" "task_Status t = StatusQueued"
    and new: "task_ID t \<notin> task_ID ` set (tasks db)" "task_SourceKey t \<notin> task_SourceKey ` set (tasks db)"
  shows "tasks_inv (db\<lparr>tasks := tasks db @ [t]\<rparr>)"
proof -
  have "run_link t r" if "r \<in> set (runs db)" for r
    using runs_wf_task [OF tasks_invD(2) [OF inv] that] new by (auto simp: run_link_def)
  with t new inv show ?thesis
    by (auto simp: tasks_inv_def tasks_wf_def runs_wf_def events_wf_def)
qed

lemma CreateTask_inv:
  assumes inv: "tasks_inv db" and op: "CreateTask E input db = (res, db')"
  shows "tasks_inv db'"
proof (cases "db' = db")
  case False
  then obtain t where t: "db' = db\<lparr>tasks := tasks db @ [t]\<rparr>" "task_ok t" "task_Status t = StatusQueued"
    and new: "task_ID t \<notin> task_ID ` set (tasks db)" "task_SourceKey t \<notin> task_SourceKey ` set (tasks db)"
    using op by (auto simp: CreateTask_def Let_def task_ok_def split: if_splits option.splits)
  then show ?thesis using insert_task_inv [OF inv t(2,3) new] by simp
qed (use inv in simp)

lemma CancelTask_inv:
  assumes inv: "tasks_inv db" and op: "CancelTask E i reason db = (res, db')"
  shows "tasks_inv db'"
proof (cases "db' = db")
  case False
  note wf = tasks_invD [OF inv]
  from op False obtain t where "select_by task_ID i (tasks db) = Some t" "task_Status t \<noteq> StatusSuperseded"
    by (auto simp: CancelTask_def Let_def split: if_splits option.splits)
  with select_task [OF inv] have idle: "\<forall>t \<in> set (tasks db). task_ID t = i \<longrightarrow> task_Status t \<noteq> StatusSuperseded"
    by blast
  show ?thesis
    using op False idle
    by (auto simp: CancelTask_def Let_def active_status_def task_ok_def row_defs split: if_splits option.splits
        intro!: tasks_invI tasks_wf_update [OF wf(1)] runs_wf_retire [OF wf(2)] events_wf_update [OF _ wf(3)])
qed (use inv in simp)

lemma runs_wf_update_tasks:
  assumes "runs_wf ts rs" "\<And>t. task_ID (f t) = task_ID t"
    and "\<And>t r. t \<in> set ts \<Longrightarrow> r \<in> set rs \<Longrightarrow> run_link t r \<Longrightarrow> P t \<Longrightarrow> run_link (f t) r"
    and "\<And>t. t \<in> set ts \<Longrightarrow> P t \<Longrightarrow> task_Status (f t) = StatusRunning \<Longrightarrow> has_running_run rs t"
  shows "runs_wf (update_where P f ts) rs"
proof -
  have "runs_wf (update_where P f ts) (update_where (\<lambda>_. False) (\<lambda>r. r) rs)"
    by (rule runs_wf_update [OF assms(1,2)])
      (use assms in \<open>auto simp: has_running_run_def dest: runs_wf_live split: if_splits\<close>)
  then show ?thesis by (simp add: update_where_id)
qed

lemma RetryTask_inv:
  assumes inv: "tasks_inv db" and op: "RetryTask E i reason db = (res, db')"
  shows "tasks_inv db'"
proof (cases "db' = db")
  case False
  note wf = tasks_invD [OF inv]
  from op False obtain t where t: "select_by task_ID i (tasks db) = Some t"
    "task_Status t \<noteq> StatusRunning" "task_Status t \<noteq> StatusSuperseded"
    by (auto simp: RetryTask_def Let_def split: if_splits option.splits)
  with select_task [OF inv] have idle: "\<forall>t \<in> set (tasks db). task_ID t = i \<longrightarrow>
      task_Status t \<noteq> StatusRunning \<and> task_Status t \<noteq> StatusSuperseded"
    by blast
  show ?thesis
    using op False idle
    by (auto simp: RetryTask_def Let_def run_link_def task_ok_def row_defs split: if_splits option.splits
        intro!: tasks_invI tasks_wf_update [OF wf(1)] runs_wf_update_tasks [OF wf(2)] wf(3))
qed (use inv in simp)

lemma Heartbeat_inv:
  assumes inv: "tasks_inv db" and op: "Heartbeat E i owner lease db = (res, db')"
  shows "tasks_inv db'"
proof (cases "db' = db")
  case False
  note wf = tasks_invD [OF inv]
  show ?thesis
    using op False
    by (auto simp: Heartbeat_def Let_def run_link_def task_ok_def has_running_run_def split: if_splits
        intro!: tasks_invI tasks_wf_update [OF wf(1)] runs_wf_update_tasks [OF wf(2)] wf(3)
          runs_wf_live [OF wf(2)])
qed (use inv in simp)

lemma order_limit_1_Cons:
  assumes "order_limit k 1 xs = x # ys"
  shows "x \<in> set xs \<and> (\<forall>y \<in> set xs. k x \<le> k y)"
proof -
  from assms obtain zs where zs: "sort_key k xs = x # zs"
    by (cases "sort_key k xs") (auto simp: order_limit_def)
  then have "set xs = insert x (set zs)"
    by (metis list.simps(15) set_sort)
  moreover have "sorted (map k (x # zs))"
    using zs by (metis sorted_sort_key)
  ultimately show ?thesis by auto
qed

lemma order_limit_1_Nil: "order_limit k 1 xs = [] \<longleftrightarrow> xs = []"
  by (auto simp: order_limit_def take_Suc)
     (metis length_0_conv length_sort)

lemma ClaimTask_effect:
  assumes "ClaimTask locked E owner lease db = (Inr (task, run), db')"
  obtains t runID cid where "t \<in> set (tasks db)" "claimable (db_clock E) t" "\<not> locked (task_ID t)"
    "\<forall>t' \<in> set (tasks db). claimable (db_clock E) t' \<and> \<not> locked (task_ID t') \<longrightarrow> claim_key t \<le> claim_key t'"
    "owner \<noteq> []" "0 < lease" "runID \<noteq> []"
    "task = (lease_task (clock E) owner (clock E + lease) (task_Attempts t + 1) t)\<lparr>task_StartedAt := Some (clock E)\<rparr>"
    "run = started_run (clock E) runID (task_ID t) (task_Attempts t + 1) cid"
    "db' = db\<lparr>tasks := update_where (\<lambda>t'. task_ID t' = task_ID t)
        (lease_task (clock E) owner (clock E + lease) (task_Attempts t + 1)) (tasks db),
      runs := update_where (\<lambda>r. task_Status t = StatusRunning \<and> run_TaskID r = task_ID t \<and> run_Status r = StatusRunning)
        (expire_run (clock E)) (runs db) @ [run]\<rparr>"
    "runID \<notin> run_ID ` set (runs db)" "cid \<notin> run_CorrelationID ` set (runs db)"
    "(task_ID t, task_Attempts t + 1) \<notin> (\<lambda>r. (run_TaskID r, run_Attempt r)) ` set (runs db)"
proof -
  let ?c = "filter (\<lambda>t. claimable (db_clock E) t \<and> \<not> locked (task_ID t)) (tasks db)"
  from assms obtain t ts where ts: "order_limit claim_key 1 ?c = t # ts"
    by (auto simp: ClaimTask_def split: if_splits list.splits)
  let ?Q = "\<lambda>r. task_Status t = StatusRunning \<and> run_TaskID r = task_ID t \<and> run_Status r = StatusRunning"
  let ?R = "update_where ?Q (expire_run (clock E)) (runs db)"
  have R: "?R = (if task_Status t = StatusRunning then update_where
      (\<lambda>r. run_TaskID r = task_ID t \<and> run_Status r = StatusRunning) (expire_run (clock E)) (runs db) else runs db)"
    by (simp add: update_where_id)
  have keep: "run_ID ` set ?R = run_ID ` set (runs db)"
    "run_CorrelationID ` set ?R = run_CorrelationID ` set (runs db)"
    "(\<lambda>r. (run_TaskID r, run_Attempt r)) ` set ?R = (\<lambda>r. (run_TaskID r, run_Attempt r)) ` set (runs db)"
    by (rule image_update, simp add: expire_run_def)+
  from assms ts obtain runID cid where *: "newID E 0 = Some runID"
    "\<not> blank owner" "0 < lease"
    "task = (lease_task (clock E) owner (clock E + lease) (task_Attempts t + 1) t)\<lparr>task_StartedAt := Some (clock E)\<rparr>"
    "run = started_run (clock E) runID (task_ID t) (task_Attempts t + 1) cid"
    "db' = db\<lparr>tasks := update_where (\<lambda>t'. task_ID t' = task_ID t)
        (lease_task (clock E) owner (clock E + lease) (task_Attempts t + 1)) (tasks db), runs := ?R @ [run]\<rparr>"
    "runID \<notin> run_ID ` set ?R" "cid \<notin> run_CorrelationID ` set ?R"
    "(task_ID t, task_Attempts t + 1) \<notin> (\<lambda>r. (run_TaskID r, run_Attempt r)) ` set ?R"
    unfolding R ClaimTask_def by (clarsimp simp: Let_def split: if_split_asm option.splits)
  moreover have "owner \<noteq> []" using * by auto
  ultimately show thesis
    using order_limit_1_Cons [OF ts] newID_nonempty [OF *(1)] that [of t runID cid] unfolding keep by auto
qed

lemma claim_wf:
  fixes t now owner until runID cid rs ts
  defines "ts' \<equiv> update_where (\<lambda>t'. task_ID t' = task_ID t) (lease_task now owner until (task_Attempts t + 1)) ts"
    and "rs' \<equiv> update_where (\<lambda>r. task_Status t = StatusRunning \<and> run_TaskID r = task_ID t \<and> run_Status r = StatusRunning)
      (expire_run now) rs"
    and "run \<equiv> started_run now runID (task_ID t) (task_Attempts t + 1) cid"
  assumes wf: "tasks_wf ts" "runs_wf ts rs" and t: "t \<in> set ts" "claimable seen t"
    and owner: "owner \<noteq> []" and ids: "runID \<noteq> []" "runID \<notin> run_ID ` set rs"
      "cid \<notin> run_CorrelationID ` set rs"
      "(task_ID t, task_Attempts t + 1) \<notin> (\<lambda>r. (run_TaskID r, run_Attempt r)) ` set rs"
  shows "tasks_wf ts'" "runs_wf ts' (rs' @ [run])"
proof -
  have same: "t' = t" if "t' \<in> set ts" "task_ID t' = task_ID t" for t'
    using tasks_wf_unique [OF wf(1)] that t by blast
  have t_ok: "task_ok t" using t wf(1) by (simp add: tasks_wf_def)
  have "task_ok (lease_task now owner until (task_Attempts t + 1) t)"
    using t_ok t(2) owner by (auto simp: lease_task_def task_ok_def claimable_def)
  then show "tasks_wf ts'"
    unfolding ts'_def
    by (intro tasks_wf_update [OF wf(1)]) (auto dest: same simp del: not_None_eq simp: lease_task_def)
  have set_ts: "t' = lease_task now owner until (task_Attempts t + 1) t \<or> t' \<in> set ts \<and> task_ID t' \<noteq> task_ID t"
    if "t' \<in> set ts'" for t'
    using that same unfolding ts'_def by (auto simp: set_update_where split: if_splits)
  have new: "run_link t' run" if "t' \<in> set ts'" for t'
    using set_ts [OF that] t_ok by (auto simp: run_def started_run_def lease_task_def run_link_def task_ok_def)
  have old: "run_link t' r'" if "t' \<in> set ts'" "r' \<in> set rs'" for t' r'
    using set_ts [OF that(1)] that(2) runs_wf_link [OF wf(2)] t(1)
    by (force simp: rs'_def set_update_where run_link_def lease_task_def expire_run_def split: if_splits)
  have live: "has_running_run (rs' @ [run]) t'" if "t' \<in> set ts'" "task_Status t' = StatusRunning" for t'
    using set_ts [OF that(1)]
  proof (elim disjE conjE)
    assume "t' \<in> set ts" "task_ID t' \<noteq> task_ID t"
    moreover from runs_wf_live [OF wf(2) \<open>t' \<in> set ts\<close> that(2)]
    obtain r where "r \<in> set rs" "run_TaskID r = task_ID t'" "run_Status r = StatusRunning" by blast
    ultimately show ?thesis
      unfolding has_running_run_def rs'_def set_append set_update_where by (intro bexI [of _ r]) auto
  qed (simp add: has_running_run_def run_def started_run_def lease_task_def)
  have fk: "task_ID ` set ts' = task_ID ` set ts"
    unfolding ts'_def by (rule image_update) (simp add: lease_task_def)
  have keep: "map run_ID rs' = map run_ID rs" "map run_CorrelationID rs' = map run_CorrelationID rs"
    "map run_TaskID rs' = map run_TaskID rs"
    "map (\<lambda>r. (run_TaskID r, run_Attempt r)) rs' = map (\<lambda>r. (run_TaskID r, run_Attempt r)) rs"
    unfolding rs'_def by (rule map_update_where, simp add: expire_run_def)+
  from keep(1,3) wf(2) have "run_ID r \<noteq> [] \<and> run_TaskID r \<in> task_ID ` set ts" if "r \<in> set rs'" for r
    using that unfolding runs_wf_def by (metis (mono_tags, lifting) imageE image_eqI list.set_map)
  moreover have "run_ID ` set rs' = run_ID ` set rs" "run_CorrelationID ` set rs' = run_CorrelationID ` set rs"
    "(\<lambda>r. (run_TaskID r, run_Attempt r)) ` set rs' = (\<lambda>r. (run_TaskID r, run_Attempt r)) ` set rs"
    using keep by (metis list.set_map)+
  ultimately show "runs_wf ts' (rs' @ [run])"
    using wf(2) ids new old live t
    by (auto simp: runs_wf_def keep fk run_def started_run_def)
qed

lemma ClaimTask_inv:
  assumes inv: "tasks_inv db" and op: "ClaimTask locked E owner lease db = (res, db')"
  shows "tasks_inv db'"
proof (cases res)
  case (Inl e)
  with op have "db' = db" by (auto simp: ClaimTask_def Let_def split: if_splits option.splits list.splits)
  with inv show ?thesis by simp
next
  case (Inr tr)
  note wf = tasks_invD [OF inv]
  from op Inr have "ClaimTask locked E owner lease db = (Inr (fst tr, snd tr), db')" by simp
  then show ?thesis
  proof (rule ClaimTask_effect, goal_cases)
    case (1 t runID cid)
    from claim_wf [OF wf(1,2) 1(1,2,5,7,11,12,13)] 1(9,10) wf(3) show ?case
      by (auto simp: tasks_inv_def events_wf_def image_update expire_run_def)
  qed
qed

lemma CompleteTask_effect:
  assumes "CompleteTask E taskID runID status code message db = (res, db')" "db' \<noteq> db" "runID \<noteq> []"
  obtains task run where "res = Inr ()" "select_by task_ID taskID (tasks db) = Some task"
    "run \<in> set (runs db)" "run_ID run = runID" "run_TaskID run = taskID" "run_Status run = StatusRunning"
    "CanTransition (task_Status task) status"
    "status \<in> {StatusSucceeded, StatusFailed, StatusCancelled, StatusAwaitingApproval}"
    "db' = db\<lparr>tasks := update_where (\<lambda>t. task_ID t = taskID)
        (complete_task (clock E) (terminal_status status) status message) (tasks db),
      runs := update_where (\<lambda>r. run_ID r = runID \<and> run_TaskID r = taskID)
        (complete_run (clock E) (terminal_status status) status code message) (runs db)\<rparr>"
proof -
  from assms obtain task where task: "select_by task_ID taskID (tasks db) = Some task"
    by (auto simp: CompleteTask_def split: if_splits option.splits)
  from assms task obtain run where run: "find (\<lambda>r. run_ID r = runID \<and> run_TaskID r = taskID) (runs db) = Some run"
    by (auto simp: CompleteTask_def Let_def split: if_splits option.splits)
  then have "run \<in> set (runs db)" "run_ID run = runID" "run_TaskID run = taskID"
    by (auto simp: find_Some_iff)
  with assms task run show thesis
    by (auto simp: CompleteTask_def Let_def intro!: that split: if_split_asm)
qed

lemma CompleteTask_inv:
  assumes inv: "tasks_inv db" and op: "CompleteTask E taskID runID status code message db = (res, db')"
    and runID: "runID \<noteq> []"
  shows "tasks_inv db'"
proof (cases "db' = db")
  case False
  note wf = tasks_invD [OF inv]
  from op False runID show ?thesis
  proof (rule CompleteTask_effect, goal_cases)
    case (1 task run)
    have task: "task \<in> set (tasks db)" "task_ID task = taskID"
      using select_task [OF inv 1(2)] by auto
    have only: "r = run" if "r \<in> set (runs db)" "run_TaskID r = taskID" "run_Status r = StatusRunning" for r
      using running_run_unique [OF wf(2) task(1) that(1) 1(3)] task that 1 by simp
    have keys: "inj_on run_ID (set (runs db))" using wf(2) by (simp add: runs_wf_def distinct_map)
    have idle: "status \<noteq> StatusRunning" "ValidStatus status" "status \<noteq> StatusSuperseded" using 1(8) by auto
    have live: "task_Status t \<noteq> StatusSuperseded" if "t \<in> set (tasks db)" "task_ID t = taskID" for t
      using select_task [OF inv 1(2)] that CanTransition_complete [OF 1(7,8)] by auto
    have sel: "task_ID t = taskID \<longleftrightarrow> run_ID r = runID \<and> run_TaskID r = taskID"
      if "r \<in> set (runs db)" "run_TaskID r = task_ID t" "run_Status r = StatusRunning" for t r
      using only [OF that(1) _ that(3)] that(2) 1(4,5) by auto
    show ?case
      unfolding 1(9)
    proof (rule tasks_invI, goal_cases)
      case 1
      show ?case using idle live by (auto simp: task_ok_def row_defs intro!: tasks_wf_update [OF wf(1)])
    next
      case 2
      show ?case using idle sel by (auto simp: row_defs intro!: runs_wf_retire [OF wf(2)])
    next
      case 3
      show ?case by (simp add: events_wf_update wf(3) row_defs)
    qed
  qed
qed (use inv in simp)

lemma SupersedeCodeReviews_inv:
  assumes inv: "tasks_inv db" and op: "SupersedeCodeReviews rf pf E rid prid pr new db = (res, db')"
  shows "tasks_inv db'"
proof (cases "db' = db")
  case False
  note wf = tasks_invD [OF inv]
  let ?P = "superseded_by_sel rf pf rid prid pr new" and ?f = "supersede_task (db_clock E) new"
  let ?ts = "update_where ?P ?f (tasks db)"
  let ?Q = "\<lambda>r. run_TaskID r \<in> set (superseded_ids new ?ts) \<and> active_status (run_Status r)"
  from op False have new: "new \<noteq> []"
    and db': "db' = db\<lparr>tasks := ?ts, runs := update_where ?Q (supersede_run (db_clock E)) (runs db)\<rparr>"
    by (auto simp: SupersedeCodeReviews_def Let_def split: if_splits)
  have sel: "?P t \<longleftrightarrow> ?Q r"
    if t: "t \<in> set (tasks db)" and r: "r \<in> set (runs db)" "run_TaskID r = task_ID t" "run_Status r = StatusRunning" for t r
  proof
    assume "?P t"
    with t have "?f t \<in> set ?ts" and f: "task_Kind (?f t) = KindCodeReview" "task_SupersededBy (?f t) = new"
      by (auto simp: set_update_where superseded_by_sel_def supersede_task_def)
    then have "task_ID (?f t) \<in> set (superseded_ids new ?ts)"
      unfolding superseded_ids_def set_map set_filter by blast
    with r show "?Q r"
      by (simp add: active_status_def supersede_task_def)
  next
    assume "?Q r"
    then obtain x where x: "x \<in> set ?ts" "task_ID x = task_ID t" "task_SupersededBy x = new"
      using r by (auto simp: superseded_ids_def)
    then obtain t' where t'0: "t' \<in> set (tasks db)" "x = (if ?P t' then ?f t' else t')"
      unfolding set_update_where by blast
    with x have t': "t' \<in> set (tasks db)" "task_ID t' = task_ID t" "\<not> ?P t' \<Longrightarrow> task_SupersededBy t' = new"
      by (auto simp: supersede_task_def split: if_splits)
    moreover have same: "t' = t" using tasks_wf_unique [OF wf(1) t'(1) t t'(2)] .
    moreover have "task_Status t = StatusRunning"
      using runs_wf_link [OF wf(2) t r(1)] r by (simp add: run_link_def)
    moreover have "task_ok t" using wf(1) t by (simp add: tasks_wf_def)
    ultimately show "?P t" using new by (cases "?P t") (auto simp: task_ok_def)
  qed
  show ?thesis
    unfolding db'
  proof (rule tasks_invI, goal_cases)
    case 1
    show ?case using new
      by (auto simp: task_ok_def supersede_task_def intro!: tasks_wf_update [OF wf(1)])
  next
    case 2
    show ?case using sel
      by (auto simp: supersede_task_def supersede_run_def intro!: runs_wf_retire [OF wf(2)])
  next
    case 3
    show ?case by (simp add: events_wf_update wf(3) supersede_run_def)
  qed
qed (use inv in simp)

lemma next_sequence_greater:
  assumes "e \<in> set evs" "ev_RunID e = runID"
  shows "ev_Sequence e < next_sequence runID evs"
proof -
  have "e \<in> set (filter (\<lambda>e. ev_RunID e = runID) evs)" using assms by simp
  then show ?thesis
    by (cases "filter (\<lambda>e. ev_RunID e = runID) evs") (auto simp: next_sequence_def intro!: Max_ge)
qed

lemma next_sequence_pos:
  assumes "\<forall>e \<in> set evs. 1 \<le> ev_Sequence e"
  shows "1 \<le> next_sequence runID evs"
proof (cases "filter (\<lambda>e. ev_RunID e = runID) evs")
  case (Cons e es)
  then have "e \<in> set evs" "ev_RunID e = runID"
    by (auto simp: filter_eq_Cons_iff)
  with assms next_sequence_greater [of e evs runID] show ?thesis by force
qed (simp add: next_sequence_def)

lemma AppendRunEvent_inv:
  assumes inv: "tasks_inv db" and op: "AppendRunEvent E runID input db = (res, db')"
  shows "tasks_inv db'"
proof (cases "db' = db")
  case False
  with op obtain e where e: "db' = db\<lparr>run_events := run_events db @ [e]\<rparr>" "ev_RunID e = runID"
    "ev_Sequence e = next_sequence runID (run_events db)" "runID \<in> run_ID ` set (runs db)"
    by (auto simp: AppendRunEvent_def Let_def split: if_splits option.splits dest!: select_by_SomeD)
  have "1 \<le> next_sequence runID (run_events db)"
    using inv by (intro next_sequence_pos) (simp add: tasks_inv_def events_wf_def)
  with e inv show ?thesis
    by (auto simp: tasks_inv_def events_wf_def sorted_wrt_append intro: next_sequence_greater)
qed (use inv in simp)

text \<open>The operations that only append to the side tables.\<close>

lemma side_table_inv:
  assumes "tasks_inv db"
  shows "RecordAudit E ai db = (ra, db') \<Longrightarrow> tasks_inv db'"
    and "CreateFinding r54 E fi db = (rf, db') \<Longrightarrow> tasks_inv db'"
    and "CreateEvidence E ei db = (re, db') \<Longrightarrow> tasks_inv db'"
  using assms
  by (auto simp: tasks_inv_def RecordAudit_def CreateFinding_def CreateEvidence_def Let_def
      split: option.splits if_splits)

lemma tasks_inv_cong:
  "tasks db' = tasks db \<Longrightarrow> runs db' = runs db \<Longrightarrow> run_events db' = run_events db \<Longrightarrow> tasks_inv db' = tasks_inv db"
  by (simp add: tasks_inv_def)

lemma prune_history_inv: "tasks_inv db \<Longrightarrow> tasks_inv (prune_history cutoff db)"
  by (auto simp: tasks_inv_def prune_history_def events_wf_def delete_where_def sorted_wrt_filter)

section \<open>Interleaved operation\<close>

text \<open>
  A step is one operation of the store, with any input, any clock and any failure of the environment, or the removal of
  history by the retention loop.
  Transactions lock the rows they decide on, so concurrent processes interleave whole operations.
  \<open>CompleteTask\<close> is called with the identifier of the claimed run (\<open>worker.RunQueue\<close>
  is its only caller), which is never empty.
\<close>

definition tasks_empty :: "'z tasks_db_scheme \<Rightarrow> bool" where
  "tasks_empty db \<longleftrightarrow> tasks db = [] \<and> runs db = [] \<and> run_events db = []"

inductive task_step :: "'z tasks_db_scheme \<Rightarrow> 'z tasks_db_scheme \<Rightarrow> bool" where
  st_create: "CreateTask E input db = (rt, db') \<Longrightarrow> task_step db db'"
| st_cancel: "CancelTask E i reason db = (rt, db') \<Longrightarrow> task_step db db'"
| st_retry: "RetryTask E i reason db = (rt, db') \<Longrightarrow> task_step db db'"
| st_claim: "ClaimTask locked E owner lease db = (rc, db') \<Longrightarrow> task_step db db'"
| st_heartbeat: "Heartbeat E i owner lease db = (ru, db') \<Longrightarrow> task_step db db'"
| st_complete: "CompleteTask E i runID status code message db = (ru, db') \<Longrightarrow> runID \<noteq> [] \<Longrightarrow> task_step db db'"
| st_event: "AppendRunEvent E runID ei db = (re, db') \<Longrightarrow> task_step db db'"
| st_audit: "RecordAudit E ai db = (ra, db') \<Longrightarrow> task_step db db'"
| st_finding: "CreateFinding r54 E fi db = (rf, db') \<Longrightarrow> task_step db db'"
| st_evidence: "CreateEvidence E vi db = (rv, db') \<Longrightarrow> task_step db db'"
| st_supersede: "SupersedeCodeReviews rfd pfd E rid prid pr new db = (ru, db') \<Longrightarrow> task_step db db'"
| st_prune: "task_step db (prune_history cutoff db)"

lemma task_step_inv: "task_step db db' \<Longrightarrow> tasks_inv db \<Longrightarrow> tasks_inv db'"
  by (induction rule: task_step.induct)
     (blast intro: CreateTask_inv CancelTask_inv RetryTask_inv ClaimTask_inv Heartbeat_inv CompleteTask_inv
       AppendRunEvent_inv SupersedeCodeReviews_inv side_table_inv prune_history_inv)+

lemma tasks_empty_inv: "tasks_empty db \<Longrightarrow> tasks_inv db"
  by (simp add: tasks_empty_def tasks_inv_def tasks_wf_def runs_wf_def events_wf_def)

interpretation tq: transition_system tasks_empty task_step tasks_inv
  by unfold_locales (auto intro: tasks_empty_inv task_step_inv)

text \<open>How a row of the task table may change from one step to the next.\<close>

definition status_step :: "Status \<Rightarrow> Status \<Rightarrow> bool" where
  "status_step s s' \<longleftrightarrow> s' = s \<or> CanTransition s s' \<or> s = StatusFailed \<and> s' = StatusRunning"

definition task_move :: "Task \<Rightarrow> Task \<Rightarrow> bool" where
  "task_move t t' \<longleftrightarrow>
     task_ID t' = task_ID t \<and> task_Kind t' = task_Kind t \<and> task_SourceKey t' = task_SourceKey t \<and>
     task_Payload t' = task_Payload t \<and> task_MaxAttempts t' = task_MaxAttempts t \<and>
     task_Attempts t \<le> task_Attempts t' \<and> status_step (task_Status t) (task_Status t') \<and>
     (task_Status t = StatusSuperseded \<longrightarrow> t' = t)"

definition moves :: "Task list \<Rightarrow> Task list \<Rightarrow> bool" where
  "moves ts ts' \<longleftrightarrow> (\<forall>t \<in> set ts. \<exists>t' \<in> set ts'. task_move t t')"

lemma task_move_refl [simp]: "task_move t t"
  by (simp add: task_move_def status_step_def)

lemma moves_refl [simp]: "moves ts ts"
  unfolding moves_def using task_move_refl by blast

lemma moves_append: "moves ts (ts @ us)"
  unfolding moves_def set_append using task_move_refl by blast

lemma moves_update:
  assumes "\<And>t. t \<in> set ts \<Longrightarrow> P t \<Longrightarrow> task_move t (f t)"
  shows "moves ts (update_where P f ts)"
  unfolding moves_def set_update_where
proof
  fix t assume "t \<in> set ts"
  with assms [of t] show "\<exists>t' \<in> (\<lambda>r. if P r then f r else r) ` set ts. task_move t t'"
    by (intro bexI [of _ "if P t then f t else t"]) auto
qed

lemma only_selected:
  assumes "tasks_inv db" "select_by task_ID i (tasks db) = Some t" "u \<in> set (tasks db)" "task_ID u = i"
  shows "u = t"
  using select_task [OF assms(1,2)] assms(3,4) by blast

lemma moves_selected:
  assumes "tasks_inv db" "select_by task_ID i (tasks db) = Some t" "task_move t (f t)"
  shows "moves (tasks db) (update_where (\<lambda>t. task_ID t = i) f (tasks db))"
  using assms(3) only_selected [OF assms(1,2)] by (blast intro: moves_update)

lemma CancelTask_moves:
  assumes "tasks_inv db" "CancelTask E i reason db = (res, db')"
  shows "moves (tasks db) (tasks db')"
proof -
  have "task_move t (cancel_task now reason t)" if "CanTransition (task_Status t) StatusCancelled" for t now
    using that by (auto simp: task_move_def status_step_def cancel_task_def)
  with assms show ?thesis
    by (simp add: CancelTask_def Let_def moves_selected split: if_split_asm option.split_asm)
      (auto simp: moves_selected)
qed

lemma RetryTask_moves:
  assumes "tasks_inv db" "RetryTask E i reason db = (res, db')"
  shows "moves (tasks db) (tasks db')"
proof -
  have "task_move t (retry_task now reason t)" if "CanTransition (task_Status t) StatusQueued" for t now
    using that by (auto simp: task_move_def status_step_def retry_task_def)
  with assms show ?thesis
    by (simp add: RetryTask_def Let_def moves_selected split: if_split_asm option.split_asm)
      (auto simp: moves_selected)
qed

lemma ClaimTask_moves:
  assumes "tasks_inv db" "ClaimTask locked E owner lease db = (res, db')"
  shows "moves (tasks db) (tasks db')"
proof (cases res)
  case (Inl e)
  with assms(2) have "db' = db" by (auto simp: ClaimTask_def Let_def split: if_splits option.splits list.splits)
  then show ?thesis by simp
next
  case (Inr tr)
  with assms(2) have "ClaimTask locked E owner lease db = (Inr (fst tr, snd tr), db')" by simp
  then show ?thesis
  proof (rule ClaimTask_effect, goal_cases)
    case (1 t runID cid)
    have "task_move t (lease_task (clock E) owner (clock E + lease) (task_Attempts t + 1) t)"
      using 1(2) by (auto simp: task_move_def lease_task_def status_step_def claimable_def CanTransition_def)
    then show ?case
      unfolding 1(10) using tasks_wf_unique [OF tasks_invD(1) [OF assms(1)] _ 1(1)]
      by (auto intro!: moves_update)
  qed
qed

lemma CompleteTask_moves:
  assumes "tasks_inv db" "CompleteTask E i runID status code message db = (res, db')" "runID \<noteq> []"
  shows "moves (tasks db) (tasks db')"
proof (cases "db' = db")
  case False
  from assms(2) False assms(3) show ?thesis
  proof (rule CompleteTask_effect, goal_cases)
    case (1 task run)
    have "task_move task (complete_task (clock E) (terminal_status status) status message task)"
      using CanTransition_complete [OF 1(7,8)] 1(7)
      by (auto simp: task_move_def status_step_def complete_task_def)
    with 1(2,9) assms(1) show ?case by (simp add: moves_selected)
  qed
qed simp

lemma task_step_moves:
  assumes "task_step db db'" "tasks_inv db"
  shows "moves (tasks db) (tasks db')"
  using assms
proof cases
  case st_create
  then show ?thesis
    by (auto simp: CreateTask_def Let_def intro: moves_append split: if_splits option.splits)
next
  case st_heartbeat
  then show ?thesis
    by (auto simp: Heartbeat_def Let_def task_move_def status_step_def intro!: moves_update split: if_splits)
next
  case (st_supersede rfd pfd E rid prid pr new ru)
  have ok: "\<forall>t \<in> set (tasks db). ValidStatus (task_Status t)"
    using assms(2) by (simp add: tasks_inv_def tasks_wf_def task_ok_def)
  from st_supersede ok show ?thesis
    by (auto simp: SupersedeCodeReviews_def Let_def task_move_def status_step_def supersede_task_def
        superseded_by_sel_def intro!: moves_update split: if_splits)
qed (use assms(2) in \<open>auto intro: CancelTask_moves RetryTask_moves ClaimTask_moves CompleteTask_moves
      simp: AppendRunEvent_def RecordAudit_def CreateFinding_def CreateEvidence_def prune_history_def Let_def
      split: if_splits option.splits\<close>)

text \<open>How a row of the run table may change.\<close>

definition run_move :: "Run \<Rightarrow> Run \<Rightarrow> bool" where
  "run_move r r' \<longleftrightarrow>
     run_ID r' = run_ID r \<and> run_TaskID r' = run_TaskID r \<and> run_Attempt r' = run_Attempt r \<and>
     (run_Status r \<noteq> StatusRunning \<longrightarrow> run_Status r' \<noteq> StatusRunning)"

definition run_moves :: "Run list \<Rightarrow> Run list \<Rightarrow> bool" where
  "run_moves rs rs' \<longleftrightarrow> (\<forall>r \<in> set rs. \<exists>r' \<in> set rs'. run_move r r')"

lemma run_moves_refl [simp]: "run_moves rs rs"
  unfolding run_moves_def run_move_def by blast

lemma run_moves_update:
  assumes "\<And>r. r \<in> set rs \<Longrightarrow> P r \<Longrightarrow> run_move r (f r)"
  shows "run_moves rs (update_where P f rs @ new)"
  unfolding run_moves_def set_append set_update_where
proof
  fix r assume "r \<in> set rs"
  with assms [of r] show "\<exists>r' \<in> (\<lambda>r. if P r then f r else r) ` set rs \<union> set new. run_move r r'"
    by (intro bexI [of _ "if P r then f r else r"]) (auto simp: run_move_def)
qed

lemma task_step_run_moves:
  assumes "task_step db db'"
  shows "run_moves (runs db) (runs db')"
  using assms
proof cases
  case (st_claim locked E owner lease rc)
  show ?thesis
  proof (cases rc)
    case (Inr tr)
    with st_claim have "ClaimTask locked E owner lease db = (Inr (fst tr, snd tr), db')" by simp
    then show ?thesis
      by (rule ClaimTask_effect) (auto simp: run_move_def expire_run_def intro!: run_moves_update)
  qed (use st_claim in \<open>auto simp: ClaimTask_def Let_def split: if_splits option.splits list.splits\<close>)
next
  case (st_complete E i runID status code message ru)
  show ?thesis
  proof (cases "db' = db")
    case False
    from st_complete(1) False st_complete(2) show ?thesis
      by (rule CompleteTask_effect)
        (use run_moves_update [where new = "[]"] in \<open>auto simp: run_move_def complete_run_def\<close>)
  qed simp
next
  case (st_cancel E i reason rt)
  then show ?thesis
    using run_moves_update [where new = "[]"]
    by (auto simp: CancelTask_def Let_def run_move_def cancel_run_def split: if_splits option.splits)
next
  case (st_supersede rfd pfd E rid prid pr new ru)
  then show ?thesis
    using run_moves_update [where new = "[]"]
    by (auto simp: SupersedeCodeReviews_def Let_def run_move_def supersede_run_def split: if_splits)
qed (auto simp: CreateTask_def RetryTask_def Heartbeat_def AppendRunEvent_def RecordAudit_def
      CreateFinding_def CreateEvidence_def prune_history_def Let_def split: if_splits option.splits)

section \<open>Histories\<close>

lemma task_move_trans: "task_move a b \<Longrightarrow> task_move b c \<Longrightarrow>
    task_ID c = task_ID a \<and> task_SourceKey c = task_SourceKey a \<and> task_MaxAttempts c = task_MaxAttempts a \<and>
    task_Attempts a \<le> task_Attempts c \<and> (task_Status a = StatusSuperseded \<longrightarrow> c = a)"
  by (auto simp: task_move_def)

definition task_later :: "Task \<Rightarrow> Task \<Rightarrow> bool" where
  "task_later t t' \<longleftrightarrow> task_ID t' = task_ID t \<and> task_SourceKey t' = task_SourceKey t \<and>
     task_MaxAttempts t' = task_MaxAttempts t \<and> task_Attempts t \<le> task_Attempts t' \<and>
     (task_Status t = StatusSuperseded \<longrightarrow> t' = t)"

lemma history_tasks:
  assumes "task_step\<^sup>*\<^sup>* db db'" "tasks_inv db" "t \<in> set (tasks db)"
  shows "tasks_inv db' \<and> (\<exists>t' \<in> set (tasks db'). task_later t t')"
  using assms
proof (induction rule: rtranclp_induct)
  case base
  then show ?case by (auto simp: task_later_def)
next
  case (step y z)
  then obtain t' where t': "tasks_inv y" "t' \<in> set (tasks y)" "task_later t t'" by blast
  with task_step_moves [OF step(2)] obtain t'' where "t'' \<in> set (tasks z)" "task_move t' t''"
    by (auto simp: moves_def)
  with t' task_step_inv [OF step(2)] show ?case
    by (auto simp: task_later_def task_move_def intro!: bexI [of _ t''])
qed

lemma history_runs:
  assumes "task_step\<^sup>*\<^sup>* db db'" "tasks_inv db" "r \<in> set (runs db)"
  shows "tasks_inv db' \<and> (\<exists>r' \<in> set (runs db'). run_move r r')"
  using assms
proof (induction rule: rtranclp_induct)
  case base
  then show ?case by (auto simp: run_move_def)
next
  case (step y z)
  then obtain r' where r': "tasks_inv y" "r' \<in> set (runs y)" "run_move r r'" by blast
  with task_step_run_moves [OF step(2)] obtain r'' where "r'' \<in> set (runs z)" "run_move r' r''"
    by (auto simp: run_moves_def)
  with r' task_step_inv [OF step(2)] show ?case
    by (auto simp: run_move_def intro!: bexI [of _ r''])
qed

lemma CreateTask_row:
  assumes "CreateTask E input db = (Inr t, db')"
  shows "t \<in> set (tasks db') \<and> task_SourceKey t = in_SourceKey input"
  using assms by (auto simp: CreateTask_def Let_def split: if_splits option.splits dest!: select_by_SomeD)

lemma runs_bounded:
  assumes "tasks_inv db" "t \<in> set (tasks db)"
  shows "length (filter (\<lambda>r. run_TaskID r = task_ID t) (runs db)) \<le> nat (task_Attempts t)"
proof -
  let ?rs = "filter (\<lambda>r. run_TaskID r = task_ID t) (runs db)"
  have d: "distinct (map (\<lambda>r. (run_TaskID r, run_Attempt r)) (runs db))"
    using assms(1) by (simp add: tasks_inv_def runs_wf_def)
  then have "inj_on (\<lambda>r. (run_TaskID r, run_Attempt r)) (set ?rs)" and rs: "distinct ?rs"
    by (auto simp: distinct_map inj_on_def)
  then have "inj_on run_Attempt (set ?rs)"
    by (auto simp: inj_on_def)
  then have "length ?rs = card (run_Attempt ` set ?rs)"
    using distinct_card [OF rs] by (simp only: card_image)
  also have "\<dots> \<le> card {1..task_Attempts t}"
    using assms runs_wf_link [OF tasks_invD(2) [OF assms(1)] assms(2)]
    by (intro card_mono) (auto simp: run_link_def)
  finally show ?thesis by simp
qed

lemma select_by_in: "r \<in> set rows \<Longrightarrow> distinct (map key rows) \<Longrightarrow> select_by key (key r) rows = Some r"
  by (rule select_by_unique)

section \<open>A sample history\<close>

text \<open>A concrete run of the queue, on which the theorems below are instantiated.\<close>

definition sample_env :: "nat \<Rightarrow> time \<Rightarrow> env" where
  "sample_env seed t = quiet_env t (\<lambda>n. Some (\<lambda>i. word_of_nat (seed + 16 * n + i)))"

definition sample_input :: CreateInput where
  "sample_input = \<lparr>in_Kind = KindCodeReview, in_Title = ''Review'', in_RepositoryID = ''r1'',
     in_RepositoryName = ''demo'', in_SourceKey = ''github:1'', in_Payload = None, in_Priority = 5,
     in_MaxAttempts = 1, in_CreatedBy = [], in_CreatedAt = 7\<rparr>"

definition sample_db0 :: tasks_db where
  "sample_db0 = \<lparr>tasks = [], runs = [], run_events = [], findings = [], evidence = [], audit_events = []\<rparr>"

definition sample_db1 :: tasks_db where
  "sample_db1 = snd (CreateTask (sample_env 0 10) sample_input sample_db0)"

definition sample_db2 :: tasks_db where
  "sample_db2 = snd (ClaimTask (\<lambda>_. False) (sample_env 40 20) ''w1'' 30 sample_db1)"

definition sample_task :: string where
  "sample_task = ''00010203-0405-4607-8809-0a0b0c0d0e0f''"

definition sample_run :: string where
  "sample_run = ''28292a2b-2c2d-4e2f-b031-323334353637''"

definition sample_db3 :: tasks_db where
  "sample_db3 = snd (CompleteTask (sample_env 0 25) sample_task sample_run StatusFailed ''x'' ''y'' sample_db2)"

definition sample_db4 :: tasks_db where
  "sample_db4 = snd (SupersedeCodeReviews (\<lambda>_. None) (\<lambda>_. Some 7) (sample_env 0 26) ''r1'' [] 7 ''n'' sample_db2)"

lemma sample_facts:
  "map task_ID (tasks sample_db1) = [sample_task]"
  "map task_ID (tasks sample_db2) = [sample_task]"
  "map task_Status (tasks sample_db2) = [StatusRunning]"
  "map run_ID (runs sample_db2) = [sample_run]"
  "map task_Status (tasks sample_db3) = [StatusFailed]"
  by code_simp+

lemma sample_steps:
  "reachable tasks_empty task_step sample_db1" "reachable tasks_empty task_step sample_db2"
  "reachable tasks_empty task_step sample_db3" "task_step sample_db2 sample_db3"
  "reachable tasks_empty task_step sample_db0" "task_step sample_db1 sample_db2"
  "reachable tasks_empty task_step sample_db4"
proof -
  show 0: "reachable tasks_empty task_step sample_db0"
    by (rule reach_start) (simp add: tasks_empty_def sample_db0_def)
  have 1: "task_step sample_db0 sample_db1"
    unfolding sample_db1_def by (rule st_create) (rule prod.collapse [symmetric])
  show 2: "task_step sample_db1 sample_db2"
    unfolding sample_db2_def by (rule st_claim) (rule prod.collapse [symmetric])
  show 3: "task_step sample_db2 sample_db3"
    unfolding sample_db3_def
    by (rule st_complete) (rule prod.collapse [symmetric], simp add: sample_run_def)
  have 4: "task_step sample_db2 sample_db4"
    unfolding sample_db4_def by (rule st_supersede) (rule prod.collapse [symmetric])
  from 0 1 2 3 4 show "reachable tasks_empty task_step sample_db4" "reachable tasks_empty task_step sample_db1" "reachable tasks_empty task_step sample_db2"
    "reachable tasks_empty task_step sample_db3" by (blast intro: reach_step)+
qed

lemma sample_rows:
  "hd (tasks sample_db2) \<in> set (tasks sample_db2)" "task_ID (hd (tasks sample_db2)) = sample_task"
  "task_Status (hd (tasks sample_db2)) = StatusRunning" "hd (tasks sample_db3) \<in> set (tasks sample_db3)"
  "task_Status (hd (tasks sample_db3)) = StatusFailed" "task_ID (hd (tasks sample_db3)) = sample_task"
  "hd (runs sample_db3) \<in> set (runs sample_db3)" "run_ID (hd (runs sample_db3)) = sample_run"
  by code_simp+

section \<open>Properties\<close>

text \<open>
  C3. In every reachable state a task is in status running exactly when it has one running run, that run
  is the run of the task's current attempt, and a task never gets more runs than \<open>max_attempts\<close>. So a task
  is never executed twice at the same time, whatever the interleaving of workers, API calls and webhooks.
\<close>

theorem one_running_run:
  assumes "reachable tasks_empty task_step db" "t \<in> set (tasks db)"
  shows "(task_Status t = StatusRunning \<longleftrightarrow>
      (\<exists>!r. r \<in> set (runs db) \<and> run_TaskID r = task_ID t \<and> run_Status r = StatusRunning)) \<and>
    (\<forall>r \<in> set (runs db). run_TaskID r = task_ID t \<and> run_Status r = StatusRunning \<longrightarrow>
      run_Attempt r = task_Attempts t) \<and>
    length (filter (\<lambda>r. run_TaskID r = task_ID t) (runs db)) \<le> nat (task_MaxAttempts t)"
proof (intro conjI)
  have inv: "tasks_inv db" using assms(1) by (rule tq.reachable_inv)
  note wf = tasks_invD [OF inv]
  note link = runs_wf_link [OF wf(2) assms(2)]
  show "task_Status t = StatusRunning \<longleftrightarrow>
      (\<exists>!r. r \<in> set (runs db) \<and> run_TaskID r = task_ID t \<and> run_Status r = StatusRunning)"
    using runs_wf_live [OF wf(2) assms(2)] running_run_unique [OF wf(2) assms(2)] link
    by (auto simp: run_link_def)
  show "\<forall>r \<in> set (runs db). run_TaskID r = task_ID t \<and> run_Status r = StatusRunning \<longrightarrow>
      run_Attempt r = task_Attempts t"
    using link by (auto simp: run_link_def)
  have "task_Attempts t \<le> task_MaxAttempts t"
    using wf(1) assms(2) by (simp add: tasks_wf_def task_ok_def)
  with runs_bounded [OF inv assms(2)]
  show "length (filter (\<lambda>r. run_TaskID r = task_ID t) (runs db)) \<le> nat (task_MaxAttempts t)"
    by linarith
qed

theorem one_running_run_witness:
  "\<exists>!r. r \<in> set (runs sample_db2) \<and> run_TaskID r = sample_task \<and> run_Status r = StatusRunning"
  using one_running_run [OF sample_steps(2) sample_rows(1)] by (simp add: sample_rows)

text \<open>
  C19. Between two consecutive reachable states every task row persists under the same identifier, source key, payload and
  attempt limit, its attempt counter never decreases and its status changes only along \<open>CanTransition\<close>, with one
  exception that the table does not list: \<open>ClaimTask\<close> takes a failed task straight back to running.
\<close>

theorem task_lifecycle:
  assumes "reachable tasks_empty task_step db" "task_step db db'" "t \<in> set (tasks db)"
  shows "\<exists>!t'. t' \<in> set (tasks db') \<and> task_ID t' = task_ID t \<and>
    task_SourceKey t' = task_SourceKey t \<and> task_Payload t' = task_Payload t \<and>
    task_MaxAttempts t' = task_MaxAttempts t \<and> task_Attempts t \<le> task_Attempts t' \<and>
    (task_Status t' = task_Status t \<or> CanTransition (task_Status t) (task_Status t') \<or>
     task_Status t = StatusFailed \<and> task_Status t' = StatusRunning)"
proof -
  have inv: "tasks_inv db" using assms(1) by (rule tq.reachable_inv)
  obtain t' where "t' \<in> set (tasks db')" "task_move t t'"
    using task_step_moves [OF assms(2) inv] assms(3) by (auto simp: moves_def)
  moreover have "u = v" if "u \<in> set (tasks db')" "v \<in> set (tasks db')" "task_ID u = task_ID v" for u v
    using tasks_wf_unique tasks_invD(1) [OF task_step_inv [OF assms(2) inv]] that by blast
  ultimately show ?thesis by (intro ex1I [of _ t']) (auto simp: task_move_def status_step_def)
qed

theorem task_lifecycle_witness:
  "\<exists>!t'. t' \<in> set (tasks sample_db3) \<and> task_ID t' = sample_task \<and>
    task_SourceKey t' = task_SourceKey (hd (tasks sample_db2)) \<and> task_Payload t' = task_Payload (hd (tasks sample_db2)) \<and>
    task_MaxAttempts t' = task_MaxAttempts (hd (tasks sample_db2)) \<and>
    task_Attempts (hd (tasks sample_db2)) \<le> task_Attempts t' \<and>
    (task_Status t' = StatusRunning \<or> CanTransition StatusRunning (task_Status t'))"
  using task_lifecycle [OF sample_steps(2,4) sample_rows(1)] by (simp add: sample_rows)

text \<open>
  A superseded task is final: once a newer commit of the pull request superseded it, no later sequence of
  operations changes any column of its row.
\<close>

theorem superseded_final:
  assumes "reachable tasks_empty task_step db" "t \<in> set (tasks db)" "task_Status t = StatusSuperseded"
    and "task_step\<^sup>*\<^sup>* db db'"
  shows "t \<in> set (tasks db')"
  using history_tasks [OF assms(4) tq.reachable_inv [OF assms(1)] assms(2)] assms(3)
  by (auto simp: task_later_def)

theorem superseded_final_witness:
  "hd (tasks sample_db4) \<in> set (tasks (snd (RetryTask (sample_env 0 50) sample_task ''again'' sample_db4)))"
proof -
  have "task_step sample_db4 (snd (RetryTask (sample_env 0 50) sample_task ''again'' sample_db4))"
    by (rule st_retry) (rule prod.collapse [symmetric])
  moreover have "hd (tasks sample_db4) \<in> set (tasks sample_db4)"
    "task_Status (hd (tasks sample_db4)) = StatusSuperseded" by code_simp+
  ultimately show ?thesis using superseded_final [OF sample_steps(7)] by blast
qed

text \<open>
  Creation is idempotent per source key across the whole history: once \<open>CreateTask\<close> returned a task, every
  later successful \<open>CreateTask\<close> with that source key returns the row with the same identifier and changes nothing,
  whatever happened in between and whatever else the second input asks for.
\<close>

theorem create_idempotent:
  assumes "reachable tasks_empty task_step db0" "CreateTask E1 in1 db0 = (Inr t1, db1)"
    and "task_step\<^sup>*\<^sup>* db1 db2" "CreateTask E2 in2 db2 = (Inr t2, db3)"
    and "in_SourceKey in2 = in_SourceKey in1"
  shows "task_ID t2 = task_ID t1 \<and> t2 \<in> set (tasks db2) \<and> db3 = db2"
proof -
  have inv: "tasks_inv db1"
    using assms(1,2) by (blast intro: tq.reachable_inv CreateTask_inv)
  have t1: "t1 \<in> set (tasks db1)" "task_SourceKey t1 = in_SourceKey in1"
    using CreateTask_row [OF assms(2)] by auto
  from history_tasks [OF assms(3) inv t1(1)] obtain t where
    t: "tasks_inv db2" "t \<in> set (tasks db2)" "task_ID t = task_ID t1" "task_SourceKey t = in_SourceKey in2"
    using t1(2) assms(5) by (auto simp: task_later_def)
  then have "select_by task_SourceKey (in_SourceKey in2) (tasks db2) = Some t"
    using select_by_unique [of task_SourceKey "tasks db2" t] by (simp add: tasks_inv_def tasks_wf_def)
  with assms(4) t show ?thesis
    by (auto simp: CreateTask_def Let_def split: if_splits option.splits)
qed

theorem create_idempotent_witness:
  "task_ID (projr (fst (CreateTask (sample_env 80 99) sample_input sample_db3))) = sample_task \<and>
   snd (CreateTask (sample_env 80 99) sample_input sample_db3) = sample_db3"
proof -
  let ?c1 = "CreateTask (sample_env 0 10) sample_input sample_db0"
  let ?c2 = "CreateTask (sample_env 80 99) sample_input sample_db3"
  have 1: "\<not> isl (fst ?c1)" "\<not> isl (fst ?c2)" "task_ID (projr (fst ?c1)) = sample_task" by code_simp+
  have "task_step\<^sup>*\<^sup>* (snd ?c1) sample_db3"
    using sample_steps(4,6) by (auto simp: sample_db1_def [symmetric])
  from create_idempotent [OF sample_steps(5) outcome_Inr [OF 1(1)] this outcome_Inr [OF 1(2)]] 1(3)
  show ?thesis by simp
qed

text \<open>
  C18. Workers that lost their run are fenced off. Once a run is no longer running (finished, cancelled, superseded or
  replaced after its lease expired), no \<open>CompleteTask\<close> for it changes the database any more, at any later point
  of any history, and it reports success only when it asks for the status the task already has.
\<close>

theorem stale_worker_fenced:
  assumes "reachable tasks_empty task_step db" "r \<in> set (runs db)" "run_Status r \<noteq> StatusRunning"
    and "task_step\<^sup>*\<^sup>* db db'" "CompleteTask E taskID (run_ID r) status code message db' = (res, db'')"
  shows "db'' = db' \<and> (res = Inr () \<longrightarrow>
    (\<exists>t \<in> set (tasks db'). task_ID t = taskID \<and> task_Status t = status))"
proof -
  from history_runs [OF assms(4) tq.reachable_inv [OF assms(1)] assms(2)] obtain r' where
    inv: "tasks_inv db'" and r': "r' \<in> set (runs db')" "run_ID r' = run_ID r" "run_Status r' \<noteq> StatusRunning"
    using assms(3) by (auto simp: run_move_def)
  have one: "u = r'" if "u \<in> set (runs db')" "run_ID u = run_ID r" for u
    using that r'(1,2) tasks_invD(2) [OF inv] unfolding runs_wf_def distinct_map by (metis inj_onD)
  have nonempty: "run_ID r \<noteq> []"
    using r' tasks_invD(2) [OF inv] by (auto simp: runs_wf_def)
  have "db'' = db'"
  proof (rule ccontr)
    assume "db'' \<noteq> db'"
    from assms(5) this nonempty show False
      by (rule CompleteTask_effect) (use one r'(3) in auto)
  qed
  moreover have "\<exists>t \<in> set (tasks db'). task_ID t = taskID \<and> task_Status t = status" if "res = Inr ()"
  proof -
    from assms(5) that nonempty obtain task u where task: "select_by task_ID taskID (tasks db') = Some task"
      and u: "find (\<lambda>x. run_ID x = run_ID r \<and> run_TaskID x = taskID) (runs db') = Some u"
      by (auto simp: CompleteTask_def Let_def split: if_splits option.splits)
    from u have "u = r'" by (auto simp: find_Some_iff intro: one)
    with assms(5) that nonempty task u r'(3) have "task_Status task = status"
      by (auto simp: CompleteTask_def Let_def split: if_splits)
    with select_by_SomeD [OF task] show ?thesis by blast
  qed
  ultimately show ?thesis by blast
qed

theorem stale_worker_fenced_witness:
  "snd (CompleteTask (sample_env 0 30) sample_task sample_run StatusSucceeded ''a'' ''b'' sample_db3) = sample_db3"
proof -
  have "run_Status (hd (runs sample_db3)) \<noteq> StatusRunning" by code_simp
  from stale_worker_fenced [OF sample_steps(3) sample_rows(7) this rtranclp.rtrancl_refl prod.collapse [symmetric]]
  show ?thesis by (simp add: sample_rows)
qed

text \<open>
  A claim takes the best task available: the highest priority first, then the longest available, then the
  oldest, among the rows that are due and not locked by another transaction; it leases that task to the caller for
  \<open>lease\<close> from now with a new run of the next attempt. With the database up, it reports
  \<open>ErrTaskNotFound\<close> exactly when no such row exists.
\<close>

theorem claim_best:
  assumes "\<not> blank owner" "0 < lease" "\<not> fails E 0" "\<not> fails E 1"
  shows "(\<forall>task run db'. ClaimTask locked E owner lease db = (Inr (task, run), db') \<longrightarrow>
      (\<exists>t \<in> set (tasks db). task_ID task = task_ID t \<and> claimable (db_clock E) t \<and> \<not> locked (task_ID t) \<and>
        (\<forall>u \<in> set (tasks db). claimable (db_clock E) u \<and> \<not> locked (task_ID u) \<longrightarrow> claim_key t \<le> claim_key u) \<and>
        task_Attempts task = task_Attempts t + 1 \<and> run_Attempt run = task_Attempts t + 1 \<and>
        run_TaskID run = task_ID t \<and> task_LeaseOwner task = owner \<and>
        task_LeaseUntil task = Some (clock E + lease) \<and> run \<in> set (runs db'))) \<and>
    (fst (ClaimTask locked E owner lease db) = Inl ErrTaskNotFound \<longleftrightarrow>
      (\<forall>t \<in> set (tasks db). claimable (db_clock E) t \<longrightarrow> locked (task_ID t)))"
proof (intro conjI allI impI, goal_cases)
  case (1 task run db')
  then show ?case
    by (rule ClaimTask_effect) (auto simp: lease_task_def started_run_def intro!: bexI)
next
  case 2
  let ?c = "filter (\<lambda>t. claimable (db_clock E) t \<and> \<not> locked (task_ID t)) (tasks db)"
  have "fst (ClaimTask locked E owner lease db) = Inl ErrTaskNotFound \<longleftrightarrow> order_limit claim_key 1 ?c = []"
    using assms by (auto simp: ClaimTask_def Let_def split: list.splits option.splits)
  then show ?case by (auto simp: order_limit_1_Nil filter_empty_conv)
qed

theorem claim_best_witness:
  "\<exists>t \<in> set (tasks sample_db1).
     task_ID (fst (projr (fst (ClaimTask (\<lambda>_. False) (sample_env 40 20) ''w1'' 30 sample_db1)))) = task_ID t \<and>
     claimable 20 t"
proof -
  let ?c = "ClaimTask (\<lambda>_. False) (sample_env 40 20) ''w1'' 30 sample_db1"
  have b: "\<not> blank ''w1''" and ok: "\<not> isl (fst ?c)" by code_simp+
  have "?c = (Inr (fst (projr (fst ?c)), snd (projr (fst ?c))), snd ?c)"
    using outcome_Inr [OF ok] by simp
  with claim_best [of "''w1''" 30 "sample_env 40 20" "\<lambda>_. False" sample_db1] b
  show ?thesis by (fastforce simp: sample_env_def)
qed

text \<open>
  A task that used up its attempts is never executed again: whatever operations follow, including
  \<open>RetryTask\<close>, which reports success and puts it back in the queue, no claim ever returns it.
\<close>

theorem exhausted_never_claimed:
  assumes "reachable tasks_empty task_step db" "t \<in> set (tasks db)" "task_Attempts t = task_MaxAttempts t"
    and "task_step\<^sup>*\<^sup>* db db'" "ClaimTask locked E owner lease db' = (Inr (task, run), db'')"
  shows "task_ID task \<noteq> task_ID t"
proof -
  from history_tasks [OF assms(4) tq.reachable_inv [OF assms(1)] assms(2)] obtain t' where
    inv: "tasks_inv db'" and t': "t' \<in> set (tasks db')" "task_ID t' = task_ID t"
      "task_MaxAttempts t' \<le> task_Attempts t'"
    using assms(3) by (auto simp: task_later_def)
  from assms(5) show ?thesis
  proof (rule ClaimTask_effect, goal_cases)
    case (1 u runID cid)
    then have "u \<noteq> t'" using t'(3) by (auto simp: claimable_def)
    with tasks_wf_unique [OF tasks_invD(1) [OF inv] 1(1) t'(1)] t'(2) 1(8) show ?case
      by (auto simp: lease_task_def)
  qed
qed

definition sample_db5 :: tasks_db where
  "sample_db5 = snd (CreateTask (sample_env 100 45) (sample_input\<lparr>in_SourceKey := ''github:2''\<rparr>)
     (snd (RetryTask (sample_env 0 40) sample_task ''again'' sample_db3)))"

theorem exhausted_never_claimed_witness:
  "map task_Status (tasks sample_db5) = [StatusQueued, StatusQueued] \<and>
   task_ID (fst (projr (fst (ClaimTask (\<lambda>_. False) (sample_env 140 50) ''w2'' 30 sample_db5)))) \<noteq> sample_task"
proof -
  let ?r = "snd (RetryTask (sample_env 0 40) sample_task ''again'' sample_db3)"
  let ?c = "ClaimTask (\<lambda>_. False) (sample_env 140 50) ''w2'' 30 sample_db5"
  have "task_step sample_db3 ?r" by (rule st_retry) (rule prod.collapse [symmetric])
  moreover have "task_step ?r sample_db5" unfolding sample_db5_def by (rule st_create) (rule prod.collapse [symmetric])
  ultimately have steps: "task_step\<^sup>*\<^sup>* sample_db3 sample_db5" by (meson converse_rtranclp_into_rtranclp rtranclp.rtrancl_refl)
  have full: "task_Attempts (hd (tasks sample_db3)) = task_MaxAttempts (hd (tasks sample_db3))"
    and ok: "\<not> isl (fst ?c)" and q: "map task_Status (tasks sample_db5) = [StatusQueued, StatusQueued]" by code_simp+
  obtain task run db'' where c: "?c = (Inr (task, run), db'')" using outcome_Inr [OF ok] by (metis prod.exhaust)
  from exhausted_never_claimed [OF sample_steps(3) sample_rows(4) full steps c] show ?thesis
    using q c sample_rows(6) by simp
qed

text \<open>
  Every operation that reports an error leaves the database as it was: a refused transition, a lost lease, a missing
  row, a failed statement or commit, or missing randomness.
\<close>

theorem errors_change_nothing:
  assumes "reachable tasks_empty task_step db"
  shows "(CreateTask E input db = (Inl e, db') \<longrightarrow> db' = db) \<and>
    (CancelTask E i reason db = (Inl e, db') \<longrightarrow> db' = db) \<and>
    (RetryTask E i reason db = (Inl e, db') \<longrightarrow> db' = db) \<and>
    (ClaimTask locked E owner lease db = (Inl e, db') \<longrightarrow> db' = db) \<and>
    (Heartbeat E i owner lease db = (Inl e, db') \<longrightarrow> db' = db) \<and>
    (CompleteTask E i runID status code message db = (Inl e, db') \<longrightarrow> db' = db) \<and>
    (AppendRunEvent E runID ei db = (Inl e, db') \<longrightarrow> db' = db) \<and>
    (RecordAudit E ai db = (Inl e, db') \<longrightarrow> db' = db) \<and>
    (CreateFinding r54 E fi db = (Inl e, db') \<longrightarrow> db' = db) \<and>
    (CreateEvidence E vi db = (Inl e, db') \<longrightarrow> db' = db) \<and>
    (SupersedeCodeReviews rfd pfd E rid prid pr new db = (Inl e, db') \<longrightarrow> db' = db)"
proof (intro conjI impI)
  assume hb: "Heartbeat E i owner lease db = (Inl e, db')"
  let ?sel = "\<lambda>t. task_ID t = i \<and> task_Status t = StatusRunning \<and> task_LeaseOwner t = owner"
  have d: "distinct (map task_ID (tasks db))"
    using tq.reachable_inv [OF assms] by (simp add: tasks_inv_def tasks_wf_def)
  have "length (filter ?sel (tasks db)) \<le> length (filter (\<lambda>t. task_ID t = i) (tasks db))"
    by (rule length_filter_imp) simp
  also have "\<dots> \<le> 1" using d by (rule distinct_filter_key)
  finally have "length (filter ?sel (tasks db)) \<noteq> 1 \<Longrightarrow> filter ?sel (tasks db) = []"
    by (cases "filter ?sel (tasks db)") auto
  then have "length (filter ?sel (tasks db)) \<noteq> 1 \<Longrightarrow> update_where ?sel f (tasks db) = tasks db" for f
    by (intro update_where_id) (auto simp del: One_nat_def simp: filter_empty_conv)
  with hb show "db' = db"
    by (simp add: Heartbeat_def Let_def del: One_nat_def split: if_split_asm)
qed (auto simp: op_defs Let_def split: if_splits option.splits list.splits)

theorem errors_change_nothing_witness:
  "snd (CompleteTask (sample_env 0 30) sample_task sample_run StatusQueued [] [] sample_db2) = sample_db2 \<and>
   snd (Heartbeat (sample_env 0 30) sample_task ''w2'' 30 sample_db2) = sample_db2"
proof -
  let ?c = "CompleteTask (sample_env 0 30) sample_task sample_run StatusQueued [] [] sample_db2"
  let ?h = "Heartbeat (sample_env 0 30) sample_task ''w2'' 30 sample_db2"
  have isl: "isl (fst ?c)" "isl (fst ?h)" by code_simp+
  have "snd ?c = sample_db2"
    using outcome_Inl [OF isl(1)]
    by (rule errors_change_nothing [OF sample_steps(2), THEN conjunct2, THEN conjunct2, THEN conjunct2,
          THEN conjunct2, THEN conjunct2, THEN conjunct1, THEN mp])
  moreover have "snd ?h = sample_db2"
    using outcome_Inl [OF isl(2)]
    by (rule errors_change_nothing [OF sample_steps(2), THEN conjunct2, THEN conjunct2, THEN conjunct2,
          THEN conjunct2, THEN conjunct1, THEN mp])
  ultimately show ?thesis ..
qed

text \<open>
  The event log of a run is an append-only stream: a new event gets a sequence number above all earlier ones of
  its run, and a reader that polls with a cursor below it then sees exactly what it saw before followed by the new event,
  in strictly increasing sequence order.
\<close>

theorem event_stream:
  assumes "reachable tasks_empty task_step db" "AppendRunEvent E runID input db = (Inr e, db')"
    and "ListRunEvents E1 runID after db = Inr old" "ListRunEvents E2 runID after db' = Inr new"
    and "after < ev_Sequence e"
  shows "new = old @ [e] \<and> sorted_wrt (<) (map ev_Sequence new) \<and> ev_Message e = rei_Message input"
proof -
  have inv: "tasks_inv db" "tasks_inv db'"
    using assms(1,2) by (blast intro: tq.reachable_inv AppendRunEvent_inv)+
  have e: "db' = db\<lparr>run_events := run_events db @ [e]\<rparr>" "ev_RunID e = runID" "ev_Message e = rei_Message input"
    using assms(2) by (auto simp: AppendRunEvent_def Let_def split: if_splits option.splits)
  let ?own = "\<lambda>d. filter (\<lambda>e. ev_RunID e = runID \<and> after < ev_Sequence e) (run_events d)"
  have strict: "sorted_wrt (<) (map ev_Sequence (?own d))" if "tasks_inv d" for d :: "'a tasks_db_scheme"
  proof -
    have "sorted_wrt (\<lambda>a b. ev_RunID a = ev_RunID b \<longrightarrow> ev_Sequence a < ev_Sequence b) (?own d)"
      using that by (simp add: tasks_inv_def events_wf_def sorted_wrt_filter)
    then show ?thesis unfolding sorted_wrt_map by (rule sorted_wrt_mono_rel [rotated]) auto
  qed
  have "old = ?own db" "new = ?own db'"
    using assms(3,4) strict [OF inv(1)] strict [OF inv(2)]
    by (auto simp: ListRunEvents_def sort_key_id_if_sorted strict_sorted_imp_sorted split: if_splits)
  with e assms(5) strict [OF inv(2)] show ?thesis by auto
qed

theorem event_stream_witness:
  "\<exists>e. ListRunEvents (sample_env 0 31) sample_run 0
     (snd (AppendRunEvent (sample_env 0 30) sample_run (RunEventInput.make ''log'' [] ''hi'' None False) sample_db2)) = Inr [e] \<and>
     ev_Message e = ''hi''"
proof -
  let ?in = "RunEventInput.make ''log'' [] ''hi'' None False"
  let ?a = "AppendRunEvent (sample_env 0 30) sample_run ?in sample_db2"
  let ?l = "ListRunEvents (sample_env 0 31) sample_run 0 (snd ?a)"
  have a: "\<not> isl (fst ?a)" "0 < ev_Sequence (projr (fst ?a))" "\<not> isl ?l" by code_simp+
  have old: "ListRunEvents (sample_env 0 29) sample_run 0 sample_db2 = Inr []" by code_simp
  have "?l = Inr (projr ?l)" using a(3) by (simp add: sum.collapse(2))
  from event_stream [OF sample_steps(2) outcome_Inr [OF a(1)] old this a(2)] this
  show ?thesis by (auto simp: RunEventInput.make_def)
qed

text \<open>
  When a new commit supersedes the reviews of a pull request, every other code-review task of that repository and pull
  request ends up superseded, none of the tasks superseded by the new task keeps a queued, running or waiting run,
  and no other task row changes.
\<close>

theorem supersede_complete:
  assumes "SupersedeCodeReviews repoField prField E rid prid pr new db = (Inr (), db')"
  shows "(\<forall>t \<in> set (tasks db'). task_Kind t = KindCodeReview \<and> task_ID t \<noteq> new \<and>
        rid \<noteq> [] \<and> task_RepositoryID t = rid \<and> prField (task_Payload t) = Some pr \<longrightarrow>
        task_Status t = StatusSuperseded) \<and>
    (\<forall>t \<in> set (tasks db'). \<forall>r \<in> set (runs db'). task_Kind t = KindCodeReview \<and> task_SupersededBy t = new \<and>
        run_TaskID r = task_ID t \<longrightarrow> \<not> active_status (run_Status r)) \<and>
    (\<forall>t \<in> set (tasks db). superseded_by_sel repoField prField rid prid pr new t \<or> t \<in> set (tasks db'))"
proof (intro conjI ballI impI; (elim conjE)?)
  let ?P = "superseded_by_sel repoField prField rid prid pr new"
  let ?ts = "update_where ?P (supersede_task (db_clock E) new) (tasks db)"
  have db': "tasks db' = ?ts" "runs db' = update_where (\<lambda>r. run_TaskID r \<in> set (superseded_ids new ?ts) \<and>
      active_status (run_Status r)) (supersede_run (db_clock E)) (runs db)"
    using assms by (auto simp: SupersedeCodeReviews_def Let_def split: if_splits)
  fix t assume t: "t \<in> set (tasks db')"
  show "task_Status t = StatusSuperseded" if "task_Kind t = KindCodeReview" "task_ID t \<noteq> new" "rid \<noteq> []"
      "task_RepositoryID t = rid" "prField (task_Payload t) = Some pr"
  proof -
    obtain t0 where "t = (if ?P t0 then supersede_task (db_clock E) new t0 else t0)"
      using t unfolding db' set_update_where by blast
    with that show ?thesis
      by (auto simp: superseded_by_sel_def supersede_task_def split: if_splits)
  qed
  fix r assume r: "r \<in> set (runs db')"
  show "\<not> active_status (run_Status r)"
    if "task_Kind t = KindCodeReview" "task_SupersededBy t = new" "run_TaskID r = task_ID t"
  proof -
    have "run_TaskID r \<in> set (superseded_ids new ?ts)"
      using t that unfolding db' superseded_ids_def by auto
    with r show ?thesis
      unfolding db' by (auto simp: set_update_where supersede_run_def active_status_def split: if_splits)
  qed
next
  fix t assume "t \<in> set (tasks db)"
  with assms show "superseded_by_sel repoField prField rid prid pr new t \<or> t \<in> set (tasks db')"
    by (auto simp: SupersedeCodeReviews_def Let_def set_update_where split: if_splits)
qed

theorem supersede_complete_witness:
  "task_Status (hd (tasks sample_db4)) = StatusSuperseded"
proof -
  have "\<not> isl (fst (SupersedeCodeReviews (\<lambda>_. None) (\<lambda>_. Some 7) (sample_env 0 26) ''r1'' [] 7 ''n'' sample_db2))"
    "hd (tasks sample_db4) \<in> set (tasks sample_db4)" "task_Kind (hd (tasks sample_db4)) = KindCodeReview"
    "task_ID (hd (tasks sample_db4)) \<noteq> ''n''" "task_RepositoryID (hd (tasks sample_db4)) = ''r1''"
    by code_simp+
  with outcome_Inr [OF this(1)] show ?thesis
    using supersede_complete [of "\<lambda>_. None" "\<lambda>_. Some 7" "sample_env 0 26" "''r1''" "[]" 7 "''n''" sample_db2 sample_db4]
    by (auto simp: sample_db4_def)
qed

end
