(* ===== verification/Auth.thy ===== *)
theory Auth
  imports Go_Strings
begin

unbundle bit_operations_syntax

text \<open>
  Identity of \<open>src/server/internal/auth\<close>: roles, users, sessions and OIDC flows (auth.go) and their
  PostgreSQL store (store.go) over the tables of migration 000002.

  Cryptography and the address parser are parameters, gathered in the record \<open>crypto\<close>: SHA-256,
  bcrypt's hash (\<open>None\<close> when it rejects the password) and comparison, \<open>net/mail\<close>'s parser
  (the address it finds, \<open>None\<close> on a parse error) and the Unicode tables of \<open>strings.ToLower\<close>.
\<close>

section \<open>Data\<close>

datatype Role = RoleAdmin | RoleMaintainer | RoleDeveloper | RoleAuditor | RoleOther string

datatype auth_error = ErrBootstrapClosed | ErrInvalidCredential | ErrUnauthenticated | ErrForbidden
  | ErrInvalidFlow | AuthPanic | AuthExternal external_error

record User =
  user_ID :: string
  user_Email :: string
  user_DisplayName :: string
  user_Role :: Role
  user_AuthSource :: string
  user_Active :: bool
  user_CreatedAt :: time

record UserRow = User +
  row_Subject :: "string option"
  row_PasswordHash :: "8 word list option"
  row_UpdatedAt :: time

record Session =
  ses_User :: User
  ses_ExpiresAt :: time
  ses_CSRFHash :: "8 word list"

record SessionRow =
  srow_TokenHash :: "8 word list"
  srow_CSRFHash :: "8 word list"
  srow_UserID :: string
  srow_ExpiresAt :: time

record OIDCFlow =
  flow_Verifier :: string
  flow_ReturnTo :: string

record OIDCFlowRow =
  frow_StateHash :: "8 word list"
  frow_Flow :: OIDCFlow
  frow_ExpiresAt :: time

record Identity =
  id_Subject :: string
  id_Email :: string
  id_Name :: string
  id_EmailVerified :: bool

record auth_db =
  users :: "UserRow list"
  sessions :: "SessionRow list"
  oidc_flows :: "OIDCFlowRow list"

record crypto =
  sha256 :: "string \<Rightarrow> 8 word list"
  bcrypt_hash :: "string \<Rightarrow> 8 word list option"
  bcrypt_ok :: "8 word list \<Rightarrow> string \<Rightarrow> bool"
  parse_address :: "string \<Rightarrow> string option"
  unicode_lower :: "string \<Rightarrow> string"

section \<open>Helpers of auth.go\<close>

definition digest :: "crypto \<Rightarrow> string \<Rightarrow> 8 word list" where
  "digest C value = sha256 C value"

definition normalizeEmail :: "crypto \<Rightarrow> string \<Rightarrow> auth_error + string" where
  "normalizeEmail C s =
    (let value = ToLower (unicode_lower C) (TrimSpace s)
     in if parse_address C value = Some value then Inr value else Inl ErrInvalidCredential)"

definition displayName :: "string \<Rightarrow> string" where
  "displayName email = takeWhile (\<lambda>c. c \<noteq> CHR ''@'') email"

definition safeReturnTo :: "string \<Rightarrow> bool" where
  "safeReturnTo value \<longleftrightarrow>
     HasPrefix value ''/'' \<and> \<not> HasPrefix value ''//'' \<and> \<not> Contains value [CHR 0x0A]"

definition base64url_char :: "int \<Rightarrow> char" where
  "base64url_char n = ''ABCDEFGHIJKLMNOPQRSTUVWXYZabcdefghijklmnopqrstuvwxyz0123456789-_'' ! nat (n mod 64)"

text \<open>\<open>base64.RawURLEncoding\<close>: three bytes give four characters, without padding.\<close>

fun RawURLEncode :: "8 word list \<Rightarrow> string" where
  "RawURLEncode [] = []"
| "RawURLEncode [a] =
     (let n = uint a * 65536 in [base64url_char (n div 262144), base64url_char (n div 4096)])"
| "RawURLEncode [a, b] =
     (let n = uint a * 65536 + uint b * 256
      in [base64url_char (n div 262144), base64url_char (n div 4096), base64url_char (n div 64)])"
| "RawURLEncode (a # b # c # rest) =
     (let n = uint a * 65536 + uint b * 256 + uint c
      in base64url_char (n div 262144) # base64url_char (n div 4096) # base64url_char (n div 64) #
         base64url_char n # RawURLEncode rest)"

definition randomToken :: "env \<Rightarrow> nat \<Rightarrow> nat \<Rightarrow> string option" where
  "randomToken E n len = map_option RawURLEncode (rand_read E n len)"

definition subtleCompare :: "8 word list \<Rightarrow> 8 word list \<Rightarrow> bool" where
  "subtleCompare left right = (foldl (\<lambda>difference (l, r). difference OR (l XOR r)) 0 (zip left right) = 0)"

definition VerifyCSRF :: "crypto \<Rightarrow> Session \<Rightarrow> string \<Rightarrow> bool" where
  "VerifyCSRF C session value =
    (if value = [] then False
     else let actual = digest C value
       in length actual = length (ses_CSRFHash session) \<and> subtleCompare actual (ses_CSRFHash session))"

text \<open>\<open>newID\<close> panics without randomness, which is the value \<open>None\<close>.\<close>

definition newID :: "env \<Rightarrow> nat \<Rightarrow> string option" where
  "newID E n = map_option (\<lambda>v. format_uuid
     (v[6 := ((v ! 6) AND 0x0f) OR 0x40, 8 := ((v ! 8) AND 0x3f) OR 0x80])) (rand_read E n 16)"

section \<open>The store (store.go)\<close>

definition BootstrapAdmin ::
  "env \<Rightarrow> User \<Rightarrow> 8 word list \<Rightarrow> 'z auth_db_scheme \<Rightarrow> (auth_error, unit, 'z auth_db_scheme) outcome" where
  "BootstrapAdmin E user passwordHash db =
    (if fails E 0 \<or> fails E 1 \<or> fails E 2 then (Inl (AuthExternal ErrDatabase), db)
     else if list_ex (\<lambda>u. user_Role u = RoleAdmin) (users db) then (Inl ErrBootstrapClosed, db)
     else if fails E 3 \<or> list_ex (\<lambda>u. user_ID u = user_ID user \<or> user_Email u = user_Email user \<or>
         user_AuthSource u = ''local'' \<and> row_Subject u = None) (users db) \<or> fails E 4
     then (Inl (AuthExternal ErrDatabase), db)
     else (Inr (), db\<lparr>users := users db @ [\<lparr>user_ID = user_ID user, user_Email = user_Email user,
       user_DisplayName = user_DisplayName user, user_Role = user_Role user,
       user_AuthSource = ''local'', user_Active = True, user_CreatedAt = user_CreatedAt user,
       row_Subject = None, row_PasswordHash = Some passwordHash,
       row_UpdatedAt = user_CreatedAt user\<rparr>]\<rparr>))"

definition FindLocalUser ::
  "env \<Rightarrow> string \<Rightarrow> 'z auth_db_scheme \<Rightarrow> auth_error + (User \<times> 8 word list)" where
  "FindLocalUser E email db =
    (if fails E 0 then Inl (AuthExternal ErrDatabase)
     else case find (\<lambda>u. user_Email u = email \<and> user_AuthSource u = ''local'') (users db) of
       None \<Rightarrow> Inl (AuthExternal ErrDatabase)
     | Some row \<Rightarrow> Inr (User.truncate row, case row_PasswordHash row of None \<Rightarrow> [] | Some h \<Rightarrow> h))"

definition UpsertOIDCUser ::
  "env \<Rightarrow> User \<Rightarrow> string \<Rightarrow> 'z auth_db_scheme \<Rightarrow> (auth_error, User, 'z auth_db_scheme) outcome" where
  "UpsertOIDCUser E user subject db =
    (if fails E 1 then (Inl (AuthExternal ErrDatabase), db)
     else
       let own = (\<lambda>u. user_AuthSource u = ''oidc'' \<and> row_Subject u = Some subject)
       in case find own (users db) of
         Some row \<Rightarrow>
           (Inr ((User.truncate row)\<lparr>user_DisplayName := user_DisplayName user\<rparr>),
            db\<lparr>users := update_where own
              (\<lambda>u. u\<lparr>user_DisplayName := user_DisplayName user, row_UpdatedAt := db_clock E\<rparr>) (users db)\<rparr>)
       | None \<Rightarrow>
           if list_ex (\<lambda>u. user_ID u = user_ID user \<or> user_Email u = user_Email user) (users db)
           then (Inl (AuthExternal ErrDatabase), db)
           else
             let row = \<lparr>user_ID = user_ID user, user_Email = user_Email user,
               user_DisplayName = user_DisplayName user, user_Role = user_Role user,
               user_AuthSource = ''oidc'', user_Active = True, user_CreatedAt = user_CreatedAt user,
               row_Subject = Some subject, row_PasswordHash = None,
               row_UpdatedAt = user_CreatedAt user\<rparr>
             in (Inr (User.truncate row), db\<lparr>users := users db @ [row]\<rparr>))"

definition CreateSession ::
  "env \<Rightarrow> 8 word list \<Rightarrow> 8 word list \<Rightarrow> string \<Rightarrow> time \<Rightarrow> 'z auth_db_scheme \<Rightarrow>
   (auth_error, unit, 'z auth_db_scheme) outcome" where
  "CreateSession E tokenHash csrfHash userID expiresAt db =
    (if fails E 2 \<or> tokenHash \<in> srow_TokenHash ` set (sessions db) \<or> userID \<notin> user_ID ` set (users db)
     then (Inl (AuthExternal ErrDatabase), db)
     else (Inr (), db\<lparr>sessions := sessions db @ [\<lparr>srow_TokenHash = tokenHash,
       srow_CSRFHash = csrfHash, srow_UserID = userID, srow_ExpiresAt = expiresAt\<rparr>]\<rparr>))"

definition FindSession :: "env \<Rightarrow> 8 word list \<Rightarrow> time \<Rightarrow> 'z auth_db_scheme \<Rightarrow> auth_error + Session" where
  "FindSession E tokenHash now db =
    (if fails E 0 then Inl (AuthExternal ErrDatabase)
     else case find (\<lambda>s. srow_TokenHash s = tokenHash \<and> now < srow_ExpiresAt s) (sessions db) of
       None \<Rightarrow> Inl (AuthExternal ErrDatabase)
     | Some s \<Rightarrow>
         (case select_by user_ID (srow_UserID s) (users db) of
            None \<Rightarrow> Inl (AuthExternal ErrDatabase)
          | Some u \<Rightarrow> Inr \<lparr>ses_User = User.truncate u, ses_ExpiresAt = srow_ExpiresAt s,
              ses_CSRFHash = srow_CSRFHash s\<rparr>))"

definition DeleteSession ::
  "env \<Rightarrow> 8 word list \<Rightarrow> 'z auth_db_scheme \<Rightarrow> (auth_error, unit, 'z auth_db_scheme) outcome" where
  "DeleteSession E tokenHash db =
    (if fails E 0 then (Inl (AuthExternal ErrDatabase), db)
     else (Inr (), db\<lparr>sessions := delete_where (\<lambda>s. srow_TokenHash s = tokenHash) (sessions db)\<rparr>))"

definition CreateOIDCFlow ::
  "env \<Rightarrow> 8 word list \<Rightarrow> string \<Rightarrow> string \<Rightarrow> time \<Rightarrow> 'z auth_db_scheme \<Rightarrow>
   (auth_error, unit, 'z auth_db_scheme) outcome" where
  "CreateOIDCFlow E stateHash verifier returnTo expiresAt db =
    (if fails E 0 \<or> stateHash \<in> frow_StateHash ` set (oidc_flows db) then (Inl (AuthExternal ErrDatabase), db)
     else (Inr (), db\<lparr>oidc_flows := oidc_flows db @ [\<lparr>frow_StateHash = stateHash,
       frow_Flow = \<lparr>flow_Verifier = verifier, flow_ReturnTo = returnTo\<rparr>,
       frow_ExpiresAt = expiresAt\<rparr>]\<rparr>))"

definition ConsumeOIDCFlow ::
  "env \<Rightarrow> 8 word list \<Rightarrow> time \<Rightarrow> 'z auth_db_scheme \<Rightarrow> (auth_error, OIDCFlow, 'z auth_db_scheme) outcome" where
  "ConsumeOIDCFlow E stateHash now db =
    (let sel = (\<lambda>f. frow_StateHash f = stateHash \<and> now < frow_ExpiresAt f)
     in if fails E 0 \<or> fails E 1 then (Inl (AuthExternal ErrDatabase), db)
        else case find sel (oidc_flows db) of
          None \<Rightarrow> (Inl (AuthExternal ErrDatabase), db)
        | Some f \<Rightarrow>
            if fails E 2 then (Inl (AuthExternal ErrDatabase), db)
            else (Inr (frow_Flow f), db\<lparr>oidc_flows := delete_where sel (oidc_flows db)\<rparr>))"

definition ListUsers :: "env \<Rightarrow> 'z auth_db_scheme \<Rightarrow> auth_error + User list" where
  "ListUsers E db =
    (if fails E 0 then Inl (AuthExternal ErrDatabase)
     else Inr (map User.truncate (sort_key user_CreatedAt (users db))))"

section \<open>The service (auth.go)\<close>

definition Bootstrap ::
  "crypto \<Rightarrow> env \<Rightarrow> string \<Rightarrow> string \<Rightarrow> 'z auth_db_scheme \<Rightarrow> (auth_error, User, 'z auth_db_scheme) outcome" where
  "Bootstrap C E email password db =
    (case normalizeEmail C email of
       Inl _ \<Rightarrow> (Inl ErrInvalidCredential, db)
     | Inr addr \<Rightarrow>
         if length password < 12 then (Inl ErrInvalidCredential, db)
         else (case bcrypt_hash C password of
           None \<Rightarrow> (Inl (AuthExternal ErrEntropy), db)
         | Some passwordHash \<Rightarrow>
             (case newID E 0 of
               None \<Rightarrow> (Inl AuthPanic, db)
             | Some newId \<Rightarrow>
                 let user = \<lparr>user_ID = newId, user_Email = addr, user_DisplayName = displayName addr,
                   user_Role = RoleAdmin, user_AuthSource = ''local'', user_Active = True,
                   user_CreatedAt = clock E\<rparr>
                 in (case BootstrapAdmin E user passwordHash db of
                   (Inl e, db') \<Rightarrow> (Inl e, db')
                 | (Inr _, db') \<Rightarrow> (Inr user, db')))))"

definition createSession ::
  "crypto \<Rightarrow> env \<Rightarrow> duration \<Rightarrow> User \<Rightarrow> 'z auth_db_scheme \<Rightarrow>
   (auth_error, User \<times> string \<times> string, 'z auth_db_scheme) outcome" where
  "createSession C E ttl user db =
    (case randomToken E 1 32 of
       None \<Rightarrow> (Inl (AuthExternal ErrEntropy), db)
     | Some sessionToken \<Rightarrow>
         (case randomToken E 2 32 of
            None \<Rightarrow> (Inl (AuthExternal ErrEntropy), db)
          | Some csrfToken \<Rightarrow>
              (case CreateSession E (digest C sessionToken) (digest C csrfToken) (user_ID user)
                  (clock E + ttl) db of
                 (Inl e, db') \<Rightarrow> (Inl e, db')
               | (Inr _, db') \<Rightarrow> (Inr (user, sessionToken, csrfToken), db'))))"

definition LoginLocal ::
  "crypto \<Rightarrow> env \<Rightarrow> duration \<Rightarrow> string \<Rightarrow> string \<Rightarrow> 'z auth_db_scheme \<Rightarrow>
   (auth_error, User \<times> string \<times> string, 'z auth_db_scheme) outcome" where
  "LoginLocal C E ttl email password db =
    (case normalizeEmail C email of
       Inl _ \<Rightarrow> (Inl ErrInvalidCredential, db)
     | Inr normalized \<Rightarrow>
         (case FindLocalUser E normalized db of
            Inl _ \<Rightarrow> (Inl ErrInvalidCredential, db)
          | Inr (user, passwordHash) \<Rightarrow>
              if \<not> user_Active user \<or> \<not> bcrypt_ok C passwordHash password
              then (Inl ErrInvalidCredential, db)
              else createSession C E ttl user db))"

definition Reauthenticate ::
  "crypto \<Rightarrow> env \<Rightarrow> User \<Rightarrow> string \<Rightarrow> 'z auth_db_scheme \<Rightarrow> auth_error + unit" where
  "Reauthenticate C E user password db =
    (if user_AuthSource user \<noteq> ''local'' \<or> blank password then Inl ErrInvalidCredential
     else case FindLocalUser E (user_Email user) db of
       Inl _ \<Rightarrow> Inl ErrInvalidCredential
     | Inr (stored, hash) \<Rightarrow>
         if \<not> user_Active stored \<or> user_ID stored \<noteq> user_ID user \<or> \<not> bcrypt_ok C hash password
         then Inl ErrInvalidCredential else Inr ())"

definition LoginOIDC ::
  "crypto \<Rightarrow> env \<Rightarrow> duration \<Rightarrow> Identity \<Rightarrow> 'z auth_db_scheme \<Rightarrow>
   (auth_error, User \<times> string \<times> string, 'z auth_db_scheme) outcome" where
  "LoginOIDC C E ttl identity db =
    (case normalizeEmail C (id_Email identity) of
       Inl _ \<Rightarrow> (Inl ErrInvalidCredential, db)
     | Inr email \<Rightarrow>
         if id_Subject identity = [] \<or> \<not> id_EmailVerified identity then (Inl ErrInvalidCredential, db)
         else (case newID E 0 of
           None \<Rightarrow> (Inl AuthPanic, db)
         | Some newId \<Rightarrow>
             (case UpsertOIDCUser E \<lparr>user_ID = newId, user_Email = email,
                 user_DisplayName = TrimSpace (id_Name identity), user_Role = RoleDeveloper,
                 user_AuthSource = ''oidc'', user_Active = True, user_CreatedAt = clock E\<rparr>
                 (id_Subject identity) db of
                (Inl e, db') \<Rightarrow> (Inl e, db')
              | (Inr user, db') \<Rightarrow> createSession C E ttl user db')))"

definition Authenticate :: "crypto \<Rightarrow> env \<Rightarrow> string \<Rightarrow> 'z auth_db_scheme \<Rightarrow> auth_error + Session" where
  "Authenticate C E sessionToken db =
    (if sessionToken = [] then Inl ErrUnauthenticated
     else case FindSession E (digest C sessionToken) (clock E) db of
       Inl _ \<Rightarrow> Inl ErrUnauthenticated
     | Inr session \<Rightarrow> if \<not> user_Active (ses_User session) then Inl ErrUnauthenticated else Inr session)"

definition Logout ::
  "crypto \<Rightarrow> env \<Rightarrow> string \<Rightarrow> 'z auth_db_scheme \<Rightarrow> (auth_error, unit, 'z auth_db_scheme) outcome" where
  "Logout C E sessionToken db =
    (if sessionToken = [] then (Inr (), db) else DeleteSession E (digest C sessionToken) db)"

definition BeginOIDC ::
  "crypto \<Rightarrow> env \<Rightarrow> string \<Rightarrow> 'z auth_db_scheme \<Rightarrow>
   (auth_error, string \<times> string \<times> string, 'z auth_db_scheme) outcome" where
  "BeginOIDC C E returnTo0 db =
    (let returnTo = (if safeReturnTo returnTo0 then returnTo0 else ''/'')
     in case randomToken E 0 32 of
       None \<Rightarrow> (Inl (AuthExternal ErrEntropy), db)
     | Some state \<Rightarrow>
         (case randomToken E 1 48 of
            None \<Rightarrow> (Inl (AuthExternal ErrEntropy), db)
          | Some verifier \<Rightarrow>
              let challenge = RawURLEncode (sha256 C verifier)
              in (case CreateOIDCFlow E (digest C state) verifier returnTo (clock E + 10 * minute) db of
                (Inl e, db') \<Rightarrow> (Inl e, db')
              | (Inr _, db') \<Rightarrow> (Inr (state, verifier, challenge), db'))))"

definition ConsumeOIDC ::
  "crypto \<Rightarrow> env \<Rightarrow> string \<Rightarrow> 'z auth_db_scheme \<Rightarrow> (auth_error, OIDCFlow, 'z auth_db_scheme) outcome" where
  "ConsumeOIDC C E state db =
    (if state = [] then (Inl ErrInvalidFlow, db)
     else case ConsumeOIDCFlow E (digest C state) (clock E) db of
       (Inl _, db') \<Rightarrow> (Inl ErrInvalidFlow, db')
     | (Inr flow, db') \<Rightarrow> (Inr flow, db'))"

definition service_ListUsers :: "env \<Rightarrow> User \<Rightarrow> 'z auth_db_scheme \<Rightarrow> auth_error + User list" where
  "service_ListUsers E actor db =
    (if user_Role actor \<noteq> RoleAdmin then Inl ErrForbidden else ListUsers E db)"

definition SystemActor :: "env \<Rightarrow> 'z auth_db_scheme \<Rightarrow> auth_error + User" where
  "SystemActor E db =
    (case ListUsers E db of
       Inl e \<Rightarrow> Inl e
     | Inr us \<Rightarrow>
         (case find (\<lambda>u. user_Active u \<and> (user_Role u = RoleAdmin \<or> user_Role u = RoleMaintainer)) us of
            None \<Rightarrow> Inl ErrForbidden | Some u \<Rightarrow> Inr u))"

section \<open>Helper lemmas\<close>

lemma or_xor_zero: "d OR (x XOR y) = 0 \<longleftrightarrow> d = 0 \<and> x = y" for d x y :: "8 word"
  by (metis (no_types, opaque_lifting) or.left_neutral or_eq_0_iff xor_self_eq bit.xor_left_self
      xor.right_neutral xor.left_neutral)

lemma subtle_fold:
  "foldl (\<lambda>d (l, r). d OR (l XOR r)) d0 ps = 0 \<longleftrightarrow> d0 = 0 \<and> (\<forall>(l, r) \<in> set ps. l = r)" for d0 :: "8 word"
  by (induction ps arbitrary: d0) (auto simp: or_xor_zero)

lemma subtleCompare_iff: "length xs = length ys \<Longrightarrow> subtleCompare xs ys \<longleftrightarrow> xs = ys"
  unfolding subtleCompare_def subtle_fold by (induction rule: list_induct2) auto

lemma RawURLEncode_nonempty: "bs \<noteq> [] \<Longrightarrow> RawURLEncode bs \<noteq> []"
  by (cases bs rule: RawURLEncode.cases) (auto simp: Let_def)

lemma randomToken_nonempty: "randomToken E n len = Some tok \<Longrightarrow> 0 < len \<Longrightarrow> tok \<noteq> []"
  by (auto simp: randomToken_def dest!: rand_read_length intro!: RawURLEncode_nonempty)

section \<open>Histories\<close>

text \<open>
  A step is one call of the service. The roles are those the code assigns: nothing in it changes the role of an
  existing user.
\<close>

definition auth_empty :: "'z auth_db_scheme \<Rightarrow> bool" where
  "auth_empty db \<longleftrightarrow> users db = [] \<and> sessions db = [] \<and> oidc_flows db = []"

inductive auth_step :: "'z auth_db_scheme \<Rightarrow> 'z auth_db_scheme \<Rightarrow> bool" where
  as_bootstrap: "Bootstrap C E email password db = (ru, db') \<Longrightarrow> auth_step db db'"
| as_local: "LoginLocal C E ttl email password db = (rl, db') \<Longrightarrow> auth_step db db'"
| as_oidc: "LoginOIDC C E ttl identity db = (rl, db') \<Longrightarrow> auth_step db db'"
| as_logout: "Logout C E token db = (rn, db') \<Longrightarrow> auth_step db db'"
| as_begin: "BeginOIDC C E returnTo db = (rb, db') \<Longrightarrow> auth_step db db'"
| as_consume: "ConsumeOIDC C E state db = (rf, db') \<Longrightarrow> auth_step db db'"

definition users_wf :: "UserRow list \<Rightarrow> bool" where
  "users_wf us \<longleftrightarrow> distinct (map user_ID us) \<and> distinct (map user_Email us) \<and>
     length (filter (\<lambda>u. user_Role u = RoleAdmin) us) \<le> 1 \<and>
     (\<forall>u \<in> set us. if user_AuthSource u = ''local'' then user_Role u = RoleAdmin
        else user_AuthSource u = ''oidc'' \<and> user_Role u = RoleDeveloper)"

definition auth_inv :: "'z auth_db_scheme \<Rightarrow> bool" where
  "auth_inv db \<longleftrightarrow> users_wf (users db) \<and>
     distinct (map srow_TokenHash (sessions db)) \<and>
     distinct (map frow_StateHash (oidc_flows db)) \<and>
     (\<forall>f \<in> set (oidc_flows db). safeReturnTo (flow_ReturnTo (frow_Flow f)))"

lemma users_wf_update:
  assumes "users_wf us" "\<And>u. user_ID (f u) = user_ID u" "\<And>u. user_Email (f u) = user_Email u"
    "\<And>u. user_Role (f u) = user_Role u" "\<And>u. user_AuthSource (f u) = user_AuthSource u"
  shows "users_wf (update_where P f us)"
proof -
  have "length (filter (\<lambda>u. user_Role u = RoleAdmin) (update_where P f us)) =
      length (filter (\<lambda>u. user_Role u = RoleAdmin) us)"
    using assms(4) by (induction us) auto
  with assms show ?thesis
    by (auto simp: users_wf_def map_update_where set_update_where)
qed

lemma createSession_inv:
  "auth_inv db \<Longrightarrow> createSession C E ttl u db = (r, db') \<Longrightarrow> auth_inv db' \<and> users db' = users db"
  by (auto simp: auth_inv_def createSession_def CreateSession_def split: option.splits prod.splits sum.splits if_splits)

lemma BootstrapAdmin_inv:
  assumes "auth_inv db" "BootstrapAdmin E u h db = (r, db')" "user_Role u = RoleAdmin"
  shows "auth_inv db'"
proof (cases "list_ex (\<lambda>u. user_Role u = RoleAdmin) (users db)")
  case False
  then have "filter (\<lambda>u. user_Role u = RoleAdmin) (users db) = []"
    by (auto simp: list_ex_iff filter_empty_conv)
  with assms show ?thesis
    by (auto simp: BootstrapAdmin_def auth_inv_def users_wf_def list_ex_iff split: if_splits) blast+
qed (use assms in \<open>auto simp: BootstrapAdmin_def split: if_splits\<close>)

lemma Bootstrap_inv:
  assumes "auth_inv db" "Bootstrap C E email password db = (r, db')"
  shows "auth_inv db'"
  using assms
  by (auto simp: Bootstrap_def Let_def split: sum.splits option.splits if_splits prod.splits
      intro: BootstrapAdmin_inv)

lemma UpsertOIDCUser_inv:
  assumes "auth_inv db" "UpsertOIDCUser E u subject db = (r, db')" "user_Role u = RoleDeveloper"
  shows "auth_inv db'"
proof (cases "find (\<lambda>u. user_AuthSource u = ''oidc'' \<and> row_Subject u = Some subject) (users db)")
  case None
  with assms show ?thesis
    by (auto simp: UpsertOIDCUser_def auth_inv_def users_wf_def list_ex_iff Let_def split: if_splits) blast+
next
  case (Some row)
  with assms show ?thesis
    by (auto simp: UpsertOIDCUser_def auth_inv_def Let_def split: if_splits intro!: users_wf_update)
qed

lemma auth_step_inv: "auth_step db db' \<Longrightarrow> auth_inv db \<Longrightarrow> auth_inv db'"
proof (induction rule: auth_step.induct)
  case (as_bootstrap C E email password db ru db')
  then show ?case by (blast intro: Bootstrap_inv)
next
  case (as_local C E ttl email password db rl db')
  then show ?case
    by (auto simp: LoginLocal_def split: sum.splits prod.splits if_splits dest: createSession_inv)
next
  case (as_oidc C E ttl identity db rl db')
  show ?case
  proof (cases "db' = db")
    case False
    with as_oidc obtain u r1 db1 where "UpsertOIDCUser E u (id_Subject identity) db = (r1, db1)"
        "user_Role u = RoleDeveloper" and last: "db' = db1 \<or> (\<exists>v. createSession C E ttl v db1 = (rl, db'))"
      unfolding LoginOIDC_def by (auto split: sum.splits option.splits prod.splits if_splits intro: that)
    with as_oidc have "auth_inv db1" by (blast intro: UpsertOIDCUser_inv)
    with last show ?thesis by (auto dest: createSession_inv)
  qed (use as_oidc in simp)
next
  case (as_logout C E token db rn db')
  then show ?case
    by (auto simp: Logout_def DeleteSession_def auth_inv_def intro: distinct_delete_where split: if_splits)
next
  case (as_begin C E returnTo db rb db')
  have "safeReturnTo ''/''" by code_simp
  with as_begin show ?case
    by (auto simp: BeginOIDC_def CreateOIDCFlow_def auth_inv_def Let_def split: option.splits sum.splits prod.splits if_splits)
next
  case (as_consume C E state db rf db')
  then show ?case
    by (auto simp: ConsumeOIDC_def ConsumeOIDCFlow_def auth_inv_def Let_def set_delete_where
        intro: distinct_delete_where split: option.splits sum.splits prod.splits if_splits)
qed

lemma auth_empty_inv: "auth_empty db \<Longrightarrow> auth_inv db"
  by (simp add: auth_empty_def auth_inv_def users_wf_def)

interpretation identity: transition_system auth_empty auth_step auth_inv
  by unfold_locales (auto intro: auth_empty_inv auth_step_inv)

lemma find_append_new: "\<forall>x \<in> set xs. \<not> P x \<Longrightarrow> find P (xs @ ys) = find P ys"
  by (induction xs) auto

lemma FindLocalUser_row:
  "FindLocalUser E email db = Inr (u, h) \<Longrightarrow> \<exists>row \<in> set (users db). u = User.truncate row"
  by (auto simp: FindLocalUser_def find_Some_iff split: if_splits option.splits)

lemma createSession_effect:
  assumes "createSession C E ttl u db = (Inr (user, token, csrf), db')"
  shows "user = u \<and> token \<noteq> [] \<and> digest C token \<notin> srow_TokenHash ` set (sessions db) \<and>
    db' = db\<lparr>sessions := sessions db @ [\<lparr>srow_TokenHash = digest C token, srow_CSRFHash = digest C csrf,
      srow_UserID = user_ID u, srow_ExpiresAt = clock E + ttl\<rparr>]\<rparr>"
  using assms
  by (auto simp: createSession_def CreateSession_def split: option.splits prod.splits sum.splits if_splits
      dest: randomToken_nonempty)

section \<open>A sample history\<close>

definition sample_crypto :: crypto where
  "sample_crypto = \<lparr>sha256 = map of_char, bcrypt_hash = Some \<circ> map of_char,
     bcrypt_ok = (\<lambda>h p. h = map of_char p), parse_address = Some, unicode_lower = (\<lambda>s. s)\<rparr>"

definition zero_env :: "time \<Rightarrow> env" where
  "zero_env t = quiet_env t (\<lambda>_. Some (\<lambda>_. 0))"

definition sample_auth0 :: auth_db where
  "sample_auth0 = \<lparr>users = [], sessions = [], oidc_flows = []\<rparr>"

definition sample_auth1 :: auth_db where
  "sample_auth1 = snd (Bootstrap sample_crypto (zero_env 5) ''root@x'' ''correct horse'' sample_auth0)"

definition sample_auth2 :: auth_db where
  "sample_auth2 = snd (BeginOIDC sample_crypto (zero_env 6) ''//evil'' sample_auth1)"

lemma sample_auth_steps:
  "reachable auth_empty auth_step sample_auth1" "reachable auth_empty auth_step sample_auth2"
proof -
  have 0: "reachable auth_empty auth_step sample_auth0"
    by (rule reach_start) (simp add: auth_empty_def sample_auth0_def)
  have 1: "auth_step sample_auth0 sample_auth1"
    unfolding sample_auth1_def by (rule as_bootstrap) (rule prod.collapse [symmetric])
  have 2: "auth_step sample_auth1 sample_auth2"
    unfolding sample_auth2_def by (rule as_begin) (rule prod.collapse [symmetric])
  from 0 1 2 show "reachable auth_empty auth_step sample_auth1" "reachable auth_empty auth_step sample_auth2"
    by (blast intro: reach_step)+
qed

section \<open>Properties\<close>

text \<open>
  C7. Whatever logins, bootstrap attempts and OIDC callbacks arrive, and in whatever order, at most one administrator account ever
  exists, it is the local account the bootstrap created, and every account that OIDC provisions is a developer and stays one:
  no path of the service raises a role.
\<close>

theorem no_privilege_escalation:
  assumes "reachable auth_empty auth_step db"
  shows "length (filter (\<lambda>u. user_Role u = RoleAdmin) (users db)) \<le> 1 \<and>
    (\<forall>u \<in> set (users db). if user_AuthSource u = ''local'' then user_Role u = RoleAdmin
       else user_AuthSource u = ''oidc'' \<and> user_Role u = RoleDeveloper)"
  using identity.reachable_inv [OF assms] by (simp add: auth_inv_def users_wf_def)

theorem no_privilege_escalation_witness:
  "length (filter (\<lambda>u. user_Role u = RoleAdmin) (users sample_auth2)) \<le> 1"
  using no_privilege_escalation [OF sample_auth_steps(2)] by simp

text \<open>
  A successful local login yields a session that authenticates: until the session's lifetime is over the returned token
  authenticates as the user that logged in (with the database up), its CSRF token, and only a token with the same digest, verifies,
  and after a successful logout the token no longer authenticates.
\<close>

theorem session_lifecycle:
  assumes "reachable auth_empty auth_step db" "LoginLocal C E ttl email password db = (Inr (user, token, csrf), db1)"
    and "clock E2 < clock E + ttl" "\<not> fails E2 0" "Logout C E3 token db1 = (Inr (), db2)"
  shows "(\<exists>session. Authenticate C E2 token db1 = Inr session \<and> ses_User session = user \<and>
      (\<forall>v. VerifyCSRF C session v \<longleftrightarrow> v \<noteq> [] \<and> digest C v = digest C csrf)) \<and>
    Authenticate C E4 token db2 = Inl ErrUnauthenticated"
proof -
  have inv: "auth_inv db" using assms(1) by (rule identity.reachable_inv)
  let ?s = "\<lparr>srow_TokenHash = digest C token, srow_CSRFHash = digest C csrf, srow_UserID = user_ID user,
      srow_ExpiresAt = clock E + ttl\<rparr>"
  from assms(2) obtain u h where "FindLocalUser E (projr (normalizeEmail C email)) db = Inr (u, h)" "user_Active u"
    and cs: "createSession C E ttl u db = (Inr (user, token, csrf), db1)"
    by (auto simp: LoginLocal_def split: sum.splits prod.splits if_splits)
  with createSession_effect [OF cs] obtain row where user: "row \<in> set (users db)" "user = User.truncate row" "user_Active user"
    and new: "db1 = db\<lparr>sessions := sessions db @ [?s]\<rparr>" "digest C token \<notin> srow_TokenHash ` set (sessions db)"
    and token: "token \<noteq> []"
    by (auto dest: FindLocalUser_row)
  have sel: "select_by user_ID (user_ID user) (users db) = Some row"
    using select_by_unique [of user_ID "users db" row] user inv
    by (simp add: auth_inv_def users_wf_def User.truncate_def)
  have "find (\<lambda>s. srow_TokenHash s = digest C token \<and> clock E2 < srow_ExpiresAt s) (sessions db @ [?s]) = Some ?s"
    using new(2) assms(3) by (subst find_append_new) (auto simp: image_iff)
  then have "Authenticate C E2 token db1 =
      Inr \<lparr>ses_User = user, ses_ExpiresAt = clock E + ttl, ses_CSRFHash = digest C csrf\<rparr>"
    using token assms(4) sel user by (simp add: Authenticate_def FindSession_def new)
  moreover have "sessions db2 = delete_where (\<lambda>s. srow_TokenHash s = digest C token) (sessions db1)"
    using assms(5) token by (auto simp: Logout_def DeleteSession_def split: if_splits)
  then have "find (\<lambda>s. srow_TokenHash s = digest C token \<and> t < srow_ExpiresAt s) (sessions db2) = None" for t
    by (auto simp: find_None_iff set_delete_where)
  then have "Authenticate C E4 token db2 = Inl ErrUnauthenticated"
    by (auto simp: Authenticate_def FindSession_def)
  ultimately show ?thesis
    by (auto simp: VerifyCSRF_def Let_def subtleCompare_iff)
qed

theorem session_lifecycle_witness:
  "\<exists>user token csrf session db1.
     LoginLocal sample_crypto (zero_env 10) 100 ''Root@x'' ''correct horse'' sample_auth1 = (Inr (user, token, csrf), db1) \<and>
     Authenticate sample_crypto (zero_env 50) token db1 = Inr session \<and> ses_User session = user"
proof -
  let ?l = "LoginLocal sample_crypto (zero_env 10) 100 ''Root@x'' ''correct horse'' sample_auth1"
  let ?token = "fst (snd (projr (fst ?l)))"
  have ok: "\<not> isl (fst ?l)" by code_simp
  then have l: "?l = (Inr (fst (projr (fst ?l)), ?token, snd (snd (projr (fst ?l)))), snd ?l)"
    using outcome_Inr [OF ok] by simp
  have "fst (Logout sample_crypto (zero_env 60) ?token (snd ?l)) = Inr ()" by code_simp
  then have lo: "Logout sample_crypto (zero_env 60) ?token (snd ?l) =
      (Inr (), snd (Logout sample_crypto (zero_env 60) ?token (snd ?l)))"
    by (metis prod.collapse)
  have t: "clock (zero_env 50) < clock (zero_env 10) + 100" "\<not> fails (zero_env 50) 0"
    by (simp_all add: zero_env_def)
  from session_lifecycle [OF sample_auth_steps(1) l t lo] l show ?thesis by blast
qed

text \<open>
  An OIDC flow is good for one callback: once its state value was consumed, consuming it again fails with
  \<open>ErrInvalidFlow\<close> and changes nothing, and the address a flow redirects to is always a path on this server, even when the login
  was started with a foreign \<open>returnTo\<close>.
\<close>

theorem oidc_flow_once:
  assumes "reachable auth_empty auth_step db" "ConsumeOIDC C E state db = (Inr flow, db')"
  shows "safeReturnTo (flow_ReturnTo flow) \<and>
    (clock E \<le> clock E2 \<longrightarrow> ConsumeOIDC C E2 state db' = (Inl ErrInvalidFlow, db'))"
proof -
  have inv: "auth_inv db" using assms(1) by (rule identity.reachable_inv)
  let ?sel = "\<lambda>f. frow_StateHash f = digest C state \<and> clock E < frow_ExpiresAt f"
  from assms(2) obtain f where f: "find ?sel (oidc_flows db) = Some f" "flow = frow_Flow f"
      "db' = db\<lparr>oidc_flows := delete_where ?sel (oidc_flows db)\<rparr>"
    by (auto simp: ConsumeOIDC_def ConsumeOIDCFlow_def Let_def
        split: if_splits option.splits prod.splits sum.splits)
  then have "f \<in> set (oidc_flows db)" by (auto simp: find_Some_iff)
  with inv f have "safeReturnTo (flow_ReturnTo flow)" by (simp add: auth_inv_def)
  moreover have "find (\<lambda>f. frow_StateHash f = digest C state \<and> clock E2 < frow_ExpiresAt f) (oidc_flows db') = None"
    if "clock E \<le> clock E2"
    using that f(3) by (auto simp: find_None_iff set_delete_where)
  ultimately show ?thesis
    by (auto simp: ConsumeOIDC_def ConsumeOIDCFlow_def Let_def)
qed

theorem oidc_flow_once_witness:
  "\<exists>state flow db'. ConsumeOIDC sample_crypto (zero_env 7) state sample_auth2 = (Inr flow, db') \<and>
     flow_ReturnTo flow = ''/'' \<and>
     ConsumeOIDC sample_crypto (zero_env 8) state db' = (Inl ErrInvalidFlow, db')"
proof -
  let ?state = "fst (projr (fst (BeginOIDC sample_crypto (zero_env 6) ''//evil'' sample_auth1)))"
  let ?c = "ConsumeOIDC sample_crypto (zero_env 7) ?state sample_auth2"
  have ok: "\<not> isl (fst ?c)" "flow_ReturnTo (projr (fst ?c)) = ''/''" by code_simp+
  have "clock (zero_env 7) \<le> clock (zero_env 8)" by (simp add: zero_env_def)
  with oidc_flow_once [OF sample_auth_steps(2) outcome_Inr [OF ok(1)]] outcome_Inr [OF ok(1)] ok(2)
  show ?thesis by blast
qed

end
