(* ===== verification/Approvals.thy ===== *)
theory Approvals
  imports Tasks Auth
begin

unbundle bit_operations_syntax

text \<open>
  The approval gate of \<open>src/server/internal/approvals\<close>: actions, states and validation (types.go), the PostgreSQL
  store (store.go) over the table of migration 000006, and the service with its audit trail (service.go).

  JSON is a parameter: \<open>network\<close> decodes the metadata of a network approval (\<open>None\<close> when it is not valid
  JSON of that shape), and \<open>marshal\<close> is \<open>json.Marshal\<close> of the metadata map of an audit event. The store
  of the service keeps its table in the database of the task store, where the audit events are.
\<close>

section \<open>Vocabulary and validation (types.go)\<close>

datatype Action = ActionRepairPlan | ActionPublishPatch | ActionSandboxNetwork | ActionOther string

datatype Risk = RiskLow | RiskMedium | RiskHigh | RiskCritical | RiskOther string

datatype State = StatePending | StateApproved | StateRejected | StateExpired | StateCancelled
  | StateConsumed | StateOther string

datatype approval_error = ErrInvalidAction | ErrInvalidRisk | ErrInvalidState | ErrInvalidStateOf State
  | ErrInvalidDigest | ErrInvalidExpiry | ErrInvalidIdempotency | ErrForbidden | ErrNotFound
  | ErrAlreadyDecided | ErrExpired | ErrRejected | ErrCancelled | ErrConsumed | ErrDigestMismatch
  | ErrIdempotencyConflict | ApprovalMessage string | ApprovalExternal external_error

record Request =
  req_ID :: string
  req_Action :: Action
  req_State :: State
  req_Risk :: Risk
  req_ActionDigest :: string
  req_RequesterID :: string
  req_EligibleRoles :: "Role list"
  req_RequestedAt :: time
  req_ExpiresAt :: time
  req_DecisionIdempotencyKey :: string
  req_DecisionActorID :: string
  req_DecisionReason :: string
  req_DecidedAt :: "time option"
  req_ConsumptionIdempotencyKey :: string
  req_ConsumedBy :: string
  req_ConsumedAt :: "time option"
  req_CancelledBy :: string
  req_CancelReason :: string
  req_CancelledAt :: "time option"
  req_Metadata :: json
  req_UpdatedAt :: time

record CreateInput =
  ci_Action :: Action
  ci_Risk :: Risk
  ci_ActionDigest :: string
  ci_RequesterID :: string
  ci_EligibleRoles :: "Role list"
  ci_ExpiresAt :: time
  ci_Metadata :: "json option"
  ci_RequestedAt :: time

record DecisionInput =
  di_ApprovalID :: string
  di_Actor :: User
  di_Decision :: State
  di_Reason :: string
  di_IdempotencyKey :: string
  di_Now :: time

record ConsumeInput =
  coi_ApprovalID :: string
  coi_ActorID :: string
  coi_ActionDigest :: string
  coi_IdempotencyKey :: string
  coi_Now :: time

record CancelInput =
  cai_ApprovalID :: string
  cai_Actor :: User
  cai_Reason :: string
  cai_Now :: time

record ListFilter =
  alf_State :: State
  alf_Limit :: int

record NetworkPolicy =
  np_Destinations :: "string list"
  np_NetworkPolicy :: string

fun ValidAction :: "Action \<Rightarrow> bool" where
  "ValidAction (ActionOther _) = False"
| "ValidAction _ = True"

fun ValidRisk :: "Risk \<Rightarrow> bool" where
  "ValidRisk (RiskOther _) = False"
| "ValidRisk _ = True"

fun ValidState :: "State \<Rightarrow> bool" where
  "ValidState (StateOther _) = False"
| "ValidState _ = True"

fun allowed :: "State \<Rightarrow> State list" where
  "allowed StatePending = [StateApproved, StateRejected, StateExpired, StateCancelled]"
| "allowed StateApproved = [StateConsumed, StateCancelled]"
| "allowed _ = []"

definition CanTransition :: "State \<Rightarrow> State \<Rightarrow> bool" where
  "CanTransition from to \<longleftrightarrow> to \<in> set (allowed from)"

definition digestPattern :: "string \<Rightarrow> bool" where
  "digestPattern s \<longleftrightarrow> length s = 64 \<and> is_hex s"

definition ValidateActionDigest :: "string \<Rightarrow> bool" where
  "ValidateActionDigest value = digestPattern (TrimSpace value)"

definition validateNetworkMetadata :: "(json \<Rightarrow> NetworkPolicy option) \<Rightarrow> json option \<Rightarrow> approval_error option" where
  "validateNetworkMetadata network raw =
    (case (case raw of None \<Rightarrow> None | Some r \<Rightarrow> if r = [] then None else network r) of
       None \<Rightarrow> Some (ApprovalMessage ''sandbox network approval metadata is invalid'')
     | Some policy \<Rightarrow>
         if np_Destinations policy = [] \<or> length (np_Destinations policy) > 50 \<or> blank (np_NetworkPolicy policy)
         then Some (ApprovalMessage ''sandbox network approval requires destinations and network policy'')
         else if list_ex (\<lambda>d. let destination = TrimSpace d in
             destination = [] \<or> ContainsAny destination [CHR 0x0D, CHR 0x0A, CHR ''*'', CHR ''?''] \<or>
             length destination > 253) (np_Destinations policy)
         then Some (ApprovalMessage ''sandbox network destination is invalid'')
         else None)"

definition ValidateCreate ::
  "(json \<Rightarrow> NetworkPolicy option) \<Rightarrow> CreateInput \<Rightarrow> time \<Rightarrow> approval_error option" where
  "ValidateCreate network input now =
    (if \<not> ValidAction (ci_Action input) then Some ErrInvalidAction
     else if \<not> ValidRisk (ci_Risk input) then Some ErrInvalidRisk
     else if \<not> ValidateActionDigest (ci_ActionDigest input) then Some ErrInvalidDigest
     else if blank (ci_RequesterID input) then Some (ApprovalMessage ''approval requester is required'')
     else if IsZero (ci_ExpiresAt input) \<or> \<not> ci_ExpiresAt input > now then Some ErrInvalidExpiry
     else if ci_EligibleRoles input = [] then Some (ApprovalMessage ''approval eligible roles are required'')
     else if list_ex (\<lambda>role. role \<noteq> RoleAdmin \<and> role \<noteq> RoleMaintainer) (ci_EligibleRoles input)
     then Some ErrForbidden
     else if ci_Action input = ActionSandboxNetwork then validateNetworkMetadata network (ci_Metadata input)
     else None)"

definition validateIdempotencyKey :: "string \<Rightarrow> approval_error option" where
  "validateIdempotencyKey s =
    (let value = TrimSpace s
     in if length value < 8 \<or> length value > 200 \<or> ContainsAny value [CHR 0x0D, CHR 0x0A]
        then Some ErrInvalidIdempotency else None)"

definition IsExpired :: "Request \<Rightarrow> time \<Rightarrow> bool" where
  "IsExpired r now \<longleftrightarrow> req_State r = StatePending \<and> \<not> req_ExpiresAt r > now"

definition CanConsume :: "Request \<Rightarrow> time \<Rightarrow> approval_error option" where
  "CanConsume r now =
    (if IsExpired r now then Some ErrExpired
     else case req_State r of
       StateApproved \<Rightarrow> None
     | StateRejected \<Rightarrow> Some ErrRejected
     | StateCancelled \<Rightarrow> Some ErrCancelled
     | StateConsumed \<Rightarrow> Some ErrConsumed
     | StateExpired \<Rightarrow> Some ErrExpired
     | s \<Rightarrow> Some (ErrInvalidStateOf s))"

section \<open>The store (store.go)\<close>

record approvals_db = tasks_db +
  approval_requests :: "Request list"

definition newID :: "env \<Rightarrow> nat \<Rightarrow> string option" where
  "newID E n = map_option (\<lambda>v. format_uuid
     (v[6 := ((v ! 6) AND 0x0f) OR 0x40, 8 := ((v ! 8) AND 0x3f) OR 0x80])) (rand_read E n 16)"

definition store_Create ::
  "env \<Rightarrow> CreateInput \<Rightarrow> 'z approvals_db_scheme \<Rightarrow> (approval_error, Request, 'z approvals_db_scheme) outcome" where
  "store_Create E input db =
    (let metadata = (case ci_Metadata input of None \<Rightarrow> ''{}'' | Some m \<Rightarrow> m);
       requestedAt = (if IsZero (ci_RequestedAt input) then clock E else ci_RequestedAt input)
     in case newID E 0 of
       None \<Rightarrow> (Inl (ApprovalExternal ErrEntropy), db)
     | Some newId \<Rightarrow>
         let request = \<lparr>req_ID = newId, req_Action = ci_Action input, req_State = StatePending,
           req_Risk = ci_Risk input, req_ActionDigest = TrimSpace (ci_ActionDigest input),
           req_RequesterID = ci_RequesterID input, req_EligibleRoles = ci_EligibleRoles input,
           req_RequestedAt = requestedAt, req_ExpiresAt = ci_ExpiresAt input,
           req_DecisionIdempotencyKey = [], req_DecisionActorID = [], req_DecisionReason = [],
           req_DecidedAt = None, req_ConsumptionIdempotencyKey = [], req_ConsumedBy = [],
           req_ConsumedAt = None, req_CancelledBy = [], req_CancelReason = [],
           req_CancelledAt = None, req_Metadata = metadata, req_UpdatedAt = db_clock E\<rparr>
         in if fails E 0 \<or> newId \<in> req_ID ` set (approval_requests db)
            then (Inl (ApprovalExternal ErrDatabase), db)
            else (Inr request, db\<lparr>approval_requests := approval_requests db @ [request]\<rparr>))"

definition store_Get :: "env \<Rightarrow> string \<Rightarrow> 'z approvals_db_scheme \<Rightarrow> approval_error + Request" where
  "store_Get E ident db =
    (if fails E 0 then Inl (ApprovalExternal ErrDatabase)
     else case select_by req_ID ident (approval_requests db) of
       None \<Rightarrow> Inl ErrNotFound | Some request \<Rightarrow> Inr request)"

definition store_List :: "env \<Rightarrow> ListFilter \<Rightarrow> 'z approvals_db_scheme \<Rightarrow> approval_error + Request list" where
  "store_List E flt db =
    (if fails E 0 then Inl (ApprovalExternal ErrDatabase)
     else Inr (order_limit (\<lambda>r. - req_RequestedAt r) (page_limit (alf_Limit flt))
       (filter (\<lambda>r. alf_State flt = StateOther [] \<or> req_State r = alf_State flt) (approval_requests db))))"

definition stateDecisionError :: "State \<Rightarrow> approval_error" where
  "stateDecisionError s =
    (case s of StateExpired \<Rightarrow> ErrExpired | StateRejected \<Rightarrow> ErrRejected | StateCancelled \<Rightarrow> ErrCancelled
     | StateConsumed \<Rightarrow> ErrConsumed | _ \<Rightarrow> ErrAlreadyDecided)"

text \<open>
  Each of the three mutations writes one row: \<open>set_request\<close> is its \<open>UPDATE ... WHERE id\<close>, and
  \<open>expire_branch\<close> the branch they share, which commits the state expired and reports \<open>ErrExpired\<close>.
\<close>

definition set_request :: "string \<Rightarrow> (Request \<Rightarrow> Request) \<Rightarrow> 'z approvals_db_scheme \<Rightarrow> 'z approvals_db_scheme" where
  "set_request ident f db =
     db\<lparr>approval_requests := update_where (\<lambda>r. req_ID r = ident) f (approval_requests db)\<rparr>"

definition expire_request :: "time \<Rightarrow> Request \<Rightarrow> Request" where
  "expire_request now r = r\<lparr>req_State := StateExpired, req_UpdatedAt := now\<rparr>"

definition expire_branch ::
  "env \<Rightarrow> time \<Rightarrow> Request \<Rightarrow> 'z approvals_db_scheme \<Rightarrow> (approval_error, Request, 'z approvals_db_scheme) outcome" where
  "expire_branch E now request db =
    (if fails E 2 \<or> fails E 3 then (Inl (ApprovalExternal ErrDatabase), db)
     else (Inl ErrExpired, set_request (req_ID request) (expire_request now) db))"

definition decide_request :: "DecisionInput \<Rightarrow> Request \<Rightarrow> Request" where
  "decide_request input r = r\<lparr>req_State := di_Decision input,
     req_DecisionIdempotencyKey := di_IdempotencyKey input, req_DecisionActorID := user_ID (di_Actor input),
     req_DecisionReason := TrimSpace (di_Reason input), req_DecidedAt := Some (di_Now input),
     req_UpdatedAt := di_Now input\<rparr>"

definition store_Decide ::
  "env \<Rightarrow> DecisionInput \<Rightarrow> 'z approvals_db_scheme \<Rightarrow> (approval_error, Request, 'z approvals_db_scheme) outcome" where
  "store_Decide E input db =
    (if fails E 0 \<or> fails E 1 then (Inl (ApprovalExternal ErrDatabase), db)
     else case select_by req_ID (di_ApprovalID input) (approval_requests db) of
       None \<Rightarrow> (Inl ErrNotFound, db)
     | Some request \<Rightarrow>
         if req_DecisionIdempotencyKey request = di_IdempotencyKey input then
           if req_State request = StateApproved \<and> di_Decision input = StateApproved \<or>
              req_State request = StateRejected \<and> di_Decision input = StateRejected
           then if fails E 3 then (Inl (ApprovalExternal ErrDatabase), db) else (Inr request, db)
           else (Inl ErrIdempotencyConflict, db)
         else if IsExpired request (di_Now input) then expire_branch E (di_Now input) request db
         else if req_State request \<noteq> StatePending then (Inl (stateDecisionError (req_State request)), db)
         else if fails E 2 \<or> fails E 3 then (Inl (ApprovalExternal ErrDatabase), db)
         else (Inr (decide_request input request),
               set_request (req_ID request) (decide_request input) db))"

definition consume_request :: "ConsumeInput \<Rightarrow> Request \<Rightarrow> Request" where
  "consume_request input r = r\<lparr>req_State := StateConsumed,
     req_ConsumptionIdempotencyKey := coi_IdempotencyKey input, req_ConsumedBy := coi_ActorID input,
     req_ConsumedAt := Some (coi_Now input), req_UpdatedAt := coi_Now input\<rparr>"

definition store_Consume ::
  "env \<Rightarrow> ConsumeInput \<Rightarrow> 'z approvals_db_scheme \<Rightarrow> (approval_error, Request, 'z approvals_db_scheme) outcome" where
  "store_Consume E input db =
    (if fails E 0 \<or> fails E 1 then (Inl (ApprovalExternal ErrDatabase), db)
     else case select_by req_ID (coi_ApprovalID input) (approval_requests db) of
       None \<Rightarrow> (Inl ErrNotFound, db)
     | Some request \<Rightarrow>
         if req_ConsumptionIdempotencyKey request = coi_IdempotencyKey input then
           if req_ActionDigest request = coi_ActionDigest input \<and> req_State request = StateConsumed
           then if fails E 3 then (Inl (ApprovalExternal ErrDatabase), db) else (Inr request, db)
           else (Inl ErrIdempotencyConflict, db)
         else if IsExpired request (coi_Now input) then expire_branch E (coi_Now input) request db
         else (case CanConsume request (coi_Now input) of
           Some e \<Rightarrow> (Inl e, db)
         | None \<Rightarrow>
             if req_ActionDigest request \<noteq> coi_ActionDigest input then (Inl ErrDigestMismatch, db)
             else if fails E 2 \<or> fails E 3 then (Inl (ApprovalExternal ErrDatabase), db)
             else (Inr (consume_request input request),
                   set_request (req_ID request) (consume_request input) db)))"

definition cancel_request :: "CancelInput \<Rightarrow> Request \<Rightarrow> Request" where
  "cancel_request input r = r\<lparr>req_State := StateCancelled, req_CancelledBy := user_ID (cai_Actor input),
     req_CancelReason := TrimSpace (cai_Reason input), req_CancelledAt := Some (cai_Now input),
     req_UpdatedAt := cai_Now input\<rparr>"

definition store_Cancel ::
  "env \<Rightarrow> CancelInput \<Rightarrow> 'z approvals_db_scheme \<Rightarrow> (approval_error, Request, 'z approvals_db_scheme) outcome" where
  "store_Cancel E input db =
    (if fails E 0 \<or> fails E 1 then (Inl (ApprovalExternal ErrDatabase), db)
     else case select_by req_ID (cai_ApprovalID input) (approval_requests db) of
       None \<Rightarrow> (Inl ErrNotFound, db)
     | Some request \<Rightarrow>
         if IsExpired request (cai_Now input) then expire_branch E (cai_Now input) request db
         else if req_State request \<noteq> StatePending \<and> req_State request \<noteq> StateApproved
         then (Inl (stateDecisionError (req_State request)), db)
         else if fails E 2 \<or> fails E 3 then (Inl (ApprovalExternal ErrDatabase), db)
         else (Inr (cancel_request input request),
               set_request (req_ID request) (cancel_request input) db))"

section \<open>The service (service.go)\<close>

record approval_service =
  sv_audit :: bool
  sv_marshal :: "(string \<times> string) list \<Rightarrow> json"
  sv_network :: "json \<Rightarrow> NetworkPolicy option"

definition isPrivileged :: "Role \<Rightarrow> bool" where
  "isPrivileged role \<longleftrightarrow> role = RoleAdmin \<or> role = RoleMaintainer"

definition containsRole :: "Role list \<Rightarrow> Role \<Rightarrow> bool" where
  "containsRole roles wanted \<longleftrightarrow> list_ex (\<lambda>role. role = wanted) roles"

definition canDecide :: "User \<Rightarrow> Request \<Rightarrow> bool" where
  "canDecide actor request \<longleftrightarrow>
     isPrivileged (user_Role actor) \<and> containsRole (req_EligibleRoles request) (user_Role actor)"

fun action_string :: "Action \<Rightarrow> string" where
  "action_string ActionRepairPlan = ''repair_plan''"
| "action_string ActionPublishPatch = ''publish_patch''"
| "action_string ActionSandboxNetwork = ''sandbox_network''"
| "action_string (ActionOther s) = s"

fun risk_string :: "Risk \<Rightarrow> string" where
  "risk_string RiskLow = ''low''"
| "risk_string RiskMedium = ''medium''"
| "risk_string RiskHigh = ''high''"
| "risk_string RiskCritical = ''critical''"
| "risk_string (RiskOther s) = s"

fun state_string :: "State \<Rightarrow> string" where
  "state_string StatePending = ''pending''"
| "state_string StateApproved = ''approved''"
| "state_string StateRejected = ''rejected''"
| "state_string StateExpired = ''expired''"
| "state_string StateCancelled = ''cancelled''"
| "state_string StateConsumed = ''consumed''"
| "state_string (StateOther s) = s"

definition auditOutcome :: "approval_error \<Rightarrow> string" where
  "auditOutcome err =
    (case err of ErrExpired \<Rightarrow> ''expired'' | ErrForbidden \<Rightarrow> ''denied'' | ErrRejected \<Rightarrow> ''rejected''
     | ErrCancelled \<Rightarrow> ''cancelled'' | ErrConsumed \<Rightarrow> ''already_consumed''
     | ErrDigestMismatch \<Rightarrow> ''digest_mismatch'' | _ \<Rightarrow> ''failed'')"

definition record_event ::
  "approval_service \<Rightarrow> env \<Rightarrow> string \<Rightarrow> string \<Rightarrow> string \<Rightarrow> string \<Rightarrow> (string \<times> string) list \<Rightarrow>
   'z approvals_db_scheme \<Rightarrow> 'z approvals_db_scheme" where
  "record_event S E actorID action resourceID outcome metadata db =
    (if \<not> sv_audit S then db
     else snd (service_RecordAudit E \<lparr>ai_ActorID = actorID, ai_Action = action,
       ai_ResourceType = ''approval_request'', ai_ResourceID = resourceID, ai_Outcome = outcome,
       ai_CorrelationID = [], ai_Metadata = Some (sv_marshal S metadata)\<rparr> db))"

definition Create ::
  "approval_service \<Rightarrow> env \<Rightarrow> CreateInput \<Rightarrow> 'z approvals_db_scheme \<Rightarrow>
   (approval_error, Request, 'z approvals_db_scheme) outcome" where
  "Create S E input0 db =
    (let now = clock E
     in case ValidateCreate (sv_network S) input0 now of
       Some e \<Rightarrow> (Inl e, db)
     | None \<Rightarrow>
         let input = (if IsZero (ci_RequestedAt input0) then input0\<lparr>ci_RequestedAt := now\<rparr> else input0)
         in (case store_Create (call E 0) input db of
           (Inl e, db1) \<Rightarrow> (Inl e, db1)
         | (Inr request, db1) \<Rightarrow>
             (Inr request, record_event S (call E 1) (ci_RequesterID input) ''approval.request'' (req_ID request)
               ''accepted'' [(''action'', action_string (req_Action request)),
                 (''risk'', risk_string (req_Risk request)), (''actionDigest'', req_ActionDigest request)] db1)))"

definition Get :: "env \<Rightarrow> string \<Rightarrow> 'z approvals_db_scheme \<Rightarrow> approval_error + Request" where
  "Get E ident db = store_Get E (TrimSpace ident) db"

definition List_requests :: "env \<Rightarrow> ListFilter \<Rightarrow> 'z approvals_db_scheme \<Rightarrow> approval_error + Request list" where
  "List_requests E flt db =
    (if alf_State flt \<noteq> StateOther [] \<and> \<not> ValidState (alf_State flt) then Inl ErrInvalidState
     else store_List E flt db)"

definition Decide ::
  "approval_service \<Rightarrow> env \<Rightarrow> DecisionInput \<Rightarrow> 'z approvals_db_scheme \<Rightarrow>
   (approval_error, Request, 'z approvals_db_scheme) outcome" where
  "Decide S E input0 db =
    (if di_Decision input0 \<noteq> StateApproved \<and> di_Decision input0 \<noteq> StateRejected then (Inl ErrInvalidState, db)
     else case validateIdempotencyKey (di_IdempotencyKey input0) of
       Some e \<Rightarrow> (Inl e, db)
     | None \<Rightarrow>
         let input = (if IsZero (di_Now input0) then input0\<lparr>di_Now := clock E\<rparr> else input0);
           actorID = user_ID (di_Actor input);
           decision = state_string (di_Decision input)
         in (case store_Get (call E 0) (TrimSpace (di_ApprovalID input)) db of
           Inl e \<Rightarrow> (Inl e, db)
         | Inr request \<Rightarrow>
             if \<not> canDecide (di_Actor input) request
             then (Inl ErrForbidden, record_event S (call E 2) actorID ''approval.decision'' (req_ID request)
               ''denied'' [(''decision'', decision), (''reason'', ''role_not_eligible'')] db)
             else (case store_Decide (call E 1) input db of
               (Inl e, db1) \<Rightarrow> (Inl e, record_event S (call E 2) actorID ''approval.decision'' (req_ID request)
                 (auditOutcome e) [(''decision'', decision), (''reason'', di_Reason input)] db1)
             | (Inr decided, db1) \<Rightarrow>
                 (Inr decided, record_event S (call E 2) actorID ''approval.decision'' (req_ID decided)
                   (state_string (req_State decided)) [(''decision'', decision), (''reason'', di_Reason input)] db1))))"

definition Consume ::
  "approval_service \<Rightarrow> env \<Rightarrow> ConsumeInput \<Rightarrow> 'z approvals_db_scheme \<Rightarrow>
   (approval_error, Request, 'z approvals_db_scheme) outcome" where
  "Consume S E input0 db =
    (if blank (coi_ActorID input0) then (Inl ErrForbidden, db)
     else if \<not> ValidateActionDigest (coi_ActionDigest input0) then (Inl ErrInvalidDigest, db)
     else case validateIdempotencyKey (coi_IdempotencyKey input0) of
       Some e \<Rightarrow> (Inl e, db)
     | None \<Rightarrow>
         let input = (if IsZero (coi_Now input0) then input0\<lparr>coi_Now := clock E\<rparr> else input0);
           metadata = [(''actionDigest'', coi_ActionDigest input)]
         in (case store_Consume (call E 0) input db of
           (Inl e, db1) \<Rightarrow> (Inl e, record_event S (call E 1) (coi_ActorID input) ''approval.consume''
             (coi_ApprovalID input) (auditOutcome e) metadata db1)
         | (Inr request, db1) \<Rightarrow> (Inr request, record_event S (call E 1) (coi_ActorID input)
             ''approval.consume'' (req_ID request) ''consumed'' metadata db1)))"

definition Cancel ::
  "approval_service \<Rightarrow> env \<Rightarrow> CancelInput \<Rightarrow> 'z approvals_db_scheme \<Rightarrow>
   (approval_error, Request, 'z approvals_db_scheme) outcome" where
  "Cancel S E input0 db =
    (if blank (user_ID (cai_Actor input0)) then (Inl ErrForbidden, db)
     else
       let input = (if IsZero (cai_Now input0) then input0\<lparr>cai_Now := clock E\<rparr> else input0);
         actorID = user_ID (cai_Actor input);
         metadata = [(''reason'', cai_Reason input)]
       in case store_Get (call E 0) (TrimSpace (cai_ApprovalID input)) db of
         Inl e \<Rightarrow> (Inl e, db)
       | Inr request \<Rightarrow>
           if actorID \<noteq> req_RequesterID request \<and> \<not> isPrivileged (user_Role (cai_Actor input))
           then (Inl ErrForbidden, record_event S (call E 2) actorID ''approval.cancel'' (req_ID request)
             ''denied'' [(''reason'', ''role_not_eligible'')] db)
           else (case store_Cancel (call E 1) input db of
             (Inl e, db1) \<Rightarrow> (Inl e, record_event S (call E 2) actorID ''approval.cancel'' (req_ID request)
               (auditOutcome e) metadata db1)
           | (Inr cancelled, db1) \<Rightarrow> (Inr cancelled, record_event S (call E 2) actorID ''approval.cancel''
               (req_ID cancelled) ''cancelled'' metadata db1)))"

section \<open>The audit recorder\<close>

text \<open>
  What the service relies on of the \<open>AuditRecorder\<close> it is given: recording touches nothing but the trail, and only ever
  appends to it. The task service provides it.
\<close>

locale audit_recorder =
  fixes record_audit :: "env \<Rightarrow> AuditInput \<Rightarrow> 'd \<Rightarrow> ('e + AuditEvent) \<times> 'd"
    and trail :: "'d \<Rightarrow> AuditEvent list"
    and rest :: "'d \<Rightarrow> 'r"
  assumes keeps_rest: "rest (snd (record_audit E input db)) = rest db"
    and appends: "\<exists>evs. trail (snd (record_audit E input db)) = trail db @ evs \<and> length evs \<le> 1"
    and stores: "fst (record_audit E input db) = Inr ev \<Longrightarrow>
      trail (snd (record_audit E input db)) = trail db @ [ev] \<and> aud_Action ev = ai_Action input \<and>
      aud_ActorID ev = ai_ActorID input \<and> aud_Outcome ev = ai_Outcome input \<and>
      aud_ResourceID ev = ai_ResourceID input"
begin

lemma trail_prefix: "prefix (trail db) (trail (snd (record_audit E input db)))"
  using appends [of E input db] by auto

end

interpretation task_audit: audit_recorder service_RecordAudit audit_events "\<lambda>db. db\<lparr>audit_events := []\<rparr>"
proof (unfold_locales, goal_cases)
  case (3 E input db ev)
  then show ?case
    by (auto simp: service_RecordAudit_def RecordAudit_def Let_def split: option.splits if_splits)
qed (auto simp: service_RecordAudit_def RecordAudit_def Let_def split: option.splits)

lemma record_event_rest:
  "(record_event S E a b c d m db)\<lparr>audit_events := []\<rparr> = db\<lparr>audit_events := []\<rparr>"
  using task_audit.keeps_rest by (auto simp: record_event_def)

lemma record_event_requests [simp]:
  "approval_requests (record_event S E a b c d m db) = approval_requests db"
  by (auto simp: record_event_def service_RecordAudit_def RecordAudit_def Let_def split: option.splits)

section \<open>How the table changes\<close>

lemma approval_transition_simps [simp]:
  "CanTransition s StateApproved \<longleftrightarrow> s = StatePending"
  "CanTransition s StateRejected \<longleftrightarrow> s = StatePending"
  "CanTransition s StateExpired \<longleftrightarrow> s = StatePending"
  "CanTransition s StateConsumed \<longleftrightarrow> s = StateApproved"
  "CanTransition s StateCancelled \<longleftrightarrow> s = StatePending \<or> s = StateApproved"
  "\<not> CanTransition s StatePending"
  by (cases s; simp add: CanTransition_def)+

definition req_ok :: "Request \<Rightarrow> bool" where
  "req_ok r \<longleftrightarrow>
     ValidState (req_State r) \<and> ValidAction (req_Action r) \<and> digestPattern (req_ActionDigest r) \<and>
     req_EligibleRoles r \<noteq> [] \<and> set (req_EligibleRoles r) \<subseteq> {RoleAdmin, RoleMaintainer} \<and>
     TrimSpace (req_ID r) = req_ID r \<and>
     (req_State r \<in> {StateApproved, StateRejected, StateConsumed} \<longrightarrow>
        (\<exists>d. req_DecidedAt r = Some d \<and> d < req_ExpiresAt r) \<and> req_DecisionIdempotencyKey r \<noteq> []) \<and>
     (req_State r = StatePending \<longrightarrow> req_DecidedAt r = None \<and> req_DecisionIdempotencyKey r = []) \<and>
     (req_State r = StateConsumed \<longleftrightarrow> req_ConsumedAt r \<noteq> None) \<and>
     (req_State r = StateConsumed \<longleftrightarrow> req_ConsumptionIdempotencyKey r \<noteq> [])"

definition approvals_inv :: "'z approvals_db_scheme \<Rightarrow> bool" where
  "approvals_inv db \<longleftrightarrow> distinct (map req_ID (approval_requests db)) \<and> (\<forall>r \<in> set (approval_requests db). req_ok r)"

text \<open>A row stays as it is or takes one transition of the state machine; what was asked for never changes.\<close>

definition req_move :: "Request \<Rightarrow> Request \<Rightarrow> bool" where
  "req_move r r' \<longleftrightarrow> r' = r \<or>
     CanTransition (req_State r) (req_State r') \<and> req_ID r' = req_ID r \<and> req_Action r' = req_Action r \<and>
     req_ActionDigest r' = req_ActionDigest r \<and> req_RequesterID r' = req_RequesterID r \<and>
     req_EligibleRoles r' = req_EligibleRoles r \<and> req_ExpiresAt r' = req_ExpiresAt r"

lemma key_nonempty: "validateIdempotencyKey k = None \<Longrightarrow> k \<noteq> []"
  by (auto simp: validateIdempotencyKey_def)

lemmas request_defs = expire_request_def decide_request_def consume_request_def cancel_request_def

text \<open>One operation appends a pending request, or moves one row to a state of \<open>T\<close>, or leaves the table alone.\<close>

definition row_change :: "State set \<Rightarrow> Request list \<Rightarrow> Request list \<Rightarrow> bool" where
  "row_change T rs rs' \<longleftrightarrow> rs' = rs \<or>
     (\<exists>r. req_ok r \<and> req_State r = StatePending \<and> req_ID r \<notin> req_ID ` set rs \<and> rs' = rs @ [r]) \<or>
     (\<exists>r f. r \<in> set rs \<and> rs' = update_where (\<lambda>x. req_ID x = req_ID r) f rs \<and> req_move r (f r) \<and>
        req_State (f r) \<in> T \<and> (req_ok r \<longrightarrow> req_ok (f r)))"

lemma row_change_refl [simp]: "row_change T rs rs"
  by (simp add: row_change_def)

lemma row_change_mono: "row_change T rs rs' \<Longrightarrow> T \<subseteq> T' \<Longrightarrow> row_change T' rs rs'"
  unfolding row_change_def by blast

lemma row_change_set:
  assumes "select_by req_ID i (approval_requests db) = Some r" "req_move r (f r)" "req_State (f r) \<in> T" "req_ok r \<Longrightarrow> req_ok (f r)"
  shows "row_change T (approval_requests db) (approval_requests (set_request (req_ID r) f db))"
  using assms select_by_SomeD [OF assms(1)] unfolding row_change_def set_request_def by auto

lemma expire_branch_change:
  assumes "select_by req_ID i (approval_requests db) = Some r" "IsExpired r now" "expire_branch E now r db = (res, db')" "StateExpired \<in> T"
  shows "row_change T (approval_requests db) (approval_requests db')"
  using assms(2-4) row_change_set [OF assms(1), of "expire_request now" T]
  by (auto simp: expire_branch_def IsExpired_def req_move_def req_ok_def expire_request_def split: if_splits)

lemma store_Decide_change:
  assumes "store_Decide E input db = (res, db')" "di_Decision input \<in> {StateApproved, StateRejected}"
    "di_IdempotencyKey input \<noteq> []"
  shows "row_change {StateExpired, di_Decision input} (approval_requests db) (approval_requests db')"
proof (cases "select_by req_ID (di_ApprovalID input) (approval_requests db)")
  case (Some r)
  have "row_change {StateExpired, di_Decision input} (approval_requests db) (approval_requests (set_request (req_ID r) (decide_request input) db))"
    if "req_State r = StatePending" "\<not> IsExpired r (di_Now input)"
    using that assms(2,3)
    by (intro row_change_set [OF Some]) (auto simp: req_move_def req_ok_def decide_request_def IsExpired_def)
  with assms(1) Some show ?thesis
    by (auto simp: store_Decide_def split: if_splits intro: expire_branch_change)
qed (use assms in \<open>auto simp del: select_by_None_iff simp: store_Decide_def split: if_splits\<close>)

lemma store_Consume_change:
  assumes "store_Consume E input db = (res, db')" "coi_IdempotencyKey input \<noteq> []"
  shows "row_change {StateExpired, StateConsumed} (approval_requests db) (approval_requests db')"
proof (cases "select_by req_ID (coi_ApprovalID input) (approval_requests db)")
  case (Some r)
  have "row_change {StateExpired, StateConsumed} (approval_requests db) (approval_requests (set_request (req_ID r) (consume_request input) db))"
    if "req_State r = StateApproved"
    using that assms(2)
    by (intro row_change_set [OF Some]) (auto simp: req_move_def req_ok_def consume_request_def)
  with assms(1) Some show ?thesis
    by (auto simp: store_Consume_def CanConsume_def split: if_splits State.splits intro: expire_branch_change)
qed (use assms in \<open>auto simp del: select_by_None_iff simp: store_Consume_def split: if_splits\<close>)

lemma store_Cancel_change:
  assumes "store_Cancel E input db = (res, db')"
  shows "row_change {StateExpired, StateCancelled} (approval_requests db) (approval_requests db')"
proof (cases "select_by req_ID (cai_ApprovalID input) (approval_requests db)")
  case (Some r)
  have "row_change {StateExpired, StateCancelled} (approval_requests db) (approval_requests (set_request (req_ID r) (cancel_request input) db))"
    if "req_State r = StatePending \<or> req_State r = StateApproved"
    using that by (intro row_change_set [OF Some]) (auto simp: req_move_def req_ok_def cancel_request_def)
  with assms(1) Some show ?thesis
    by (auto simp: store_Cancel_def split: if_splits intro: expire_branch_change)
qed (use assms in \<open>auto simp del: select_by_None_iff simp: store_Cancel_def split: if_splits\<close>)

lemma ValidateCreate_ok:
  "ValidateCreate network input now = None \<Longrightarrow>
   ValidAction (ci_Action input) \<and> digestPattern (TrimSpace (ci_ActionDigest input)) \<and>
   ci_EligibleRoles input \<noteq> [] \<and> set (ci_EligibleRoles input) \<subseteq> {RoleAdmin, RoleMaintainer} \<and> now < ci_ExpiresAt input"
  by (auto simp: ValidateCreate_def ValidateActionDigest_def list_ex_iff split: if_splits)

lemma Create_change:
  assumes "Create S E input db = (res, db')"
  shows "row_change {} (approval_requests db) (approval_requests db')"
  using assms unfolding row_change_def
  by (auto simp: Create_def store_Create_def newID_def Let_def req_ok_def dest!: ValidateCreate_ok
      split: option.splits prod.splits sum.splits if_splits)

section \<open>Interleaved operation\<close>

text \<open>
  A step is a call of the approval service with any input, clock and failures, or any operation of the task queue in the
  same database.
\<close>

inductive approvals_step :: "'z approvals_db_scheme \<Rightarrow> 'z approvals_db_scheme \<Rightarrow> bool" where
  ap_create: "Create S E ci db = (res, db') \<Longrightarrow> approvals_step db db'"
| ap_decide: "Decide S E di db = (res, db') \<Longrightarrow> approvals_step db db'"
| ap_consume: "Consume S E coi db = (res, db') \<Longrightarrow> approvals_step db db'"
| ap_cancel: "Cancel S E cai db = (res, db') \<Longrightarrow> approvals_step db db'"
| ap_task: "task_step db db' \<Longrightarrow> approvals_step db db'"

definition approvals_empty :: "'z approvals_db_scheme \<Rightarrow> bool" where
  "approvals_empty db \<longleftrightarrow> approval_requests db = []"

lemma task_step_requests: "task_step db db' \<Longrightarrow> approval_requests db' = approval_requests db"
  by (induction rule: task_step.induct)
     (auto simp: op_defs Let_def split: if_splits option.splits list.splits)

lemma Decide_change:
  assumes "Decide S E di db = (res, db')"
  shows "row_change {StateExpired, di_Decision di} (approval_requests db) (approval_requests db')"
proof (cases "approval_requests db' = approval_requests db")
  case False
  with assms obtain input db1 r1 where "store_Decide (call E 1) input db = (r1, db1)"
      "di_Decision input \<in> {StateApproved, StateRejected}" "di_IdempotencyKey input \<noteq> []"
      "approval_requests db' = approval_requests db1" "di_Decision input = di_Decision di"
    by (auto simp: Decide_def Let_def split: if_splits option.splits sum.splits prod.splits dest: key_nonempty intro: that)
  then show ?thesis by (metis store_Decide_change)
qed simp

lemma Consume_change:
  assumes "Consume S E coi db = (res, db')"
  shows "row_change {StateExpired, StateConsumed} (approval_requests db) (approval_requests db')"
proof (cases "approval_requests db' = approval_requests db")
  case False
  with assms obtain input db1 r1 where "store_Consume (call E 0) input db = (r1, db1)"
      "coi_IdempotencyKey input \<noteq> []" "approval_requests db' = approval_requests db1"
    by (auto simp: Consume_def Let_def split: if_splits option.splits sum.splits prod.splits dest: key_nonempty intro: that)
  then show ?thesis by (metis store_Consume_change)
qed simp

lemma Cancel_change:
  assumes "Cancel S E cai db = (res, db')"
  shows "row_change {StateExpired, StateCancelled} (approval_requests db) (approval_requests db')"
proof (cases "approval_requests db' = approval_requests db")
  case False
  with assms obtain input db1 r1 where "store_Cancel (call E 1) input db = (r1, db1)"
      "approval_requests db' = approval_requests db1"
    by (auto simp: Cancel_def Let_def split: if_splits option.splits sum.splits prod.splits intro: that)
  then show ?thesis by (metis store_Cancel_change)
qed simp

lemma approvals_step_change: "approvals_step db db' \<Longrightarrow> row_change UNIV (approval_requests db) (approval_requests db')"
  by (induction rule: approvals_step.induct)
     (auto intro: row_change_mono [OF _ subset_UNIV] Create_change Decide_change Consume_change Cancel_change
       simp: task_step_requests)

lemma row_change_inv:
  assumes "row_change T (approval_requests db) (approval_requests db')" "approvals_inv db"
  shows "approvals_inv db'"
  using assms(1) unfolding row_change_def
proof (elim disjE exE conjE)
  fix r f assume r: "r \<in> set (approval_requests db)" "req_move r (f r)" "req_ok r \<longrightarrow> req_ok (f r)"
    and db': "approval_requests db' = update_where (\<lambda>x. req_ID x = req_ID r) f (approval_requests db)"
  have only: "x = r" if "x \<in> set (approval_requests db)" "req_ID x = req_ID r" for x
    using that r(1) assms(2) unfolding approvals_inv_def distinct_map by (metis inj_onD)
  have id: "req_ID (f r) = req_ID r" using r(2) by (auto simp: req_move_def)
  have "map req_ID (approval_requests db') = map req_ID (approval_requests db)"
    unfolding db' update_where_def using only id by auto
  moreover have "\<forall>x \<in> set (approval_requests db'). req_ok x"
    unfolding db' set_update_where using only r assms(2) by (auto simp: approvals_inv_def)
  ultimately show ?thesis using assms(2) by (simp add: approvals_inv_def)
qed (use assms(2) in \<open>auto simp: approvals_inv_def\<close>)

lemma row_change_moves:
  assumes "row_change T (approval_requests db) (approval_requests db')" "approvals_inv db" "r \<in> set (approval_requests db)"
  shows "\<exists>r' \<in> set (approval_requests db'). req_move r r'"
  using assms(1) unfolding row_change_def
proof (elim disjE exE conjE)
  fix q f assume q: "q \<in> set (approval_requests db)" "req_move q (f q)"
    and db': "approval_requests db' = update_where (\<lambda>x. req_ID x = req_ID q) f (approval_requests db)"
  have "req_ID r = req_ID q \<Longrightarrow> r = q"
    using assms(2,3) q(1) unfolding approvals_inv_def distinct_map by (metis inj_onD)
  with q(2) have "req_move r (if req_ID r = req_ID q then f r else r)"
    by (auto simp: req_move_def)
  then show ?thesis unfolding db' set_update_where using assms(3) by blast
qed (use assms(3) in \<open>auto simp: req_move_def\<close>)

lemma approvals_step_inv: "approvals_step db db' \<Longrightarrow> approvals_inv db \<Longrightarrow> approvals_inv db'"
  by (rule row_change_inv [OF approvals_step_change])

text \<open>The operations of the approval service leave the tables of the task queue alone, the audit log apart.\<close>

lemma record_event_queue [simp]:
  "tasks (record_event S E a b c d m db) = tasks db" "runs (record_event S E a b c d m db) = runs db"
  "run_events (record_event S E a b c d m db) = run_events db"
  by (auto simp: record_event_def service_RecordAudit_def RecordAudit_def Let_def split: option.splits)

definition same_queue :: "'z tasks_db_scheme \<Rightarrow> 'z tasks_db_scheme \<Rightarrow> bool" where
  "same_queue db db' \<longleftrightarrow> tasks db' = tasks db \<and> runs db' = runs db \<and> run_events db' = run_events db"

lemma store_queue:
  "store_Create E ci db = (rc, db') \<Longrightarrow> same_queue db db'"
  "store_Decide E di db = (rd, db') \<Longrightarrow> same_queue db db'"
  "store_Consume E coi db = (rn, db') \<Longrightarrow> same_queue db db'"
  "store_Cancel E cai db = (rx, db') \<Longrightarrow> same_queue db db'"
  by (auto simp: same_queue_def store_Create_def store_Decide_def store_Consume_def store_Cancel_def
      expire_branch_def set_request_def Let_def split: option.splits if_splits)

lemma approvals_step_tasks_inv: "approvals_step db db' \<Longrightarrow> tasks_inv db \<Longrightarrow> tasks_inv db'"
proof (induction rule: approvals_step.induct)
  case (ap_create S E ci db res db')
  then have "same_queue db db'"
    by (auto simp: Create_def same_queue_def Let_def split: option.splits prod.splits sum.splits dest!: store_queue)
  then show ?case using tasks_inv_cong [of db' db] ap_create by (simp add: same_queue_def)
next
  case (ap_decide S E di db res db')
  then have "same_queue db db'"
    by (auto simp: Decide_def same_queue_def Let_def split: option.splits prod.splits sum.splits if_splits dest!: store_queue)
  then show ?case using tasks_inv_cong [of db' db] ap_decide by (simp add: same_queue_def)
next
  case (ap_consume S E coi db res db')
  then have "same_queue db db'"
    by (auto simp: Consume_def same_queue_def Let_def split: option.splits prod.splits sum.splits if_splits dest!: store_queue)
  then show ?case using tasks_inv_cong [of db' db] ap_consume by (simp add: same_queue_def)
next
  case (ap_cancel S E cai db res db')
  then have "same_queue db db'"
    by (auto simp: Cancel_def same_queue_def Let_def split: option.splits prod.splits sum.splits if_splits dest!: store_queue)
  then show ?case using tasks_inv_cong [of db' db] ap_cancel by (simp add: same_queue_def)
qed (rule task_step_inv)

text \<open>Where a pending row may go.\<close>

lemma row_change_target:
  assumes "row_change T (approval_requests db) (approval_requests db')" "approvals_inv db"
    and "r \<in> set (approval_requests db)" "r' \<in> set (approval_requests db')" "req_ID r' = req_ID r"
  shows "r' = r \<or> req_State r' \<in> T"
  using assms(1) unfolding row_change_def
proof (elim disjE exE conjE)
  fix q f assume q: "q \<in> set (approval_requests db)" "req_move q (f q)" "req_State (f q) \<in> T"
    and db': "approval_requests db' = update_where (\<lambda>x. req_ID x = req_ID q) f (approval_requests db)"
  have one: "x = y" if "x \<in> set (approval_requests db)" "y \<in> set (approval_requests db)" "req_ID x = req_ID y" for x y
    using assms(2) that unfolding approvals_inv_def distinct_map by (metis inj_onD)
  obtain x where "x \<in> set (approval_requests db)" "r' = (if req_ID x = req_ID q then f x else x)"
    using assms(4) unfolding db' set_update_where by blast
  with q one assms(3,5) show ?thesis by (metis req_move_def)
next
  assume "approval_requests db' = approval_requests db"
  with assms(2-5) show ?thesis unfolding approvals_inv_def distinct_map by (metis inj_onD)
next
  fix q assume "approval_requests db' = approval_requests db @ [q]" "req_ID q \<notin> req_ID ` set (approval_requests db)"
  with assms(2-5) show ?thesis unfolding approvals_inv_def distinct_map
    by (metis (no_types, lifting) Un_iff empty_iff imageI inj_onD list.set(1) list.set(2) insert_iff set_append)
qed

interpretation gate: transition_system approvals_empty approvals_step approvals_inv
proof (unfold_locales, goal_cases)
  case (1 db)
  then show ?case by (simp add: approvals_empty_def approvals_inv_def)
qed (rule approvals_step_inv)

lemma request_unique:
  "approvals_inv db \<Longrightarrow> r \<in> set (approval_requests db) \<Longrightarrow> q \<in> set (approval_requests db) \<Longrightarrow> req_ID r = req_ID q \<Longrightarrow> r = q"
  unfolding approvals_inv_def distinct_map by (metis inj_onD)

lemma select_request:
  "approvals_inv db \<Longrightarrow> r \<in> set (approval_requests db) \<Longrightarrow>
   select_by req_ID (req_ID r) (approval_requests db) = Some r"
  by (simp add: approvals_inv_def select_by_unique)

text \<open>A row over a whole history.\<close>

definition req_later :: "Request \<Rightarrow> Request \<Rightarrow> bool" where
  "req_later r r' \<longleftrightarrow> CanTransition\<^sup>*\<^sup>* (req_State r) (req_State r') \<and> (req_State r' = req_State r \<longrightarrow> r' = r) \<and>
     req_ID r' = req_ID r \<and> req_Action r' = req_Action r \<and> req_ActionDigest r' = req_ActionDigest r \<and>
     req_RequesterID r' = req_RequesterID r \<and> req_EligibleRoles r' = req_EligibleRoles r \<and>
     req_ExpiresAt r' = req_ExpiresAt r"

lemma CanTransition_rank:
  "CanTransition s t \<Longrightarrow> s = StatePending \<and> t \<noteq> StatePending \<or> s = StateApproved \<and> t \<in> {StateConsumed, StateCancelled}"
  by (cases s) (auto simp: CanTransition_def)

lemma CanTransition_star:
  "CanTransition\<^sup>*\<^sup>* s t \<Longrightarrow> s = t \<or> s = StatePending \<and> t \<noteq> StatePending \<or> s = StateApproved \<and> t \<in> {StateConsumed, StateCancelled}"
  by (induction rule: rtranclp_induct) (auto dest!: CanTransition_rank)

lemma history_requests:
  assumes "approvals_step\<^sup>*\<^sup>* db db'" "approvals_inv db" "r \<in> set (approval_requests db)"
  shows "approvals_inv db' \<and> (\<exists>r' \<in> set (approval_requests db'). req_later r r')"
  using assms
proof (induction rule: rtranclp_induct)
  case base
  then show ?case by (auto simp: req_later_def)
next
  case (step y z)
  then obtain q where q: "approvals_inv y" "q \<in> set (approval_requests y)" "req_later r q" by blast
  with row_change_moves [OF approvals_step_change [OF step(2)]] obtain q' where
    q': "q' \<in> set (approval_requests z)" "req_move q q'" by blast
  have "req_later r q'"
    using q(3) q'(2) CanTransition_star [of "req_State r" "req_State q"]
    by (auto simp: req_later_def req_move_def intro: rtranclp.rtrancl_into_rtrancl dest: CanTransition_rank)
  with q' approvals_step_inv [OF step(2) q(1)] show ?case by blast
qed

section \<open>What a successful consumption means\<close>

text \<open>
  The contract the callers of the gate rely on, stated as a locale over the consuming operation: \<open>granted\<close> holds of an
  approval whose exact digest has been released under a key.
\<close>

locale approval_gate =
  fixes consume :: "env \<Rightarrow> ConsumeInput \<Rightarrow> 'd \<Rightarrow> ('e + Request) \<times> 'd"
    and step :: "'d \<Rightarrow> 'd \<Rightarrow> bool"
    and good :: "'d \<Rightarrow> bool"
    and granted :: "string \<Rightarrow> string \<Rightarrow> string \<Rightarrow> 'd \<Rightarrow> bool"
  assumes consume_step: "consume E input db = (res, db') \<Longrightarrow> step db db'"
    and good_step: "step db db' \<Longrightarrow> good db \<Longrightarrow> good db'"
    and consume_grants: "good db \<Longrightarrow> consume E input db = (Inr r, db') \<Longrightarrow>
      granted (coi_ApprovalID input) (coi_ActionDigest input) (coi_IdempotencyKey input) db'"
    and granted_step: "good db \<Longrightarrow> step db db' \<Longrightarrow> granted i d k db \<Longrightarrow> granted i d k db'"
    and granted_unique: "good db \<Longrightarrow> granted i d k db \<Longrightarrow> granted i d' k' db \<Longrightarrow> d' = d \<and> k' = k"
begin

lemma granted_history: "step\<^sup>*\<^sup>* db db' \<Longrightarrow> good db \<Longrightarrow> granted i d k db \<Longrightarrow> good db' \<and> granted i d k db'"
  by (induction rule: rtranclp_induct) (auto intro: good_step granted_step)

lemma consume_exclusive:
  assumes "good db" "consume E1 in1 db = (Inr r1, db1)" "step\<^sup>*\<^sup>* db1 db2" "consume E2 in2 db2 = (Inr r2, db3)"
    and "coi_ApprovalID in2 = coi_ApprovalID in1"
  shows "coi_ActionDigest in2 = coi_ActionDigest in1 \<and> coi_IdempotencyKey in2 = coi_IdempotencyKey in1"
proof -
  have "good db1" using assms(1,2) by (blast intro: consume_step good_step)
  then have db2: "good db2" "granted (coi_ApprovalID in1) (coi_ActionDigest in1) (coi_IdempotencyKey in1) db2"
    using granted_history [OF assms(3)] consume_grants [OF assms(1,2)] by auto
  have "good db3" "granted (coi_ApprovalID in1) (coi_ActionDigest in1) (coi_IdempotencyKey in1) db3"
    using db2 consume_step [OF assms(4)] by (auto intro: good_step granted_step)
  with consume_grants [OF db2(1) assms(4)] assms(5) show ?thesis
    using granted_unique by fastforce
qed

end

definition granted :: "string \<Rightarrow> string \<Rightarrow> string \<Rightarrow> 'z approvals_db_scheme \<Rightarrow> bool" where
  "granted i d k db \<longleftrightarrow> (\<exists>r \<in> set (approval_requests db). req_ID r = i \<and> req_ActionDigest r = d \<and>
     req_ConsumptionIdempotencyKey r = k \<and> req_State r = StateConsumed)"

lemma store_Consume_ok:
  assumes "store_Consume E input db = (Inr r, db')"
  shows "\<exists>r0 \<in> set (approval_requests db). req_ID r0 = coi_ApprovalID input \<and> req_ActionDigest r0 = coi_ActionDigest input \<and>
    (r = r0 \<and> db' = db \<and> req_State r0 = StateConsumed \<and> req_ConsumptionIdempotencyKey r0 = coi_IdempotencyKey input \<or>
     req_State r0 = StateApproved \<and> r = consume_request input r0 \<and> db' = set_request (req_ID r0) (consume_request input) db)"
proof -
  from assms obtain r0 where sel: "select_by req_ID (coi_ApprovalID input) (approval_requests db) = Some r0"
    by (auto simp del: select_by_None_iff simp: store_Consume_def split: if_splits option.splits)
  from select_by_SomeD [OF sel] have r0: "r0 \<in> set (approval_requests db)" "req_ID r0 = coi_ApprovalID input" by auto
  from assms sel show ?thesis
    by (intro bexI [OF _ r0(1)])
      (auto simp: r0 store_Consume_def expire_branch_def CanConsume_def split: if_splits State.splits)
qed

lemma Consume_ok:
  assumes "Consume S E coi db = (Inr r, db')"
  obtains input db1 where "store_Consume (call E 0) input db = (Inr r, db1)"
    "approval_requests db' = approval_requests db1" "coi_ApprovalID input = coi_ApprovalID coi"
    "coi_ActionDigest input = coi_ActionDigest coi" "coi_IdempotencyKey input = coi_IdempotencyKey coi"
    "coi_Now input = (if IsZero (coi_Now coi) then clock E else coi_Now coi)"
  using assms
  by (auto simp: Consume_def Let_def intro: that split: if_splits option.splits sum.splits prod.splits)

lemma Consume_grants:
  assumes "approvals_inv db" "Consume S E coi db = (Inr r, db')"
  shows "r \<in> set (approval_requests db') \<and> req_ID r = coi_ApprovalID coi \<and> req_ActionDigest r = coi_ActionDigest coi \<and>
    req_ConsumptionIdempotencyKey r = coi_IdempotencyKey coi \<and> req_State r = StateConsumed"
proof -
  obtain input db1 where c: "store_Consume (call E 0) input db = (Inr r, db1)"
      "approval_requests db' = approval_requests db1" "coi_ApprovalID input = coi_ApprovalID coi"
      "coi_ActionDigest input = coi_ActionDigest coi" "coi_IdempotencyKey input = coi_IdempotencyKey coi"
    using Consume_ok [OF assms(2)] by metis
  from store_Consume_ok [OF c(1)] show ?thesis
    using c(2-) by (auto simp: set_request_def set_update_where consume_request_def)
qed

interpretation repair_gate: approval_gate "Consume S" approvals_step approvals_inv granted
proof (unfold_locales, goal_cases)
  case (1 E input db res db')
  then show ?case by (rule ap_consume)
next
  case (2 db db')
  then show ?case by (rule approvals_step_inv)
next
  case (3 db E input r db')
  then show ?case using Consume_grants [of db S E input r db'] by (auto simp: granted_def)
next
  case (4 db db' i d k)
  then obtain r where r: "r \<in> set (approval_requests db)" "req_ID r = i" "req_ActionDigest r = d"
      "req_ConsumptionIdempotencyKey r = k" "req_State r = StateConsumed" by (auto simp: granted_def)
  moreover from row_change_moves [OF approvals_step_change [OF 4(2)] 4(1) r(1)] r(5)
  have "r \<in> set (approval_requests db')" by (auto simp: req_move_def dest: CanTransition_rank)
  ultimately show ?case by (auto simp: granted_def)
next
  case (5 db i d k d' k')
  then show ?case using request_unique [OF 5(1)] by (auto simp: granted_def)
qed

lemma store_Decide_forms:
  assumes "store_Decide E input db = (res, db')" "select_by req_ID (di_ApprovalID input) (approval_requests db) = Some q"
  shows "db' = db \<or> db' = set_request (req_ID q) (expire_request (di_Now input)) db \<or>
    \<not> IsExpired q (di_Now input) \<and> db' = set_request (req_ID q) (decide_request input) db"
  using assms by (auto simp: store_Decide_def expire_branch_def split: if_splits)

lemma set_request_row:
  assumes "approvals_inv db" "q \<in> set (approval_requests db)" "r' \<in> set (approval_requests (set_request (req_ID q) f db))"
  shows "r' = f q \<or> r' \<in> set (approval_requests db)"
  using assms request_unique [OF assms(1)] by (auto simp: set_request_def set_update_where)

lemma Decide_by_eligible:
  assumes inv: "approvals_inv db" and op: "Decide S E di db = (res, db')"
    and r: "r \<in> set (approval_requests db)" "r' \<in> set (approval_requests db')" "req_ID r' = req_ID r"
      "req_State r = StatePending" "req_State r' \<in> {StateApproved, StateRejected}"
  shows "di_Decision di = req_State r' \<and> user_Role (di_Actor di) \<in> {RoleAdmin, RoleMaintainer} \<and>
    user_Role (di_Actor di) \<in> set (req_EligibleRoles r) \<and> (if IsZero (di_Now di) then clock E else di_Now di) < req_ExpiresAt r"
proof -
  have new: "r' \<notin> set (approval_requests db)"
    using request_unique [OF inv r(1) _ r(3) [symmetric]] r(4,5) by force
  then have changed: "approval_requests db' \<noteq> approval_requests db" using r(2) by auto
  let ?in = "if IsZero (di_Now di) then di\<lparr>di_Now := clock E\<rparr> else di"
  from op changed obtain q r1 db1 where get: "select_by req_ID (TrimSpace (di_ApprovalID di)) (approval_requests db) = Some q"
    and can: "canDecide (di_Actor di) q" and st: "store_Decide (call E 1) ?in db = (r1, db1)"
    and db': "approval_requests db' = approval_requests db1"
    by (auto simp del: select_by_None_iff simp: Decide_def store_Get_def Let_def
        split: if_splits option.splits sum.splits prod.splits)
  from st changed obtain q' where sel: "select_by req_ID (di_ApprovalID ?in) (approval_requests db) = Some q'"
    by (auto simp del: select_by_None_iff simp: db' store_Decide_def split: if_splits option.splits)
  from select_by_SomeD [OF sel] have q': "q' \<in> set (approval_requests db)" "req_ID q' = di_ApprovalID di" by auto
  then have "TrimSpace (di_ApprovalID di) = di_ApprovalID di"
    using inv by (auto simp: approvals_inv_def req_ok_def)
  with get sel have "q = q'" by (simp split: if_splits)
  have "db1 \<noteq> db" using changed db' by auto
  moreover have "r' = f q'" if "db1 = set_request (req_ID q') f db" for f
    using set_request_row [OF inv q'(1), of r' f] r(2) new db' that by simp
  moreover have "req_State (expire_request t q') = StateExpired" for t by (simp add: expire_request_def)
  ultimately have dec: "r' = decide_request ?in q'" and live: "\<not> IsExpired q' (di_Now ?in)"
    using store_Decide_forms [OF st sel] r(5) by auto
  from dec have "req_ID r' = req_ID q'" by (simp add: decide_request_def)
  with request_unique [OF inv q'(1) r(1)] r(3) have "q' = r" by simp
  with can dec live r(4) \<open>q = q'\<close> show ?thesis
    by (auto simp: canDecide_def isPrivileged_def containsRole_def list_ex_iff IsExpired_def decide_request_def split: if_splits)
qed

section \<open>A sample history\<close>

definition sample_sv :: approval_service where
  "sample_sv = \<lparr>sv_audit = True, sv_marshal = (\<lambda>_. ''{}''), sv_network = (\<lambda>_. None)\<rparr>"

definition sample_digest :: string where
  "sample_digest = replicate 64 (CHR ''a'')"

definition sample_admin :: User where
  "sample_admin = \<lparr>user_ID = ''u1'', user_Email = ''a@x'', user_DisplayName = ''a'', user_Role = RoleAdmin,
     user_AuthSource = ''local'', user_Active = True, user_CreatedAt = 1\<rparr>"

definition sample_ap0 :: approvals_db where
  "sample_ap0 = \<lparr>tasks = [], runs = [], run_events = [], findings = [], evidence = [], audit_events = [],
     approval_requests = []\<rparr>"

definition sample_ap1 :: approvals_db where
  "sample_ap1 = snd (Create sample_sv (Tasks.sample_env 0 10) \<lparr>ci_Action = ActionRepairPlan, ci_Risk = RiskHigh,
     ci_ActionDigest = sample_digest, ci_RequesterID = ''u2'', ci_EligibleRoles = [RoleAdmin], ci_ExpiresAt = 100,
     ci_Metadata = None, ci_RequestedAt = 0\<rparr> sample_ap0)"

definition sample_req :: string where
  "sample_req = ''00010203-0405-4607-8809-0a0b0c0d0e0f''"

definition sample_decision :: DecisionInput where
  "sample_decision = \<lparr>di_ApprovalID = sample_req, di_Actor = sample_admin, di_Decision = StateApproved,
     di_Reason = ''ok'', di_IdempotencyKey = ''decide-1'', di_Now = 0\<rparr>"

definition sample_ap2 :: approvals_db where
  "sample_ap2 = snd (Decide sample_sv (Tasks.sample_env 0 20) sample_decision sample_ap1)"

definition sample_consume :: ConsumeInput where
  "sample_consume = \<lparr>coi_ApprovalID = sample_req, coi_ActorID = ''w'', coi_ActionDigest = sample_digest,
     coi_IdempotencyKey = ''consume-1'', coi_Now = 0\<rparr>"

definition sample_ap3 :: approvals_db where
  "sample_ap3 = snd (Consume sample_sv (Tasks.sample_env 0 500) sample_consume sample_ap2)"

lemma sample_ap_steps:
  "reachable approvals_empty approvals_step sample_ap1" "reachable approvals_empty approvals_step sample_ap2"
  "approvals_step sample_ap1 sample_ap2" "approvals_step sample_ap2 sample_ap3"
proof -
  have 0: "reachable approvals_empty approvals_step sample_ap0"
    by (rule reach_start) (simp add: approvals_empty_def sample_ap0_def)
  have 1: "approvals_step sample_ap0 sample_ap1"
    unfolding sample_ap1_def by (rule ap_create) (rule prod.collapse [symmetric])
  show 2: "approvals_step sample_ap1 sample_ap2"
    unfolding sample_ap2_def by (rule ap_decide) (rule prod.collapse [symmetric])
  show 3: "approvals_step sample_ap2 sample_ap3"
    unfolding sample_ap3_def by (rule ap_consume) (rule prod.collapse [symmetric])
  from 0 1 2 show "reachable approvals_empty approvals_step sample_ap1" "reachable approvals_empty approvals_step sample_ap2"
    by (blast intro: reach_step)+
qed

lemma sample_ap_rows:
  "hd (approval_requests sample_ap1) \<in> set (approval_requests sample_ap1)"
  "hd (approval_requests sample_ap2) \<in> set (approval_requests sample_ap2)"
  "req_State (hd (approval_requests sample_ap1)) = StatePending"
  "req_State (hd (approval_requests sample_ap2)) = StateApproved"
  "req_ID (hd (approval_requests sample_ap1)) = sample_req" "req_ID (hd (approval_requests sample_ap2)) = sample_req"
  "req_ActionDigest (hd (approval_requests sample_ap2)) = sample_digest"
  "req_ExpiresAt (hd (approval_requests sample_ap1)) = 100"
  by code_simp+

section \<open>Properties\<close>

text \<open>
  C25. In every reachable state, a request that is approved, rejected or consumed was decided strictly before it expired, a consumed one
  carries the consumption key and time, its digest is a full SHA-256 digest, and only administrators and maintainers are eligible to decide it.
\<close>

theorem approvals_well_formed:
  assumes "reachable approvals_empty approvals_step db" "r \<in> set (approval_requests db)"
  shows "length (req_ActionDigest r) = 64 \<and> is_hex (req_ActionDigest r) \<and>
    req_EligibleRoles r \<noteq> [] \<and> set (req_EligibleRoles r) \<subseteq> {RoleAdmin, RoleMaintainer} \<and>
    (req_State r \<in> {StateApproved, StateRejected, StateConsumed} \<longrightarrow>
      (\<exists>d. req_DecidedAt r = Some d \<and> d < req_ExpiresAt r)) \<and>
    (req_State r = StateConsumed \<longleftrightarrow> req_ConsumedAt r \<noteq> None) \<and>
    (req_State r = StateConsumed \<longleftrightarrow> req_ConsumptionIdempotencyKey r \<noteq> [])"
  using gate.reachable_inv [OF assms(1)] assms(2)
  by (auto simp: approvals_inv_def req_ok_def digestPattern_def)

theorem approvals_well_formed_witness:
  "\<exists>d. req_DecidedAt (hd (approval_requests sample_ap2)) = Some d \<and> d < req_ExpiresAt (hd (approval_requests sample_ap2))"
  using approvals_well_formed [OF sample_ap_steps(2) sample_ap_rows(2)] by (simp add: sample_ap_rows)

text \<open>
  C24. Over any sequence of operations a request keeps its identity, action, digest, requester, eligible roles and expiry; its state
  only moves along \<open>CanTransition\<close>; and once it is rejected, expired, cancelled or consumed the row never changes again.
\<close>

theorem approval_lifecycle:
  assumes "reachable approvals_empty approvals_step db" "r \<in> set (approval_requests db)" "approvals_step\<^sup>*\<^sup>* db db'"
  shows "\<exists>!r'. r' \<in> set (approval_requests db') \<and> req_ID r' = req_ID r \<and>
    CanTransition\<^sup>*\<^sup>* (req_State r) (req_State r') \<and> req_Action r' = req_Action r \<and>
    req_ActionDigest r' = req_ActionDigest r \<and> req_RequesterID r' = req_RequesterID r \<and>
    req_EligibleRoles r' = req_EligibleRoles r \<and> req_ExpiresAt r' = req_ExpiresAt r \<and>
    (req_State r \<in> {StateRejected, StateExpired, StateCancelled, StateConsumed} \<longrightarrow> r' = r)"
proof -
  from history_requests [OF assms(3) gate.reachable_inv [OF assms(1)] assms(2)] obtain r' where
    r': "approvals_inv db'" "r' \<in> set (approval_requests db')" "req_later r r'" by blast
  have "req_State r \<in> {StateRejected, StateExpired, StateCancelled, StateConsumed} \<Longrightarrow> r' = r"
    using r'(3) CanTransition_star [of "req_State r" "req_State r'"] by (auto simp: req_later_def)
  with r' show ?thesis
    by (intro ex1I [of _ r']) (auto simp: req_later_def dest: request_unique)
qed

theorem approval_lifecycle_witness:
  "\<exists>r'. r' \<in> set (approval_requests sample_ap3) \<and> req_ID r' = sample_req \<and>
     CanTransition\<^sup>*\<^sup>* StateApproved (req_State r') \<and> req_ActionDigest r' = sample_digest"
proof -
  have "approvals_step\<^sup>*\<^sup>* sample_ap2 sample_ap3" using sample_ap_steps(4) by blast
  from approval_lifecycle [OF sample_ap_steps(2) sample_ap_rows(2) this] show ?thesis
    by (auto simp: sample_ap_rows)
qed

text \<open>
  C6. Only an eligible and privileged actor ever approves or rejects: if a call of \<open>Decide\<close> leaves a request that was pending approved or
  rejected, that was the decision the call asked for, its actor is an administrator or a maintainer, the actor's role is among the
  request's eligible roles, and the time of the call is before the request's expiry. No other call does it: neither \<open>Create\<close>, \<open>Consume\<close> or
  \<open>Cancel\<close> of the approval service nor any step of the task queue leaves a pending request approved or rejected.
\<close>

theorem only_eligible_decide:
  assumes "reachable approvals_empty approvals_step db"
    and "r \<in> set (approval_requests db)" "r' \<in> set (approval_requests db')" "req_ID r' = req_ID r"
    and "req_State r = StatePending" "req_State r' \<in> {StateApproved, StateRejected}"
  shows "(Decide S E input db = (res, db') \<longrightarrow> di_Decision input = req_State r' \<and>
      user_Role (di_Actor input) \<in> {RoleAdmin, RoleMaintainer} \<and>
      user_Role (di_Actor input) \<in> set (req_EligibleRoles r) \<and>
      (if IsZero (di_Now input) then clock E else di_Now input) < req_ExpiresAt r) \<and>
    Create S E ci db \<noteq> (res, db') \<and> Consume S E coi db \<noteq> (res, db') \<and> Cancel S E cai db \<noteq> (res, db') \<and> \<not> task_step db db'"
proof -
  have inv: "approvals_inv db" using assms(1) by (rule gate.reachable_inv)
  have no: False if "row_change T (approval_requests db) (approval_requests db')" "T \<inter> {StateApproved, StateRejected} = {}" for T
    using row_change_target [OF that(1) inv assms(2-4)] that(2) assms(5,6) by auto
  have "Create S E ci db \<noteq> (res, db')" "Consume S E coi db \<noteq> (res, db')" "Cancel S E cai db \<noteq> (res, db')"
    using no [OF Create_change] no [OF Consume_change] no [OF Cancel_change] by auto
  moreover have "\<not> task_step db db'" using no [of "{}"] by (auto simp: task_step_requests)
  ultimately show ?thesis using Decide_by_eligible [OF inv _ assms(2-6)] by blast
qed

theorem only_eligible_decide_witness:
  "user_Role (di_Actor sample_decision) \<in> set (req_EligibleRoles (hd (approval_requests sample_ap1))) \<and>
     di_Decision sample_decision = StateApproved \<and> clock (Tasks.sample_env 0 20) < 100 \<and> \<not> task_step sample_ap1 sample_ap2"
proof -
  have "req_ID (hd (approval_requests sample_ap2)) = req_ID (hd (approval_requests sample_ap1))"
    "req_State (hd (approval_requests sample_ap2)) \<in> {StateApproved, StateRejected}"
    by (simp_all add: sample_ap_rows)
  note decided = only_eligible_decide [OF sample_ap_steps(1) sample_ap_rows(1,2) this(1) sample_ap_rows(3) this(2)]
  have "Decide sample_sv (Tasks.sample_env 0 20) sample_decision sample_ap1 =
      (fst (Decide sample_sv (Tasks.sample_env 0 20) sample_decision sample_ap1), sample_ap2)"
    by (simp add: sample_ap2_def)
  with decided have "user_Role (di_Actor sample_decision) \<in> set (req_EligibleRoles (hd (approval_requests sample_ap1)))"
    "di_Decision sample_decision = StateApproved"
    "(if IsZero (di_Now sample_decision) then clock (Tasks.sample_env 0 20) else di_Now sample_decision) < 100"
    "\<not> task_step sample_ap1 sample_ap2"
    unfolding sample_ap_rows by blast+
  then show ?thesis by (simp add: sample_decision_def)
qed

text \<open>
  C4. Consumption is exactly once: after a successful \<open>Consume\<close>, any later successful \<open>Consume\<close> of the same
  approval is a replay with the same idempotency key and the same digest, which returns the stored request and changes no
  request. A second caller with a key of its own never gets through.
\<close>

theorem consume_exactly_once:
  assumes "reachable approvals_empty approvals_step db" "Consume S1 E1 in1 db = (Inr r1, db1)"
    and "approvals_step\<^sup>*\<^sup>* db1 db2" "Consume S2 E2 in2 db2 = (Inr r2, db3)"
    and "coi_ApprovalID in2 = coi_ApprovalID in1"
  shows "coi_IdempotencyKey in2 = coi_IdempotencyKey in1 \<and> coi_ActionDigest in2 = coi_ActionDigest in1 \<and>
    r2 = r1 \<and> approval_requests db3 = approval_requests db2"
proof -
  have inv: "approvals_inv db" using assms(1) by (rule gate.reachable_inv)
  then have inv1: "approvals_inv db1" using assms(2) by (blast intro: ap_consume approvals_step_inv)
  have r1: "r1 \<in> set (approval_requests db1)" "req_State r1 = StateConsumed" "req_ID r1 = coi_ApprovalID in1"
      "req_ActionDigest r1 = coi_ActionDigest in1" "req_ConsumptionIdempotencyKey r1 = coi_IdempotencyKey in1"
    using Consume_grants [OF inv assms(2)] by auto
  from history_requests [OF assms(3) inv1 r1(1)] r1(2) obtain inv2: "approvals_inv db2" and kept: "r1 \<in> set (approval_requests db2)"
    by (auto simp: req_later_def dest: CanTransition_star)
  obtain input db3' where c: "store_Consume (call E2 0) input db2 = (Inr r2, db3')" "approval_requests db3 = approval_requests db3'"
      "coi_ApprovalID input = coi_ApprovalID in2" "coi_ActionDigest input = coi_ActionDigest in2"
      "coi_IdempotencyKey input = coi_IdempotencyKey in2"
    using Consume_ok [OF assms(4)] by metis
  from store_Consume_ok [OF c(1)] obtain r0 where r0: "r0 \<in> set (approval_requests db2)" "req_ID r0 = coi_ApprovalID in2"
      "req_ActionDigest r0 = coi_ActionDigest in2" and
    how: "r2 = r0 \<and> db3' = db2 \<and> req_ConsumptionIdempotencyKey r0 = coi_IdempotencyKey in2 \<or> req_State r0 = StateApproved"
    using c by auto
  have "r0 = r1" using request_unique [OF inv2 r0(1) kept] r0(2) r1(3) assms(5) by simp
  with how r0 r1 c(2) show ?thesis by auto
qed

theorem consume_exactly_once_witness:
  "approval_requests (snd (Consume sample_sv (Tasks.sample_env 0 600) sample_consume sample_ap3)) = approval_requests sample_ap3"
proof -
  let ?c1 = "Consume sample_sv (Tasks.sample_env 0 500) sample_consume sample_ap2"
  let ?c2 = "Consume sample_sv (Tasks.sample_env 0 600) sample_consume sample_ap3"
  have ok: "\<not> isl (fst ?c1)" "\<not> isl (fst ?c2)" by code_simp+
  have "approvals_step\<^sup>*\<^sup>* (snd ?c1) sample_ap3" by (simp add: sample_ap3_def)
  from consume_exactly_once [OF sample_ap_steps(2) outcome_Inr [OF ok(1)] this outcome_Inr [OF ok(2)]]
  show ?thesis by simp
qed

text \<open>
  The gate opens only for what was approved: a successful \<open>Consume\<close> acts on a request whose digest equals the
  caller's digest byte for byte and which was approved (or is being replayed by the same consumer), and leaves that request consumed.
\<close>

theorem consume_requires_approval:
  assumes "reachable approvals_empty approvals_step db" "Consume S E coi db = (Inr r, db')"
  shows "\<exists>r0 \<in> set (approval_requests db). req_ID r0 = coi_ApprovalID coi \<and> req_ActionDigest r0 = coi_ActionDigest coi \<and>
    (req_State r0 = StateApproved \<or>
     req_State r0 = StateConsumed \<and> req_ConsumptionIdempotencyKey r0 = coi_IdempotencyKey coi) \<and>
    (\<exists>d. req_DecidedAt r0 = Some d \<and> d < req_ExpiresAt r0) \<and>
    r \<in> set (approval_requests db') \<and> req_ID r = req_ID r0 \<and> req_State r = StateConsumed"
proof -
  have inv: "approvals_inv db" using assms(1) by (rule gate.reachable_inv)
  obtain input db1 where c: "store_Consume (call E 0) input db = (Inr r, db1)"
      "approval_requests db' = approval_requests db1" "coi_ApprovalID input = coi_ApprovalID coi"
      "coi_ActionDigest input = coi_ActionDigest coi" "coi_IdempotencyKey input = coi_IdempotencyKey coi"
    using Consume_ok [OF assms(2)] by metis
  from store_Consume_ok [OF c(1)] obtain r0 where r0: "r0 \<in> set (approval_requests db)" "req_ID r0 = coi_ApprovalID coi"
      "req_ActionDigest r0 = coi_ActionDigest coi"
      "req_State r0 = StateApproved \<or>
       req_State r0 = StateConsumed \<and> req_ConsumptionIdempotencyKey r0 = coi_IdempotencyKey coi"
    using c by auto
  moreover have "\<exists>d. req_DecidedAt r0 = Some d \<and> d < req_ExpiresAt r0"
    using inv r0(1,4) by (auto simp: approvals_inv_def req_ok_def)
  ultimately show ?thesis using Consume_grants [OF inv assms(2)] by auto
qed

theorem consume_requires_approval_witness:
  "\<exists>r0 \<in> set (approval_requests sample_ap2). req_ID r0 = sample_req \<and> req_ActionDigest r0 = sample_digest \<and>
     (\<exists>d. req_DecidedAt r0 = Some d \<and> d < req_ExpiresAt r0)"
proof -
  let ?c1 = "Consume sample_sv (Tasks.sample_env 0 500) sample_consume sample_ap2"
  have "\<not> isl (fst ?c1)" by code_simp
  from consume_requires_approval [OF sample_ap_steps(2) outcome_Inr [OF this]] show ?thesis
    by (auto simp: sample_consume_def)
qed

text \<open>
  A request that nobody decided before its deadline is dead: from then on no \<open>Decide\<close>, \<open>Consume\<close> or
  \<open>Cancel\<close> on it succeeds, whoever calls and whatever the database does.
\<close>

theorem undecided_expires:
  assumes "reachable approvals_empty approvals_step db" "r \<in> set (approval_requests db)"
    and "req_State r = StatePending" "req_ExpiresAt r \<le> now"
  shows "(di_ApprovalID di = req_ID r \<and> (if IsZero (di_Now di) then clock E else di_Now di) = now \<longrightarrow>
      isl (fst (Decide S E di db))) \<and>
    (coi_ApprovalID coi = req_ID r \<and> (if IsZero (coi_Now coi) then clock E else coi_Now coi) = now \<longrightarrow>
      isl (fst (Consume S E coi db))) \<and>
    (cai_ApprovalID cai = req_ID r \<and> (if IsZero (cai_Now cai) then clock E else cai_Now cai) = now \<longrightarrow>
      isl (fst (Cancel S E cai db)))"
proof -
  have inv: "approvals_inv db" using assms(1) by (rule gate.reachable_inv)
  have sel: "select_by req_ID (req_ID r) (approval_requests db) = Some r"
    using select_request [OF inv assms(2)] .
  have ex: "IsExpired r now" using assms(3,4) by (simp add: IsExpired_def)
  have d: "isl (fst (store_Decide E' input db))" if "di_ApprovalID input = req_ID r" "di_Now input = now" for E' input
    using that ex assms(3) by (simp add: store_Decide_def sel expire_branch_def)
  have c: "isl (fst (store_Consume E' input db))" if "coi_ApprovalID input = req_ID r" "coi_Now input = now" for E' input
    using that ex assms(3) by (simp add: store_Consume_def sel expire_branch_def)
  have x: "isl (fst (store_Cancel E' input db))" if "cai_ApprovalID input = req_ID r" "cai_Now input = now" for E' input
    using that ex by (simp add: store_Cancel_def sel expire_branch_def)
  have "isl (fst (Decide S E di db))"
    if "di_ApprovalID di = req_ID r" "(if IsZero (di_Now di) then clock E else di_Now di) = now"
    using that d [of "if IsZero (di_Now di) then di\<lparr>di_Now := clock E\<rparr> else di" "call E 1"]
    by (auto simp: Decide_def Let_def split: if_splits option.splits sum.splits prod.splits)
  moreover have "isl (fst (Consume S E coi db))"
    if "coi_ApprovalID coi = req_ID r" "(if IsZero (coi_Now coi) then clock E else coi_Now coi) = now"
    using that c [of "if IsZero (coi_Now coi) then coi\<lparr>coi_Now := clock E\<rparr> else coi" "call E 0"]
    by (auto simp: Consume_def Let_def split: if_splits option.splits sum.splits prod.splits)
  moreover have "isl (fst (Cancel S E cai db))"
    if "cai_ApprovalID cai = req_ID r" "(if IsZero (cai_Now cai) then clock E else cai_Now cai) = now"
    using that x [of "if IsZero (cai_Now cai) then cai\<lparr>cai_Now := clock E\<rparr> else cai" "call E 1"]
    by (auto simp: Cancel_def Let_def split: if_splits option.splits sum.splits prod.splits)
  ultimately show ?thesis by blast
qed

theorem undecided_expires_witness:
  "isl (fst (Decide sample_sv (Tasks.sample_env 0 100) sample_decision sample_ap1))"
proof -
  have "req_ExpiresAt (hd (approval_requests sample_ap1)) \<le> 100" by (simp add: sample_ap_rows)
  from undecided_expires [OF sample_ap_steps(1) sample_ap_rows(1,3) this] show ?thesis
    by (simp add: sample_ap_rows sample_decision_def Tasks.sample_env_def)
qed

text \<open>
  The deadline only bounds the decision: an approved request can be consumed at any time afterwards, also long after
  \<open>ExpiresAt\<close>, as long as the caller presents the approved digest and a valid key (and the database is up).
\<close>

theorem approval_outlives_expiry:
  assumes "reachable approvals_empty approvals_step db" "r \<in> set (approval_requests db)" "req_State r = StateApproved"
    and "coi_ApprovalID coi = req_ID r" "coi_ActionDigest coi = req_ActionDigest r"
    and "\<not> blank (coi_ActorID coi)" "validateIdempotencyKey (coi_IdempotencyKey coi) = None" "\<forall>n < 4. \<not> fails E n"
  shows "\<exists>r' db'. Consume S E coi db = (Inr r', db') \<and> req_State r' = StateConsumed \<and>
    req_ConsumedAt r' = Some (if IsZero (coi_Now coi) then clock E else coi_Now coi)"
proof -
  have inv: "approvals_inv db" using assms(1) by (rule gate.reachable_inv)
  then have ok: "req_ok r" using assms(2) by (simp add: approvals_inv_def)
  have sel: "select_by req_ID (req_ID r) (approval_requests db) = Some r"
    using select_request [OF inv assms(2)] .
  have "ValidateActionDigest (coi_ActionDigest coi)"
  proof -
    have "list_all visible (req_ActionDigest r)"
      using ok is_hex_visible by (auto simp: req_ok_def digestPattern_def list_all_iff)
    then show ?thesis using ok assms(5) by (simp add: ValidateActionDigest_def TrimSpace_visible req_ok_def)
  qed
  moreover have "req_ConsumptionIdempotencyKey r \<noteq> coi_IdempotencyKey coi"
    using ok assms(3) key_nonempty [OF assms(7)] by (auto simp: req_ok_def)
  moreover have "\<not> fails E 0" "\<not> fails E (Suc 0)" "\<not> fails E 2" "\<not> fails E 3" using assms(8) by auto
  ultimately show ?thesis
    using assms(3-7) sel
    by (simp add: Consume_def store_Consume_def CanConsume_def IsExpired_def Let_def consume_request_def
        flip: numeral_2_eq_2)
qed

theorem approval_outlives_expiry_witness:
  "req_ExpiresAt (hd (approval_requests sample_ap2)) = 100 \<and>
   (\<exists>r' db'. Consume sample_sv (Tasks.sample_env 0 500) sample_consume sample_ap2 = (Inr r', db') \<and>
     req_ConsumedAt r' = Some 500)"
proof -
  have e: "req_ExpiresAt (hd (approval_requests sample_ap2)) = 100" by code_simp
  have k: "\<not> blank (coi_ActorID sample_consume)" "validateIdempotencyKey (coi_IdempotencyKey sample_consume) = None"
    by code_simp+
  have i: "coi_ApprovalID sample_consume = req_ID (hd (approval_requests sample_ap2))"
    "coi_ActionDigest sample_consume = req_ActionDigest (hd (approval_requests sample_ap2))"
    by (simp_all add: sample_ap_rows sample_consume_def)
  from approval_outlives_expiry [OF sample_ap_steps(2) sample_ap_rows(2,4) i k, of "Tasks.sample_env 0 500" sample_sv] e
  show ?thesis by (auto simp: sample_consume_def Tasks.sample_env_def)
qed

end
