(* ===== verification/Repair_Policy.thy ===== *)
theory Repair_Policy
  imports Approvals
begin

text \<open>
  The safety boundary of \<open>src/server/internal/repair/types.go\<close>: the data of a repair, its state table, and the
  validation a plan or a patch must pass before an approval is requested or anything is published.

  \<open>uni\<close> is what \<open>strings.ToLower\<close> does to a string with non-ASCII characters. \<open>json.Marshal\<close> and
  \<open>sha256\<close> enter \<open>Digest\<close> as parameters.
\<close>

section \<open>Data\<close>

datatype State = StatePlanning | StateAwaitingPlanApproval | StatePlanApproved | StatePatching
  | StateAwaitingPatchApproval | StatePatchApproved | StatePublished | StateFailed | StateCancelled
  | StateOther string

datatype repair_error = ErrInvalidState | ErrInvalidTrigger | ErrNotFound | ErrInvalidPlan | ErrInvalidPatch
  | ErrUnsafePath | ErrProtectedPath | ErrGeneratedFile | ErrBinaryFile | ErrPatchTooLarge | ErrSecretDetected
  | ErrTestsFailed | ErrProviderFailure | ErrApprovalPhase | ErrPublicationConflict
  | RepairMessage string | RepairApproval approval_error | RepairTask task_error | RepairExternal external_error

definition MaxPlanSteps :: nat where "MaxPlanSteps = 50"
definition MaxPatchFiles :: nat where "MaxPatchFiles = 100"
definition MaxPatchBytes :: int where "MaxPatchBytes = 524288"
definition MaxFileBytes :: int where "MaxFileBytes = 262144"
definition MaxTestResults :: nat where "MaxTestResults = 100"

definition shaPattern :: "string \<Rightarrow> bool" where
  "shaPattern s \<longleftrightarrow> length s = 40 \<and> is_hex s"

datatype Trigger = TriggerGitHubIssue | TriggerM6Diagnosis | TriggerOther string

record Issue =
  iss_Provider :: string
  iss_RepositoryID :: string
  iss_Repository :: string
  iss_CloneURL :: string
  iss_WebURL :: string
  iss_InstallationID :: string
  iss_Number :: int
  iss_Title :: string
  iss_Body :: string
  iss_State :: string
  iss_IsPullRequest :: bool
  iss_BaseBranch :: string
  iss_BaseSHA :: string

record PlanStep =
  ps_ID :: string
  ps_Description :: string
  ps_Paths :: "string list"

record Plan =
  plan_SchemaVersion :: string
  plan_Summary :: string
  plan_Steps :: "PlanStep list"
  plan_Tests :: "string list"

record PatchFile =
  pf_Path :: string
  pf_Content :: string
  pf_Generated :: bool
  pf_Binary :: bool

record TestResult =
  tr_Name :: string
  tr_Command :: string
  tr_Passed :: bool
  tr_Output :: string

record Patch =
  patch_SchemaVersion :: string
  patch_Summary :: string
  patch_BaseSHA :: string
  patch_Diff :: string
  patch_Files :: "PatchFile list"
  patch_Tests :: "TestResult list"

record DraftPullRequest =
  pr_Number :: int
  pr_URL :: string

record Repair =
  rep_ID :: string
  rep_TaskID :: string
  rep_SourceKey :: string
  rep_Trigger :: Trigger
  rep_RepositoryID :: string
  rep_Repository :: string
  rep_CloneURL :: string
  rep_WebURL :: string
  rep_InstallationID :: string
  rep_IssueNumber :: int
  rep_IssueTitle :: string
  rep_IssueBody :: string
  rep_BaseBranch :: string
  rep_BaseSHA :: string
  rep_State :: State
  rep_Plan :: json
  rep_PlanDigest :: string
  rep_PlanApprovalID :: string
  rep_Patch :: json
  rep_PatchDigest :: string
  rep_PatchApprovalID :: string
  rep_BranchName :: string
  rep_DraftPR :: DraftPullRequest
  rep_FailureCode :: string
  rep_FailureMessage :: string
  rep_CreatedBy :: string
  rep_CreatedAt :: time
  rep_UpdatedAt :: time

record CreateInput =
  rci_Trigger :: Trigger
  rci_SourceKey :: string
  rci_TaskID :: string
  rci_CreatedBy :: string
  rci_Issue :: Issue
  rci_CreatedAt :: time

record PublishInput =
  pub_Repository :: string
  pub_InstallationID :: string
  pub_BaseBranch :: string
  pub_BaseSHA :: string
  pub_BranchName :: string
  pub_Title :: string
  pub_Body :: string
  pub_Files :: "PatchFile list"

fun ValidState :: "State \<Rightarrow> bool" where
  "ValidState (StateOther _) = False"
| "ValidState _ = True"

fun allowed :: "State \<Rightarrow> State list" where
  "allowed StatePlanning = [StateAwaitingPlanApproval, StateFailed, StateCancelled]"
| "allowed StateAwaitingPlanApproval = [StatePlanApproved, StateFailed, StateCancelled]"
| "allowed StatePlanApproved = [StatePatching, StateFailed, StateCancelled]"
| "allowed StatePatching = [StateAwaitingPatchApproval, StateFailed, StateCancelled]"
| "allowed StateAwaitingPatchApproval = [StatePatchApproved, StateFailed, StateCancelled]"
| "allowed StatePatchApproved = [StatePublished, StateFailed, StateCancelled]"
| "allowed StateFailed = [StatePlanning, StatePlanApproved, StatePatchApproved, StateCancelled]"
| "allowed _ = []"

definition CanTransition :: "State \<Rightarrow> State \<Rightarrow> bool" where
  "CanTransition from to =
    (if from = to \<and> (from = StatePlanning \<or> from = StatePatching \<or> from = StateFailed) then True
     else to \<in> set (allowed from))"

section \<open>UTF-8\<close>

definition cont_byte :: "nat \<Rightarrow> nat \<Rightarrow> nat \<Rightarrow> bool" where
  "cont_byte lo hi b \<longleftrightarrow> lo \<le> b \<and> b \<le> hi"

text \<open>\<open>utf8.ValidString\<close> on the byte values: the well-formed byte sequences of the Unicode standard.\<close>

fun valid_utf8_bytes :: "nat list \<Rightarrow> bool" where
  "valid_utf8_bytes [] = True"
| "valid_utf8_bytes (a # rest) =
    (if a < 0x80 then valid_utf8_bytes rest
     else if 0xC2 \<le> a \<and> a \<le> 0xDF then
       (case rest of b # rest' \<Rightarrow> cont_byte 0x80 0xBF b \<and> valid_utf8_bytes rest' | _ \<Rightarrow> False)
     else if 0xE0 \<le> a \<and> a \<le> 0xEF then
       (case rest of b # c # rest' \<Rightarrow>
          cont_byte (if a = 0xE0 then 0xA0 else 0x80) (if a = 0xED then 0x9F else 0xBF) b \<and>
          cont_byte 0x80 0xBF c \<and> valid_utf8_bytes rest' | _ \<Rightarrow> False)
     else if 0xF0 \<le> a \<and> a \<le> 0xF4 then
       (case rest of b # c # d # rest' \<Rightarrow>
          cont_byte (if a = 0xF0 then 0x90 else 0x80) (if a = 0xF4 then 0x8F else 0xBF) b \<and>
          cont_byte 0x80 0xBF c \<and> cont_byte 0x80 0xBF d \<and> valid_utf8_bytes rest' | _ \<Rightarrow> False)
     else False)"

definition ValidString :: "string \<Rightarrow> bool" where
  "ValidString s = valid_utf8_bytes (map of_char s)"

section \<open>Validation\<close>

definition ValidateIssue :: "Issue \<Rightarrow> time \<Rightarrow> repair_error option" where
  "ValidateIssue issue now =
    (if iss_Provider issue \<noteq> ''github'' \<or> blank (iss_Repository issue) \<or> blank (iss_CloneURL issue) \<or>
        blank (iss_InstallationID issue) \<or> iss_Number issue < 0 \<or> blank (iss_Title issue) \<or> iss_IsPullRequest issue
     then Some ErrInvalidTrigger
     else if iss_Number issue > 0 \<and> iss_State issue \<noteq> [] \<and> iss_State issue \<noteq> ''open'' then Some ErrInvalidTrigger
     else if blank (iss_BaseBranch issue) \<or> \<not> shaPattern (TrimSpace (iss_BaseSHA issue)) then Some ErrInvalidTrigger
     else if ContainsAny (iss_BaseBranch issue) [CHR 0x0D, CHR 0x0A] then Some ErrInvalidTrigger
     else if IsZero now then Some ErrInvalidTrigger
     else None)"

definition validatePath :: "string \<Rightarrow> repair_error option" where
  "validatePath v =
    (let value = TrimSpace (ReplaceByte v (CHR 0x5C) (CHR ''/''))
     in if value = [] \<or> HasPrefix value ''/'' \<or> ContainsAny value [CHR 0x0D, CHR 0x0A] \<or> value = ''.'' \<or>
          HasPrefix value ''.git/''
        then Some ErrUnsafePath
        else if list_ex (\<lambda>segment. segment = ''..'' \<or> segment = []) (Split value (CHR ''/''))
        then Some ErrUnsafePath
        else None)"

definition isProtectedPath :: "string \<Rightarrow> bool" where
  "isProtectedPath v =
    (let value = ReplaceByte v (CHR 0x5C) (CHR ''/'')
     in value = ''CODEOWNERS'' \<or> value = ''.github/CODEOWNERS'' \<or> HasPrefix value ''.github/workflows/'' \<or>
        value = ''compose.yaml'' \<or> HasPrefix value ''compose.'')"

definition forbidden_commands :: "string list" where
  "forbidden_commands = [''git push'', ''git merge'', ''rm -rf'', ''curl | sh'', ''curl|sh'']"

definition validateTestCommand :: "(string \<Rightarrow> string) \<Rightarrow> string \<Rightarrow> repair_error option" where
  "validateTestCommand uni c =
    (let command = TrimSpace c
     in if command = [] \<or> int (length command) > 1000 \<or> ContainsAny command [CHR 0x0D, CHR 0x0A] then Some ErrInvalidPatch
        else if list_ex (\<lambda>forbidden. Contains (ToLower uni command) forbidden) forbidden_commands
        then Some ErrInvalidPatch
        else None)"

definition secret_markers :: "string list" where
  "secret_markers = [''ghp_'', ''github_pat_'', ''akia'', ''-----begin private key-----'', ''aws_secret_access_key'',
     ''xoxb-'', ''password='', ''token='']"

definition containsSecret :: "(string \<Rightarrow> string) \<Rightarrow> string \<Rightarrow> bool" where
  "containsSecret uni value = list_ex (\<lambda>marker. Contains (ToLower uni value) marker) secret_markers"

fun first_error :: "('a \<Rightarrow> 'e option) \<Rightarrow> 'a list \<Rightarrow> 'e option" where
  "first_error check [] = None"
| "first_error check (x # xs) = (case check x of Some e \<Rightarrow> Some e | None \<Rightarrow> first_error check xs)"

definition check_step :: "PlanStep \<Rightarrow> repair_error option" where
  "check_step step =
    (if blank (ps_ID step) \<or> blank (ps_Description step) \<or> int (length (ps_Description step)) > 10000
     then Some ErrInvalidPlan
     else first_error validatePath (ps_Paths step))"

definition ValidatePlan :: "(string \<Rightarrow> string) \<Rightarrow> Plan \<Rightarrow> repair_error option" where
  "ValidatePlan uni plan =
    (if plan_SchemaVersion plan \<noteq> ''v1'' \<or> blank (plan_Summary plan) \<or> int (length (plan_Summary plan)) > 20000 \<or>
        plan_Steps plan = [] \<or> length (plan_Steps plan) > MaxPlanSteps
     then Some ErrInvalidPlan
     else case first_error check_step (plan_Steps plan) of
       Some e \<Rightarrow> Some e
     | None \<Rightarrow> first_error (validateTestCommand uni) (plan_Tests plan))"

definition check_file :: "(string \<Rightarrow> string) \<Rightarrow> string \<Rightarrow> PatchFile \<Rightarrow> repair_error option" where
  "check_file uni diff file =
    (case validatePath (pf_Path file) of
       Some e \<Rightarrow> Some e
     | None \<Rightarrow>
         if isProtectedPath (pf_Path file) then Some ErrProtectedPath
         else if pf_Generated file then Some ErrGeneratedFile
         else if pf_Binary file \<or> \<not> ValidString (pf_Content file) \<or> CHR 0x00 \<in> set (pf_Content file)
         then Some ErrBinaryFile
         else if int (length (pf_Content file)) > MaxFileBytes then Some ErrPatchTooLarge
         else if containsSecret uni (pf_Content file) \<or> containsSecret uni diff then Some ErrSecretDetected
         else None)"

definition check_test :: "(string \<Rightarrow> string) \<Rightarrow> TestResult \<Rightarrow> repair_error option" where
  "check_test uni test =
    (if blank (tr_Name test) \<or> blank (tr_Command test) then Some ErrInvalidPatch
     else case validateTestCommand uni (tr_Command test) of
       Some e \<Rightarrow> Some e
     | None \<Rightarrow> if \<not> tr_Passed test then Some ErrTestsFailed else None)"

definition ValidatePatch :: "(string \<Rightarrow> string) \<Rightarrow> Patch \<Rightarrow> string \<Rightarrow> repair_error option" where
  "ValidatePatch uni patch expectedBase =
    (if patch_SchemaVersion patch \<noteq> ''v1'' \<or> blank (patch_Summary patch) \<or> \<not> shaPattern (patch_BaseSHA patch) \<or>
        patch_BaseSHA patch \<noteq> expectedBase \<or> blank (patch_Diff patch) \<or> patch_Files patch = [] \<or>
        length (patch_Files patch) > MaxPatchFiles \<or> int (length (patch_Diff patch)) > MaxPatchBytes
     then Some ErrInvalidPatch
     else if \<not> ValidString (patch_Diff patch) \<or> CHR 0x00 \<in> set (patch_Diff patch) then Some ErrBinaryFile
     else case first_error (check_file uni (patch_Diff patch)) (patch_Files patch) of
       Some e \<Rightarrow> Some e
     | None \<Rightarrow>
         if (\<Sum>file \<leftarrow> patch_Files patch. int (length (pf_Content file))) > MaxPatchBytes then Some ErrPatchTooLarge
         else if patch_Tests patch = [] \<or> length (patch_Tests patch) > MaxTestResults then Some ErrInvalidPatch
         else first_error (check_test uni) (patch_Tests patch))"

text \<open>\<open>Digest\<close> hashes the JSON text of a value; its JSON encoder cannot fail on plans and patches.\<close>

definition Digest :: "(string \<Rightarrow> 8 word list) \<Rightarrow> ('a \<Rightarrow> json) \<Rightarrow> 'a \<Rightarrow> string" where
  "Digest sha marshal value = EncodeToString (sha (marshal value))"

section \<open>Lemmas\<close>

lemma first_error_None: "first_error check xs = None \<longleftrightarrow> (\<forall>x \<in> set xs. check x = None)"
  by (induction xs) (auto split: option.splits)

text \<open>Resolving a relative path from a directory: \<open>..\<close> goes up, and leaving the root is \<open>None\<close>.\<close>

fun resolve :: "string list \<Rightarrow> string list \<Rightarrow> string list option" where
  "resolve dirs [] = Some (rev dirs)"
| "resolve dirs (seg # segs) =
    (if seg = ''..'' then (case dirs of [] \<Rightarrow> None | _ # ds \<Rightarrow> resolve ds segs)
     else if seg = ''.'' then resolve dirs segs
     else resolve (seg # dirs) segs)"

lemma resolve_safe:
  "''..'' \<notin> set segs \<Longrightarrow> resolve dirs segs = Some (rev dirs @ filter (\<lambda>s. s \<noteq> ''.'') segs)"
  by (induction segs arbitrary: dirs) auto

lemma valid_path_segments:
  assumes "validatePath v = None"
  shows "''..'' \<notin> set (Split (TrimSpace (ReplaceByte v (CHR 0x5C) (CHR ''/''))) (CHR ''/''))"
  using assms by (auto simp: validatePath_def Let_def list_ex_iff split: if_splits)

section \<open>Properties\<close>

text \<open>
  A path that passes \<open>validatePath\<close> cannot leave the repository: read with forward or backward slashes, it is relative, has no
  empty segment and no line break, and resolving it segment by segment from the repository root never goes above the root.
\<close>

theorem valid_path_stays_inside:
  assumes "validatePath v = None"
  shows "\<exists>segs. resolve [] (Split (TrimSpace (ReplaceByte v (CHR 0x5C) (CHR ''/''))) (CHR ''/'')) = Some segs \<and>
    ''..'' \<notin> set segs \<and> \<not> HasPrefix (TrimSpace (ReplaceByte v (CHR 0x5C) (CHR ''/''))) ''/'' \<and>
    CHR 0x0A \<notin> set (TrimSpace (ReplaceByte v (CHR 0x5C) (CHR ''/'')))"
proof -
  have "\<not> ContainsAny (TrimSpace (ReplaceByte v (CHR 0x5C) (CHR ''/''))) [CHR 0x0D, CHR 0x0A]"
    "\<not> HasPrefix (TrimSpace (ReplaceByte v (CHR 0x5C) (CHR ''/''))) ''/''"
    using assms by (auto simp: validatePath_def Let_def split: if_splits)
  then show ?thesis
    using resolve_safe [OF valid_path_segments [OF assms], of "[]"] valid_path_segments [OF assms]
    by (auto simp: ContainsAny_iff)
qed

theorem valid_path_stays_inside_witness:
  "\<exists>segs. resolve [] (Split (TrimSpace (ReplaceByte ''src/a.go'' (CHR 0x5C) (CHR ''/''))) (CHR ''/'')) = Some segs"
proof -
  have "validatePath ''src/a.go'' = None" by code_simp
  from valid_path_stays_inside [OF this] show ?thesis by blast
qed

text \<open>
  What the policy protects, told of the segments of a path inside the repository and not of its spelling: the owners files, everything
  below the workflow directory, and the compose files.
\<close>

fun protected_file :: "string list \<Rightarrow> bool" where
  "protected_file [] = False"
| "protected_file (d # ds) \<longleftrightarrow> d = ''CODEOWNERS'' \<and> ds = [] \<or> prefix ''compose.'' d \<or>
     d = ''.github'' \<and> (ds = [''CODEOWNERS''] \<or> 2 \<le> length ds \<and> hd ds = ''workflows'')"

lemma protected_spelling:
  assumes "protected_file (Split (ReplaceByte v (CHR 0x5C) (CHR ''/'')) (CHR ''/''))"
  shows "isProtectedPath v"
proof -
  let ?v = "ReplaceByte v (CHR 0x5C) (CHR ''/'')"
  obtain d ds where split: "Split ?v (CHR ''/'') = d # ds" using Split_nonempty by (metis neq_Nil_conv)
  then have v: "?v = Join (d # ds) ''/''" using Join_Split [of ?v "CHR ''/''"] by simp
  from assms split consider "d = ''CODEOWNERS''" "ds = []" | "prefix ''compose.'' d" | "d = ''.github''" "ds = [''CODEOWNERS'']"
    | n ns where "d = ''.github''" "ds = ''workflows'' # n # ns"
    by (cases ds; cases "tl ds") auto
  then show ?thesis
  proof cases
    case 2
    then have "prefix ''compose.'' ?v" unfolding v by (cases ds) (auto simp: prefix_def)
    then show ?thesis by (simp add: isProtectedPath_def Let_def)
  qed (auto simp: isProtectedPath_def v Join_Cons)
qed

lemma valid_path_resolves:
  assumes "validatePath v = None" "\<not> isProtectedPath v"
  shows "\<exists>segs. resolve [] (Split (TrimSpace (ReplaceByte v (CHR 0x5C) (CHR ''/''))) (CHR ''/'')) = Some segs \<and>
    (TrimSpace (ReplaceByte v (CHR 0x5C) (CHR ''/'')) = ReplaceByte v (CHR 0x5C) (CHR ''/'') \<and>
      ''.'' \<notin> set (Split (ReplaceByte v (CHR 0x5C) (CHR ''/'')) (CHR ''/'')) \<longrightarrow>
      segs \<noteq> [] \<and> \<not> protected_file segs \<and> (hd segs = ''.git'' \<longrightarrow> tl segs = []))"
proof -
  let ?v = "ReplaceByte v (CHR 0x5C) (CHR ''/'')"
  have plain: "filter (\<lambda>s. s \<noteq> ''.'') (Split ?v (CHR ''/'')) = Split ?v (CHR ''/'')" if "''.'' \<notin> set (Split ?v (CHR ''/''))"
    using that by (auto simp: filter_id_conv)
  have "tl (Split ?v (CHR ''/'')) = []" if "TrimSpace ?v = ?v" "hd (Split ?v (CHR ''/'')) = ''.git''"
  proof (rule ccontr)
    assume "tl (Split ?v (CHR ''/'')) \<noteq> []"
    with that(2) obtain n ns where "Split ?v (CHR ''/'') = ''.git'' # n # ns" by (metis Split_nonempty list.collapse)
    then have "HasPrefix ?v ''.git/''" using Join_Split [of ?v "CHR ''/''"] by (metis Join.simps(3) append_assoc append_Cons append_Nil prefixI)
    with assms(1) that(1) show False by (simp add: validatePath_def Let_def)
  qed
  then show ?thesis
    using resolve_safe [OF valid_path_segments [OF assms(1)], of "[]"] plain protected_spelling [of v] assms(2) by auto
qed


definition sample_patch :: Patch where
  "sample_patch = \<lparr>patch_SchemaVersion = ''v1'', patch_Summary = ''fix'', patch_BaseSHA = replicate 40 (CHR ''a''),
     patch_Diff = ''diff'', patch_Files = [\<lparr>pf_Path = ''src/a.go'', pf_Content = ''package a'', pf_Generated = False,
       pf_Binary = False\<rparr>], patch_Tests = [\<lparr>tr_Name = ''unit'', tr_Command = ''go test ./...'', tr_Passed = True,
       tr_Output = []\<rparr>]\<rparr>"

lemma sample_patch_valid: "ValidatePatch (\<lambda>s. s) sample_patch (replicate 40 (CHR ''a'')) = None"
  by code_simp


text \<open>
  The protection of workflow files is by literal spelling only: for every workflow file name with ordinary characters, the spelling with a
  leading \<open>./\<close> names the same file, passes \<open>validatePath\<close> and is not recognised as protected, although the
  plain spelling is.
\<close>

theorem protected_path_respelled:
  assumes "list_all visible name" "name \<noteq> []" "name \<noteq> ''..''" "CHR ''/'' \<notin> set name" "CHR 0x5C \<notin> set name"
  shows "isProtectedPath (''.github/workflows/'' @ name) \<and>
    validatePath (''./.github/workflows/'' @ name) = None \<and> \<not> isProtectedPath (''./.github/workflows/'' @ name) \<and>
    resolve [] (Split (''./.github/workflows/'' @ name) (CHR ''/'')) = resolve [] (Split (''.github/workflows/'' @ name) (CHR ''/''))"
proof -
  have rb: "ReplaceByte (p @ name) (CHR 0x5C) (CHR ''/'') = p @ name" if "CHR 0x5C \<notin> set p" for p
    unfolding ReplaceByte_def using that assms(5) by (intro map_idI) auto
  have tr: "TrimSpace (''./.github/workflows/'' @ name) = ''./.github/workflows/'' @ name"
    using assms(1) by (intro TrimSpace_visible) (simp add: visible_def)
  have sp: "Split name (CHR ''/'') = [name]"
    using assms(4) by (induction name) auto
  have "CHR 0x0A \<notin> set name" "CHR 0x0D \<notin> set name"
    using assms(1) by (auto simp: list_all_iff visible_def)
  with assms(2,3) rb [of "''./.github/workflows/''"] rb [of "''.github/workflows/''"] tr sp show ?thesis
    by (auto simp: isProtectedPath_def validatePath_def Let_def ContainsAny_def list_ex_iff)
qed

theorem protected_path_respelled_witness:
  "isProtectedPath ''.github/workflows/ci.yml'' \<and> validatePath ''./.github/workflows/ci.yml'' = None \<and>
   \<not> isProtectedPath ''./.github/workflows/ci.yml''"
proof -
  have "list_all visible ''ci.yml''" by code_simp
  from protected_path_respelled [OF this] show ?thesis by simp
qed

end
