(* ===== verification/Repair.thy ===== *)
theory Repair
  imports Repair_Policy
begin

unbundle bit_operations_syntax

text \<open>
  The two-stage issue repair of \<open>src/server/internal/repair\<close>: its store (store.go), the service that creates
  repairs and consumes approvals (service.go), and the processor that runs one phase per queue claim (processor.go).

  \<^item> The world the code talks to is the record \<open>world\<close>: JSON, hashing, the agent runtime (\<open>adapter\<close>) and the
    SCM provider. \<open>w_jsonb\<close> is what a \<open>JSONB\<close> column gives back for the text written to it.
  \<^item> Several API calls and workers run at the same time, and an operation here makes several separate database calls. The argument
    \<open>bt\<close> says what the others do to the database in between: \<open>bt n\<close> is applied at the operation's \<open>n\<close>-th
    gap.
  \<^item> \<open>publications\<close> is the log of the \<open>PublishDraft\<close> calls made to the provider.
\<close>

section \<open>The world\<close>

record exec_event =
  ex_Kind :: string
  ex_Stream :: string
  ex_Message :: string
  ex_Terminal :: bool

record exec_request =
  xr_CorrelationID :: string
  xr_ProjectID :: string
  xr_AgentName :: string
  xr_Repository :: string
  xr_CommitSHA :: string
  xr_Prompt :: string
  xr_Timeout :: duration
  xr_OutputSchemaJSON :: string
  xr_Driver :: string
  xr_Cleanup :: string
  xr_NetworkEnabled :: bool

record adapter =
  ad_Start :: "exec_request \<Rightarrow> string + string"
  ad_Events :: "string \<Rightarrow> exec_event list \<times> string option"
  ad_Result :: "string \<Rightarrow> string + json"

record provider =
  pv_ResolveIssue :: "string \<Rightarrow> string \<Rightarrow> int \<Rightarrow> string + Issue"
  pv_ResolveBaseSHA :: "string \<Rightarrow> string \<Rightarrow> string \<Rightarrow> string + string"
  pv_PublishDraft :: "PublishInput \<Rightarrow> string + DraftPullRequest"

record diagnosis_payload =
  dp_RepositoryID :: string
  dp_RepositoryName :: string
  dp_CloneURL :: string
  dp_InstallationID :: string
  dp_HeadSHA :: string

record world =
  w_uni :: "string \<Rightarrow> string"
  w_sha :: "string \<Rightarrow> 8 word list"
  w_valid :: "json \<Rightarrow> bool"
  w_jsonb :: "json \<Rightarrow> json"
  w_decode_plan :: "json \<Rightarrow> Plan option"
  w_decode_patch :: "json \<Rightarrow> Patch option"
  w_unmarshal_plan :: "json \<Rightarrow> Plan option"
  w_unmarshal_patch :: "json \<Rightarrow> Patch option"
  w_unmarshal_diagnosis :: "json \<Rightarrow> diagnosis_payload option"
  w_marshal_plan :: "Plan \<Rightarrow> json"
  w_marshal_patch :: "Patch \<Rightarrow> json"
  w_marshal_event :: "exec_event \<Rightarrow> json"
  w_marshal_meta :: "(string \<times> string) list \<Rightarrow> json"
  w_quote :: "string \<Rightarrow> string"
  w_text :: "repair_error \<Rightarrow> string"
  w_approvals :: approval_service
  w_adapter :: "adapter option"
  w_provider :: "provider option"
  w_projectID :: string
  w_agentName :: string
  w_timeout :: duration

record repairs_db = approvals_db +
  issue_repairs :: "Repair list"
  publications :: "PublishInput list"

section \<open>The store (store.go)\<close>

definition newID :: "env \<Rightarrow> nat \<Rightarrow> string option" where
  "newID E n = map_option (\<lambda>v. format_uuid
     (v[6 := ((v ! 6) AND 0x0f) OR 0x40, 8 := ((v ! 8) AND 0x3f) OR 0x80])) (rand_read E n 16)"

definition normalizeJSON :: "world \<Rightarrow> json \<Rightarrow> json" where
  "normalizeJSON W raw = (if raw = [] \<or> \<not> w_valid W raw then ''{}'' else raw)"

definition validateCreateInput :: "time \<Rightarrow> CreateInput \<Rightarrow> repair_error option" where
  "validateCreateInput now input =
    (if rci_Trigger input \<noteq> TriggerGitHubIssue \<and> rci_Trigger input \<noteq> TriggerM6Diagnosis then Some ErrInvalidTrigger
     else if blank (rci_SourceKey input) \<or> blank (rci_TaskID input) then Some ErrInvalidTrigger
     else ValidateIssue (rci_Issue input) now)"

definition fresh_repair :: "string \<Rightarrow> CreateInput \<Rightarrow> time \<Rightarrow> Repair" where
  "fresh_repair newId input createdAt = \<lparr>rep_ID = newId, rep_TaskID = rci_TaskID input,
     rep_SourceKey = rci_SourceKey input, rep_Trigger = rci_Trigger input,
     rep_RepositoryID = iss_RepositoryID (rci_Issue input), rep_Repository = iss_Repository (rci_Issue input),
     rep_CloneURL = iss_CloneURL (rci_Issue input), rep_WebURL = iss_WebURL (rci_Issue input),
     rep_InstallationID = iss_InstallationID (rci_Issue input), rep_IssueNumber = iss_Number (rci_Issue input),
     rep_IssueTitle = iss_Title (rci_Issue input), rep_IssueBody = iss_Body (rci_Issue input),
     rep_BaseBranch = iss_BaseBranch (rci_Issue input), rep_BaseSHA = iss_BaseSHA (rci_Issue input),
     rep_State = StatePlanning, rep_Plan = ''{}'', rep_PlanDigest = [], rep_PlanApprovalID = [],
     rep_Patch = ''{}'', rep_PatchDigest = [], rep_PatchApprovalID = [], rep_BranchName = [],
     rep_DraftPR = \<lparr>pr_Number = 0, pr_URL = []\<rparr>, rep_FailureCode = [], rep_FailureMessage = [],
     rep_CreatedBy = rci_CreatedBy input, rep_CreatedAt = createdAt, rep_UpdatedAt = createdAt\<rparr>"

definition store_Create ::
  "env \<Rightarrow> CreateInput \<Rightarrow> 'z repairs_db_scheme \<Rightarrow> (repair_error, Repair, 'z repairs_db_scheme) outcome" where
  "store_Create E input db =
    (case validateCreateInput (clock E) input of
       Some e \<Rightarrow> (Inl e, db)
     | None \<Rightarrow>
         (case newID E 0 of
            None \<Rightarrow> (Inl (RepairExternal ErrEntropy), db)
          | Some newId \<Rightarrow>
              let createdAt = (if IsZero (rci_CreatedAt input) then clock E else rci_CreatedAt input)
              in if fails E 0 then (Inl (RepairExternal ErrDatabase), db)
                 else (case select_by rep_SourceKey (rci_SourceKey input) (issue_repairs db) of
                   Some repair \<Rightarrow> (Inr repair, db)
                 | None \<Rightarrow>
                     if newId \<in> rep_ID ` set (issue_repairs db) \<or> rci_TaskID input \<in> rep_TaskID ` set (issue_repairs db)
                     then (Inl (RepairExternal ErrDatabase), db)
                     else
                       let repair = fresh_repair newId input createdAt
                       in (Inr repair, db\<lparr>issue_repairs := issue_repairs db @ [repair]\<rparr>))))"

definition store_Get :: "env \<Rightarrow> string \<Rightarrow> 'z repairs_db_scheme \<Rightarrow> repair_error + Repair" where
  "store_Get E ident db =
    (if fails E 0 then Inl (RepairExternal ErrDatabase)
     else case select_by rep_ID (TrimSpace ident) (issue_repairs db) of
       None \<Rightarrow> Inl ErrNotFound | Some repair \<Rightarrow> Inr repair)"

definition GetByTask :: "env \<Rightarrow> string \<Rightarrow> 'z repairs_db_scheme \<Rightarrow> repair_error + Repair" where
  "GetByTask E taskID db =
    (if fails E 0 then Inl (RepairExternal ErrDatabase)
     else case select_by rep_TaskID (TrimSpace taskID) (issue_repairs db) of
       None \<Rightarrow> Inl ErrNotFound | Some repair \<Rightarrow> Inr repair)"

definition store_List :: "env \<Rightarrow> State \<Rightarrow> int \<Rightarrow> 'z repairs_db_scheme \<Rightarrow> repair_error + Repair list" where
  "store_List E state limit db =
    (if fails E 0 then Inl (RepairExternal ErrDatabase)
     else Inr (order_limit (\<lambda>r. - rep_UpdatedAt r) (page_limit limit)
       (filter (\<lambda>r. state = StateOther [] \<or> rep_State r = state) (issue_repairs db))))"

definition write_repair :: "world \<Rightarrow> time \<Rightarrow> Repair \<Rightarrow> Repair \<Rightarrow> Repair" where
  "write_repair W now repair r = r\<lparr>rep_State := rep_State repair,
     rep_Plan := w_jsonb W (normalizeJSON W (rep_Plan repair)), rep_PlanDigest := rep_PlanDigest repair,
     rep_PlanApprovalID := rep_PlanApprovalID repair,
     rep_Patch := w_jsonb W (normalizeJSON W (rep_Patch repair)), rep_PatchDigest := rep_PatchDigest repair,
     rep_PatchApprovalID := rep_PatchApprovalID repair, rep_BranchName := rep_BranchName repair,
     rep_DraftPR := rep_DraftPR repair, rep_FailureCode := rep_FailureCode repair,
     rep_FailureMessage := rep_FailureMessage repair, rep_UpdatedAt := now\<rparr>"

definition Update ::
  "world \<Rightarrow> env \<Rightarrow> Repair \<Rightarrow> 'z repairs_db_scheme \<Rightarrow> (repair_error, Repair, 'z repairs_db_scheme) outcome" where
  "Update W E repair db =
    (if \<not> ValidState (rep_State repair) then (Inl ErrInvalidState, db)
     else if fails E 1 then (Inl (RepairExternal ErrDatabase), db)
     else
       let db' = db\<lparr>issue_repairs := update_where (\<lambda>r. rep_ID r = rep_ID repair)
         (write_repair W (clock E) repair) (issue_repairs db)\<rparr>
       in (store_Get E (rep_ID repair) db', db'))"

section \<open>The service (service.go)\<close>

definition resolve_issue :: "world \<Rightarrow> bool \<Rightarrow> Issue \<Rightarrow> repair_error + Issue" where
  "resolve_issue W unresolved issue0 =
    (case (if unresolved then
             (case w_provider W of
                None \<Rightarrow> Inl ErrInvalidTrigger
              | Some p \<Rightarrow>
                  (case pv_ResolveIssue p (iss_Repository issue0) (iss_InstallationID issue0) (iss_Number issue0) of
                     Inl _ \<Rightarrow> Inl ErrProviderFailure
                   | Inr resolved \<Rightarrow> Inr (issue0\<lparr>iss_Title := iss_Title resolved, iss_Body := iss_Body resolved,
                       iss_WebURL := iss_WebURL resolved, iss_State := iss_State resolved,
                       iss_IsPullRequest := iss_IsPullRequest resolved\<rparr>)))
           else Inr issue0) of
       Inl e \<Rightarrow> Inl e
     | Inr issue \<Rightarrow>
         (case w_provider W of
            None \<Rightarrow> Inr issue
          | Some p \<Rightarrow>
              if blank (iss_BaseSHA issue) then
                (case pv_ResolveBaseSHA p (iss_Repository issue) (iss_InstallationID issue) (iss_BaseBranch issue) of
                   Inl _ \<Rightarrow> Inl ErrProviderFailure
                 | Inr base \<Rightarrow> Inr (issue\<lparr>iss_BaseSHA := base\<rparr>))
              else Inr issue))"

definition create_or_existing ::
  "env \<Rightarrow> string \<Rightarrow> CreateInput \<Rightarrow> (nat \<Rightarrow> 'z repairs_db_scheme \<Rightarrow> 'z repairs_db_scheme) \<Rightarrow> 'z repairs_db_scheme \<Rightarrow>
   (repair_error, Repair, 'z repairs_db_scheme) outcome" where
  "create_or_existing E taskID input bt db =
    (case store_Create (call E 1) input db of
       (Inr repair, db1) \<Rightarrow> (Inr repair, db1)
     | (Inl e, db1) \<Rightarrow>
         let db2 = bt 1 db1
         in (case GetByTask (call E 2) taskID db2 of Inr existing \<Rightarrow> (Inr existing, db2) | Inl _ \<Rightarrow> (Inl e, db2)))"

definition CreateFromIssue ::
  "world \<Rightarrow> (nat \<Rightarrow> 'z repairs_db_scheme \<Rightarrow> 'z repairs_db_scheme) \<Rightarrow> env \<Rightarrow> Issue \<Rightarrow> string \<Rightarrow> 'z repairs_db_scheme \<Rightarrow>
   (repair_error, Repair, 'z repairs_db_scheme) outcome" where
  "CreateFromIssue W bt E issue0 actorID db =
    (case resolve_issue W (iss_Number issue0 \<le> 0 \<or> iss_State issue0 = []) issue0 of
       Inl e \<Rightarrow> (Inl e, db)
     | Inr issue \<Rightarrow>
         (case ValidateIssue issue (clock E) of
            Some e \<Rightarrow> (Inl e, db)
          | None \<Rightarrow>
              let sourceKey = ''github:issue:'' @ iss_Repository issue @ '':'' @ itoa (iss_Number issue)
              in (case service_Create (call E 0) \<lparr>in_Kind = KindIssueRepair,
                     in_Title = ''Repair issue #'' @ itoa (iss_Number issue) @ '': '' @ iss_Title issue,
                     in_RepositoryID = iss_RepositoryID issue, in_RepositoryName = iss_Repository issue,
                     in_SourceKey = sourceKey, in_Payload = Some ''{\"source\":\"github_issue\"}'', in_Priority = 0,
                     in_MaxAttempts = 5, in_CreatedBy = actorID, in_CreatedAt = clock E\<rparr> db of
                   (Inl e, db1) \<Rightarrow> (Inl (RepairTask e), db1)
                 | (Inr task, db1) \<Rightarrow>
                     create_or_existing E (task_ID task) \<lparr>rci_Trigger = TriggerGitHubIssue, rci_SourceKey = sourceKey,
                       rci_TaskID = task_ID task, rci_CreatedBy = actorID, rci_Issue = issue,
                       rci_CreatedAt = clock E\<rparr> bt (bt 0 db1))))"

definition BindAutomationTask ::
  "world \<Rightarrow> (nat \<Rightarrow> 'z repairs_db_scheme \<Rightarrow> 'z repairs_db_scheme) \<Rightarrow> env \<Rightarrow> Task \<Rightarrow> Issue \<Rightarrow> string \<Rightarrow>
   'z repairs_db_scheme \<Rightarrow> (repair_error, Repair, 'z repairs_db_scheme) outcome" where
  "BindAutomationTask W bt E task issue0 actorID db =
    (if task_Kind task \<noteq> KindIssueRepair \<or> task_ID task = [] then (Inl ErrInvalidTrigger, db)
     else case resolve_issue W (iss_Number issue0 \<le> 0 \<or> blank (iss_State issue0)) issue0 of
       Inl e \<Rightarrow> (Inl e, db)
     | Inr issue \<Rightarrow>
         (case ValidateIssue issue (clock E) of
            Some e \<Rightarrow> (Inl e, db)
          | None \<Rightarrow>
              create_or_existing E (task_ID task) \<lparr>rci_Trigger = TriggerGitHubIssue,
                rci_SourceKey = task_SourceKey task, rci_TaskID = task_ID task, rci_CreatedBy = actorID,
                rci_Issue = issue, rci_CreatedAt = clock E\<rparr> bt db))"

definition CreateFromDiagnosis ::
  "world \<Rightarrow> (nat \<Rightarrow> 'z repairs_db_scheme \<Rightarrow> 'z repairs_db_scheme) \<Rightarrow> env \<Rightarrow> Task \<Rightarrow> string \<Rightarrow> 'z repairs_db_scheme \<Rightarrow>
   (repair_error, Repair, 'z repairs_db_scheme) outcome" where
  "CreateFromDiagnosis W bt E diagnosisTask actorID db =
    (if task_Kind diagnosisTask \<noteq> KindCIDiagnosis \<or> task_Status diagnosisTask \<noteq> StatusSucceeded
     then (Inl ErrInvalidTrigger, db)
     else case w_unmarshal_diagnosis W (task_Payload diagnosisTask) of
       None \<Rightarrow> (Inl ErrInvalidTrigger, db)
     | Some payload \<Rightarrow>
         if dp_RepositoryName payload = [] \<or> dp_CloneURL payload = [] \<or> dp_InstallationID payload = [] \<or>
            dp_HeadSHA payload = []
         then (Inl ErrInvalidTrigger, db)
         else
           let issue = \<lparr>iss_Provider = ''github'', iss_RepositoryID = dp_RepositoryID payload,
               iss_Repository = dp_RepositoryName payload, iss_CloneURL = dp_CloneURL payload, iss_WebURL = [],
               iss_InstallationID = dp_InstallationID payload, iss_Number = 0, iss_Title = task_Title diagnosisTask,
               iss_Body = [], iss_State = ''open'', iss_IsPullRequest = False, iss_BaseBranch = ''main'',
               iss_BaseSHA = dp_HeadSHA payload\<rparr>;
             sourceKey = ''m6:diagnosis:'' @ task_ID diagnosisTask
           in (case ValidateIssue issue (clock E) of
             Some e \<Rightarrow> (Inl e, db)
           | None \<Rightarrow>
               (case service_Create (call E 0) \<lparr>in_Kind = KindIssueRepair,
                   in_Title = ''Repair diagnosis: '' @ task_Title diagnosisTask,
                   in_RepositoryID = iss_RepositoryID issue, in_RepositoryName = iss_Repository issue,
                   in_SourceKey = sourceKey, in_Payload = Some ''{\"source\":\"m6_diagnosis\"}'', in_Priority = 0,
                   in_MaxAttempts = 5, in_CreatedBy = actorID, in_CreatedAt = clock E\<rparr> db of
                 (Inl e, db1) \<Rightarrow> (Inl (RepairTask e), db1)
               | (Inr task, db1) \<Rightarrow>
                   store_Create (call E 1) \<lparr>rci_Trigger = TriggerM6Diagnosis, rci_SourceKey = sourceKey,
                     rci_TaskID = task_ID task, rci_CreatedBy = actorID, rci_Issue = issue,
                     rci_CreatedAt = clock E\<rparr> (bt 0 db1))))"

definition Get :: "env \<Rightarrow> string \<Rightarrow> 'z repairs_db_scheme \<Rightarrow> repair_error + Repair" where
  "Get E ident db = store_Get E (TrimSpace ident) db"

definition List_repairs :: "env \<Rightarrow> State \<Rightarrow> int \<Rightarrow> 'z repairs_db_scheme \<Rightarrow> repair_error + Repair list" where
  "List_repairs E state limit db =
    (if state \<noteq> StateOther [] \<and> \<not> ValidState state then Inl ErrInvalidState else store_List E state limit db)"

definition nextApprovedState :: "string \<Rightarrow> State" where
  "nextApprovedState phase = (if phase = ''plan'' then StatePlanApproved else StatePatchApproved)"

definition ConsumeApproval ::
  "world \<Rightarrow> (nat \<Rightarrow> 'z repairs_db_scheme \<Rightarrow> 'z repairs_db_scheme) \<Rightarrow> env \<Rightarrow> string \<Rightarrow> string \<Rightarrow> string \<Rightarrow> string \<Rightarrow> string \<Rightarrow>
   'z repairs_db_scheme \<Rightarrow> (repair_error, Repair, 'z repairs_db_scheme) outcome" where
  "ConsumeApproval W bt E repairID phase actionDigest idempotencyKey actorID db =
    (case store_Get (call E 0) repairID db of
       Inl e \<Rightarrow> (Inl e, db)
     | Inr repair \<Rightarrow>
         (case (if phase = ''plan''
                then Some (rep_PlanApprovalID repair, StateAwaitingPlanApproval, ActionRepairPlan)
                else if phase = ''patch''
                then Some (rep_PatchApprovalID repair, StateAwaitingPatchApproval, ActionPublishPatch)
                else None) of
            None \<Rightarrow> (Inl ErrApprovalPhase, db)
          | Some (approvalID, expected, action) \<Rightarrow>
              if rep_State repair = nextApprovedState phase then (Inr repair, db)
              else if rep_State repair \<noteq> expected \<or> approvalID = [] then (Inl ErrApprovalPhase, db)
              else if blank actorID then (Inl (RepairApproval Approvals.ErrForbidden), db)
              else (case Consume (w_approvals W) (call E 1) \<lparr>coi_ApprovalID = approvalID, coi_ActorID = actorID,
                     coi_ActionDigest = actionDigest, coi_IdempotencyKey = idempotencyKey, coi_Now = clock E\<rparr>
                     (bt 0 db) of
                (Inl e, db1) \<Rightarrow> (Inl (RepairApproval e), db1)
              | (Inr request, db1) \<Rightarrow>
                  if req_Action request \<noteq> action then (Inl ErrApprovalPhase, db1)
                  else (case Update W (call E 5) (repair\<lparr>rep_State := nextApprovedState phase, rep_FailureCode := [],
                         rep_FailureMessage := []\<rparr>) (bt 1 db1) of
                    (Inl e, db2) \<Rightarrow> (Inl e, db2)
                  | (Inr updated, db2) \<Rightarrow>
                      (case service_Retry (call E 6) (rep_TaskID repair) (''M8 '' @ phase @ '' approval consumed'')
                          (bt 2 db2) of
                         (Inl e, db3) \<Rightarrow> (Inl (RepairTask e), db3)
                       | (Inr _, db3) \<Rightarrow> (Inr updated, db3))))))"

definition markFailure ::
  "world \<Rightarrow> env \<Rightarrow> Repair \<Rightarrow> string \<Rightarrow> repair_error \<Rightarrow> 'z repairs_db_scheme \<Rightarrow>
   (repair_error, Repair, 'z repairs_db_scheme) outcome" where
  "markFailure W E repair code cause db =
    Update W E (repair\<lparr>rep_State := StateFailed, rep_FailureCode := code, rep_FailureMessage := w_text W cause\<rparr>) db"

definition repairApprovalInput :: "world \<Rightarrow> Repair \<Rightarrow> string \<Rightarrow> string \<Rightarrow> string \<Rightarrow> time \<Rightarrow> Approvals.CreateInput" where
  "repairApprovalInput W repair phase actionDigest actorID now =
    \<lparr>ci_Action = (if phase = ''patch'' then ActionPublishPatch else ActionRepairPlan), ci_Risk = RiskHigh,
     ci_ActionDigest = actionDigest, ci_RequesterID = actorID, ci_EligibleRoles = [RoleAdmin, RoleMaintainer],
     ci_ExpiresAt = now + 24 * hour,
     ci_Metadata = Some (w_marshal_meta W [(''repairId'', rep_ID repair), (''taskId'', rep_TaskID repair),
       (''phase'', phase), (''baseSha'', rep_BaseSHA repair)]), ci_RequestedAt = now\<rparr>"

section \<open>The processor (processor.go)\<close>

definition planOutputSchema :: string where
  "planOutputSchema =
     ''{\"type\":\"object\",\"required\":[\"schemaVersion\",\"summary\",\"steps\",\"tests\"],\"properties\":{\"sch'' @
     ''emaVersion\":{\"type\":\"string\",\"const\":\"v1\"},\"summary\":{\"type\":\"string\",\"maxLength\":20000},\"'' @
     ''steps\":{\"type\":\"array\",\"minItems\":1,\"maxItems\":50,\"items\":{\"type\":\"object\",\"required\":[\"id'' @
     ''\",\"description\",\"paths\"],\"properties\":{\"id\":{\"type\":\"string\"},\"description\":{\"type\":\"strin'' @
     ''g\"},\"paths\":{\"type\":\"array\",\"items\":{\"type\":\"string\"}}},\"additionalProperties\":false}},\"te'' @
     ''sts\":{\"type\":\"array\",\"items\":{\"type\":\"string\",\"maxLength\":1000}}},\"additionalProperties\":f'' @
     ''alse}''"

definition patchOutputSchema :: string where
  "patchOutputSchema =
     ''{\"type\":\"object\",\"required\":[\"schemaVersion\",\"summary\",\"baseSha\",\"diff\",\"files\",\"tests\"],\"'' @
     ''properties\":{\"schemaVersion\":{\"type\":\"string\",\"const\":\"v1\"},\"summary\":{\"type\":\"string\",\"ma'' @
     ''xLength\":20000},\"baseSha\":{\"type\":\"string\",\"pattern\":\"^[0-9a-fA-F]{40}$\"},\"diff\":{\"type\":\"'' @
     ''string\",\"maxLength\":524288},\"files\":{\"type\":\"array\",\"minItems\":1,\"maxItems\":100,\"items\":{\"'' @
     ''type\":\"object\",\"required\":[\"path\",\"content\",\"generated\",\"binary\"],\"properties\":{\"path\":{\"t'' @
     ''ype\":\"string\"},\"content\":{\"type\":\"string\"},\"generated\":{\"type\":\"boolean\"},\"binary\":{\"type\"'' @
     '':\"boolean\"}},\"additionalProperties\":false}},\"tests\":{\"type\":\"array\",\"minItems\":1,\"maxItems'' @
     ''\":100,\"items\":{\"type\":\"object\",\"required\":[\"name\",\"command\",\"passed\",\"output\"],\"properties'' @
     ''\":{\"name\":{\"type\":\"string\"},\"command\":{\"type\":\"string\"},\"passed\":{\"type\":\"boolean\"},\"outpu'' @
     ''t\":{\"type\":\"string\"}},\"additionalProperties\":false}}},\"additionalProperties\":false}''"

definition planPrompt :: "Repair \<Rightarrow> string" where
  "planPrompt repair = Join
    [''Create a structured repair plan for the GitHub issue below.'',
     ''Inspect only the immutable base commit. Do not modify files, publish branches, merge, or push.'',
     ''Return only JSON matching the supplied schema.'', ''Repository: '' @ rep_CloneURL repair,
     ''Base commit: '' @ rep_BaseSHA repair, ''Issue: '' @ rep_IssueTitle repair,
     ''Issue body: '' @ rep_IssueBody repair] [CHR 0x0A]"

definition patchPrompt :: "Repair \<Rightarrow> json \<Rightarrow> string" where
  "patchPrompt repair planJSON = Join
    [''Implement the approved repair plan at the immutable base commit.'',
     ''Return only JSON matching the supplied schema. Generate a unified diff and complete text contents for every changed file.'',
     ''Run only the configured tests and report each result. Do not publish or merge.'',
     ''Repository: '' @ rep_CloneURL repair, ''Base commit: '' @ rep_BaseSHA repair, ''Approved plan: '' @ planJSON] [CHR 0x0A]"

definition patchErrorCode :: "repair_error \<Rightarrow> string" where
  "patchErrorCode err =
    (case err of ErrTestsFailed \<Rightarrow> ''m8_tests_failed'' | ErrSecretDetected \<Rightarrow> ''m8_secret_detected''
     | ErrUnsafePath \<Rightarrow> ''m8_unsafe_path'' | ErrProtectedPath \<Rightarrow> ''m8_protected_path''
     | ErrGeneratedFile \<Rightarrow> ''m8_generated_file'' | ErrBinaryFile \<Rightarrow> ''m8_binary_file''
     | ErrPatchTooLarge \<Rightarrow> ''m8_patch_too_large'' | _ \<Rightarrow> ''m8_patch_invalid'')"

definition fail_repair ::
  "world \<Rightarrow> env \<Rightarrow> Repair \<Rightarrow> string \<Rightarrow> repair_error \<Rightarrow> 'z repairs_db_scheme \<Rightarrow>
   (Status \<times> string \<times> string) \<times> 'z repairs_db_scheme" where
  "fail_repair W E repair code err db =
    (case markFailure W E repair code err db of
       (Inl updateErr, db1) \<Rightarrow> ((StatusFailed, ''m8_state_persist_failed'', w_text W updateErr), db1)
     | (Inr _, db1) \<Rightarrow> ((StatusFailed, code, w_text W err), db1))"

text \<open>The events the adapter streams are appended to the run one by one; the first that cannot be stored ends the phase.\<close>

fun append_events ::
  "world \<Rightarrow> (nat \<Rightarrow> 'z repairs_db_scheme \<Rightarrow> 'z repairs_db_scheme) \<Rightarrow> env \<Rightarrow> string \<Rightarrow> nat \<Rightarrow> exec_event list \<Rightarrow>
   'z repairs_db_scheme \<Rightarrow> task_error option \<times> 'z repairs_db_scheme" where
  "append_events W bt E runID k [] db = (None, db)"
| "append_events W bt E runID k (event # events) db =
    (case service_AppendEvent (call E (100 + k)) runID \<lparr>rei_Kind = ex_Kind event, rei_Stream = ex_Stream event,
        rei_Message = ex_Message event, rei_Payload = Some (w_marshal_event W event),
        rei_Terminal = ex_Terminal event\<rparr> (bt (100 + k) db) of
       (Inl e, db1) \<Rightarrow> (Some e, db1)
     | (Inr _, db1) \<Rightarrow> append_events W bt E runID (Suc k) events db1)"

definition runAC ::
  "world \<Rightarrow> adapter \<Rightarrow> (nat \<Rightarrow> 'z repairs_db_scheme \<Rightarrow> 'z repairs_db_scheme) \<Rightarrow> env \<Rightarrow> Task \<Rightarrow> Run \<Rightarrow> Repair \<Rightarrow> string \<Rightarrow> string \<Rightarrow>
   'z repairs_db_scheme \<Rightarrow> (string \<times> repair_error + json) \<times> 'z repairs_db_scheme" where
  "runAC W ad bt E task run repair prompt schema db =
    (case service_AppendEvent (call E 20) (run_ID run) \<lparr>rei_Kind = ''status'', rei_Stream = [],
        rei_Message = ''starting M8 AC repair phase at '' @ rep_BaseSHA repair, rei_Payload = None,
        rei_Terminal = False\<rparr> (bt 20 db) of
       (Inl e, db1) \<Rightarrow> (Inl (''m8_event_persist_failed'', RepairTask e), db1)
     | (Inr _, db1) \<Rightarrow>
         (case ad_Start ad \<lparr>xr_CorrelationID = run_CorrelationID run,
             xr_ProjectID = (if w_projectID W = [] then task_RepositoryID task else w_projectID W),
             xr_AgentName = (if w_agentName W = [] then ''codex'' else w_agentName W),
             xr_Repository = rep_CloneURL repair, xr_CommitSHA = rep_BaseSHA repair, xr_Prompt = prompt,
             xr_Timeout = (if w_timeout W \<le> 0 then 15 * minute else w_timeout W), xr_OutputSchemaJSON = schema,
             xr_Driver = ''docker'', xr_Cleanup = ''remove'', xr_NetworkEnabled = False\<rparr> of
            Inl msg \<Rightarrow> (Inl (''m8_ac_start_failed'', RepairMessage msg), db1)
          | Inr externalID \<Rightarrow>
              (case service_AppendEvent (call E 21) (run_ID run) \<lparr>rei_Kind = ''external_run'', rei_Stream = [],
                  rei_Message = ''M8 AC repair phase started'',
                  rei_Payload = Some (''{\"externalRunId\":'' @ w_quote W externalID @ ''}''),
                  rei_Terminal = False\<rparr> (bt 21 db1) of
                 (Inl e, db2) \<Rightarrow> (Inl (''m8_event_persist_failed'', RepairTask e), db2)
               | (Inr _, db2) \<Rightarrow>
                   (case append_events W bt E (run_ID run) 0 (fst (ad_Events ad externalID)) db2 of
                      (Some e, db3) \<Rightarrow> (Inl (''m8_event_persist_failed'', RepairTask e), db3)
                    | (None, db3) \<Rightarrow>
                        (case snd (ad_Events ad externalID) of
                           Some msg \<Rightarrow> (Inl (''m8_ac_stream_failed'', RepairMessage msg), db3)
                         | None \<Rightarrow>
                             (case ad_Result ad externalID of
                                Inl msg \<Rightarrow> (Inl (''m8_ac_result_failed'', RepairMessage msg), db3)
                              | Inr output \<Rightarrow>
                                  if output = [] then (Inl (''m8_ac_result_invalid'', ErrInvalidPatch), db3)
                                  else (Inr output, db3)))))))"

definition generatePlan ::
  "world \<Rightarrow> adapter \<Rightarrow> (nat \<Rightarrow> 'z repairs_db_scheme \<Rightarrow> 'z repairs_db_scheme) \<Rightarrow> env \<Rightarrow> Task \<Rightarrow> Run \<Rightarrow> Repair \<Rightarrow>
   'z repairs_db_scheme \<Rightarrow> (Status \<times> string \<times> string) \<times> 'z repairs_db_scheme" where
  "generatePlan W ad bt E task run repair0 db =
    (let repair = repair0\<lparr>rep_State := StatePlanning\<rparr>
     in case Update W (call E 1) repair db of
       (Inl e, db1) \<Rightarrow> ((StatusFailed, ''m8_state_persist_failed'', w_text W e), db1)
     | (Inr _, db1) \<Rightarrow>
         (case runAC W ad bt E task run repair (planPrompt repair) planOutputSchema db1 of
            (Inl (code, err), db2) \<Rightarrow> fail_repair W (call E 2) repair code err (bt 2 db2)
          | (Inr output, db2) \<Rightarrow>
              (case w_decode_plan W output of
                 None \<Rightarrow> fail_repair W (call E 2) repair ''m8_plan_invalid'' ErrInvalidPlan (bt 2 db2)
               | Some plan \<Rightarrow>
                   (case ValidatePlan (w_uni W) plan of
                      Some err \<Rightarrow> fail_repair W (call E 2) repair ''m8_plan_invalid'' err (bt 2 db2)
                    | None \<Rightarrow>
                        let planDigest = Digest (w_sha W) (w_marshal_plan W) plan
                        in if blank (rep_CreatedBy repair)
                           then fail_repair W (call E 2) repair ''m8_requester_missing''
                             (RepairMessage ''repair requester is required for approval'') (bt 2 db2)
                           else (case Create (w_approvals W) (call E 3)
                               (repairApprovalInput W repair ''plan'' planDigest (rep_CreatedBy repair) (clock E)) (bt 3 db2) of
                             (Inl err, db3) \<Rightarrow>
                               fail_repair W (call E 2) repair ''m8_plan_approval_failed'' (RepairApproval err) (bt 4 db3)
                           | (Inr request, db3) \<Rightarrow>
                               (case Update W (call E 7) (repair\<lparr>rep_Plan := w_marshal_plan W plan,
                                   rep_PlanDigest := planDigest, rep_PlanApprovalID := req_ID request,
                                   rep_State := StateAwaitingPlanApproval\<rparr>) (bt 4 db3) of
                                 (Inl e, db4) \<Rightarrow> ((StatusFailed, ''m8_state_persist_failed'', w_text W e), db4)
                               | (Inr _, db4) \<Rightarrow>
                                   ((StatusAwaitingApproval, [], ''repair plan is awaiting approval''), db4)))))))"

definition generatePatch ::
  "world \<Rightarrow> adapter \<Rightarrow> (nat \<Rightarrow> 'z repairs_db_scheme \<Rightarrow> 'z repairs_db_scheme) \<Rightarrow> env \<Rightarrow> Task \<Rightarrow> Run \<Rightarrow> Repair \<Rightarrow>
   'z repairs_db_scheme \<Rightarrow> (Status \<times> string \<times> string) \<times> 'z repairs_db_scheme" where
  "generatePatch W ad bt E task run repair0 db =
    (let repair = repair0\<lparr>rep_State := StatePatching\<rparr>
     in case Update W (call E 1) repair db of
       (Inl e, db1) \<Rightarrow> ((StatusFailed, ''m8_state_persist_failed'', w_text W e), db1)
     | (Inr _, db1) \<Rightarrow>
         (case w_unmarshal_plan W (rep_Plan repair) of
            None \<Rightarrow> fail_repair W (call E 2) repair ''m8_plan_missing'' ErrInvalidPlan (bt 1 db1)
          | Some plan \<Rightarrow>
              (case runAC W ad bt E task run repair (patchPrompt repair (w_marshal_plan W plan)) patchOutputSchema db1 of
                 (Inl (code, err), db2) \<Rightarrow> fail_repair W (call E 2) repair code err (bt 2 db2)
               | (Inr output, db2) \<Rightarrow>
                   (case w_decode_patch W output of
                      None \<Rightarrow> fail_repair W (call E 2) repair ''m8_patch_invalid'' ErrInvalidPatch (bt 2 db2)
                    | Some patch \<Rightarrow>
                        (case ValidatePatch (w_uni W) patch (rep_BaseSHA repair) of
                           Some err \<Rightarrow> fail_repair W (call E 2) repair (patchErrorCode err) err (bt 2 db2)
                         | None \<Rightarrow>
                             let patchDigest = Digest (w_sha W) (w_marshal_patch W) patch
                             in (case Create (w_approvals W) (call E 3)
                                 (repairApprovalInput W repair ''patch'' patchDigest (rep_CreatedBy repair) (clock E)) (bt 3 db2) of
                               (Inl err, db3) \<Rightarrow>
                                 fail_repair W (call E 2) repair ''m8_patch_approval_failed'' (RepairApproval err) (bt 4 db3)
                             | (Inr request, db3) \<Rightarrow>
                                 (case Update W (call E 7) (repair\<lparr>rep_Patch := w_marshal_patch W patch,
                                     rep_PatchDigest := patchDigest, rep_PatchApprovalID := req_ID request,
                                     rep_BranchName := ''repomender/repair/'' @ rep_ID repair,
                                     rep_State := StateAwaitingPatchApproval\<rparr>) (bt 4 db3) of
                                   (Inl e, db4) \<Rightarrow> ((StatusFailed, ''m8_state_persist_failed'', w_text W e), db4)
                                 | (Inr _, db4) \<Rightarrow>
                                     ((StatusAwaitingApproval, [], ''repair patch is awaiting approval''), db4))))))))"

definition publish ::
  "world \<Rightarrow> (nat \<Rightarrow> 'z repairs_db_scheme \<Rightarrow> 'z repairs_db_scheme) \<Rightarrow> env \<Rightarrow> Repair \<Rightarrow>
   'z repairs_db_scheme \<Rightarrow> (Status \<times> string \<times> string) \<times> 'z repairs_db_scheme" where
  "publish W bt E repair0 db =
    (let repair = repair0\<lparr>rep_State := StatePatchApproved\<rparr>
     in case w_unmarshal_patch W (rep_Patch repair) of
       None \<Rightarrow> fail_repair W (call E 2) repair ''m8_patch_missing'' ErrInvalidPatch (bt 1 db)
     | Some patch \<Rightarrow>
         (case ValidatePatch (w_uni W) patch (rep_BaseSHA repair) of
            Some err \<Rightarrow> fail_repair W (call E 2) repair (patchErrorCode err) err (bt 1 db)
          | None \<Rightarrow>
              (case w_provider W of
                 None \<Rightarrow> fail_repair W (call E 2) repair ''m8_provider_unavailable'' ErrProviderFailure (bt 1 db)
               | Some pv \<Rightarrow>
                   let input = \<lparr>pub_Repository = rep_Repository repair, pub_InstallationID = rep_InstallationID repair,
                       pub_BaseBranch = rep_BaseBranch repair, pub_BaseSHA = rep_BaseSHA repair,
                       pub_BranchName = rep_BranchName repair, pub_Title = ''Repair: '' @ rep_IssueTitle repair,
                       pub_Body = patch_Summary patch, pub_Files = patch_Files patch\<rparr>;
                     db1 = (let d = bt 1 db in d\<lparr>publications := publications d @ [input]\<rparr>)
                   in (case pv_PublishDraft pv input of
                     Inl _ \<Rightarrow> fail_repair W (call E 2) repair ''m8_publication_failed'' ErrProviderFailure (bt 2 db1)
                   | Inr pr \<Rightarrow>
                       (case Update W (call E 7) (repair\<lparr>rep_DraftPR := pr, rep_State := StatePublished,
                           rep_FailureCode := [], rep_FailureMessage := []\<rparr>) (bt 2 db1) of
                         (Inl e, db2) \<Rightarrow> ((StatusFailed, ''m8_state_persist_failed'', w_text W e), db2)
                       | (Inr _, db2) \<Rightarrow>
                           ((StatusSucceeded, [], ''repair published as a draft pull request''), db2))))))"

fun state_string :: "State \<Rightarrow> string" where
  "state_string StatePlanning = ''planning''"
| "state_string StateAwaitingPlanApproval = ''awaiting_plan_approval''"
| "state_string StatePlanApproved = ''plan_approved''"
| "state_string StatePatching = ''patching''"
| "state_string StateAwaitingPatchApproval = ''awaiting_patch_approval''"
| "state_string StatePatchApproved = ''patch_approved''"
| "state_string StatePublished = ''published''"
| "state_string StateFailed = ''failed''"
| "state_string StateCancelled = ''cancelled''"
| "state_string (StateOther s) = s"

text \<open>
  Without an adapter \<open>Process\<close> reports that before it would call it. The guard leaves out one combination, a failed repair with a patch
  digest and no patch approval, in which the missing adapter is dereferenced; the invariant below rules it out.
\<close>

definition Process ::
  "world \<Rightarrow> (nat \<Rightarrow> 'z repairs_db_scheme \<Rightarrow> 'z repairs_db_scheme) \<Rightarrow> env \<Rightarrow> Task \<Rightarrow> Run \<Rightarrow>
   'z repairs_db_scheme \<Rightarrow> (Status \<times> string \<times> string) \<times> 'z repairs_db_scheme" where
  "Process W bt E task run db =
    (case GetByTask (call E 0) (task_ID task) db of
       Inl e \<Rightarrow> ((StatusFailed, ''m8_repair_not_found'', w_text W e), db)
     | Inr repair \<Rightarrow>
         let db1 = bt 0 db;
           s = rep_State repair
         in (case w_adapter W of
           None \<Rightarrow>
             if s = StatePlanning \<or> s = StatePlanApproved \<or> s = StatePatching \<or>
                s = StateFailed \<and> rep_PatchDigest repair = []
             then fail_repair W (call E 2) repair ''m8_ac_unavailable''
               (RepairMessage ''AC execution is required for issue repair'') db1
             else (case s of
               StatePatchApproved \<Rightarrow> publish W bt E repair db1
             | StateFailed \<Rightarrow>
                 if rep_PatchApprovalID repair \<noteq> [] then publish W bt E repair db1
                 else ((StatusOther ''panic'', [], []), db1)
             | _ \<Rightarrow> ((StatusFailed, ''m8_invalid_state'', state_string s), db1))
         | Some ad \<Rightarrow>
             (case s of
                StatePlanning \<Rightarrow> generatePlan W ad bt E task run repair db1
              | StatePlanApproved \<Rightarrow> generatePatch W ad bt E task run repair db1
              | StatePatchApproved \<Rightarrow> publish W bt E repair db1
              | StateFailed \<Rightarrow>
                  if rep_PatchApprovalID repair \<noteq> [] \<and> rep_PatchDigest repair \<noteq> [] then publish W bt E repair db1
                  else if rep_PlanApprovalID repair \<noteq> [] \<and> rep_PlanDigest repair \<noteq> []
                  then generatePatch W ad bt E task run repair db1
                  else generatePlan W ad bt E task run repair db1
              | _ \<Rightarrow> ((StatusFailed, ''m8_invalid_state'', state_string s), db1))))"

section \<open>The invariant\<close>

text \<open>An approval request for an action and digest exists, and it has been consumed.\<close>

definition requested :: "'z repairs_db_scheme \<Rightarrow> Action \<Rightarrow> string \<Rightarrow> string \<Rightarrow> bool" where
  "requested db a i d \<longleftrightarrow> (\<exists>r \<in> set (approval_requests db). req_ID r = i \<and> req_Action r = a \<and> req_ActionDigest r = d)"

definition released :: "'z repairs_db_scheme \<Rightarrow> Action \<Rightarrow> string \<Rightarrow> string \<Rightarrow> bool" where
  "released db a i d \<longleftrightarrow> (\<exists>r \<in> set (approval_requests db). req_ID r = i \<and> req_Action r = a \<and> req_ActionDigest r = d \<and>
     req_State r = StateConsumed)"

definition plan_released :: "'z repairs_db_scheme \<Rightarrow> Repair \<Rightarrow> bool" where
  "plan_released db r \<longleftrightarrow> released db ActionRepairPlan (rep_PlanApprovalID r) (rep_PlanDigest r)"

definition patch_released :: "'z repairs_db_scheme \<Rightarrow> Repair \<Rightarrow> bool" where
  "patch_released db r \<longleftrightarrow> released db ActionPublishPatch (rep_PatchApprovalID r) (rep_PatchDigest r)"

text \<open>The stored patch is the one whose digest was submitted for approval, and it passed validation.\<close>

definition patch_bound :: "world \<Rightarrow> Repair \<Rightarrow> bool" where
  "patch_bound W r \<longleftrightarrow> (\<exists>p. w_unmarshal_patch W (rep_Patch r) = Some p \<and>
     Digest (w_sha W) (w_marshal_patch W) p = rep_PatchDigest r \<and> ValidatePatch (w_uni W) p (rep_BaseSHA r) = None)"

definition rep_ok :: "world \<Rightarrow> 'z repairs_db_scheme \<Rightarrow> Repair \<Rightarrow> bool" where
  "rep_ok W db r \<longleftrightarrow>
     (rep_PlanApprovalID r = [] \<longleftrightarrow> rep_PlanDigest r = []) \<and> (rep_PatchApprovalID r = [] \<longleftrightarrow> rep_PatchDigest r = []) \<and>
     (rep_PlanDigest r \<noteq> [] \<longrightarrow> requested db ActionRepairPlan (rep_PlanApprovalID r) (rep_PlanDigest r)) \<and>
     (rep_PatchDigest r \<noteq> [] \<longrightarrow> requested db ActionPublishPatch (rep_PatchApprovalID r) (rep_PatchDigest r) \<and>
        patch_bound W r \<and> plan_released db r) \<and>
     (case rep_State r of
        StatePlanning \<Rightarrow> rep_PlanDigest r = [] \<and> rep_PatchDigest r = []
      | StateAwaitingPlanApproval \<Rightarrow> rep_PlanDigest r \<noteq> [] \<and> rep_PatchDigest r = []
      | StatePlanApproved \<Rightarrow> plan_released db r \<and> rep_PatchDigest r = []
      | StatePatching \<Rightarrow> plan_released db r \<and> rep_PatchDigest r = []
      | StateAwaitingPatchApproval \<Rightarrow> plan_released db r \<and> rep_PatchDigest r \<noteq> []
      | StatePatchApproved \<Rightarrow> plan_released db r \<and> patch_released db r \<and> rep_PatchDigest r \<noteq> []
      | StatePublished \<Rightarrow> plan_released db r \<and> patch_released db r \<and> rep_PatchDigest r \<noteq> []
      | StateFailed \<Rightarrow> (rep_PlanDigest r \<noteq> [] \<longrightarrow> plan_released db r) \<and> (rep_PatchDigest r \<noteq> [] \<longrightarrow> patch_released db r)
      | _ \<Rightarrow> False)"

definition pub_ok :: "world \<Rightarrow> 'z repairs_db_scheme \<Rightarrow> PublishInput \<Rightarrow> bool" where
  "pub_ok W db input \<longleftrightarrow> (\<exists>p planID planDigest patchID. pub_Files input = patch_Files p \<and>
     ValidatePatch (w_uni W) p (pub_BaseSHA input) = None \<and>
     released db ActionRepairPlan planID planDigest \<and>
     released db ActionPublishPatch patchID (Digest (w_sha W) (w_marshal_patch W) p))"

definition repairs_inv :: "world \<Rightarrow> 'z repairs_db_scheme \<Rightarrow> bool" where
  "repairs_inv W db \<longleftrightarrow> approvals_inv db \<and> distinct (map rep_ID (issue_repairs db)) \<and>
     distinct (map rep_SourceKey (issue_repairs db)) \<and> distinct (map rep_TaskID (issue_repairs db)) \<and>
     (\<forall>r \<in> set (issue_repairs db). rep_ok W db r) \<and> (\<forall>p \<in> set (publications db). pub_ok W db p)"

text \<open>
  What the code relies on of JSON: a patch read back from the column it was written to is the same patch, and so is one that was encoded
  after it had been decoded.
\<close>

definition json_ok :: "world \<Rightarrow> bool" where
  "json_ok W \<longleftrightarrow>
     (\<forall>x p. w_unmarshal_patch W x = Some p \<longrightarrow> w_unmarshal_patch W (w_jsonb W (normalizeJSON W x)) = Some p) \<and>
     (\<forall>x p. w_decode_patch W x = Some p \<longrightarrow> w_unmarshal_patch W (w_marshal_patch W p) = Some p)"

section \<open>Guarantees\<close>

text \<open>
  What every operation guarantees to the others, and what it relies on in its gaps: the invariant is kept, requests and releases stay, and the
  tables of the task queue stay well-formed.
\<close>

definition known :: "'z repairs_db_scheme \<Rightarrow> string \<Rightarrow> string \<Rightarrow> string \<Rightarrow> bool" where
  "known db i base t \<longleftrightarrow> (\<exists>r \<in> set (issue_repairs db). rep_ID r = i \<and> rep_BaseSHA r = base \<and> rep_TaskID r = t)"

definition keep :: "'z repairs_db_scheme \<Rightarrow> 'z repairs_db_scheme \<Rightarrow> bool" where
  "keep db db' \<longleftrightarrow> (\<forall>a i d. (requested db a i d \<longrightarrow> requested db' a i d) \<and> (released db a i d \<longrightarrow> released db' a i d)) \<and>
     (\<forall>i base t. known db i base t \<longrightarrow> known db' i base t) \<and> (tasks_inv db \<longrightarrow> tasks_inv db')"

definition ext :: "world \<Rightarrow> 'z repairs_db_scheme \<Rightarrow> 'z repairs_db_scheme \<Rightarrow> bool" where
  "ext W db db' \<longleftrightarrow> repairs_inv W db' \<and> keep db db'"

definition guar :: "world \<Rightarrow> 'z repairs_db_scheme \<Rightarrow> 'z repairs_db_scheme \<Rightarrow> bool" where
  "guar W db db' \<longleftrightarrow> (repairs_inv W db \<longrightarrow> ext W db db')"

definition rely :: "world \<Rightarrow> (nat \<Rightarrow> 'z repairs_db_scheme \<Rightarrow> 'z repairs_db_scheme) \<Rightarrow> bool" where
  "rely W bt \<longleftrightarrow> (\<forall>n db. guar W db (bt n db))"

lemma keep_refl [simp]: "keep db db"
  by (simp add: keep_def)

lemma keep_trans: "keep a b \<Longrightarrow> keep b c \<Longrightarrow> keep a c"
  by (simp add: keep_def)

lemma ext_refl: "repairs_inv W db \<Longrightarrow> ext W db db"
  by (simp add: ext_def)

lemma ext_trans: "ext W a b \<Longrightarrow> ext W b c \<Longrightarrow> ext W a c"
  unfolding ext_def using keep_trans by blast

lemma ext_inv: "ext W a b \<Longrightarrow> repairs_inv W b"
  by (simp add: ext_def)

lemma guar_trans: "guar W a b \<Longrightarrow> guar W b c \<Longrightarrow> guar W a c"
  unfolding guar_def using ext_trans ext_inv by blast

lemma bt_ext: "rely W bt \<Longrightarrow> ext W a db \<Longrightarrow> ext W a (bt n db)"
  unfolding rely_def guar_def using ext_trans ext_inv by blast

lemma keep_rep_ok: "keep db db' \<Longrightarrow> rep_ok W db r \<Longrightarrow> rep_ok W db' r"
  by (cases "rep_State r") (auto simp: keep_def rep_ok_def plan_released_def patch_released_def)

lemma keep_pub_ok: "keep db db' \<Longrightarrow> pub_ok W db p \<Longrightarrow> pub_ok W db' p"
  unfolding keep_def pub_ok_def by blast

lemma approvals_keep:
  assumes "approvals_step db db'" "approvals_inv db"
  shows "(requested db a i d \<longrightarrow> requested db' a i d) \<and> (released db a i d \<longrightarrow> released db' a i d)"
  unfolding requested_def released_def
proof (intro conjI impI; elim bexE conjE)
  fix r assume r: "r \<in> set (approval_requests db)" "req_ID r = i" "req_Action r = a" "req_ActionDigest r = d"
  obtain r' where r': "r' \<in> set (approval_requests db')" "req_move r r'"
    using row_change_moves [OF approvals_step_change [OF assms(1)] assms(2) r(1)] by blast
  with r show "\<exists>r \<in> set (approval_requests db'). req_ID r = i \<and> req_Action r = a \<and> req_ActionDigest r = d"
    by (auto simp: req_move_def)
  assume "req_State r = StateConsumed"
  with r' have "r' = r" by (auto simp: req_move_def dest: CanTransition_rank)
  with r r' \<open>req_State r = StateConsumed\<close>
  show "\<exists>r \<in> set (approval_requests db'). req_ID r = i \<and> req_Action r = a \<and> req_ActionDigest r = d \<and> req_State r = StateConsumed"
    by auto
qed

lemma task_step_repairs:
  "task_step db db' \<Longrightarrow> issue_repairs db' = issue_repairs db \<and> publications db' = publications db"
  by (induction rule: task_step.induct)
     (auto simp: op_defs Let_def split: if_splits option.splits list.splits)

lemma record_event_repairs [simp]:
  "issue_repairs (record_event S E a b c d m db) = issue_repairs db"
  "publications (record_event S E a b c d m db) = publications db"
  by (auto simp: record_event_def service_RecordAudit_def RecordAudit_def Let_def split: option.splits)

lemma set_request_repairs [simp]:
  "issue_repairs (set_request i f db) = issue_repairs db" "publications (set_request i f db) = publications db"
  by (simp_all add: set_request_def)

lemma store_repairs:
  "Approvals.store_Create E ci db = (rc, db') \<Longrightarrow> issue_repairs db' = issue_repairs db \<and> publications db' = publications db"
  "store_Decide E di db = (rd, db') \<Longrightarrow> issue_repairs db' = issue_repairs db \<and> publications db' = publications db"
  "store_Consume E coi db = (rn, db') \<Longrightarrow> issue_repairs db' = issue_repairs db \<and> publications db' = publications db"
  "store_Cancel E cai db = (rx, db') \<Longrightarrow> issue_repairs db' = issue_repairs db \<and> publications db' = publications db"
  by (auto simp: Approvals.store_Create_def store_Decide_def store_Consume_def store_Cancel_def expire_branch_def Let_def
      split: option.splits if_splits)

lemma approvals_step_repairs:
  "approvals_step db db' \<Longrightarrow> issue_repairs db' = issue_repairs db \<and> publications db' = publications db"
proof (induction rule: approvals_step.induct)
  case (ap_create S E ci db res db')
  then show ?case
    by (auto simp: Create_def Let_def split: option.splits prod.splits sum.splits dest!: store_repairs)
next
  case (ap_decide S E di db res db')
  then show ?case
    by (auto simp: Decide_def Let_def split: option.splits prod.splits sum.splits if_splits dest!: store_repairs)
next
  case (ap_consume S E coi db res db')
  then show ?case
    by (auto simp: Consume_def Let_def split: option.splits prod.splits sum.splits if_splits dest!: store_repairs)
next
  case (ap_cancel S E cai db res db')
  then show ?case
    by (auto simp: Cancel_def Let_def split: option.splits prod.splits sum.splits if_splits dest!: store_repairs)
qed (simp add: task_step_repairs)

lemma approvals_ext:
  assumes "approvals_step db db'" "repairs_inv W db"
  shows "ext W db db'"
proof -
  have inv: "approvals_inv db" using assms(2) by (simp add: repairs_inv_def)
  have rows: "issue_repairs db' = issue_repairs db" "publications db' = publications db"
    using approvals_step_repairs [OF assms(1)] by auto
  then have k: "keep db db'"
    using approvals_keep [OF assms(1) inv] approvals_step_tasks_inv [OF assms(1)] by (simp add: keep_def known_def)
  with assms(2) rows approvals_step_inv [OF assms(1) inv] show ?thesis
    by (auto simp: ext_def repairs_inv_def intro: keep_rep_ok keep_pub_ok)
qed

lemma task_ext: "task_step db db' \<Longrightarrow> repairs_inv W db \<Longrightarrow> ext W db db'"
  by (blast intro: approvals_ext ap_task)

text \<open>A repair held in memory, read from the table at some earlier time.\<close>

definition mem_ok :: "world \<Rightarrow> 'z repairs_db_scheme \<Rightarrow> Repair \<Rightarrow> bool" where
  "mem_ok W db r \<longleftrightarrow> rep_ok W db r \<and> known db (rep_ID r) (rep_BaseSHA r) (rep_TaskID r)"

lemma ext_mem: "ext W a b \<Longrightarrow> mem_ok W a r \<Longrightarrow> mem_ok W b r"
  unfolding ext_def mem_ok_def using keep_rep_ok by (auto simp: keep_def)

lemma mem_ok_row: "repairs_inv W db \<Longrightarrow> r \<in> set (issue_repairs db) \<Longrightarrow> mem_ok W db r"
  by (auto simp: mem_ok_def repairs_inv_def known_def)

lemma write_repair_ok:
  assumes "json_ok W" "rep_ok W db rec" "rep_BaseSHA r = rep_BaseSHA rec"
  shows "rep_ok W db (write_repair W now rec r)"
proof -
  have "patch_bound W (write_repair W now rec r)" if "patch_bound W rec"
    using that assms(1,3) by (auto simp: patch_bound_def write_repair_def json_ok_def)
  then show ?thesis
    using assms(2)
    by (cases "rep_State rec")
      (auto simp: rep_ok_def plan_released_def patch_released_def write_repair_def)
qed

lemma Update_ext:
  assumes "json_ok W" "repairs_inv W db" "mem_ok W db rec" "Update W E rec db = (res, db')"
  shows "ext W db db'"
proof (cases "db' = db")
  case True
  then show ?thesis using assms(2) by (simp add: ext_refl)
next
  case False
  let ?P = "\<lambda>r. rep_ID r = rep_ID rec" and ?f = "write_repair W (clock E) rec"
  from assms(4) False have db': "db' = db\<lparr>issue_repairs := update_where ?P ?f (issue_repairs db)\<rparr>"
    by (auto simp: Update_def Let_def split: if_splits)
  have ids: "rep_ID (?f r) = rep_ID r" "rep_BaseSHA (?f r) = rep_BaseSHA r" "rep_SourceKey (?f r) = rep_SourceKey r"
      "rep_TaskID (?f r) = rep_TaskID r" for r
    by (simp_all add: write_repair_def)
  have same: "requested db' = requested db" "released db' = released db"
    by (auto simp: db' requested_def released_def fun_eq_iff)
  have ok: "rep_ok W db' r = rep_ok W db r" "pub_ok W db' p = pub_ok W db p" for r p
    by (simp_all add: rep_ok_def pub_ok_def plan_released_def patch_released_def same cong: State.case_cong)
  have base: "rep_BaseSHA r = rep_BaseSHA rec" if "r \<in> set (issue_repairs db)" "?P r" for r
  proof -
    obtain q where "q \<in> set (issue_repairs db)" "rep_ID q = rep_ID rec" "rep_BaseSHA q = rep_BaseSHA rec"
      using assms(3) by (auto simp: mem_ok_def known_def)
    moreover have "inj_on rep_ID (set (issue_repairs db))"
      using assms(2) by (simp add: repairs_inv_def distinct_map)
    ultimately show ?thesis using that by (metis inj_onD)
  qed
  have "rep_ok W db' r" if "r \<in> set (issue_repairs db')" for r
    using that assms(2,3) base write_repair_ok [OF assms(1), of db rec]
    unfolding ok by (auto simp: db' set_update_where mem_ok_def repairs_inv_def)
  moreover have "known db' i b t" if "known db i b t" for i b t
  proof -
    from that obtain r where r: "r \<in> set (issue_repairs db)" "rep_ID r = i" "rep_BaseSHA r = b" "rep_TaskID r = t"
      by (auto simp: known_def)
    then have "(if ?P r then ?f r else r) \<in> set (issue_repairs db')" by (simp add: db' set_update_where)
    with r ids show ?thesis unfolding known_def by (intro bexI [of _ "if ?P r then ?f r else r"]) auto
  qed
  moreover have "approval_requests db' = approval_requests db" "publications db' = publications db"
    "map rep_ID (issue_repairs db') = map rep_ID (issue_repairs db)"
    "map rep_SourceKey (issue_repairs db') = map rep_SourceKey (issue_repairs db)"
    "map rep_TaskID (issue_repairs db') = map rep_TaskID (issue_repairs db)"
    by (simp_all add: db' map_update_where ids)
  moreover have "tasks_inv db' = tasks_inv db" by (rule tasks_inv_cong) (simp_all add: db')
  ultimately show ?thesis
    using assms(2) by (simp add: ext_def keep_def same repairs_inv_def ok approvals_inv_def)
qed

text \<open>Rules that follow the code: what holds before a call holds after it, on each of its branches.\<close>

lemma case_outcome_ext:
  assumes "ext W a (snd x)" "\<And>e d. x = (Inl e, d) \<Longrightarrow> ext W a d \<Longrightarrow> ext W a (snd (f e d))"
    and "\<And>y d. x = (Inr y, d) \<Longrightarrow> ext W a d \<Longrightarrow> ext W a (snd (g y d))"
  shows "ext W a (snd (case x of (Inl e, d) \<Rightarrow> f e d | (Inr y, d) \<Rightarrow> g y d))"
  using assms by (cases x; cases "fst x") auto

lemma case_failed_ext:
  assumes "ext W a (snd x)" "\<And>e d. x = (Some e, d) \<Longrightarrow> ext W a d \<Longrightarrow> ext W a (snd (f e d))"
    and "\<And>d. x = (None, d) \<Longrightarrow> ext W a d \<Longrightarrow> ext W a (snd (g d))"
  shows "ext W a (snd (case x of (Some e, d) \<Rightarrow> f e d | (None, d) \<Rightarrow> g d))"
  using assms by (cases x; cases "fst x") auto

lemma case_option_ext:
  "(x = None \<Longrightarrow> ext W a (snd f)) \<Longrightarrow> (\<And>y. x = Some y \<Longrightarrow> ext W a (snd (g y))) \<Longrightarrow>
   ext W a (snd (case x of None \<Rightarrow> f | Some y \<Rightarrow> g y))"
  by (cases x) auto

lemma case_sum_ext:
  "(\<And>e. x = Inl e \<Longrightarrow> ext W a (snd (f e))) \<Longrightarrow> (\<And>y. x = Inr y \<Longrightarrow> ext W a (snd (g y))) \<Longrightarrow>
   ext W a (snd (case x of Inl e \<Rightarrow> f e | Inr y \<Rightarrow> g y))"
  by (cases x) auto

lemma if_ext: "(c \<Longrightarrow> ext W a (snd x)) \<Longrightarrow> (\<not> c \<Longrightarrow> ext W a (snd y)) \<Longrightarrow> ext W a (snd (if c then x else y))"
  by simp

lemma case_prod_ext: "(\<And>c e. ext W a (snd (f c e))) \<Longrightarrow> ext W a (snd (case x of (c, e) \<Rightarrow> f c e))"
  by (cases x) auto

lemma leaf_ext: "ext W a d \<Longrightarrow> ext W a (snd (x, d))"
  by simp

lemma AppendEvent_ext: "ext W a d \<Longrightarrow> ext W a (snd (service_AppendEvent E i x d))"
  unfolding service_AppendEvent_def
  by (rule ext_trans, assumption) (rule task_ext [OF st_event [OF prod.collapse [symmetric]]], rule ext_inv)

lemma Retry_ext: "ext W a d \<Longrightarrow> ext W a (snd (service_Retry E i x d))"
  unfolding service_Retry_def
  by (rule ext_trans, assumption) (rule task_ext [OF st_retry [OF prod.collapse [symmetric]]], rule ext_inv)

lemma CreateTask_ext: "ext W a d \<Longrightarrow> ext W a (snd (service_Create E i d))"
  unfolding service_Create_def
  by (rule ext_trans, assumption) (rule task_ext [OF st_create [OF prod.collapse [symmetric]]], rule ext_inv)

lemma Create_ext: "ext W a d \<Longrightarrow> ext W a (snd (Create S E i d))"
  by (rule ext_trans, assumption) (rule approvals_ext [OF ap_create [OF prod.collapse [symmetric]]], rule ext_inv)

lemma Consume_ext: "ext W a d \<Longrightarrow> ext W a (snd (Consume S E i d))"
  by (rule ext_trans, assumption) (rule approvals_ext [OF ap_consume [OF prod.collapse [symmetric]]], rule ext_inv)

lemma Update_ext': "json_ok W \<Longrightarrow> ext W a d \<Longrightarrow> mem_ok W d rec \<Longrightarrow> ext W a (snd (Update W E rec d))"
  by (rule ext_trans, assumption) (rule Update_ext [OF _ _ _ prod.collapse [symmetric]]; simp add: ext_inv)

lemma fail_repair_ext:
  assumes "json_ok W" "ext W a db" "mem_ok W a r"
    and "rep_State r \<in> {StatePlanning, StatePlanApproved, StatePatching, StatePatchApproved, StateFailed}"
  shows "ext W a (snd (fail_repair W E r code err db))"
proof -
  have "mem_ok W a (r\<lparr>rep_State := StateFailed, rep_FailureCode := c, rep_FailureMessage := m\<rparr>)" for c m
    using assms(3,4) by (auto simp: mem_ok_def rep_ok_def plan_released_def patch_released_def patch_bound_def)
  then show ?thesis
    unfolding fail_repair_def markFailure_def
    by (intro case_outcome_ext leaf_ext Update_ext' assms ext_mem [OF assms(2)])
qed

lemma append_events_ext:
  "rely W bt \<Longrightarrow> ext W a db \<Longrightarrow> ext W a (snd (append_events W bt E i k evs db))"
proof (induction evs arbitrary: k db)
  case (Cons ev evs)
  note b = bt_ext [OF Cons.prems(1)]
  show ?case
    unfolding append_events.simps
    by (intro case_outcome_ext leaf_ext AppendEvent_ext b Cons.IH Cons.prems(1)) (use Cons.prems in auto)
qed simp

lemma runAC_ext:
  assumes "rely W bt" "ext W a db"
  shows "ext W a (snd (runAC W ad bt E task run r prompt schema db))"
  unfolding runAC_def
  by (intro case_outcome_ext case_failed_ext case_option_ext case_sum_ext if_ext leaf_ext AppendEvent_ext
      append_events_ext [OF assms(1)] bt_ext [OF assms(1)] assms(2))

section \<open>The phases keep the invariant\<close>

lemma Create_requests:
  assumes "Create S E input db = (Inr request, db')"
  shows "requested db' (ci_Action input) (req_ID request) (TrimSpace (ci_ActionDigest input)) \<and> req_ID request \<noteq> [] \<and>
    TrimSpace (ci_ActionDigest input) \<noteq> []"
  using assms
  by (auto simp: Create_def Approvals.store_Create_def Approvals.newID_def requested_def digestPattern_def Let_def
      dest!: ValidateCreate_ok split: option.splits prod.splits sum.splits if_splits)

lemma TrimSpace_Digest [simp]: "TrimSpace (Digest sha m x) = Digest sha m x"
  unfolding Digest_def
  by (rule TrimSpace_visible) (use EncodeToString_is_hex is_hex_visible in \<open>auto simp: list_all_iff\<close>)

lemma approval_requested:
  assumes "Create S E (repairApprovalInput W r phase (Digest sha m x) actor now) db = (Inr request, db')"
  shows "requested db' (if phase = ''patch'' then ActionPublishPatch else ActionRepairPlan) (req_ID request) (Digest sha m x) \<and>
    req_ID request \<noteq> [] \<and> Digest sha m x \<noteq> []"
  using Create_requests [OF assms] by (simp add: repairApprovalInput_def)

lemma requested_ext: "ext W a b \<Longrightarrow> requested a x i d \<Longrightarrow> requested b x i d"
  by (auto simp: ext_def keep_def)

text \<open>The states in which each phase starts, and what it writes.\<close>

definition plan_start :: "Repair \<Rightarrow> bool" where
  "plan_start r \<longleftrightarrow> rep_State r \<in> {StatePlanning, StateFailed} \<and> rep_PlanDigest r = [] \<and> rep_PatchDigest r = []"

definition patch_start :: "Repair \<Rightarrow> bool" where
  "patch_start r \<longleftrightarrow> rep_State r \<in> {StatePlanApproved, StateFailed} \<and>
     (rep_State r = StateFailed \<longrightarrow> rep_PlanDigest r \<noteq> []) \<and> rep_PatchDigest r = []"

definition publish_start :: "Repair \<Rightarrow> bool" where
  "publish_start r \<longleftrightarrow> rep_State r \<in> {StatePatchApproved, StateFailed} \<and> rep_PatchDigest r \<noteq> []"

lemma plan_memory:
  assumes "mem_ok W db r" "plan_start r"
  shows "mem_ok W db (r\<lparr>rep_State := StatePlanning\<rparr>)"
    and "requested db ActionRepairPlan i d \<Longrightarrow> i \<noteq> [] \<Longrightarrow> d \<noteq> [] \<Longrightarrow> mem_ok W db (r\<lparr>rep_Plan := p, rep_PlanDigest := d,
      rep_PlanApprovalID := i, rep_State := StateAwaitingPlanApproval\<rparr>)"
  using assms by (auto simp: mem_ok_def rep_ok_def plan_start_def)

lemma patch_memory:
  assumes "mem_ok W db r" "patch_start r"
  shows "mem_ok W db (r\<lparr>rep_State := StatePatching\<rparr>)"
    and "requested db ActionPublishPatch i d \<Longrightarrow> i \<noteq> [] \<Longrightarrow> d \<noteq> [] \<Longrightarrow> w_unmarshal_patch W x = Some p \<Longrightarrow>
      Digest (w_sha W) (w_marshal_patch W) p = d \<Longrightarrow> ValidatePatch (w_uni W) p (rep_BaseSHA r) = None \<Longrightarrow>
      mem_ok W db (r\<lparr>rep_Patch := x, rep_PatchDigest := d, rep_PatchApprovalID := i, rep_BranchName := b,
        rep_State := StateAwaitingPatchApproval\<rparr>)"
  using assms by (auto simp: mem_ok_def rep_ok_def patch_start_def plan_released_def patch_bound_def)

lemma publish_memory:
  assumes "mem_ok W db r" "publish_start r"
  shows "mem_ok W db (r\<lparr>rep_State := StatePatchApproved\<rparr>)"
    and "mem_ok W db (r\<lparr>rep_DraftPR := pr, rep_State := StatePublished, rep_FailureCode := c, rep_FailureMessage := m\<rparr>)"
  using assms by (auto simp: mem_ok_def rep_ok_def publish_start_def plan_released_def patch_released_def patch_bound_def)

lemma generatePlan_ext:
  assumes json: "json_ok W" and rely: "rely W bt" and a: "ext W a db" and mem: "mem_ok W a r" "plan_start r"
  shows "ext W a (snd (generatePlan W ad bt E task run r db))"
proof -
  note bt = bt_ext [OF rely]
  note planning = plan_memory(1) [OF mem]
  have fail: "ext W a (snd (fail_repair W E' (r\<lparr>rep_State := StatePlanning\<rparr>) code err d))" if "ext W a d" for E' code err d
    using fail_repair_ext [OF json that planning] by simp
  have start: "ext W a (snd (Update W E' (r\<lparr>rep_State := StatePlanning\<rparr>) db))" for E'
    by (rule Update_ext' [OF json a ext_mem [OF a planning]])
  have await: "ext W a (snd (Update W E2 (r\<lparr>rep_State := StatePlanning, rep_Plan := p, rep_PlanDigest := Digest sha m x,
      rep_PlanApprovalID := req_ID q, rep_State := StateAwaitingPlanApproval\<rparr>) (bt n d)))"
    if "Create S E1 (repairApprovalInput W r' ''plan'' (Digest sha m x) actor now) d0 = (Inr q, d)"
      "ext W a d" for E2 n p sha m x q d S E1 r' actor now d0
  proof -
    have d: "ext W d (bt n d)" using bt [OF ext_refl [OF ext_inv [OF that(2)]]] .
    have "mem_ok W (bt n d) r" using mem(1) that(2) d by (blast intro: ext_mem)
    with approval_requested [OF that(1)] requested_ext [OF d] mem(2)
    have "mem_ok W (bt n d) (r\<lparr>rep_Plan := p, rep_PlanDigest := Digest sha m x,
      rep_PlanApprovalID := req_ID q, rep_State := StateAwaitingPlanApproval\<rparr>)"
      by (intro plan_memory) auto
    with that json show ?thesis by (intro Update_ext' bt) auto
  qed
  show ?thesis
    unfolding generatePlan_def Let_def
    by (intro case_outcome_ext case_prod_ext case_option_ext if_ext leaf_ext start fail bt runAC_ext [OF rely] Create_ext await)
qed

lemma generatePatch_ext:
  assumes json: "json_ok W" and rely: "rely W bt" and a: "ext W a db" and mem: "mem_ok W a r" "patch_start r"
  shows "ext W a (snd (generatePatch W ad bt E task run r db))"
proof -
  note bt = bt_ext [OF rely]
  note patching = patch_memory(1) [OF mem]
  have fail: "ext W a (snd (fail_repair W E' (r\<lparr>rep_State := StatePatching\<rparr>) code err d))" if "ext W a d" for E' code err d
    using fail_repair_ext [OF json that patching] by simp
  have start: "ext W a (snd (Update W E' (r\<lparr>rep_State := StatePatching\<rparr>) db))" for E'
    by (rule Update_ext' [OF json a ext_mem [OF a patching]])
  have await: "ext W a (snd (Update W E2 (r\<lparr>rep_State := StatePatching, rep_Patch := w_marshal_patch W p,
      rep_PatchDigest := Digest (w_sha W) (w_marshal_patch W) p, rep_PatchApprovalID := req_ID q, rep_BranchName := b,
      rep_State := StateAwaitingPatchApproval\<rparr>) (bt n d)))"
    if "w_decode_patch W out = Some p" "ValidatePatch (w_uni W) p (rep_BaseSHA (r\<lparr>rep_State := StatePatching\<rparr>)) = None"
      "Create S E1 (repairApprovalInput W r' ''patch'' (Digest (w_sha W) (w_marshal_patch W) p) actor now) d0 = (Inr q, d)"
      "ext W a d" for E2 n p q b d S E1 r' actor now d0 out
  proof -
    have d: "ext W d (bt n d)" using bt [OF ext_refl [OF ext_inv [OF that(4)]]] .
    have "mem_ok W (bt n d) r" using mem(1) that(4) d by (blast intro: ext_mem)
    moreover have "w_unmarshal_patch W (w_marshal_patch W p) = Some p" using json that(1) by (auto simp: json_ok_def)
    ultimately have "mem_ok W (bt n d) (r\<lparr>rep_Patch := w_marshal_patch W p,
      rep_PatchDigest := Digest (w_sha W) (w_marshal_patch W) p, rep_PatchApprovalID := req_ID q, rep_BranchName := b,
      rep_State := StateAwaitingPatchApproval\<rparr>)"
      using approval_requested [OF that(3)] requested_ext [OF d] mem(2) that(2)
      by (intro patch_memory(2)) auto
    with that json show ?thesis by (intro Update_ext' bt) auto
  qed
  show ?thesis
    unfolding generatePatch_def Let_def
    by (intro case_outcome_ext case_prod_ext case_option_ext if_ext leaf_ext start fail bt runAC_ext [OF rely] Create_ext await)
qed

lemma publish_logged:
  assumes "ext W a d" "mem_ok W a r" "publish_start r" "w_unmarshal_patch W (rep_Patch r) = Some p"
  shows "ext W a (d\<lparr>publications := publications d @ [\<lparr>pub_Repository = x1, pub_InstallationID = x2, pub_BaseBranch = x3,
    pub_BaseSHA = rep_BaseSHA r, pub_BranchName = x4, pub_Title = x5, pub_Body = x6, pub_Files = patch_Files p\<rparr>]\<rparr>)"
    (is "ext W a ?d'")
proof -
  have same: "requested ?d' = requested d" "released ?d' = released d" "known ?d' = known d"
    by (auto simp: requested_def released_def known_def fun_eq_iff)
  have ok: "rep_ok W ?d' q = rep_ok W d q" "pub_ok W ?d' u = pub_ok W d u" for q u
    by (simp_all add: rep_ok_def pub_ok_def plan_released_def patch_released_def same cong: State.case_cong)
  have "mem_ok W d r" by (rule ext_mem [OF assms(1,2)])
  then have "plan_released d r" "patch_released d r" "patch_bound W r"
    using assms(3) by (auto simp: mem_ok_def rep_ok_def publish_start_def)
  then have "pub_ok W d \<lparr>pub_Repository = x1, pub_InstallationID = x2, pub_BaseBranch = x3,
    pub_BaseSHA = rep_BaseSHA r, pub_BranchName = x4, pub_Title = x5, pub_Body = x6, pub_Files = patch_Files p\<rparr>"
    using assms(4) unfolding pub_ok_def plan_released_def patch_released_def patch_bound_def by fastforce
  moreover have "tasks_inv ?d' = tasks_inv d" by (rule tasks_inv_cong) simp_all
  ultimately show ?thesis
    using assms(1) by (auto simp: ext_def repairs_inv_def ok keep_def same approvals_inv_def)
qed

lemma publish_ext:
  assumes json: "json_ok W" and rely: "rely W bt" and a: "ext W a db" and mem: "mem_ok W a r" "publish_start r"
  shows "ext W a (snd (publish W bt E r db))"
proof -
  note bt = bt_ext [OF rely]
  note approved = publish_memory(1) [OF mem]
  have fail: "ext W a (snd (fail_repair W E' (r\<lparr>rep_State := StatePatchApproved\<rparr>) code err d))" if "ext W a d" for E' code err d
    using fail_repair_ext [OF json that approved] by simp
  have log: "ext W a (d\<lparr>publications := publications d @ [\<lparr>pub_Repository = x1, pub_InstallationID = x2, pub_BaseBranch = x3,
      pub_BaseSHA = rep_BaseSHA (r\<lparr>rep_State := StatePatchApproved\<rparr>), pub_BranchName = x4, pub_Title = x5, pub_Body = x6,
      pub_Files = patch_Files p\<rparr>]\<rparr>)"
    if "w_unmarshal_patch W (rep_Patch (r\<lparr>rep_State := StatePatchApproved\<rparr>)) = Some p" "ext W a d" for p d x1 x2 x3 x4 x5 x6
    using publish_logged [OF that(2) mem] that(1) by simp
  have finish: "ext W a (snd (Update W E' (r\<lparr>rep_State := StatePatchApproved, rep_DraftPR := pr, rep_State := StatePublished,
      rep_FailureCode := [], rep_FailureMessage := []\<rparr>) d))" if "ext W a d" for E' pr d
    using Update_ext' [OF json that ext_mem [OF that publish_memory(2) [OF mem]]] by simp
  show ?thesis
    unfolding publish_def Let_def
    by (intro case_outcome_ext case_sum_ext case_option_ext leaf_ext fail log finish bt a)
qed

lemma Consume_releases:
  assumes "Consume S E coi db = (Inr request, db')" "repairs_inv W db"
    and "requested db' x (coi_ApprovalID coi) d" "req_Action request = y"
  shows "released db' y (coi_ApprovalID coi) d"
proof -
  have inv: "approvals_inv db" using assms(2) by (simp add: repairs_inv_def)
  have inv': "approvals_inv db'" by (rule approvals_step_inv [OF ap_consume [OF assms(1)] inv])
  obtain q where q: "q \<in> set (approval_requests db')" "req_ID q = coi_ApprovalID coi" "req_ActionDigest q = d"
    using assms(3) by (auto simp: requested_def)
  from Consume_grants [OF inv assms(1)] q request_unique [OF inv', of q request] assms(4) show ?thesis
    by (auto simp: released_def)
qed

lemma approved_memory:
  assumes "mem_ok W db r" "rep_State r = (if phase = ''plan'' then StateAwaitingPlanApproval else StateAwaitingPatchApproval)"
    and "phase = ''plan'' \<Longrightarrow> plan_released db r" "phase \<noteq> ''plan'' \<Longrightarrow> patch_released db r"
  shows "mem_ok W db (r\<lparr>rep_State := nextApprovedState phase, rep_FailureCode := c, rep_FailureMessage := m\<rparr>)"
  using assms
  by (auto simp: mem_ok_def rep_ok_def nextApprovedState_def plan_released_def patch_released_def patch_bound_def split: if_splits)

lemma store_Get_row: "store_Get E i db = Inr r \<Longrightarrow> r \<in> set (issue_repairs db)"
  by (auto simp: store_Get_def split: if_splits option.splits dest: select_by_SomeD)

lemma GetByTask_row: "GetByTask E i db = Inr r \<Longrightarrow> r \<in> set (issue_repairs db) \<and> rep_TaskID r = TrimSpace i"
  by (auto simp: GetByTask_def split: if_splits option.splits dest: select_by_SomeD)

lemma case_phase_ext:
  "(x = None \<Longrightarrow> ext W s (snd f)) \<Longrightarrow> (\<And>a b c. x = Some (a, b, c) \<Longrightarrow> ext W s (snd (g a b c))) \<Longrightarrow>
   ext W s (snd (case x of None \<Rightarrow> f | Some (a, b, c) \<Rightarrow> g a b c))"
  by (cases x) auto

lemma ConsumeApproval_ext:
  assumes json: "json_ok W" and rely: "rely W bt" and inv: "repairs_inv W db"
  shows "ext W db (snd (ConsumeApproval W bt E i phase dg key actor db))"
proof -
  note bt = bt_ext [OF rely]
  have approve: "ext W db (snd (Update W E2 (r\<lparr>rep_State := nextApprovedState phase, rep_FailureCode := [],
      rep_FailureMessage := []\<rparr>) (bt n d)))"
    if g: "store_Get E0 i db = Inr r"
      and ph: "(if phase = ''plan'' then Some (rep_PlanApprovalID r, StateAwaitingPlanApproval, ActionRepairPlan)
        else if phase = ''patch'' then Some (rep_PatchApprovalID r, StateAwaitingPatchApproval, ActionPublishPatch)
        else None) = Some (ai, ex, ac)"
      and st: "\<not> (rep_State r \<noteq> ex \<or> ai = [])"
      and c: "Consume S E1 \<lparr>coi_ApprovalID = ai, coi_ActorID = actor, coi_ActionDigest = dg, coi_IdempotencyKey = key,
        coi_Now = now\<rparr> (bt m db) = (Inr q, d)"
      and ac: "\<not> req_Action q \<noteq> ac" and d: "ext W db d"
    for E0 E1 E2 r ai ex ac S now m n q d
  proof -
    have mem: "mem_ok W db r" using mem_ok_row [OF inv store_Get_row [OF g]] .
    have d': "ext W db (bt n d)" "ext W d (bt n d)" using bt [OF d] bt [OF ext_refl [OF ext_inv [OF d]]] .
    have "released d ac ai x" if "requested db z ai x" for x z
      using Consume_releases [OF c ext_inv [OF bt [OF ext_refl [OF inv]]], of z x ac] requested_ext [OF d that] ac by simp
    then have rel: "released (bt n d) ac ai x" if "requested db z ai x" for x z
      using that d'(2) by (auto simp: ext_def keep_def)
    have "mem_ok W (bt n d) (r\<lparr>rep_State := nextApprovedState phase, rep_FailureCode := [], rep_FailureMessage := []\<rparr>)"
    proof (rule approved_memory [OF ext_mem [OF d'(1) mem]])
      show "rep_State r = (if phase = ''plan'' then StateAwaitingPlanApproval else StateAwaitingPatchApproval)"
        using ph st by (auto split: if_splits)
      show "plan_released (bt n d) r" if "phase = ''plan''"
        using that ph st mem rel by (auto simp: plan_released_def mem_ok_def rep_ok_def)
      show "patch_released (bt n d) r" if "phase \<noteq> ''plan''"
        using that ph st mem rel by (auto simp: patch_released_def mem_ok_def rep_ok_def split: if_splits)
    qed
    then show ?thesis by (rule Update_ext' [OF json d'(1)])
  qed
  show ?thesis
    unfolding ConsumeApproval_def Let_def
    by (intro case_outcome_ext case_sum_ext case_phase_ext if_ext leaf_ext bt Consume_ext Retry_ext ext_refl inv approve)
qed

lemma fresh_repair_ok: "rep_ok W db (fresh_repair i input now)"
  by (simp add: rep_ok_def fresh_repair_def)

lemma store_Create_effect:
  "snd (store_Create E input db) = db \<or> (\<exists>i t. i \<notin> rep_ID ` set (issue_repairs db) \<and>
     select_by rep_SourceKey (rci_SourceKey input) (issue_repairs db) = None \<and> rci_TaskID input \<notin> rep_TaskID ` set (issue_repairs db) \<and>
     snd (store_Create E input db) = db\<lparr>issue_repairs := issue_repairs db @ [fresh_repair i input t]\<rparr>)"
  unfolding store_Create_def Let_def
  by (cases "validateCreateInput (clock E) input"; cases "newID E 0";
      cases "select_by rep_SourceKey (rci_SourceKey input) (issue_repairs db)")
    (auto simp del: select_by_None_iff)

lemma fresh_repair_keys [simp]:
  "rep_ID (fresh_repair i input t) = i" "rep_SourceKey (fresh_repair i input t) = rci_SourceKey input"
  "rep_TaskID (fresh_repair i input t) = rci_TaskID input"
  by (simp_all add: fresh_repair_def)

lemma store_Create_ext:
  assumes "ext W a db"
  shows "ext W a (snd (store_Create E input db))"
proof (cases "snd (store_Create E input db) = db")
  case False
  with store_Create_effect [of E input db] obtain i t where
    db': "snd (store_Create E input db) = db\<lparr>issue_repairs := issue_repairs db @ [fresh_repair i input t]\<rparr>"
      (is "_ = ?d'") and new: "i \<notin> rep_ID ` set (issue_repairs db)"
      "select_by rep_SourceKey (rci_SourceKey input) (issue_repairs db) = None" "rci_TaskID input \<notin> rep_TaskID ` set (issue_repairs db)"
    by blast
  have same: "requested ?d' = requested db" "released ?d' = released db"
    by (auto simp: requested_def released_def fun_eq_iff)
  have ok: "rep_ok W ?d' q = rep_ok W db q" "pub_ok W ?d' u = pub_ok W db u" for q u
    by (simp_all add: rep_ok_def pub_ok_def plan_released_def patch_released_def same cong: State.case_cong)
  have "tasks_inv ?d' = tasks_inv db" by (rule tasks_inv_cong) simp_all
  then have keep: "keep db ?d'" by (auto simp: keep_def same known_def)
  have "repairs_inv W ?d'"
    using ext_inv [OF assms] new by (auto simp: repairs_inv_def ok fresh_repair_ok approvals_inv_def)
  with keep show ?thesis unfolding db' using assms keep_trans by (auto simp: ext_def)
qed (simp add: assms)

lemma create_or_existing_ext:
  assumes "rely W bt" "ext W a db"
  shows "ext W a (snd (create_or_existing E t input bt db))"
proof -
  have "snd (create_or_existing E t input bt db) \<in> {snd (store_Create (call E 1) input db), bt 1 (snd (store_Create (call E 1) input db))}"
    by (auto simp: create_or_existing_def Let_def split: prod.splits sum.splits)
  then show ?thesis using store_Create_ext [OF assms(2)] bt_ext [OF assms(1)] by auto
qed

lemma CreateFromIssue_ext:
  assumes "rely W bt" "repairs_inv W db"
  shows "ext W db (snd (CreateFromIssue W' bt E issue actor db))"
  unfolding CreateFromIssue_def Let_def
  by (intro case_outcome_ext case_option_ext case_sum_ext leaf_ext bt_ext [OF assms(1)] CreateTask_ext
      create_or_existing_ext [OF assms(1)] ext_refl [OF assms(2)])

lemma BindAutomationTask_ext:
  assumes "rely W bt" "repairs_inv W db"
  shows "ext W db (snd (BindAutomationTask W' bt E task issue actor db))"
  unfolding BindAutomationTask_def
  by (intro case_option_ext case_sum_ext if_ext leaf_ext create_or_existing_ext [OF assms(1)] ext_refl [OF assms(2)])

lemma CreateFromDiagnosis_ext:
  assumes "rely W bt" "repairs_inv W db"
  shows "ext W db (snd (CreateFromDiagnosis W' bt E task actor db))"
  unfolding CreateFromDiagnosis_def Let_def
  by (intro case_outcome_ext case_option_ext if_ext leaf_ext bt_ext [OF assms(1)] CreateTask_ext store_Create_ext
      ext_refl [OF assms(2)])

lemma Process_starts:
  assumes "mem_ok W db r"
  shows "rep_State r = StatePlanning \<Longrightarrow> plan_start r" "rep_State r = StatePlanApproved \<Longrightarrow> patch_start r"
    "rep_State r = StatePatchApproved \<Longrightarrow> publish_start r"
    "rep_State r = StateFailed \<Longrightarrow> rep_PatchApprovalID r \<noteq> [] \<and> rep_PatchDigest r \<noteq> [] \<Longrightarrow> publish_start r"
    "rep_State r = StateFailed \<Longrightarrow> \<not> (rep_PatchApprovalID r \<noteq> [] \<and> rep_PatchDigest r \<noteq> []) \<Longrightarrow>
      rep_PlanApprovalID r \<noteq> [] \<and> rep_PlanDigest r \<noteq> [] \<Longrightarrow> patch_start r"
    "rep_State r = StateFailed \<Longrightarrow> \<not> (rep_PatchApprovalID r \<noteq> [] \<and> rep_PatchDigest r \<noteq> []) \<Longrightarrow>
      \<not> (rep_PlanApprovalID r \<noteq> [] \<and> rep_PlanDigest r \<noteq> []) \<Longrightarrow> plan_start r"
    "rep_State r = StateFailed \<Longrightarrow> rep_PatchApprovalID r \<noteq> [] \<Longrightarrow> publish_start r"
  using assms
  by (auto simp: mem_ok_def rep_ok_def plan_start_def patch_start_def publish_start_def)

lemma Process_ext:
  assumes json: "json_ok W" and rely: "rely W bt" and inv: "repairs_inv W db"
  shows "ext W db (snd (Process W bt E task run db))"
proof (cases "GetByTask (call E 0) (task_ID task) db")
  case (Inl e)
  then show ?thesis by (simp add: Process_def ext_refl inv)
next
  case (Inr r)
  have a: "ext W db (bt 0 db)" by (rule bt_ext [OF rely ext_refl [OF inv]])
  have mem: "mem_ok W db r" using GetByTask_row [OF Inr] mem_ok_row [OF inv] by blast
  note start = Process_starts [OF mem]
  note phases = generatePlan_ext [OF json rely a mem] generatePatch_ext [OF json rely a mem] publish_ext [OF json rely a mem]
  note fail = fail_repair_ext [OF json a mem]
  show ?thesis
    unfolding Process_def Inr sum.case Let_def
    by (cases "rep_State r"; cases "w_adapter W") (simp_all add: a start phases fail)
qed

section \<open>What a phase reports\<close>

text \<open>A phase that does not report failure ends with an \<open>Update\<close> to the state it reports.\<close>

definition wrote :: "world \<Rightarrow> Repair \<Rightarrow> State \<Rightarrow> 'z repairs_db_scheme \<Rightarrow> bool" where
  "wrote W r s db' \<longleftrightarrow> (\<exists>E rec d x. Update W E rec d = (Inr x, db') \<and> rep_ID rec = rep_ID r \<and> rep_State rec = s)"

lemma wroteI: "Update W E rec d = (Inr x, db') \<Longrightarrow> rep_ID rec = rep_ID r \<Longrightarrow> rep_State rec = s \<Longrightarrow> wrote W r s db'"
  by (auto simp: wrote_def)

lemma wrote_state: "wrote W r s db' \<Longrightarrow> q \<in> set (issue_repairs db') \<Longrightarrow> rep_ID q = rep_ID r \<Longrightarrow> rep_State q = s"
  by (auto simp: wrote_def Update_def Let_def set_update_where write_repair_def split: if_splits)

definition reports :: "world \<Rightarrow> Repair \<Rightarrow> Status \<Rightarrow> State \<Rightarrow> (Status \<times> string \<times> string) \<times> 'z repairs_db_scheme \<Rightarrow> bool" where
  "reports W r st s out \<longleftrightarrow> fst (fst out) = StatusFailed \<or> fst (fst out) = st \<and> wrote W r s (snd out)"

lemma reports_fail_repair: "reports W r st s (fail_repair W' E r' code err db)"
  by (simp add: fail_repair_def reports_def split: prod.split sum.split)

lemma reports_failed: "reports W r st s ((StatusFailed, x), db)"
  by (simp add: reports_def)

lemma reports_done:
  "Update W E rec d = (Inr x, db') \<Longrightarrow> rep_ID rec = rep_ID r \<Longrightarrow> rep_State rec = s \<Longrightarrow> reports W r st s ((st, y), db')"
  by (simp add: reports_def wroteI)

lemma reports_outcome:
  "(\<And>e d. x = (Inl e, d) \<Longrightarrow> reports W r st s (f e d)) \<Longrightarrow> (\<And>y d. x = (Inr y, d) \<Longrightarrow> reports W r st s (g y d)) \<Longrightarrow>
   reports W r st s (case x of (Inl e, d) \<Rightarrow> f e d | (Inr y, d) \<Rightarrow> g y d)"
  by (cases x; cases "fst x") auto

lemma reports_prod: "(\<And>c e. reports W r st s (f c e)) \<Longrightarrow> reports W r st s (case x of (c, e) \<Rightarrow> f c e)"
  by (cases x) auto

lemma reports_option:
  "reports W r st s f \<Longrightarrow> (\<And>y. reports W r st s (g y)) \<Longrightarrow> reports W r st s (case x of None \<Rightarrow> f | Some y \<Rightarrow> g y)"
  by (cases x) auto

lemma reports_sum:
  "(\<And>e. reports W r st s (f e)) \<Longrightarrow> (\<And>y. reports W r st s (g y)) \<Longrightarrow> reports W r st s (case x of Inl e \<Rightarrow> f e | Inr y \<Rightarrow> g y)"
  by (cases x) auto

lemma reports_if: "reports W r st s x \<Longrightarrow> reports W r st s y \<Longrightarrow> reports W r st s (if c then x else y)"
  by simp

lemmas reports_rules = reports_outcome reports_prod reports_option reports_sum reports_if reports_fail_repair reports_failed

lemma phase_reports:
  "reports W r StatusAwaitingApproval StateAwaitingPlanApproval (generatePlan W ad bt E task run r db)"
  "reports W r StatusAwaitingApproval StateAwaitingPatchApproval (generatePatch W ad bt E task run r db)"
  "reports W r StatusSucceeded StatePublished (publish W bt E r db)"
  unfolding generatePlan_def generatePatch_def publish_def Let_def
  by (intro reports_rules; (rule reports_done, assumption)?; simp)+

lemma Process_report:
  assumes "GetByTask (call E 0) (task_ID task) db = Inr r" "rep_ok W db r"
    and "Process W bt E task run db = ((st, c, m), db')" "st \<noteq> StatusFailed"
  shows "st = StatusAwaitingApproval \<and> (wrote W r StateAwaitingPlanApproval db' \<or> wrote W r StateAwaitingPatchApproval db') \<or>
    st = StatusSucceeded \<and> wrote W r StatePublished db'"
proof -
  have ids: "rep_PatchApprovalID r = [] \<longleftrightarrow> rep_PatchDigest r = []" using assms(2) by (simp add: rep_ok_def)
  let ?P = "reports W r StatusAwaitingApproval StateAwaitingPlanApproval ((st, c, m), db') \<or>
    reports W r StatusAwaitingApproval StateAwaitingPatchApproval ((st, c, m), db') \<or>
    reports W r StatusSucceeded StatePublished ((st, c, m), db')"
  have plan: ?P if "generatePlan W ad bt E task run r d = ((st, c, m), db')" for ad d using phase_reports(1) that by metis
  have patch: ?P if "generatePatch W ad bt E task run r d = ((st, c, m), db')" for ad d using phase_reports(2) that by metis
  have pub: ?P if "publish W bt E r d = ((st, c, m), db')" for d using phase_reports(3) that by metis
  have bad: ?P if "fail_repair W E' r code err d = ((st, c, m), db')" for E' code err d using reports_fail_repair that by metis
  have ?P
    using assms(3,4) unfolding Process_def assms(1) sum.case Let_def
    by (cases "w_adapter W"; cases "rep_State r") (auto simp: ids split: if_splits dest: plan patch pub bad)
  then show ?thesis using assms(4) by (auto simp: reports_def)
qed

end
