(* ===== verification/Review.thy ===== *)
theory Review
  imports Repair
begin

text \<open>
  Code review (\<open>src/server/internal/review\<close>): the webhook trigger (types.go, service.go) and the processor that runs one immutable commit
  through the agent runtime (processor.go).

  \<^item> \<open>review_world\<close> holds what the package calls: JSON encoding and decoding, the formatting and scanning of floating-point and textual numbers,
    the repository resolver, the agent runtime (\<open>adapter\<close>) and the publisher. A confidence is a \<open>float64\<close>, compared on its bits.
  \<^item> \<open>bt n\<close> is what other processes do to the database before the processor's \<open>n\<close>-th call.
\<close>

section \<open>Values of a webhook event (scm/types.go)\<close>

text \<open>The dynamic types a value of \<open>map[string]any\<close> has; a missing key reads as \<open>AnyNil\<close>.\<close>

datatype any_value = AnyNil | AnyString string | AnyInt int | AnyInt64 int | AnyFloat "64 word" | AnyNumber string | AnyBool bool

record WebhookEvent =
  we_DeliveryID :: string
  we_EventType :: string
  we_Normalized :: "string \<Rightarrow> any_value option"

record formats =
  fmt_float :: "64 word \<Rightarrow> string"
  float_int :: "64 word \<Rightarrow> int"
  sscan_int :: "string \<Rightarrow> int option"

fun Sprint :: "formats \<Rightarrow> any_value \<Rightarrow> string" where
  "Sprint F AnyNil = ''<nil>''"
| "Sprint F (AnyString s) = s"
| "Sprint F (AnyInt i) = itoa i"
| "Sprint F (AnyInt64 i) = itoa i"
| "Sprint F (AnyFloat w) = fmt_float F w"
| "Sprint F (AnyNumber s) = s"
| "Sprint F (AnyBool b) = (if b then ''true'' else ''false'')"

definition event_value :: "formats \<Rightarrow> WebhookEvent \<Rightarrow> string \<Rightarrow> string" where
  "event_value F event key = (case we_Normalized event key of Some raw \<Rightarrow> TrimSpace (Sprint F raw) | None \<Rightarrow> [])"

definition event_any :: "WebhookEvent \<Rightarrow> string \<Rightarrow> any_value" where
  "event_any event key = (case we_Normalized event key of Some raw \<Rightarrow> raw | None \<Rightarrow> AnyNil)"

section \<open>Floating-point comparisons\<close>

text \<open>The bit patterns of the non-negative floats are ordered like the floats; \<open>0x3FF0000000000000\<close> is 1.\<close>

definition float_sign :: "64 word \<Rightarrow> bool" where
  "float_sign w \<longleftrightarrow> 0x8000000000000000 \<le> w"

definition float_abs :: "64 word \<Rightarrow> 64 word" where
  "float_abs w = (if float_sign w then w - 0x8000000000000000 else w)"

definition float_nan :: "64 word \<Rightarrow> bool" where
  "float_nan w \<longleftrightarrow> 0x7FF0000000000000 < float_abs w"

definition float_below_zero :: "64 word \<Rightarrow> bool" where
  "float_below_zero w \<longleftrightarrow> \<not> float_nan w \<and> float_sign w \<and> float_abs w \<noteq> 0"

definition float_at_least :: "64 word \<Rightarrow> 64 word \<Rightarrow> bool" where
  "float_at_least b w \<longleftrightarrow> \<not> float_nan w \<and> \<not> float_sign w \<and> b \<le> w"

definition float_above_one :: "64 word \<Rightarrow> bool" where
  "float_above_one w \<longleftrightarrow> float_at_least 0x3FF0000000000001 w"

section \<open>Types (types.go)\<close>

record PullRequestEvent =
  pe_DeliveryID :: string
  pe_Action :: string
  pe_RepositoryID :: string
  pe_RepositoryName :: string
  pe_CloneURL :: string
  pe_WebURL :: string
  pe_PullRequest :: int
  pe_BaseBranch :: string
  pe_HeadBranch :: string
  pe_HeadSHA :: string
  pe_Author :: string
  pe_InstallationID :: string

record ReviewFinding =
  rf_Severity :: string
  rf_Category :: string
  rf_Path :: string
  rf_LineStart :: "int option"
  rf_LineEnd :: "int option"
  rf_Explanation :: string
  rf_Evidence :: json
  rf_Confidence :: "64 word option"
  rf_Remediation :: string

record ReviewResult =
  rr_SchemaVersion :: string
  rr_Summary :: string
  rr_Findings :: "ReviewFinding list"

datatype review_error =
    ErrUnsupportedEvent
  | ErrInvalidResult string
  | ReviewMessage string
  | ReviewTask task_error

text \<open>\<open>ErrInvalidResult\<close> carries what \<open>fmt.Errorf\<close> adds after it.\<close>

record taskPayload =
  tp_Provider :: string
  tp_RepositoryID :: string
  tp_RepositoryName :: string
  tp_PullRequest :: int
  tp_Action :: string
  tp_HeadSHA :: string
  tp_HeadBranch :: string
  tp_BaseBranch :: string
  tp_CloneURL :: string
  tp_WebURL :: string
  tp_Author :: string
  tp_InstallationID :: string

definition OutputSchema :: string where
  "OutputSchema = ''{\"type\":\"object\",\"required\":[\"schemaVersion\",\"summary\",\"findings\"],\"properties\":{\"schemaVersion\":{\"type\":\"string\",\"const\":\"v1\"},\"summary\":{\"type\":\"string\"},\"findings\":{\"type\":\"array\",\"maxItems\":200,\"items\":{\"type\":\"object\",\"required\":[\"severity\",\"category\",\"path\",\"lineStart\",\"lineEnd\",\"explanation\",\"evidence\",\"confidence\",\"remediation\"],\"properties\":{\"severity\":{\"type\":\"string\",\"enum\":[\"critical\",\"high\",\"medium\",\"low\",\"info\"]},\"category\":{\"type\":\"string\"},\"path\":{\"type\":\"string\"},\"lineStart\":{\"anyOf\":[{\"type\":\"integer\",\"minimum\":1},{\"type\":\"null\"}]},\"lineEnd\":{\"anyOf\":[{\"type\":\"integer\",\"minimum\":1},{\"type\":\"null\"}]},\"explanation\":{\"type\":\"string\"},\"evidence\":{\"type\":\"string\"},\"confidence\":{\"anyOf\":[{\"type\":\"number\",\"minimum\":0,\"maximum\":1},{\"type\":\"null\"}]},\"remediation\":{\"type\":\"string\"}},\"additionalProperties\":false}}},\"additionalProperties\":false}''"

fun strconvInt :: "formats \<Rightarrow> any_value \<Rightarrow> int option" where
  "strconvInt F (AnyFloat w) = Some (float_int F w)"
| "strconvInt F (AnyInt i) = Some i"
| "strconvInt F (AnyNumber s) = sscan_int F s"
| "strconvInt F (AnyString s) = sscan_int F s"
| "strconvInt F _ = None"

definition EventFromWebhook :: "formats \<Rightarrow> WebhookEvent \<Rightarrow> review_error + PullRequestEvent" where
  "EventFromWebhook F event =
    (if we_EventType event \<noteq> ''pull_request'' then Inl ErrUnsupportedEvent
     else
       let value = event_value F event
       in case strconvInt F (event_any event ''pullRequestNumber'') of
         None \<Rightarrow> Inl (ErrInvalidResult '': pull request number'')
       | Some pr \<Rightarrow>
           if pr \<le> 0 then Inl (ErrInvalidResult '': pull request number'')
           else
             let sha = value ''headSHA''; action = value ''action''
             in if length sha \<noteq> 40 \<or> \<not> is_hex sha then Inl (ErrInvalidResult '': head commit'')
                else if action \<notin> set [''opened'', ''reopened'', ''synchronize'', ''ready_for_review''] then Inl ErrUnsupportedEvent
                else if value ''repositoryId'' = [] \<or> value ''repository'' = [] \<or> value ''cloneURL'' = []
                then Inl (ErrInvalidResult '': repository'')
                else Inr \<lparr>pe_DeliveryID = we_DeliveryID event, pe_Action = action, pe_RepositoryID = value ''repositoryId'',
                  pe_RepositoryName = value ''repository'', pe_CloneURL = value ''cloneURL'', pe_WebURL = value ''webURL'',
                  pe_PullRequest = pr, pe_BaseBranch = value ''baseBranch'', pe_HeadBranch = value ''headBranch'',
                  pe_HeadSHA = sha, pe_Author = value ''author'', pe_InstallationID = value ''installationId''\<rparr>)"

definition hasParentSegment :: "string \<Rightarrow> bool" where
  "hasParentSegment value = list_ex (\<lambda>segment. segment = ''..'') (Split (ReplaceByte value (CHR 0x5C) (CHR ''/'')) (CHR ''/''))"

definition check_finding :: "int \<Rightarrow> ReviewFinding \<Rightarrow> review_error option" where
  "check_finding index f =
    (let invalid = (\<lambda>what. Some (ErrInvalidResult ('': finding '' @ itoa index @ what)))
     in if rf_Severity f \<notin> set [''critical'', ''high'', ''medium'', ''low'', ''info''] then invalid '' severity''
        else if rf_Category f = [] \<or> rf_Path f = [] \<or> blank (rf_Explanation f) \<or> HasPrefix (rf_Path f) ''/'' \<or> hasParentSegment (rf_Path f)
        then invalid '' location''
        else if (case rf_LineStart f of Some s \<Rightarrow> s < 1 | None \<Rightarrow> False) \<or> (case rf_LineEnd f of Some e \<Rightarrow> e < 1 | None \<Rightarrow> False)
        then invalid '' line''
        else if (case (rf_LineStart f, rf_LineEnd f) of (Some s, Some e) \<Rightarrow> e < s | _ \<Rightarrow> False) then invalid '' line range''
        else if (case rf_Confidence f of Some c \<Rightarrow> float_nan c \<or> float_below_zero c \<or> float_above_one c | None \<Rightarrow> False)
        then invalid '' confidence''
        else None)"

fun check_findings :: "int \<Rightarrow> ReviewFinding list \<Rightarrow> review_error + ReviewFinding list" where
  "check_findings index [] = Inr []"
| "check_findings index (f # fs) =
    (case check_finding index f of
       Some e \<Rightarrow> Inl e
     | None \<Rightarrow>
         (case check_findings (index + 1) fs of
            Inl e \<Rightarrow> Inl e
          | Inr rest \<Rightarrow> Inr ((if rf_Evidence f = [] then f\<lparr>rf_Evidence := ''{}''\<rparr> else f) # rest)))"

definition ValidateResult :: "(json \<Rightarrow> ReviewResult option) \<Rightarrow> json \<Rightarrow> review_error + ReviewResult" where
  "ValidateResult decode raw =
    (if raw = [] \<or> int (length raw) > 1048576 then Inl (ErrInvalidResult [])
     else case decode raw of
       None \<Rightarrow> Inl (ErrInvalidResult [])
     | Some result \<Rightarrow>
         if rr_SchemaVersion result \<noteq> ''v1'' \<or> blank (rr_Summary result) \<or> int (length (rr_Summary result)) > 20000
         then Inl (ErrInvalidResult [])
         else if int (length (rr_Findings result)) > 200 then Inl (ErrInvalidResult '': too many findings'')
         else (case check_findings 0 (rr_Findings result) of
           Inl e \<Rightarrow> Inl e
         | Inr fs \<Rightarrow> Inr (result\<lparr>rr_Findings := fs\<rparr>)))"

section \<open>The world of the package\<close>

datatype repository_lookup = RepositoryFound string | ErrRepositoryNotFound | LookupFailed string

type_synonym publisher = "string \<Rightarrow> string \<Rightarrow> int \<Rightarrow> string \<Rightarrow> json \<Rightarrow> string option"

record review_world =
  rw_formats :: formats
  rw_marshal_payload :: "taskPayload \<Rightarrow> json"
  rw_unmarshal_payload :: "json \<Rightarrow> string + taskPayload"
  rw_repoField :: "json \<Rightarrow> string option"
  rw_prField :: "json \<Rightarrow> int option"
  rw_decode_result :: "json \<Rightarrow> ReviewResult option"
  rw_marshal_event :: "exec_event \<Rightarrow> json"
  rw_marshal_summary :: "string \<Rightarrow> int \<Rightarrow> json"
  rw_quote :: "string \<Rightarrow> string"
  rw_text :: "task_error \<Rightarrow> string"
  rw_round54 :: "64 word \<Rightarrow> 64 word"
  rw_scm :: "(string \<Rightarrow> repository_lookup) option"
  rw_adapter :: "adapter option"
  rw_publisher :: "publisher option"
  rw_projectID :: string
  rw_agentName :: string
  rw_timeout :: duration

definition error_text :: "review_world \<Rightarrow> review_error \<Rightarrow> string" where
  "error_text V e =
    (case e of
       ErrUnsupportedEvent \<Rightarrow> ''unsupported pull request event''
     | ErrInvalidResult what \<Rightarrow> ''invalid code review result'' @ what
     | ReviewMessage msg \<Rightarrow> msg
     | ReviewTask t \<Rightarrow> rw_text V t)"

definition decodeTaskPayload :: "review_world \<Rightarrow> json \<Rightarrow> review_error + taskPayload" where
  "decodeTaskPayload V raw =
    (case rw_unmarshal_payload V raw of
       Inl msg \<Rightarrow> Inl (ReviewMessage msg)
     | Inr payload \<Rightarrow>
         if tp_HeadSHA payload = [] \<or> tp_CloneURL payload = [] then Inl (ErrInvalidResult '': task payload is incomplete'')
         else Inr payload)"

definition buildTaskInput :: "review_world \<Rightarrow> PullRequestEvent \<Rightarrow> string \<Rightarrow> Tasks.CreateInput" where
  "buildTaskInput V event repositoryID =
    \<lparr>in_Kind = KindCodeReview,
     in_Title = ''Review '' @ pe_RepositoryName event @ ''#'' @ itoa (pe_PullRequest event) @ '' at '' @ take 12 (pe_HeadSHA event),
     in_RepositoryID = repositoryID, in_RepositoryName = pe_RepositoryName event,
     in_SourceKey = ''github:pull_request:'' @ pe_RepositoryID event @ '':'' @ itoa (pe_PullRequest event) @ '':'' @ pe_HeadSHA event,
     in_Payload = Some (rw_marshal_payload V \<lparr>tp_Provider = ''github'', tp_RepositoryID = pe_RepositoryID event,
       tp_RepositoryName = pe_RepositoryName event, tp_PullRequest = pe_PullRequest event, tp_Action = pe_Action event,
       tp_HeadSHA = pe_HeadSHA event, tp_HeadBranch = pe_HeadBranch event, tp_BaseBranch = pe_BaseBranch event,
       tp_CloneURL = pe_CloneURL event, tp_WebURL = pe_WebURL event, tp_Author = pe_Author event,
       tp_InstallationID = pe_InstallationID event\<rparr>),
     in_Priority = 50, in_MaxAttempts = 3, in_CreatedBy = [], in_CreatedAt = 0\<rparr>"

section \<open>The webhook trigger (service.go)\<close>

text \<open>\<open>Inr None\<close> is an event that is ignored without an error.\<close>

definition HandleWebhook ::
  "review_world \<Rightarrow> (nat \<Rightarrow> 'z tasks_db_scheme \<Rightarrow> 'z tasks_db_scheme) \<Rightarrow> env \<Rightarrow> WebhookEvent \<Rightarrow> 'z tasks_db_scheme \<Rightarrow>
   (review_error, Task option, 'z tasks_db_scheme) outcome" where
  "HandleWebhook V bt E event db =
    (case EventFromWebhook (rw_formats V) event of
       Inl e \<Rightarrow> if e = ErrUnsupportedEvent then (Inr None, db) else (Inl e, db)
     | Inr prEvent \<Rightarrow>
         (case (case rw_scm V of None \<Rightarrow> Inr [] | Some find_repository \<Rightarrow>
                  (case find_repository (pe_RepositoryID prEvent) of
                     RepositoryFound i \<Rightarrow> Inr i | ErrRepositoryNotFound \<Rightarrow> Inr [] | LookupFailed msg \<Rightarrow> Inl (ReviewMessage msg))) of
            Inl e \<Rightarrow> (Inl e, db)
          | Inr repositoryID \<Rightarrow>
              (case service_Create (call E 0) (buildTaskInput V prEvent repositoryID) (bt 0 db) of
                 (Inl e, db1) \<Rightarrow> (Inl (ReviewTask e), db1)
               | (Inr task, db1) \<Rightarrow>
                   if repositoryID \<noteq> [] \<or> pe_RepositoryID prEvent \<noteq> [] then
                     (case SupersedeCodeReviews (rw_repoField V) (rw_prField V) (call E 1) repositoryID (pe_RepositoryID prEvent)
                         (pe_PullRequest prEvent) (task_ID task) (bt 1 db1) of
                        (Inl e, db2) \<Rightarrow> (Inl (ReviewTask e), db2)
                      | (Inr _, db2) \<Rightarrow> (Inr (Some task), db2))
                   else (Inr (Some task), db1))))"

section \<open>The processor (processor.go)\<close>

definition newline :: string where
  "newline = [CHR 0x0A]"

definition reviewPrompt :: "Task \<Rightarrow> taskPayload \<Rightarrow> string" where
  "reviewPrompt task payload = Join
    [''Review the repository commit below for actionable defects.'',
     ''Return only JSON matching the supplied schema; do not modify or publish code.'',
     ''The sandbox provides a short-lived read-only GitHub token in GH_TOKEN and GITHUB_TOKEN. Use gh or an Authorization header with that token to fetch the private repository and inspect the exact immutable commit; never print or persist the token.'',
     ''Repository: '' @ tp_CloneURL payload,
     ''Immutable commit: '' @ tp_HeadSHA payload,
     ''Pull request: '' @ itoa (tp_PullRequest payload),
     ''Task: '' @ task_ID task] newline"

definition finding_input :: "Task \<Rightarrow> Run \<Rightarrow> ReviewFinding \<Rightarrow> FindingInput" where
  "finding_input task run f = \<lparr>fi_TaskID = task_ID task, fi_RunID = run_ID run, fi_Severity = rf_Severity f, fi_Category = rf_Category f,
     fi_Path = rf_Path f, fi_LineStart = rf_LineStart f, fi_LineEnd = rf_LineEnd f, fi_Explanation = rf_Explanation f,
     fi_Evidence = Some (rf_Evidence f), fi_Confidence = rf_Confidence f, fi_Remediation = rf_Remediation f\<rparr>"

fun persist_events ::
  "(exec_event \<Rightarrow> RunEventInput) \<Rightarrow> (nat \<Rightarrow> 'z tasks_db_scheme \<Rightarrow> 'z tasks_db_scheme) \<Rightarrow> env \<Rightarrow> string \<Rightarrow> nat \<Rightarrow> exec_event list \<Rightarrow>
   'z tasks_db_scheme \<Rightarrow> task_error option \<times> 'z tasks_db_scheme" where
  "persist_events event_input bt E runID k [] db = (None, db)"
| "persist_events event_input bt E runID k (event # events) db =
    (case service_AppendEvent (call E (4 + 3 * k)) runID (event_input event) (bt (4 + 3 * k) db) of
       (Inl e, db1) \<Rightarrow> (Some e, db1)
     | (Inr _, db1) \<Rightarrow> persist_events event_input bt E runID (Suc k) events db1)"

fun persist_findings ::
  "(64 word \<Rightarrow> 64 word) \<Rightarrow> (nat \<Rightarrow> 'z tasks_db_scheme \<Rightarrow> 'z tasks_db_scheme) \<Rightarrow> env \<Rightarrow> nat \<Rightarrow> FindingInput list \<Rightarrow>
   'z tasks_db_scheme \<Rightarrow> task_error option \<times> 'z tasks_db_scheme" where
  "persist_findings round54 bt E k [] db = (None, db)"
| "persist_findings round54 bt E k (f # fs) db =
    (case service_CreateFinding round54 (call E (5 + 3 * k)) f (bt (5 + 3 * k) db) of
       (Inl e, db1) \<Rightarrow> (Some e, db1)
     | (Inr _, db1) \<Rightarrow> persist_findings round54 bt E (Suc k) fs db1)"

definition review_event_input :: "review_world \<Rightarrow> exec_event \<Rightarrow> RunEventInput" where
  "review_event_input V event = \<lparr>rei_Kind = ex_Kind event, rei_Stream = ex_Stream event, rei_Message = ex_Message event,
     rei_Payload = Some (rw_marshal_event V event), rei_Terminal = ex_Terminal event\<rparr>"

definition status_event :: "string \<Rightarrow> string \<Rightarrow> json option \<Rightarrow> bool \<Rightarrow> RunEventInput" where
  "status_event kind message payload terminal =
    \<lparr>rei_Kind = kind, rei_Stream = [], rei_Message = message, rei_Payload = payload, rei_Terminal = terminal\<rparr>"

text \<open>The run of the agent: the request, the event that names it, its stream and its result.\<close>

definition review_agent ::
  "review_world \<Rightarrow> adapter \<Rightarrow> (nat \<Rightarrow> 'z tasks_db_scheme \<Rightarrow> 'z tasks_db_scheme) \<Rightarrow> env \<Rightarrow> Task \<Rightarrow> Run \<Rightarrow> taskPayload \<Rightarrow>
   'z tasks_db_scheme \<Rightarrow> (string \<times> string + json) \<times> 'z tasks_db_scheme" where
  "review_agent V ad bt E task run payload db =
    (case ad_Start ad \<lparr>xr_CorrelationID = run_CorrelationID run,
        xr_ProjectID = (if rw_projectID V \<noteq> [] then rw_projectID V
          else if task_RepositoryID task \<noteq> [] then task_RepositoryID task else tp_RepositoryID payload),
        xr_AgentName = (if rw_agentName V = [] then ''codex'' else rw_agentName V), xr_Repository = tp_CloneURL payload,
        xr_CommitSHA = tp_HeadSHA payload, xr_Prompt = reviewPrompt task payload,
        xr_Timeout = (if rw_timeout V \<le> 0 then 15 * minute else rw_timeout V), xr_OutputSchemaJSON = OutputSchema,
        xr_Driver = ''docker'', xr_Cleanup = ''remove'', xr_NetworkEnabled = False\<rparr> of
       Inl msg \<Rightarrow> (Inl (''m5_ac_start_failed'', msg), db)
     | Inr externalID \<Rightarrow>
         (case service_AppendEvent (call E 1) (run_ID run) (status_event ''external_run'' ''AC review started''
             (Some (''{\"externalRunId\":'' @ rw_quote V externalID @ ''}'')) False) (bt 1 db) of
            (Inl e, db1) \<Rightarrow> (Inl (''m5_event_persist_failed'', rw_text V e), db1)
          | (Inr _, db1) \<Rightarrow>
              (case persist_events (review_event_input V) bt E (run_ID run) 0 (fst (ad_Events ad externalID)) db1 of
                 (Some e, db2) \<Rightarrow> (Inl (''m5_event_persist_failed'', rw_text V e), db2)
               | (None, db2) \<Rightarrow>
                   (case snd (ad_Events ad externalID) of
                      Some msg \<Rightarrow> (Inl (''m5_ac_stream_failed'', msg), db2)
                    | None \<Rightarrow>
                        (case ad_Result ad externalID of
                           Inl msg \<Rightarrow> (Inl (''m5_ac_result_failed'', msg), db2)
                         | Inr output \<Rightarrow> (Inr output, db2))))))"

text \<open>What is done with a validated result: findings, publication and the closing event.\<close>

definition review_finish ::
  "review_world \<Rightarrow> (nat \<Rightarrow> 'z tasks_db_scheme \<Rightarrow> 'z tasks_db_scheme) \<Rightarrow> env \<Rightarrow> Task \<Rightarrow> Run \<Rightarrow> taskPayload \<Rightarrow> json \<Rightarrow> ReviewResult \<Rightarrow>
   'z tasks_db_scheme \<Rightarrow> (Status \<times> string \<times> string) \<times> 'z tasks_db_scheme" where
  "review_finish V bt E task run payload raw validated db =
    (case persist_findings (rw_round54 V) bt E 0 (map (finding_input task run) (rr_Findings validated)) db of
       (Some e, db1) \<Rightarrow> ((StatusFailed, ''m5_finding_persist_failed'', rw_text V e), db1)
     | (None, db1) \<Rightarrow>
         (case (case rw_publisher V of None \<Rightarrow> None | Some pub \<Rightarrow>
                  pub (task_RepositoryName task) (tp_InstallationID payload) (tp_PullRequest payload) (tp_HeadSHA payload) raw) of
            Some msg \<Rightarrow> ((StatusFailed, ''m5_publication_failed'', msg), db1)
          | None \<Rightarrow>
              (case service_AppendEvent (call E 2) (run_ID run) (status_event ''result'' ''structured review result accepted''
                  (Some (rw_marshal_summary V (rr_Summary validated) (int (length (rr_Findings validated))))) True) (bt 2 db1) of
                 (Inl e, db2) \<Rightarrow> ((StatusFailed, ''m5_event_persist_failed'', rw_text V e), db2)
               | (Inr _, db2) \<Rightarrow>
                   ((StatusSucceeded, [], ''review completed with '' @ itoa (int (length (rr_Findings validated))) @ '' findings''), db2))))"

definition review_Process ::
  "review_world \<Rightarrow> (nat \<Rightarrow> 'z tasks_db_scheme \<Rightarrow> 'z tasks_db_scheme) \<Rightarrow> env \<Rightarrow> Task \<Rightarrow> Run \<Rightarrow> 'z tasks_db_scheme \<Rightarrow>
   (Status \<times> string \<times> string) \<times> 'z tasks_db_scheme" where
  "review_Process V bt E task run db =
    (case rw_adapter V of
       None \<Rightarrow> ((StatusFailed, ''m5_ac_unavailable'', ''AC execution is required for code review''), db)
     | Some ad \<Rightarrow>
         (case decodeTaskPayload V (task_Payload task) of
            Inl e \<Rightarrow> ((StatusFailed, ''m5_payload_invalid'', error_text V e), db)
          | Inr payload \<Rightarrow>
              (case service_AppendEvent (call E 0) (run_ID run)
                  (status_event ''status'' (''starting AC review for '' @ tp_HeadSHA payload) None False) (bt 0 db) of
                 (Inl e, db1) \<Rightarrow> ((StatusFailed, ''m5_event_persist_failed'', rw_text V e), db1)
               | (Inr _, db1) \<Rightarrow>
                   (case review_agent V ad bt E task run payload db1 of
                      (Inl (code, message), db2) \<Rightarrow> ((StatusFailed, code, message), db2)
                    | (Inr raw, db2) \<Rightarrow>
                        (case ValidateResult (rw_decode_result V) raw of
                           Inl e \<Rightarrow> ((StatusFailed, ''m5_result_invalid'', error_text V e), db2)
                         | Inr validated \<Rightarrow> review_finish V bt E task run payload raw validated db2)))))"

section \<open>Steps of the system\<close>

text \<open>
  A system that contains the task system. What a processor does to its database, with other processes of the system acting in between, is a run of
  its steps.
\<close>

locale task_client =
  fixes step :: "'z tasks_db_scheme \<Rightarrow> 'z tasks_db_scheme \<Rightarrow> bool"
  assumes task_steps: "task_step db db' \<Longrightarrow> step db db'"
begin

lemma event_step: "service_AppendEvent E i ei db = (r, db') \<Longrightarrow> step\<^sup>*\<^sup>* db db'"
  unfolding service_AppendEvent_def by (rule r_into_rtranclp) (rule task_steps, rule st_event)

lemma finding_step: "service_CreateFinding r54 E fi db = (r, db') \<Longrightarrow> step\<^sup>*\<^sup>* db db'"
  unfolding service_CreateFinding_def by (rule r_into_rtranclp) (rule task_steps, rule st_finding)

lemma persist_events_steps:
  assumes "\<And>n d. step\<^sup>*\<^sup>* d (bt n d)"
  shows "persist_events ei bt E runID k events db = (r, db') \<Longrightarrow> step\<^sup>*\<^sup>* db db'"
proof (induction events arbitrary: k db)
  case (Cons event events)
  obtain a db1 where a: "service_AppendEvent (call E (4 + 3 * k)) runID (ei event) (bt (4 + 3 * k) db) = (a, db1)" by fastforce
  have "step\<^sup>*\<^sup>* db db1" using rtranclp_trans [OF assms event_step [OF a]] .
  with Cons a show ?case by (cases a) (auto intro: rtranclp_trans)
qed simp

lemma persist_findings_steps:
  assumes "\<And>n d. step\<^sup>*\<^sup>* d (bt n d)"
  shows "persist_findings r54 bt E k fs db = (r, db') \<Longrightarrow> step\<^sup>*\<^sup>* db db'"
proof (induction fs arbitrary: k db)
  case (Cons f fs)
  obtain a db1 where a: "service_CreateFinding r54 (call E (5 + 3 * k)) f (bt (5 + 3 * k) db) = (a, db1)" by fastforce
  have "step\<^sup>*\<^sup>* db db1" using rtranclp_trans [OF assms finding_step [OF a]] .
  with Cons a show ?case by (cases a) (auto intro: rtranclp_trans)
qed simp

lemma gap_event_step:
  assumes "\<And>n d. step\<^sup>*\<^sup>* d (bt n d)" "service_AppendEvent E i ei (bt n db) = (r, db')"
  shows "step\<^sup>*\<^sup>* db db'"
  using rtranclp_trans [OF assms(1) event_step [OF assms(2)]] .

lemma review_agent_steps:
  assumes "\<And>n d. step\<^sup>*\<^sup>* d (bt n d)" "review_agent V ad bt E task run payload db = (r, db')"
  shows "step\<^sup>*\<^sup>* db db'"
  using assms(2) unfolding review_agent_def
  by (auto split: sum.splits prod.splits option.splits
      dest!: gap_event_step [OF assms(1)] persist_events_steps [OF assms(1)] intro: rtranclp_trans)

lemma review_finish_steps:
  assumes "\<And>n d. step\<^sup>*\<^sup>* d (bt n d)" "review_finish V bt E task run payload raw validated db = (r, db')"
  shows "step\<^sup>*\<^sup>* db db'"
  using assms(2) unfolding review_finish_def
  by (auto split: sum.splits prod.splits option.splits
      dest!: gap_event_step [OF assms(1)] persist_findings_steps [OF assms(1)] intro: rtranclp_trans)

lemma review_Process_steps:
  assumes "\<And>n d. step\<^sup>*\<^sup>* d (bt n d)" "review_Process V bt E task run db = (r, db')"
  shows "step\<^sup>*\<^sup>* db db'"
  using assms(2) unfolding review_Process_def
  by (auto split: sum.splits prod.splits option.splits
      dest!: gap_event_step [OF assms(1)] review_agent_steps [OF assms(1)] review_finish_steps [OF assms(1)] intro: rtranclp_trans)

end

interpretation task_system: task_client task_step
  by unfold_locales

section \<open>Segments of paths\<close>

lemma Split_concat: "Split (a @ sep # b) sep = Split a sep @ Split b sep"
  by (induction a) (auto split: list.splits)

lemma Join_append: "xs \<noteq> [] \<Longrightarrow> ys \<noteq> [] \<Longrightarrow> Join (xs @ ys) sep = Join xs sep @ sep @ Join ys sep"
  by (induction xs sep rule: Join.induct) (auto simp: Join_Cons)

lemma segment_context:
  assumes "seg \<in> set (Split s sep)"
  shows "\<exists>pre post. s = pre @ seg @ post \<and> (pre = [] \<or> (\<exists>p. pre = p @ [sep])) \<and> (post = [] \<or> (\<exists>q. post = sep # q))"
proof -
  from split_list [OF assms] obtain xs ys where parts: "Split s sep = xs @ seg # ys" by blast
  have "s = Join (xs @ seg # ys) [sep]" using Join_Split [of s sep] parts by simp
  moreover have "Join (seg # ys) [sep] = seg @ (if ys = [] then [] else sep # Join ys [sep])"
    by (cases ys) auto
  ultimately have "s = (if xs = [] then [] else Join xs [sep] @ [sep]) @ seg @ (if ys = [] then [] else sep # Join ys [sep])"
    using Join_append [of xs "seg # ys" "[sep]"] by simp
  then show ?thesis
    by (rule exI [of _ "if xs = [] then [] else Join xs [sep] @ [sep]", OF exI [of _ "if ys = [] then [] else sep # Join ys [sep]"], OF conjI]) auto
qed

lemma context_segment:
  assumes "sep \<notin> set seg" "s = pre @ seg @ post" "pre = [] \<or> (\<exists>p. pre = p @ [sep])" "post = [] \<or> (\<exists>q. post = sep # q)"
  shows "seg \<in> set (Split s sep)"
proof -
  have one: "Split seg sep = [seg]" using assms(1) by (induction seg) auto
  have "seg \<in> set (Split (seg @ post) sep)"
    using assms(4) one Split_concat [of seg sep] by auto
  then show ?thesis using assms(2,3) Split_concat [where sep = sep and b = "seg @ post"] by auto
qed

lemma parent_segment:
  assumes "sep = CHR ''/'' \<or> sep = CHR 0x5C" "\<not> hasParentSegment p"
  shows "''..'' \<notin> set (Split p sep)"
proof
  assume "''..'' \<in> set (Split p sep)"
  then obtain pre post where c: "p = pre @ ''..'' @ post" "pre = [] \<or> (\<exists>a. pre = a @ [sep])" "post = [] \<or> (\<exists>b. post = sep # b)"
    using segment_context by blast
  let ?f = "map (\<lambda>c. if c = CHR 0x5C then CHR ''/'' else c)"
  have "''..'' \<in> set (Split (?f p) (CHR ''/''))"
    by (rule context_segment [where pre = "?f pre" and post = "?f post"]) (use c assms(1) in auto)
  with assms(2) show False by (auto simp: hasParentSegment_def ReplaceByte_def list_ex_iff)
qed

section \<open>What validation and success mean\<close>

lemma check_findings_ok:
  "check_findings i fs = Inr gs \<Longrightarrow>
     length gs = length fs \<and> (\<forall>g \<in> set gs. (\<exists>j. check_finding j g = None) \<and> rf_Evidence g \<noteq> [])"
proof (induction fs arbitrary: i gs)
  case (Cons f fs)
  from Cons.prems obtain rest where f: "check_finding i f = None" and rest: "check_findings (i + 1) fs = Inr rest"
    and gs: "gs = (if rf_Evidence f = [] then f\<lparr>rf_Evidence := ''{}''\<rparr> else f) # rest"
    by (auto split: option.splits sum.splits)
  have "check_finding i (f\<lparr>rf_Evidence := ''{}''\<rparr>) = check_finding i f" by (simp add: check_finding_def)
  with Cons.IH [OF rest] f gs show ?case by auto
qed simp

definition float_unit :: "64 word \<Rightarrow> bool" where
  "float_unit w \<longleftrightarrow> \<not> float_nan w \<and> (float_abs w = 0 \<or> \<not> float_sign w \<and> w \<le> 0x3FF0000000000000)"

lemma float_unit_iff: "float_unit w \<longleftrightarrow> \<not> (float_nan w \<or> float_below_zero w \<or> float_above_one w)"
proof -
  have le: "w \<le> 0x3FF0000000000000 \<longleftrightarrow> \<not> 0x3FF0000000000001 \<le> w"
    unfolding word_le_nat_alt by simp linarith
  have "\<not> float_sign w \<Longrightarrow> float_abs w = w" by (simp add: float_abs_def)
  with le show ?thesis
    by (auto simp: float_unit_def float_below_zero_def float_above_one_def float_at_least_def)
qed

lemma check_finding_None:
  assumes "check_finding j f = None"
  shows "rf_Severity f \<in> set [''critical'', ''high'', ''medium'', ''low'', ''info''] \<and> rf_Category f \<noteq> [] \<and> rf_Path f \<noteq> [] \<and>
    \<not> blank (rf_Explanation f) \<and> \<not> HasPrefix (rf_Path f) ''/'' \<and> \<not> hasParentSegment (rf_Path f) \<and>
    (\<forall>s. rf_LineStart f = Some s \<longrightarrow> 1 \<le> s) \<and> (\<forall>e. rf_LineEnd f = Some e \<longrightarrow> 1 \<le> e) \<and>
    (\<forall>s e. rf_LineStart f = Some s \<longrightarrow> rf_LineEnd f = Some e \<longrightarrow> s \<le> e) \<and>
    (\<forall>c. rf_Confidence f = Some c \<longrightarrow> float_unit c)"
  using assms by (simp add: check_finding_def Let_def float_unit_iff split: if_splits option.splits)

lemma persist_findings_rows:
  assumes "\<And>n d. set (findings d) \<subseteq> set (findings (bt n d))"
  shows "persist_findings r54 bt E k fs db = (None, db') \<Longrightarrow> set (findings db) \<subseteq> set (findings db') \<and>
    (\<forall>f \<in> set fs. \<exists>row \<in> set (findings db'). fin_TaskID row = fi_TaskID f \<and> fin_RunID row = fi_RunID f \<and>
       fin_Severity row = fi_Severity f \<and> fin_Path row = fi_Path f \<and> fin_Explanation row = fi_Explanation f)"
proof (induction fs arbitrary: k db)
  case (Cons f fs)
  from Cons.prems obtain row db1 where
    c: "service_CreateFinding r54 (call E (5 + 3 * k)) f (bt (5 + 3 * k) db) = (Inr row, db1)"
    and rest: "persist_findings r54 bt E (Suc k) fs db1 = (None, db')"
    by (auto split: prod.splits sum.splits)
  have "row \<in> set (findings db1)" "set (findings (bt (5 + 3 * k) db)) \<subseteq> set (findings db1)"
    and "fin_TaskID row = fi_TaskID f \<and> fin_RunID row = fi_RunID f \<and> fin_Severity row = fi_Severity f \<and> fin_Path row = fi_Path f \<and>
      fin_Explanation row = fi_Explanation f"
    using c by (auto simp: service_CreateFinding_def CreateFinding_def Let_def split: option.splits if_splits)
  with Cons.IH [OF rest] assms [of db "5 + 3 * k"] show ?case by auto
qed simp

lemma event_keeps_findings: "service_AppendEvent E i ei db = (r, db') \<Longrightarrow> findings db' = findings db"
  unfolding service_AppendEvent_def AppendRunEvent_def by (auto simp: Let_def split: if_splits option.splits)

lemma persist_events_keep:
  assumes "\<And>n d. set (findings d) \<subseteq> set (findings (bt n d))"
  shows "persist_events ei bt E runID k events db = (r, db') \<Longrightarrow> set (findings db) \<subseteq> set (findings db')"
proof (induction events arbitrary: k db)
  case (Cons event events)
  obtain a db1 where a: "service_AppendEvent (call E (4 + 3 * k)) runID (ei event) (bt (4 + 3 * k) db) = (a, db1)" by fastforce
  have "set (findings db) \<subseteq> set (findings db1)" using assms event_keeps_findings [OF a] by simp
  with Cons a show ?case by (cases a) fastforce+
qed simp

lemma superseded_rows:
  assumes "t \<in> set (update_where (superseded_by_sel rf pf i pid pr new) (supersede_task now new) ts)" "i \<noteq> []"
    and "task_Kind t = KindCodeReview" "task_RepositoryID t = i" "pf (task_Payload t) = Some pr"
  shows "task_Status t = StatusSuperseded \<or> t \<in> set ts \<and> task_ID t = new"
proof -
  from assms(1) obtain t0 where t0: "t0 \<in> set ts"
    "t = (if superseded_by_sel rf pf i pid pr new t0 then supersede_task now new t0 else t0)"
    by (auto simp: set_update_where)
  show ?thesis
  proof (cases "superseded_by_sel rf pf i pid pr new t0")
    case True
    then show ?thesis using t0 by (simp add: supersede_task_def)
  next
    case False
    then show ?thesis using t0 assms(2-5) by (auto simp: superseded_by_sel_def)
  qed
qed

lemma Supersede_tasks:
  "SupersedeCodeReviews rf pf E i pid pr new db = (Inr u, db') \<Longrightarrow>
     tasks db' = update_where (superseded_by_sel rf pf i pid pr new) (supersede_task (db_clock E) new) (tasks db)"
  by (auto simp: SupersedeCodeReviews_def Let_def split: if_splits)

section \<open>Properties\<close>

text \<open>
  What a review may contain. A result the validation accepts has at most a mebibyte of JSON and 200 findings, and every finding has a known severity,
  a category and an explanation, a relative path without a parent segment in either slash convention, a line range that starts at one or later
  and does not run backwards, and a confidence from zero to one that is a number.
\<close>

theorem valid_review_bounds:
  assumes "ValidateResult decode raw = Inr result"
  shows "int (length raw) \<le> 1048576 \<and> int (length (rr_Summary result)) \<le> 20000 \<and> length (rr_Findings result) \<le> 200 \<and>
    (\<forall>f \<in> set (rr_Findings result). rf_Severity f \<in> set [''critical'', ''high'', ''medium'', ''low'', ''info''] \<and>
       rf_Category f \<noteq> [] \<and> \<not> blank (rf_Explanation f) \<and> rf_Evidence f \<noteq> [] \<and>
       \<not> HasPrefix (rf_Path f) ''/'' \<and> ''..'' \<notin> set (Split (rf_Path f) (CHR ''/'')) \<and> ''..'' \<notin> set (Split (rf_Path f) (CHR 0x5C)) \<and>
       (\<forall>s. rf_LineStart f = Some s \<longrightarrow> 1 \<le> s \<and> (\<forall>e. rf_LineEnd f = Some e \<longrightarrow> s \<le> e)) \<and>
       (\<forall>c. rf_Confidence f = Some c \<longrightarrow> float_unit c))"
proof -
  obtain r gs where r: "check_findings 0 (rr_Findings r) = Inr gs" "result = r\<lparr>rr_Findings := gs\<rparr>"
    "int (length raw) \<le> 1048576" "int (length (rr_Summary r)) \<le> 20000" "int (length (rr_Findings r)) \<le> 200"
    using assms by (auto simp: ValidateResult_def split: if_splits option.splits sum.splits)
  note ok = check_findings_ok [OF r(1)]
  have "rf_Severity f \<in> set [''critical'', ''high'', ''medium'', ''low'', ''info''] \<and>
       rf_Category f \<noteq> [] \<and> \<not> blank (rf_Explanation f) \<and> rf_Evidence f \<noteq> [] \<and>
       \<not> HasPrefix (rf_Path f) ''/'' \<and> ''..'' \<notin> set (Split (rf_Path f) (CHR ''/'')) \<and> ''..'' \<notin> set (Split (rf_Path f) (CHR 0x5C)) \<and>
       (\<forall>s. rf_LineStart f = Some s \<longrightarrow> 1 \<le> s \<and> (\<forall>e. rf_LineEnd f = Some e \<longrightarrow> s \<le> e)) \<and>
       (\<forall>c. rf_Confidence f = Some c \<longrightarrow> float_unit c)" if "f \<in> set gs" for f
  proof -
    from ok that obtain j where "check_finding j f = None" "rf_Evidence f \<noteq> []" by blast
    with check_finding_None [of j f] parent_segment [of "CHR ''/''" "rf_Path f"] parent_segment [of "CHR 0x5C" "rf_Path f"]
    show ?thesis by blast
  qed
  with r ok show ?thesis by simp
qed

lemma review_agent_keeps:
  assumes "\<And>n d. set (findings d) \<subseteq> set (findings (bt n d))" "review_agent V ad bt E task run payload db = (Inr raw, db')"
  shows "\<exists>externalID. ad_Result ad externalID = Inr raw \<and> snd (ad_Events ad externalID) = None"
  using assms(2) by (auto simp: review_agent_def split: sum.splits prod.splits option.splits)

definition sample_finding :: ReviewFinding where
  "sample_finding = \<lparr>rf_Severity = ''high'', rf_Category = ''bug'', rf_Path = ''a/b.go'', rf_LineStart = Some 3, rf_LineEnd = Some 4,
     rf_Explanation = ''leak'', rf_Evidence = [], rf_Confidence = Some 0x3FE0000000000000, rf_Remediation = []\<rparr>"

definition sample_result :: ReviewResult where
  "sample_result = \<lparr>rr_SchemaVersion = ''v1'', rr_Summary = ''one defect'', rr_Findings = [sample_finding]\<rparr>"

definition sample_decode :: "json \<Rightarrow> ReviewResult option" where
  "sample_decode raw = (if raw = ''r'' then Some sample_result else None)"

lemma sample_valid: "ValidateResult sample_decode ''r'' = Inr (sample_result\<lparr>rr_Findings := [sample_finding\<lparr>rf_Evidence := ''{}''\<rparr>]\<rparr>)"
  by code_simp

theorem valid_review_bounds_witness:
  "length (rr_Findings (sample_result\<lparr>rr_Findings := [sample_finding\<lparr>rf_Evidence := ''{}''\<rparr>]\<rparr>)) \<le> 200 \<and> float_unit 0x3FE0000000000000"
  using valid_review_bounds [OF sample_valid] by (auto simp: sample_finding_def)

text \<open>
  A review reports success only for what it did. Whatever other processes do in between, as long as findings are not deleted: when the
  processor reports success, the agent run for the task's payload ended without a stream error, its output passed the validation, every
  finding of it is stored for this task and run, and the publisher accepted exactly that output for the payload's commit.
\<close>

theorem review_success_truthful:
  assumes "\<And>n d. set (findings d) \<subseteq> set (findings (bt n d))" "review_Process V bt E task run db = ((StatusSucceeded, code, message), db')"
  shows "\<exists>ad payload externalID raw result. rw_adapter V = Some ad \<and> decodeTaskPayload V (task_Payload task) = Inr payload \<and>
    ad_Result ad externalID = Inr raw \<and> snd (ad_Events ad externalID) = None \<and> ValidateResult (rw_decode_result V) raw = Inr result \<and>
    (\<forall>f \<in> set (rr_Findings result). \<exists>row \<in> set (findings db'). fin_TaskID row = task_ID task \<and> fin_RunID row = run_ID run \<and>
       fin_Severity row = rf_Severity f \<and> fin_Path row = rf_Path f \<and> fin_Explanation row = rf_Explanation f) \<and>
    (\<forall>pub. rw_publisher V = Some pub \<longrightarrow>
       pub (task_RepositoryName task) (tp_InstallationID payload) (tp_PullRequest payload) (tp_HeadSHA payload) raw = None)"
proof -
  from assms(2) obtain ad payload db1 db2 raw result where ad: "rw_adapter V = Some ad"
    and payload: "decodeTaskPayload V (task_Payload task) = Inr payload"
    and agent: "review_agent V ad bt E task run payload db1 = (Inr raw, db2)"
    and result: "ValidateResult (rw_decode_result V) raw = Inr result"
    and fin: "review_finish V bt E task run payload raw result db2 = ((StatusSucceeded, code, message), db')"
    by (auto simp: review_Process_def split: option.splits sum.splits prod.splits)
  from fin obtain db3 r where rows: "persist_findings (rw_round54 V) bt E 0 (map (finding_input task run) (rr_Findings result)) db2 = (None, db3)"
    and pub: "\<forall>pub. rw_publisher V = Some pub \<longrightarrow>
       pub (task_RepositoryName task) (tp_InstallationID payload) (tp_PullRequest payload) (tp_HeadSHA payload) raw = None"
    and ev: "service_AppendEvent (call E 2) (run_ID run) (status_event ''result'' ''structured review result accepted''
      (Some (rw_marshal_summary V (rr_Summary result) (int (length (rr_Findings result))))) True) (bt 2 db3) = (r, db')"
    by (auto simp: review_finish_def split: option.splits sum.splits prod.splits)
  have "set (findings db3) \<subseteq> set (findings db')" using assms(1) event_keeps_findings [OF ev] by simp
  with persist_findings_rows [OF assms(1) rows] have "\<forall>f \<in> set (rr_Findings result). \<exists>row \<in> set (findings db').
      fin_TaskID row = task_ID task \<and> fin_RunID row = run_ID run \<and> fin_Severity row = rf_Severity f \<and> fin_Path row = rf_Path f \<and>
      fin_Explanation row = rf_Explanation f"
    by (fastforce simp: finding_input_def)
  with ad payload result pub review_agent_keeps [OF assms(1) agent] show ?thesis by blast
qed

definition sample_payload :: taskPayload where
  "sample_payload = \<lparr>tp_Provider = ''github'', tp_RepositoryID = ''7'', tp_RepositoryName = ''o/r'', tp_PullRequest = 12, tp_Action = ''opened'',
     tp_HeadSHA = replicate 40 (CHR ''a''), tp_HeadBranch = ''f'', tp_BaseBranch = ''main'', tp_CloneURL = ''https://h/o/r.git'',
     tp_WebURL = [], tp_Author = [], tp_InstallationID = ''3''\<rparr>"

definition sample_adapter :: adapter where
  "sample_adapter = \<lparr>ad_Start = (\<lambda>_. Inr ''x1''),
     ad_Events = (\<lambda>_. ([\<lparr>ex_Kind = ''log'', ex_Stream = [], ex_Message = ''hi'', ex_Terminal = False\<rparr>], None)), ad_Result = (\<lambda>_. Inr ''r'')\<rparr>"

definition sample_review :: review_world where
  "sample_review = \<lparr>rw_formats = \<lparr>fmt_float = (\<lambda>_. []), float_int = (\<lambda>_. 0), sscan_int = (\<lambda>_. None)\<rparr>,
     rw_marshal_payload = (\<lambda>_. ''p''), rw_unmarshal_payload = (\<lambda>_. Inr sample_payload),
     rw_repoField = (\<lambda>_. Some ''7''), rw_prField = (\<lambda>j. if j = ''p'' then Some 12 else None), rw_decode_result = sample_decode,
     rw_marshal_event = (\<lambda>_. ''{}''), rw_marshal_summary = (\<lambda>_ _. ''{}''), rw_quote = (\<lambda>s. s), rw_text = (\<lambda>_. []), rw_round54 = (\<lambda>c. c),
     rw_scm = Some (\<lambda>_. RepositoryFound ''repo''), rw_adapter = Some sample_adapter, rw_publisher = Some (\<lambda>_ _ _ _ _. None),
     rw_projectID = [], rw_agentName = [], rw_timeout = 0\<rparr>"

definition sample_review_run :: "(Status \<times> string \<times> string) \<times> tasks_db" where
  "sample_review_run = review_Process sample_review (\<lambda>_ d. d) (sample_env 80 30) (hd (tasks sample_db2)) (hd (runs sample_db2)) sample_db2"

lemma sample_review_succeeds: "fst sample_review_run = (StatusSucceeded, [], ''review completed with 1 findings'')"
  by code_simp

theorem review_success_truthful_witness: "\<exists>row \<in> set (findings (snd sample_review_run)). fin_Path row = ''a/b.go''"
proof -
  have run: "review_Process sample_review (\<lambda>_ d. d) (sample_env 80 30) (hd (tasks sample_db2)) (hd (runs sample_db2)) sample_db2
      = ((StatusSucceeded, [], ''review completed with 1 findings''), snd sample_review_run)"
    using sample_review_succeeds by (metis prod.collapse sample_review_run_def)
  from review_success_truthful [OF _ run] obtain ad externalID raw result where
    a: "rw_adapter sample_review = Some ad" "ad_Result ad externalID = Inr raw"
    "ValidateResult (rw_decode_result sample_review) raw = Inr result"
    and rows: "\<forall>f \<in> set (rr_Findings result). \<exists>row \<in> set (findings (snd sample_review_run)). fin_Path row = rf_Path f"
    by fastforce
  from a have "ValidateResult sample_decode ''r'' = Inr result" by (auto simp: sample_review_def sample_adapter_def)
  with rows show ?thesis by (auto simp: sample_valid sample_finding_def)
qed

text \<open>
  One review per pull request. When a pull-request event has been handled for a known repository, whatever other processes did during it, no
  code-review task of that repository and pull request other than the one returned is left unsuperseded, and the returned task is the task of
  exactly the commit the event names.
\<close>

theorem one_review_per_pull_request:
  assumes "EventFromWebhook (rw_formats V) event = Inr pe" "rw_scm V = Some find_repository"
    and "find_repository (pe_RepositoryID pe) = RepositoryFound i" "i \<noteq> []"
    and "HandleWebhook V bt E event db = (Inr (Some task), db')"
  shows "task_SourceKey task = ''github:pull_request:'' @ pe_RepositoryID pe @ '':'' @ itoa (pe_PullRequest pe) @ '':'' @ pe_HeadSHA pe \<and>
    (\<forall>t \<in> set (tasks db'). task_Kind t = KindCodeReview \<and> task_RepositoryID t = i \<and>
       rw_prField V (task_Payload t) = Some (pe_PullRequest pe) \<and> task_ID t \<noteq> task_ID task \<longrightarrow> task_Status t = StatusSuperseded)"
proof -
  from assms obtain db1 u where c: "service_Create (call E 0) (buildTaskInput V pe i) (bt 0 db) = (Inr task, db1)"
    and su: "SupersedeCodeReviews (rw_repoField V) (rw_prField V) (call E 1) i (pe_RepositoryID pe) (pe_PullRequest pe) (task_ID task) (bt 1 db1)
      = (Inr u, db')"
    by (auto simp: HandleWebhook_def split: sum.splits prod.splits)
  have "task_SourceKey task = in_SourceKey (buildTaskInput V pe i)" using CreateTask_row c unfolding service_Create_def by blast
  then have "task_SourceKey task = ''github:pull_request:'' @ pe_RepositoryID pe @ '':'' @ itoa (pe_PullRequest pe) @ '':'' @ pe_HeadSHA pe"
    by (simp add: buildTaskInput_def)
  with superseded_rows [OF _ assms(4)] show ?thesis unfolding Supersede_tasks [OF su] by blast
qed

definition sample_event :: "char \<Rightarrow> WebhookEvent" where
  "sample_event c = \<lparr>we_DeliveryID = ''d'', we_EventType = ''pull_request'', we_Normalized = map_of
     [(''action'', AnyString ''synchronize''), (''pullRequestNumber'', AnyInt 12), (''headSHA'', AnyString (replicate 40 c)),
      (''repositoryId'', AnyInt64 7), (''repository'', AnyString ''o/r''), (''cloneURL'', AnyString ''https://h/o/r.git'')]\<rparr>"

definition deliver :: "nat \<Rightarrow> char \<Rightarrow> tasks_db \<Rightarrow> tasks_db" where
  "deliver n c db = snd (HandleWebhook sample_review (\<lambda>_ d. d) (sample_env (64 * n) (int (10 * n))) (sample_event c) db)"

definition review_db :: tasks_db where
  "review_db = deliver 2 (CHR ''b'') (deliver 1 (CHR ''a'') sample_db0)"

definition third_delivery :: "(review_error + Task option) \<times> tasks_db" where
  "third_delivery = HandleWebhook sample_review (\<lambda>_ d. d) (sample_env 192 30) (sample_event (CHR ''a'')) review_db"

definition statuses :: "tasks_db \<Rightarrow> Status list" where
  "statuses db = map task_Status (tasks db)"

lemma sample_events: "isl (EventFromWebhook (rw_formats sample_review) (sample_event (CHR ''a''))) = False"
  by code_simp

lemma third_delivery_task: "(case fst third_delivery of Inr (Some t) \<Rightarrow> True | _ \<Rightarrow> False)"
  by code_simp

definition sample_pr :: PullRequestEvent where
  "sample_pr = projr (EventFromWebhook (rw_formats sample_review) (sample_event (CHR ''a'')))"

lemma sample_pr: "EventFromWebhook (rw_formats sample_review) (sample_event (CHR ''a'')) = Inr sample_pr"
  using sample_events by (simp add: sample_pr_def)

lemma third_delivery: "\<exists>task. third_delivery = (Inr (Some task), snd third_delivery)"
  using third_delivery_task by (cases "fst third_delivery") (auto simp: prod_eq_iff split: option.splits)

lemma sample_scm: "rw_scm sample_review = Some (\<lambda>_. RepositoryFound ''repo'')"
  by (simp add: sample_review_def)

theorem one_review_per_pull_request_witness:
  "task_SourceKey (the (projr (fst third_delivery))) =
     ''github:pull_request:'' @ pe_RepositoryID sample_pr @ '':'' @ itoa (pe_PullRequest sample_pr) @ '':'' @ pe_HeadSHA sample_pr"
proof -
  obtain task where t: "third_delivery = (Inr (Some task), snd third_delivery)" using third_delivery by blast
  from one_review_per_pull_request [OF sample_pr sample_scm refl _ t [unfolded third_delivery_def]]
  have "task_SourceKey task =
      ''github:pull_request:'' @ pe_RepositoryID sample_pr @ '':'' @ itoa (pe_PullRequest sample_pr) @ '':'' @ pe_HeadSHA sample_pr"
    by blast
  moreover have "the (projr (fst third_delivery)) = task" by (subst t) simp
  ultimately show ?thesis by simp
qed

text \<open>
  C39. A pull request that returns to an earlier commit is left without a review. If the task of the commit an event names was superseded, as happens
  when the branch had moved on, handling the event succeeds but every code-review task of the repository and pull request is superseded
  afterwards: the earlier task is found again by its source key and stays superseded, and the task of the later commit is superseded by it.
\<close>

theorem returning_head_unreviewed:
  assumes "reachable tasks_empty task_step db"
    and "EventFromWebhook (rw_formats V) event = Inr pe" "rw_scm V = Some find_repository"
    and "find_repository (pe_RepositoryID pe) = RepositoryFound i" "i \<noteq> []"
    and "old \<in> set (tasks db)" "task_SourceKey old = in_SourceKey (buildTaskInput V pe i)" "task_Status old = StatusSuperseded"
    and "HandleWebhook V (\<lambda>_ d. d) E event db = (Inr (Some task), db')"
  shows "\<forall>t \<in> set (tasks db'). task_Kind t = KindCodeReview \<and> task_RepositoryID t = i \<and>
    rw_prField V (task_Payload t) = Some (pe_PullRequest pe) \<longrightarrow> task_Status t = StatusSuperseded"
proof -
  from assms(2-5,9) obtain db1 u where c: "CreateTask (call E 0) (buildTaskInput V pe i) db = (Inr task, db1)"
    and su: "SupersedeCodeReviews (rw_repoField V) (rw_prField V) (call E 1) i (pe_RepositoryID pe) (pe_PullRequest pe) (task_ID task) db1
      = (Inr u, db')"
    by (auto simp: HandleWebhook_def service_Create_def split: sum.splits prod.splits)
  have inv: "tasks_inv db" using tq.reachable_inv assms(1) by blast
  then have "select_by task_SourceKey (in_SourceKey (buildTaskInput V pe i)) (tasks db) = Some old"
    using assms(6,7) select_by_unique [of task_SourceKey "tasks db" old] by (simp add: tasks_inv_def tasks_wf_def)
  with c have old: "task = old" "db1 = db" by (auto simp: CreateTask_def Let_def split: if_splits option.splits)
  have uniq: "t = old" if "t \<in> set (tasks db)" "task_ID t = task_ID old" for t
    using inv assms(6) that by (auto simp: tasks_inv_def tasks_wf_def distinct_map dest: inj_onD)
  show ?thesis
    using superseded_rows [OF _ assms(5)] uniq assms(8) unfolding Supersede_tasks [OF su] old by blast
qed

lemma HandleWebhook_steps:
  assumes "HandleWebhook V (\<lambda>_ d. d) E event db = (r, db')"
  shows "task_step\<^sup>*\<^sup>* db db'"
proof -
  have cr: "task_step\<^sup>*\<^sup>* d d'" if "service_Create E input d = (x, d')" for E input d x d'
    using that unfolding service_Create_def by (intro r_into_rtranclp) (rule st_create)
  have su: "task_step\<^sup>*\<^sup>* d d'" if "SupersedeCodeReviews rf pf E i pid pr new d = (x, d')" for rf pf E i pid pr new d x d'
    using that by (intro r_into_rtranclp) (rule st_supersede)
  show ?thesis using assms unfolding HandleWebhook_def
    by (auto split: sum.splits prod.splits option.splits if_splits repository_lookup.splits dest!: cr su intro: rtranclp_trans)
qed

lemma review_db_reachable: "reachable tasks_empty task_step review_db"
proof -
  have "task_step\<^sup>*\<^sup>* db (deliver n c db)" for n c db
    unfolding deliver_def by (rule HandleWebhook_steps) (rule prod.collapse [symmetric])
  then have "task_step\<^sup>*\<^sup>* sample_db0 review_db" unfolding review_db_def by (meson rtranclp_trans)
  then show ?thesis using sample_steps(5) by (rule tq.reachable_star)
qed

definition first_task :: "tasks_db \<Rightarrow> bool \<times> Status \<times> string" where
  "first_task db = (tasks db \<noteq> [], task_Status (hd (tasks db)), task_SourceKey (hd (tasks db)))"

lemma review_db_first:
  "first_task review_db = (True, StatusSuperseded, in_SourceKey (buildTaskInput sample_review sample_pr ''repo''))"
  by code_simp

theorem returning_head_unreviewed_witness: "list_all (\<lambda>t. task_Status t = StatusSuperseded) (tasks (snd third_delivery))"
proof -
  obtain task where t: "third_delivery = (Inr (Some task), snd third_delivery)" using third_delivery by blast
  have "hd (tasks review_db) \<in> set (tasks review_db)" "task_Status (hd (tasks review_db)) = StatusSuperseded"
    "task_SourceKey (hd (tasks review_db)) = in_SourceKey (buildTaskInput sample_review sample_pr ''repo'')"
    using review_db_first by (auto simp: first_task_def)
  from returning_head_unreviewed [OF review_db_reachable sample_pr sample_scm refl _ this(1,3,2) t [unfolded third_delivery_def]]
  have "\<forall>t \<in> set (tasks (snd third_delivery)). task_Kind t = KindCodeReview \<and> task_RepositoryID t = ''repo'' \<and>
      rw_prField sample_review (task_Payload t) = Some (pe_PullRequest sample_pr) \<longrightarrow> task_Status t = StatusSuperseded"
    unfolding third_delivery_def by blast
  moreover have "list_all (\<lambda>t. task_Kind t = KindCodeReview \<and> task_RepositoryID t = ''repo'' \<and>
      rw_prField sample_review (task_Payload t) = Some (pe_PullRequest sample_pr)) (tasks (snd third_delivery))"
    by code_simp
  ultimately show ?thesis by (simp add: list_all_iff)
qed

end
