(* ===== verification/SCM_Store.thy ===== *)
theory SCM_Store
  imports Review
begin

unbundle bit_operations_syntax

text \<open>
  Data and persistence of the source-control integration (\<open>src/server/internal/scm\<close>: types.go, secret.go, store.go) over the
  tables of migration 000003 and the outbox of migration 000001.

  \<^item> A provider is a Go string; only \<open>github\<close> and \<open>gitlab\<close> are ever stored.
  \<^item> \<open>scm_codec\<close> holds what the package calls in \<open>encoding/json\<close> and the sort key of the database's collation.
  \<^item> \<open>aead\<close> is AES-GCM under the master key: its nonce size, \<open>Seal\<close> and \<open>Open\<close> (\<open>None\<close> when authentication fails).
\<close>

section \<open>Types (types.go)\<close>

type_synonym Provider = string
type_synonym metadata = "string \<Rightarrow> any_value option"

definition ProviderGitHub :: Provider where
  "ProviderGitHub = ''github''"

definition ProviderGitLab :: Provider where
  "ProviderGitLab = ''gitlab''"

record Connection =
  con_ID :: string
  con_Provider :: Provider
  con_Name :: string
  con_ExternalAccountID :: string
  con_BaseURL :: string
  con_Status :: string
  con_LastSyncedAt :: "time option"
  con_CreatedAt :: time

record StoredConnection = Connection +
  con_CredentialCiphertext :: "8 word list option"

record ConnectionRow = StoredConnection +
  con_CreatedBy :: string
  con_UpdatedAt :: time

record Repository =
  repo_ID :: string
  repo_ConnectionID :: string
  repo_Provider :: Provider
  repo_ProviderRepositoryID :: string
  repo_FullName :: string
  repo_CloneURL :: string
  repo_WebURL :: string
  repo_DefaultBranch :: string
  repo_Visibility :: string
  repo_Archived :: bool
  repo_Enabled :: bool
  repo_Metadata :: metadata
  repo_LastSyncedAt :: time

record RepositoryRow =
  row_ID :: string
  row_ConnectionID :: string
  row_ProviderRepositoryID :: string
  row_FullName :: string
  row_CloneURL :: string
  row_WebURL :: string
  row_DefaultBranch :: string
  row_Visibility :: string
  row_Archived :: bool
  row_Enabled :: bool
  row_Metadata :: json
  row_LastSyncedAt :: time
  row_CreatedAt :: time
  row_UpdatedAt :: time

record RemoteConnection =
  rc_Provider :: Provider
  rc_Name :: string
  rc_ExternalAccountID :: string
  rc_BaseURL :: string

record RemoteRepository =
  rem_ProviderRepositoryID :: string
  rem_FullName :: string
  rem_CloneURL :: string
  rem_WebURL :: string
  rem_DefaultBranch :: string
  rem_Visibility :: string
  rem_Archived :: bool
  rem_Metadata :: metadata

record Credential =
  cred_AccessToken :: string
  cred_RefreshToken :: string
  cred_ExpiresAt :: time

record Callback =
  cb_Code :: string
  cb_InstallationID :: string

record Flow =
  fl_Provider :: Provider
  fl_UserID :: string
  fl_Verifier :: string
  fl_ReturnTo :: string

record FlowRow =
  flr_StateHash :: "8 word list"
  flr_Flow :: Flow
  flr_ExpiresAt :: time

record DeliveryRow =
  dlv_ID :: string
  dlv_Provider :: Provider
  dlv_DeliveryID :: string
  dlv_EventType :: string
  dlv_PayloadSHA256 :: "8 word list"
  dlv_Normalized :: json
  dlv_ReceivedAt :: time

record OutboxRow =
  obx_ID :: string
  obx_Topic :: string
  obx_Payload :: json
  obx_State :: string
  obx_Attempts :: int
  obx_AvailableAt :: time
  obx_CreatedAt :: time
  obx_UpdatedAt :: time

record scm_db =
  scm_connections :: "ConnectionRow list"
  repositories :: "RepositoryRow list"
  scm_oauth_flows :: "FlowRow list"
  webhook_deliveries :: "DeliveryRow list"
  outbox_events :: "OutboxRow list"

datatype scm_error = ErrProviderUnavailable | ErrInvalidFlow | ErrForbidden | ErrRepositoryNotFound | ErrInvalidWebhook
  | ErrNoRows | ScmMessage string | ScmPanic | ScmExternal external_error

record scm_codec =
  marshal_metadata :: "metadata \<Rightarrow> string + json"
  unmarshal_metadata :: "json \<Rightarrow> string + metadata"
  marshal_outbox :: "Provider \<Rightarrow> WebhookEvent \<Rightarrow> string + json"
  marshal_credential :: "Credential \<Rightarrow> string + 8 word list"
  unmarshal_credential :: "8 word list \<Rightarrow> string + Credential"
  collate :: "string \<Rightarrow> string"

section \<open>The secret box (secret.go)\<close>

record aead =
  NonceSize :: nat
  aead_Seal :: "8 word list \<Rightarrow> 8 word list \<Rightarrow> 8 word list"
  aead_Open :: "8 word list \<Rightarrow> 8 word list \<Rightarrow> 8 word list option"

text \<open>\<open>gcm\<close> is \<open>aes.NewCipher\<close> followed by \<open>cipher.NewGCM\<close>, which reject keys of other lengths.\<close>

definition NewSecretBox :: "(8 word list \<Rightarrow> string + aead) \<Rightarrow> 8 word list \<Rightarrow> string + aead" where
  "NewSecretBox gcm key =
    (if length key \<noteq> 32 then Inl ''SCM master key must be exactly 32 bytes'' else gcm key)"

definition Seal :: "aead \<Rightarrow> env \<Rightarrow> nat \<Rightarrow> 8 word list \<Rightarrow> scm_error + 8 word list option" where
  "Seal b E n plaintext =
    (if plaintext = [] then Inr None
     else case rand_read E n (NonceSize b) of
       None \<Rightarrow> Inl (ScmExternal ErrEntropy)
     | Some nonce \<Rightarrow> Inr (Some (nonce @ aead_Seal b nonce plaintext)))"

definition Open :: "aead \<Rightarrow> 8 word list option \<Rightarrow> scm_error + 8 word list option" where
  "Open b ciphertext =
    (case ciphertext of
       None \<Rightarrow> Inr None
     | Some c \<Rightarrow>
         if c = [] then Inr None
         else if length c \<le> NonceSize b then Inl (ScmMessage ''invalid encrypted SCM credential'')
         else (case aead_Open b (take (NonceSize b) c) (drop (NonceSize b) c) of
           None \<Rightarrow> Inl (ScmMessage ''cipher: message authentication failed'')
         | Some p \<Rightarrow> Inr (Some p)))"

section \<open>The store (store.go)\<close>

definition newID :: "env \<Rightarrow> nat \<Rightarrow> string option" where
  "newID E n = map_option (\<lambda>v. format_uuid
     (v[6 := ((v ! 6) AND 0x0f) OR 0x40, 8 := ((v ! 8) AND 0x3f) OR 0x80])) (rand_read E n 16)"

definition CreateFlow ::
  "env \<Rightarrow> 8 word list \<Rightarrow> Flow \<Rightarrow> time \<Rightarrow> 'z scm_db_scheme \<Rightarrow> (scm_error, unit, 'z scm_db_scheme) outcome" where
  "CreateFlow E stateHash flow expiresAt db =
    (if fails E 0 \<or> stateHash \<in> flr_StateHash ` set (scm_oauth_flows db) then (Inl (ScmExternal ErrDatabase), db)
     else (Inr (), db\<lparr>scm_oauth_flows := scm_oauth_flows db @
       [\<lparr>flr_StateHash = stateHash, flr_Flow = flow, flr_ExpiresAt = expiresAt\<rparr>]\<rparr>))"

definition ConsumeFlow ::
  "env \<Rightarrow> 8 word list \<Rightarrow> time \<Rightarrow> 'z scm_db_scheme \<Rightarrow> (scm_error, Flow, 'z scm_db_scheme) outcome" where
  "ConsumeFlow E stateHash now db =
    (let sel = (\<lambda>f. flr_StateHash f = stateHash \<and> now < flr_ExpiresAt f)
     in if fails E 0 then (Inl (ScmExternal ErrDatabase), db)
        else case find sel (scm_oauth_flows db) of
          None \<Rightarrow> (Inl ErrNoRows, db)
        | Some f \<Rightarrow> (Inr (flr_Flow f), db\<lparr>scm_oauth_flows := delete_where sel (scm_oauth_flows db)\<rparr>))"

text \<open>\<open>INSERT ... ON CONFLICT (provider, external_account_id)\<close>: the row it returns with the table, \<open>None\<close> when the key is taken.\<close>

definition upsert_connection ::
  "string \<Rightarrow> string \<Rightarrow> RemoteConnection \<Rightarrow> 8 word list option \<Rightarrow> time \<Rightarrow> ConnectionRow list \<Rightarrow>
   (ConnectionRow \<times> ConnectionRow list) option" where
  "upsert_connection connectionID actorID remote ciphertext syncedAt rows =
    (let same = (\<lambda>c. con_Provider c = rc_Provider remote \<and> con_ExternalAccountID c = rc_ExternalAccountID remote);
         upd = (\<lambda>c. c\<lparr>con_Name := rc_Name remote, con_BaseURL := rc_BaseURL remote, con_Status := ''active'',
           con_CredentialCiphertext := (case ciphertext of None \<Rightarrow> con_CredentialCiphertext c | Some _ \<Rightarrow> ciphertext),
           con_LastSyncedAt := Some syncedAt, con_UpdatedAt := syncedAt\<rparr>)
     in case find same rows of
       Some c \<Rightarrow> Some (upd c, update_where same upd rows)
     | None \<Rightarrow>
         if connectionID \<in> con_ID ` set rows then None
         else let row = \<lparr>con_ID = connectionID, con_Provider = rc_Provider remote, con_Name = rc_Name remote,
             con_ExternalAccountID = rc_ExternalAccountID remote, con_BaseURL = rc_BaseURL remote, con_Status = ''active'',
             con_LastSyncedAt = Some syncedAt, con_CreatedAt = syncedAt, con_CredentialCiphertext = ciphertext,
             con_CreatedBy = actorID, con_UpdatedAt = syncedAt\<rparr>
           in Some (row, rows @ [row]))"

definition normal_visibility :: "string \<Rightarrow> string" where
  "normal_visibility visibility = (if visibility \<noteq> ''public'' \<and> visibility \<noteq> ''internal'' then ''private'' else visibility)"

definition refresh_row :: "RemoteRepository \<Rightarrow> json \<Rightarrow> time \<Rightarrow> RepositoryRow \<Rightarrow> RepositoryRow" where
  "refresh_row r metadata syncedAt x = x\<lparr>row_FullName := rem_FullName r, row_CloneURL := rem_CloneURL r,
     row_WebURL := rem_WebURL r, row_DefaultBranch := rem_DefaultBranch r,
     row_Visibility := normal_visibility (rem_Visibility r), row_Archived := rem_Archived r, row_Enabled := True,
     row_Metadata := metadata, row_LastSyncedAt := syncedAt, row_UpdatedAt := syncedAt\<rparr>"

definition new_row :: "string \<Rightarrow> string \<Rightarrow> RemoteRepository \<Rightarrow> json \<Rightarrow> time \<Rightarrow> RepositoryRow" where
  "new_row newId connectionID r metadata syncedAt = \<lparr>row_ID = newId, row_ConnectionID = connectionID,
     row_ProviderRepositoryID = rem_ProviderRepositoryID r, row_FullName = rem_FullName r,
     row_CloneURL = rem_CloneURL r, row_WebURL = rem_WebURL r, row_DefaultBranch = rem_DefaultBranch r,
     row_Visibility = normal_visibility (rem_Visibility r), row_Archived = rem_Archived r, row_Enabled = True,
     row_Metadata = metadata, row_LastSyncedAt = syncedAt, row_CreatedAt = syncedAt, row_UpdatedAt = syncedAt\<rparr>"

text \<open>\<open>INSERT ... ON CONFLICT (connection_id, provider_repository_id)\<close>, \<open>None\<close> when the primary key is taken.\<close>

definition upsert_repository ::
  "string \<Rightarrow> string \<Rightarrow> RemoteRepository \<Rightarrow> json \<Rightarrow> time \<Rightarrow> RepositoryRow list \<Rightarrow> RepositoryRow list option" where
  "upsert_repository newId connectionID r metadata syncedAt rows =
    (if list_ex (\<lambda>x. row_ConnectionID x = connectionID \<and> row_ProviderRepositoryID x = rem_ProviderRepositoryID r) rows
     then Some (update_where (\<lambda>x. row_ConnectionID x = connectionID \<and> row_ProviderRepositoryID x = rem_ProviderRepositoryID r)
       (refresh_row r metadata syncedAt) rows)
     else if newId \<in> row_ID ` set rows then None
     else Some (rows @ [new_row newId connectionID r metadata syncedAt]))"

fun upsert_repositories ::
  "scm_codec \<Rightarrow> env \<Rightarrow> string \<Rightarrow> time \<Rightarrow> nat \<Rightarrow> RemoteRepository list \<Rightarrow> RepositoryRow list \<Rightarrow> scm_error + RepositoryRow list" where
  "upsert_repositories J E connectionID syncedAt k [] rows = Inr rows"
| "upsert_repositories J E connectionID syncedAt k (r # rs) rows =
    (case marshal_metadata J (rem_Metadata r) of
       Inl msg \<Rightarrow> Inl (ScmMessage msg)
     | Inr metadata \<Rightarrow>
         (case newID E (1 + k) of
            None \<Rightarrow> Inl ScmPanic
          | Some newId \<Rightarrow>
              if fails E (4 + k) then Inl (ScmExternal ErrDatabase)
              else (case upsert_repository newId connectionID r metadata syncedAt rows of
                None \<Rightarrow> Inl (ScmExternal ErrDatabase)
              | Some rows' \<Rightarrow> upsert_repositories J E connectionID syncedAt (Suc k) rs rows')))"

definition UpsertConnection ::
  "scm_codec \<Rightarrow> env \<Rightarrow> string \<Rightarrow> RemoteConnection \<Rightarrow> 8 word list option \<Rightarrow> RemoteRepository list \<Rightarrow> time \<Rightarrow>
   'z scm_db_scheme \<Rightarrow> (scm_error, Connection, 'z scm_db_scheme) outcome" where
  "UpsertConnection J E actorID remote ciphertext rs syncedAt db =
    (if fails E 0 then (Inl (ScmExternal ErrDatabase), db)
     else case newID E 0 of
       None \<Rightarrow> (Inl ScmPanic, db)
     | Some connectionID \<Rightarrow>
         if fails E 1 then (Inl (ScmExternal ErrDatabase), db)
         else (case upsert_connection connectionID actorID remote ciphertext syncedAt (scm_connections db) of
           None \<Rightarrow> (Inl (ScmExternal ErrDatabase), db)
         | Some (connection, connections) \<Rightarrow>
             if fails E 2 then (Inl (ScmExternal ErrDatabase), db)
             else (case upsert_repositories J E (con_ID connection) syncedAt 0 rs
                 (update_where (\<lambda>x. row_ConnectionID x = con_ID connection)
                   (\<lambda>x. x\<lparr>row_Enabled := False, row_UpdatedAt := syncedAt\<rparr>) (repositories db)) of
               Inl e \<Rightarrow> (Inl e, db)
             | Inr rows \<Rightarrow>
                 if fails E 3 then (Inl (ScmExternal ErrDatabase), db)
                 else (Inr (Connection.truncate connection),
                   db\<lparr>scm_connections := connections, repositories := rows\<rparr>))))"

definition GetConnection :: "env \<Rightarrow> string \<Rightarrow> 'z scm_db_scheme \<Rightarrow> scm_error + StoredConnection" where
  "GetConnection E i db =
    (if fails E 0 then Inl (ScmExternal ErrDatabase)
     else case select_by con_ID i (scm_connections db) of
       None \<Rightarrow> Inl ErrNoRows
     | Some c \<Rightarrow> Inr (StoredConnection.truncate c))"

definition ListConnections :: "scm_codec \<Rightarrow> env \<Rightarrow> 'z scm_db_scheme \<Rightarrow> scm_error + Connection list" where
  "ListConnections J E db =
    (if fails E 0 then Inl (ScmExternal ErrDatabase)
     else Inr (map Connection.truncate
       (sort_key (\<lambda>c. (collate J (con_Provider c), collate J (con_Name c))) (scm_connections db))))"

definition scanRepository :: "scm_codec \<Rightarrow> Provider \<Rightarrow> RepositoryRow \<Rightarrow> scm_error + Repository" where
  "scanRepository J provider x =
    (case unmarshal_metadata J (row_Metadata x) of
       Inl msg \<Rightarrow> Inl (ScmMessage msg)
     | Inr m \<Rightarrow> Inr \<lparr>repo_ID = row_ID x, repo_ConnectionID = row_ConnectionID x, repo_Provider = provider,
         repo_ProviderRepositoryID = row_ProviderRepositoryID x, repo_FullName = row_FullName x,
         repo_CloneURL = row_CloneURL x, repo_WebURL = row_WebURL x, repo_DefaultBranch = row_DefaultBranch x,
         repo_Visibility = row_Visibility x, repo_Archived = row_Archived x, repo_Enabled = row_Enabled x,
         repo_Metadata = m, repo_LastSyncedAt = row_LastSyncedAt x\<rparr>)"

text \<open>\<open>repositories r JOIN scm_connections c ON c.id = r.connection_id\<close>.\<close>

definition join_connections :: "ConnectionRow list \<Rightarrow> RepositoryRow list \<Rightarrow> (RepositoryRow \<times> ConnectionRow) list" where
  "join_connections cs rows =
    concat (map (\<lambda>x. map (\<lambda>c. (x, c)) (filter (\<lambda>c. con_ID c = row_ConnectionID x) cs)) rows)"

fun scan_all :: "scm_codec \<Rightarrow> (RepositoryRow \<times> ConnectionRow) list \<Rightarrow> scm_error + Repository list" where
  "scan_all J [] = Inr []"
| "scan_all J ((x, c) # rest) =
    (case scanRepository J (con_Provider c) x of
       Inl e \<Rightarrow> Inl e
     | Inr r \<Rightarrow> (case scan_all J rest of Inl e \<Rightarrow> Inl e | Inr rs \<Rightarrow> Inr (r # rs)))"

definition ListRepositories :: "scm_codec \<Rightarrow> env \<Rightarrow> 'z scm_db_scheme \<Rightarrow> scm_error + Repository list" where
  "ListRepositories J E db =
    (if fails E 0 then Inl (ScmExternal ErrDatabase)
     else scan_all J (sort_key (\<lambda>(x, c). (\<not> row_Enabled x, collate J (row_FullName x)))
       (join_connections (scm_connections db) (repositories db))))"

definition GetRepository :: "scm_codec \<Rightarrow> env \<Rightarrow> string \<Rightarrow> 'z scm_db_scheme \<Rightarrow> scm_error + Repository" where
  "GetRepository J E i db =
    (if fails E 0 then Inl (ScmExternal ErrDatabase)
     else case find (\<lambda>(x, c). row_ID x = i) (join_connections (scm_connections db) (repositories db)) of
       None \<Rightarrow> Inl ErrNoRows
     | Some (x, c) \<Rightarrow> scanRepository J (con_Provider c) x)"

definition RecordWebhook ::
  "scm_codec \<Rightarrow> env \<Rightarrow> Provider \<Rightarrow> WebhookEvent \<Rightarrow> 8 word list \<Rightarrow> time \<Rightarrow> 'z scm_db_scheme \<Rightarrow>
   (scm_error, bool, 'z scm_db_scheme) outcome" where
  "RecordWebhook J E provider event payloadHash receivedAt db =
    (if fails E 0 then (Inl (ScmExternal ErrDatabase), db)
     else case marshal_metadata J (we_Normalized event) of
       Inl msg \<Rightarrow> (Inl (ScmMessage msg), db)
     | Inr normalized \<Rightarrow>
         (case newID E 0 of
            None \<Rightarrow> (Inl ScmPanic, db)
          | Some i \<Rightarrow>
              if fails E 1 then (Inl (ScmExternal ErrDatabase), db)
              else if list_ex (\<lambda>d. dlv_Provider d = provider \<and> dlv_DeliveryID d = we_DeliveryID event) (webhook_deliveries db)
              then (if fails E 2 then Inl (ScmExternal ErrDatabase) else Inr False, db)
              else if i \<in> dlv_ID ` set (webhook_deliveries db) then (Inl (ScmExternal ErrDatabase), db)
              else (case marshal_outbox J provider event of
                Inl msg \<Rightarrow> (Inl (ScmMessage msg), db)
              | Inr outboxPayload \<Rightarrow>
                  (case newID E 1 of
                     None \<Rightarrow> (Inl ScmPanic, db)
                   | Some j \<Rightarrow>
                       if fails E 3 \<or> j \<in> obx_ID ` set (outbox_events db) \<or> fails E 4
                       then (Inl (ScmExternal ErrDatabase), db)
                       else (Inr True, db\<lparr>
                         webhook_deliveries := webhook_deliveries db @ [\<lparr>dlv_ID = i, dlv_Provider = provider,
                           dlv_DeliveryID = we_DeliveryID event, dlv_EventType = we_EventType event,
                           dlv_PayloadSHA256 = payloadHash, dlv_Normalized = normalized, dlv_ReceivedAt = receivedAt\<rparr>],
                         outbox_events := outbox_events db @ [\<lparr>obx_ID = j, obx_Topic = ''scm.webhook.'' @ provider,
                           obx_Payload = outboxPayload, obx_State = ''pending'', obx_Attempts = 0,
                           obx_AvailableAt = receivedAt, obx_CreatedAt = receivedAt, obx_UpdatedAt = receivedAt\<rparr>]\<rparr>)))))"

section \<open>The repository table as an abstract snapshot\<close>

text \<open>
  What a client of the table sees: for every connection, a finite map from the provider's repository identifiers to the description of the enabled
  row. \<open>snapshot\<close> is the same map read off a provider's answer, where a later entry replaces an earlier one.
\<close>

type_synonym repo_info = "string \<times> string \<times> string \<times> string \<times> string \<times> bool \<times> json \<times> time"

definition row_info :: "RepositoryRow \<Rightarrow> repo_info" where
  "row_info x = (row_FullName x, row_CloneURL x, row_WebURL x, row_DefaultBranch x, row_Visibility x, row_Archived x,
     row_Metadata x, row_LastSyncedAt x)"

definition row_key :: "RepositoryRow \<Rightarrow> string \<times> string" where
  "row_key x = (row_ConnectionID x, row_ProviderRepositoryID x)"

definition enabled_view :: "RepositoryRow list \<Rightarrow> string \<Rightarrow> string \<rightharpoonup> repo_info" where
  "enabled_view rows c p = (case select_by row_key (c, p) rows of
     None \<Rightarrow> None | Some x \<Rightarrow> if row_Enabled x then Some (row_info x) else None)"

definition remote_info :: "scm_codec \<Rightarrow> time \<Rightarrow> RemoteRepository \<Rightarrow> repo_info" where
  "remote_info J syncedAt r = (rem_FullName r, rem_CloneURL r, rem_WebURL r, rem_DefaultBranch r,
     normal_visibility (rem_Visibility r), rem_Archived r, projr (marshal_metadata J (rem_Metadata r)), syncedAt)"

definition snapshot :: "scm_codec \<Rightarrow> time \<Rightarrow> RemoteRepository list \<Rightarrow> string \<rightharpoonup> repo_info" where
  "snapshot J syncedAt rs = map_of (rev (map (\<lambda>r. (rem_ProviderRepositoryID r, remote_info J syncedAt r)) rs))"

definition row_identity :: "RepositoryRow \<Rightarrow> string \<times> string \<times> string \<times> time" where
  "row_identity x = (row_ID x, row_ConnectionID x, row_ProviderRepositoryID x, row_CreatedAt x)"

definition repositories_wf :: "RepositoryRow list \<Rightarrow> bool" where
  "repositories_wf rows \<longleftrightarrow> distinct (map row_ID rows) \<and> distinct (map row_key rows)"

lemma refresh_row_simps [simp]:
  "row_ID (refresh_row r m t x) = row_ID x" "row_key (refresh_row r m t x) = row_key x"
  "row_ConnectionID (refresh_row r m t x) = row_ConnectionID x" "row_identity (refresh_row r m t x) = row_identity x"
  "row_Enabled (refresh_row r m t x)"
  by (simp_all add: refresh_row_def row_key_def row_identity_def)

lemma new_row_simps [simp]:
  "row_ID (new_row i c r m t) = i" "row_key (new_row i c r m t) = (c, rem_ProviderRepositoryID r)"
  "row_ConnectionID (new_row i c r m t) = c" "row_Enabled (new_row i c r m t)"
  by (simp_all add: new_row_def row_key_def)

lemma row_info_written:
  assumes "marshal_metadata J (rem_Metadata r) = Inr m"
  shows "row_info (refresh_row r m t x) = remote_info J t r" "row_info (new_row i c r m t) = remote_info J t r"
  using assms by (simp_all add: row_info_def refresh_row_def new_row_def remote_info_def)

lemma same_key: "row_ConnectionID x = c \<and> row_ProviderRepositoryID x = p \<longleftrightarrow> row_key x = (c, p)"
  by (simp add: row_key_def)

lemma list_ex_key: "list_ex (\<lambda>x. key x = k) rows \<longleftrightarrow> k \<in> key ` set rows"
  by (auto simp: list_ex_iff)

lemma upsert_repository_cases:
  assumes "upsert_repository i c r m t rows = Some rows'"
  obtains (refresh) "(c, rem_ProviderRepositoryID r) \<in> row_key ` set rows"
    "rows' = update_where (\<lambda>x. row_key x = (c, rem_ProviderRepositoryID r)) (refresh_row r m t) rows"
  | (insert) "(c, rem_ProviderRepositoryID r) \<notin> row_key ` set rows" "i \<notin> row_ID ` set rows"
    "rows' = rows @ [new_row i c r m t]"
  using assms unfolding upsert_repository_def same_key list_ex_key by (auto split: if_splits)

lemma upsert_repository_view:
  assumes up: "upsert_repository i c r m t rows = Some rows'" and m: "marshal_metadata J (rem_Metadata r) = Inr m"
  shows "enabled_view rows' = (enabled_view rows)(c := (enabled_view rows c)(rem_ProviderRepositoryID r \<mapsto> remote_info J t r))"
  using up
proof (cases rule: upsert_repository_cases)
  case refresh
  obtain x where x: "select_by row_key (c, rem_ProviderRepositoryID r) rows = Some x"
    using refresh(1) by (metis not_Some_eq select_by_None_iff)
  have pick: "select_by row_key k rows' =
      map_option (\<lambda>y. if row_key y = (c, rem_ProviderRepositoryID r) then refresh_row r m t y else y) (select_by row_key k rows)" for k
    unfolding refresh(2) by (rule select_by_update_where) simp
  have "enabled_view rows' c' p =
    (if c' = c \<and> p = rem_ProviderRepositoryID r then Some (remote_info J t r) else enabled_view rows c' p)" for c' p
  proof (cases "c' = c \<and> p = rem_ProviderRepositoryID r")
    case True
    with x row_info_written [OF m] select_by_SomeD [OF x] show ?thesis by (simp add: enabled_view_def pick)
  next
    case False
    then show ?thesis
      by (cases "select_by row_key (c', p) rows")
        (auto simp: enabled_view_def pick simp del: select_by_None_iff dest: select_by_SomeD)
  qed
  then show ?thesis by (intro ext) simp
next
  case insert
  then have none: "select_by row_key (c, rem_ProviderRepositoryID r) rows = None" by simp
  have "enabled_view rows' c' p =
    (if c' = c \<and> p = rem_ProviderRepositoryID r then Some (remote_info J t r) else enabled_view rows c' p)" for c' p
    using row_info_written(2) [OF m] none unfolding insert(3) enabled_view_def select_by_append
    by (cases "select_by row_key (c', p) rows") (auto simp del: select_by_None_iff)
  then show ?thesis by (intro ext) simp
qed

lemma upsert_repository_identity:
  assumes "upsert_repository i c r m t rows = Some rows'"
  shows "\<exists>new. map row_identity rows' = map row_identity rows @ new"
  using assms by (cases rule: upsert_repository_cases) (simp_all add: map_update_where)

lemma upsert_repository_wf:
  assumes "upsert_repository i c r m t rows = Some rows'" "repositories_wf rows"
  shows "repositories_wf rows'"
  using assms by (cases rule: upsert_repository_cases) (auto simp: repositories_wf_def map_update_where)

lemma upsert_repository_connection:
  assumes "upsert_repository i c r m t rows = Some rows'"
  shows "row_ConnectionID ` set rows' \<subseteq> insert c (row_ConnectionID ` set rows)"
  using assms by (cases rule: upsert_repository_cases) (auto simp: table_simps)

lemma upsert_repositories_step:
  assumes "upsert_repositories J E c t k (r # rs) rows = Inr rows'"
  obtains m i mid where "marshal_metadata J (rem_Metadata r) = Inr m"
    "upsert_repository i c r m t rows = Some mid" "upsert_repositories J E c t (Suc k) rs mid = Inr rows'"
  using assms by (auto split: sum.splits option.splits if_splits)

lemma upsert_repositories_view:
  "upsert_repositories J E c t k rs rows = Inr rows' \<Longrightarrow>
   enabled_view rows' = (enabled_view rows)(c := enabled_view rows c ++ snapshot J t rs)"
proof (induction rs arbitrary: k rows)
  case Nil
  then show ?case by (simp add: snapshot_def)
next
  case (Cons r rs)
  from Cons.prems obtain m i mid where step: "marshal_metadata J (rem_Metadata r) = Inr m"
      "upsert_repository i c r m t rows = Some mid" "upsert_repositories J E c t (Suc k) rs mid = Inr rows'"
    by (rule upsert_repositories_step)
  have "snapshot J t (r # rs) = [rem_ProviderRepositoryID r \<mapsto> remote_info J t r] ++ snapshot J t rs"
    by (simp add: snapshot_def)
  moreover have "enabled_view rows c ++ ([rem_ProviderRepositoryID r \<mapsto> remote_info J t r] ++ snapshot J t rs) =
      (enabled_view rows c)(rem_ProviderRepositoryID r \<mapsto> remote_info J t r) ++ snapshot J t rs"
    by (simp only: map_add_assoc map_add_upd map_add_empty)
  ultimately show ?case
    unfolding Cons.IH [OF step(3)] upsert_repository_view [OF step(2,1)] by simp
qed

lemma upsert_repositories_identity:
  "upsert_repositories J E c t k rs rows = Inr rows' \<Longrightarrow> \<exists>new. map row_identity rows' = map row_identity rows @ new"
proof (induction rs arbitrary: k rows)
  case (Cons r rs)
  then show ?case
    by (elim upsert_repositories_step) (metis append_assoc upsert_repository_identity)
qed simp

lemma upsert_repositories_wf:
  "upsert_repositories J E c t k rs rows = Inr rows' \<Longrightarrow> repositories_wf rows \<Longrightarrow> repositories_wf rows'"
proof (induction rs arbitrary: k rows)
  case (Cons r rs)
  then show ?case by (elim upsert_repositories_step) (blast intro: upsert_repository_wf)
qed simp

lemma upsert_repositories_connection:
  "upsert_repositories J E c t k rs rows = Inr rows' \<Longrightarrow> row_ConnectionID ` set rows' \<subseteq> insert c (row_ConnectionID ` set rows)"
proof (induction rs arbitrary: k rows)
  case (Cons r rs)
  then show ?case by (elim upsert_repositories_step) (blast dest: upsert_repository_connection)
qed auto

text \<open>The rows the transaction starts from: the connection's previous snapshot is switched off.\<close>

abbreviation switched_off :: "string \<Rightarrow> time \<Rightarrow> RepositoryRow list \<Rightarrow> RepositoryRow list" where
  "switched_off c t rows \<equiv> update_where (\<lambda>x. row_ConnectionID x = c) (\<lambda>x. x\<lparr>row_Enabled := False, row_UpdatedAt := t\<rparr>) rows"

lemma switched_off_view: "enabled_view (switched_off c t rows) = (enabled_view rows)(c := Map.empty)"
proof (intro ext)
  fix c' p
  show "enabled_view (switched_off c t rows) c' p = ((enabled_view rows)(c := Map.empty)) c' p"
    by (auto simp: enabled_view_def row_info_def row_key_def table_simps split: option.splits dest!: select_by_SomeD)
qed

lemma switched_off_identity: "map row_identity (switched_off c t rows) = map row_identity rows"
  by (rule map_update_where) (simp add: row_identity_def)

lemma switched_off_wf: "repositories_wf rows \<Longrightarrow> repositories_wf (switched_off c t rows)"
  by (simp add: repositories_wf_def map_update_where row_key_def)

lemma switched_off_connection: "row_ConnectionID ` set (switched_off c t rows) = row_ConnectionID ` set rows"
  unfolding set_map [symmetric] by (subst map_update_where) simp_all

lemma UpsertConnection_success:
  assumes "UpsertConnection J E actor remote ct rs t db = (Inr conn, db')"
  obtains i row conns rows where "newID E 0 = Some i"
    "upsert_connection i actor remote ct t (scm_connections db) = Some (row, conns)"
    "upsert_repositories J E (con_ID row) t 0 rs (switched_off (con_ID row) t (repositories db)) = Inr rows"
    "conn = Connection.truncate row" "db' = db\<lparr>scm_connections := conns, repositories := rows\<rparr>"
  using assms by (auto simp: UpsertConnection_def split: if_splits option.splits sum.splits)

lemma UpsertConnection_error: "UpsertConnection J E actor remote ct rs t db = (Inl e, db') \<Longrightarrow> db' = db"
  by (auto simp: UpsertConnection_def split: if_splits option.splits sum.splits)

lemma UpsertConnection_cases:
  obtains (failed) e where "UpsertConnection J E actor remote ct rs t db = (Inl e, db)"
  | (written) conn db' where "UpsertConnection J E actor remote ct rs t db = (Inr conn, db')"
  by (metis UpsertConnection_error sum.exhaust surj_pair)

section \<open>The invariant of the tables\<close>

definition connection_key :: "('a) ConnectionRow_scheme \<Rightarrow> Provider \<times> string" where
  "connection_key c = (con_Provider c, con_ExternalAccountID c)"

definition delivery_key :: "DeliveryRow \<Rightarrow> Provider \<times> string" where
  "delivery_key d = (dlv_Provider d, dlv_DeliveryID d)"

text \<open>An outbox event that announces a delivery: the topic and time of the delivery and a payload that encodes an event with its identifiers.\<close>

definition announces :: "scm_codec \<Rightarrow> DeliveryRow \<Rightarrow> OutboxRow \<Rightarrow> bool" where
  "announces J d ob \<longleftrightarrow> obx_Topic ob = ''scm.webhook.'' @ dlv_Provider d \<and> obx_AvailableAt ob = dlv_ReceivedAt d \<and> obx_State ob = ''pending'' \<and>
     (\<exists>event. we_DeliveryID event = dlv_DeliveryID d \<and> we_EventType event = dlv_EventType d \<and>
        marshal_metadata J (we_Normalized event) = Inr (dlv_Normalized d) \<and>
        marshal_outbox J (dlv_Provider d) event = Inr (obx_Payload ob))"

definition scm_wf :: "scm_codec \<Rightarrow> 'z scm_db_scheme \<Rightarrow> bool" where
  "scm_wf J db \<longleftrightarrow> distinct (map con_ID (scm_connections db)) \<and> distinct (map connection_key (scm_connections db)) \<and>
     repositories_wf (repositories db) \<and> row_ConnectionID ` set (repositories db) \<subseteq> con_ID ` set (scm_connections db) \<and>
     distinct (map flr_StateHash (scm_oauth_flows db)) \<and>
     distinct (map delivery_key (webhook_deliveries db)) \<and> distinct (map dlv_ID (webhook_deliveries db)) \<and>
     distinct (map obx_ID (outbox_events db)) \<and> (\<forall>ob \<in> set (outbox_events db). obx_State ob = ''pending'') \<and>
     (\<exists>obs. subseq obs (outbox_events db) \<and> list_all2 (announces J) (webhook_deliveries db) obs)"

lemma same_connection: "con_Provider c = p \<and> con_ExternalAccountID c = x \<longleftrightarrow> connection_key c = (p, x)"
  by (simp add: connection_key_def)

lemma upsert_connection_cases:
  assumes "upsert_connection i actor remote ct t rows = Some (row, rows')"
  obtains (refresh) c upd where "c \<in> set rows" "connection_key c = (rc_Provider remote, rc_ExternalAccountID remote)" "row = upd c"
    "rows' = update_where (\<lambda>c. connection_key c = (rc_Provider remote, rc_ExternalAccountID remote)) upd rows"
    "\<And>c. con_ID (upd c) = con_ID c" "\<And>c. connection_key (upd c) = connection_key c" "\<And>c. con_CreatedBy (upd c) = con_CreatedBy c"
    "\<And>c. con_CredentialCiphertext (upd c) = (case ct of None \<Rightarrow> con_CredentialCiphertext c | Some _ \<Rightarrow> ct)"
  | (insert) "(rc_Provider remote, rc_ExternalAccountID remote) \<notin> connection_key ` set rows" "i \<notin> con_ID ` set rows"
    "con_ID row = i" "connection_key row = (rc_Provider remote, rc_ExternalAccountID remote)" "con_CreatedBy row = actor"
    "con_CredentialCiphertext row = ct" "rows' = rows @ [row]"
proof -
  let ?key = "(rc_Provider remote, rc_ExternalAccountID remote)"
  let ?upd = "\<lambda>c. c\<lparr>con_Name := rc_Name remote, con_BaseURL := rc_BaseURL remote, con_Status := ''active'',
     con_CredentialCiphertext := (case ct of None \<Rightarrow> con_CredentialCiphertext c | Some _ \<Rightarrow> ct),
     con_LastSyncedAt := Some t, con_UpdatedAt := t\<rparr>"
  have "(\<exists>c. find (\<lambda>c. connection_key c = ?key) rows = Some c \<and> row = ?upd c \<and>
      rows' = update_where (\<lambda>c. connection_key c = ?key) ?upd rows) \<or>
    find (\<lambda>c. connection_key c = ?key) rows = None \<and> i \<notin> con_ID ` set rows \<and> con_ID row = i \<and>
      connection_key row = ?key \<and> con_CreatedBy row = actor \<and> con_CredentialCiphertext row = ct \<and> rows' = rows @ [row]"
    using assms unfolding upsert_connection_def Let_def same_connection
    by (auto simp: connection_key_def split: option.splits if_splits)
  then show thesis
  proof (elim disjE exE conjE)
    fix c
    assume found: "find (\<lambda>c. connection_key c = ?key) rows = Some c" "row = ?upd c"
      "rows' = update_where (\<lambda>c. connection_key c = ?key) ?upd rows"
    from found(1) have "c \<in> set rows" "connection_key c = ?key" by (auto simp: find_Some_iff)
    then show thesis using found(2,3) by (rule refresh) (simp_all add: connection_key_def)
  next
    assume "find (\<lambda>c. connection_key c = ?key) rows = None"
    then have "?key \<notin> connection_key ` set rows" by (auto simp: find_None_iff)
    moreover assume "i \<notin> con_ID ` set rows" "con_ID row = i" "connection_key row = ?key" "con_CreatedBy row = actor"
      "con_CredentialCiphertext row = ct" "rows' = rows @ [row]"
    ultimately show thesis by (rule insert)
  qed
qed

lemma upsert_connection_wf:
  assumes "upsert_connection i actor remote ct t rows = Some (row, rows')"
    and "distinct (map con_ID rows)" "distinct (map connection_key rows)"
  shows "distinct (map con_ID rows')" "distinct (map connection_key rows')" "con_ID ` set rows \<subseteq> con_ID ` set rows'" "row \<in> set rows'"
    and "connection_key ` set rows \<subseteq> connection_key ` set rows'"
proof -
  have "distinct (map con_ID rows') \<and> distinct (map connection_key rows') \<and>
    (\<exists>new. map con_ID rows' = map con_ID rows @ new) \<and> (\<exists>new. map connection_key rows' = map connection_key rows @ new) \<and>
    row \<in> set rows'"
    using assms by (cases rule: upsert_connection_cases) (auto simp: map_update_where table_simps)
  then show "distinct (map con_ID rows')" "distinct (map connection_key rows')" "row \<in> set rows'"
    "con_ID ` set rows \<subseteq> con_ID ` set rows'" "connection_key ` set rows \<subseteq> connection_key ` set rows'"
    by (metis set_append set_map sup_ge1)+
qed

lemma UpsertConnection_wf:
  assumes "scm_wf J' db"
  shows "scm_wf J' (snd (UpsertConnection J E actor remote ct rs t db))"
proof (cases rule: UpsertConnection_cases [of J E actor remote ct rs t db])
  case failed
  with assms show ?thesis by simp
next
  case (written conn db')
  then obtain i row conns rows where up: "upsert_connection i actor remote ct t (scm_connections db) = Some (row, conns)"
      "upsert_repositories J E (con_ID row) t 0 rs (switched_off (con_ID row) t (repositories db)) = Inr rows"
    and db': "db' = db\<lparr>scm_connections := conns, repositories := rows\<rparr>"
    by (elim UpsertConnection_success)
  have "distinct (map con_ID (scm_connections db))" "distinct (map connection_key (scm_connections db))"
    using assms by (simp_all add: scm_wf_def)
  note conns = upsert_connection_wf [OF up(1) this]
  have "repositories_wf rows"
    using assms by (intro upsert_repositories_wf [OF up(2)] switched_off_wf) (simp add: scm_wf_def)
  moreover have "row_ConnectionID ` set rows \<subseteq> con_ID ` set conns"
  proof -
    have "row_ConnectionID ` set (repositories db) \<subseteq> con_ID ` set (scm_connections db)"
      using assms by (simp add: scm_wf_def)
    then have "insert (con_ID row) (row_ConnectionID ` set (repositories db)) \<subseteq> con_ID ` set conns"
      using conns(3,4) by (intro insert_subsetI) (rule imageI, assumption, rule subset_trans)
    with upsert_repositories_connection [OF up(2)] show ?thesis
      unfolding switched_off_connection by (rule subset_trans)
  qed
  ultimately show ?thesis
    using assms conns(1,2) by (simp add: scm_wf_def written db')
qed

lemma CreateFlow_wf: "scm_wf J db \<Longrightarrow> scm_wf J (snd (CreateFlow E h flow t db))"
  by (auto simp: CreateFlow_def scm_wf_def)

lemma ConsumeFlow_cases:
  obtains (failed) e where "ConsumeFlow E h now db = (Inl e, db)"
  | (consumed) f where "ConsumeFlow E h now db = (Inr (flr_Flow f),
      db\<lparr>scm_oauth_flows := delete_where (\<lambda>f. flr_StateHash f = h \<and> now < flr_ExpiresAt f) (scm_oauth_flows db)\<rparr>)"
      "f \<in> set (scm_oauth_flows db)" "flr_StateHash f = h" "now < flr_ExpiresAt f"
proof (cases "find (\<lambda>f. flr_StateHash f = h \<and> now < flr_ExpiresAt f) (scm_oauth_flows db)")
  case None
  then show ?thesis by (cases "fails E 0") (auto simp: ConsumeFlow_def Let_def intro: failed)
next
  case (Some f)
  then have "f \<in> set (scm_oauth_flows db)" "flr_StateHash f = h" "now < flr_ExpiresAt f"
    by (auto simp: find_Some_iff)
  then show ?thesis
    using Some by (cases "fails E 0") (auto simp: ConsumeFlow_def Let_def intro: failed consumed)
qed

lemma ConsumeFlow_wf: "scm_wf J db \<Longrightarrow> scm_wf J (snd (ConsumeFlow E h now db))"
  by (cases rule: ConsumeFlow_cases [of E h now db]) (simp_all add: scm_wf_def distinct_delete_where)

lemma RecordWebhook_unchanged:
  "RecordWebhook J E provider event ph t db = (r, db') \<Longrightarrow> r \<noteq> Inr True \<Longrightarrow> db' = db"
  by (auto simp: RecordWebhook_def split: sum.splits option.splits if_splits)

lemma RecordWebhook_cases:
  obtains (same) r where "RecordWebhook J E provider event ph t db = (r, db)" "r \<noteq> Inr True"
      "r = Inr False \<Longrightarrow> (provider, we_DeliveryID event) \<in> delivery_key ` set (webhook_deliveries db)"
  | (recorded) d ob where "RecordWebhook J E provider event ph t db = (Inr True,
        db\<lparr>webhook_deliveries := webhook_deliveries db @ [d], outbox_events := outbox_events db @ [ob]\<rparr>)"
      "delivery_key d = (provider, we_DeliveryID event)" "(provider, we_DeliveryID event) \<notin> delivery_key ` set (webhook_deliveries db)"
      "dlv_EventType d = we_EventType event" "dlv_PayloadSHA256 d = ph" "dlv_ReceivedAt d = t"
      "dlv_ID d \<notin> dlv_ID ` set (webhook_deliveries db)" "obx_ID ob \<notin> obx_ID ` set (outbox_events db)" "announces J d ob"
proof (cases "fst (RecordWebhook J E provider event ph t db) = Inr True")
  case False
  then have "snd (RecordWebhook J E provider event ph t db) = db"
    by (metis RecordWebhook_unchanged prod.collapse)
  moreover have "(provider, we_DeliveryID event) \<in> delivery_key ` set (webhook_deliveries db)"
    if "fst (RecordWebhook J E provider event ph t db) = Inr False"
    using that
    by (auto simp: RecordWebhook_def list_ex_iff delivery_key_def image_iff split: sum.splits option.splits if_splits)
  ultimately show ?thesis using False by (intro same [of "fst (RecordWebhook J E provider event ph t db)"]) (auto simp: prod_eq_iff)
next
  case True
  then obtain m i j p where parts: "marshal_metadata J (we_Normalized event) = Inr m" "newID E 0 = Some i"
      "\<not> list_ex (\<lambda>d. dlv_Provider d = provider \<and> dlv_DeliveryID d = we_DeliveryID event) (webhook_deliveries db)"
      "i \<notin> dlv_ID ` set (webhook_deliveries db)" "marshal_outbox J provider event = Inr p" "newID E 1 = Some j"
      "j \<notin> obx_ID ` set (outbox_events db)" "\<not> fails E 0" "\<not> fails E 1" "\<not> fails E 3" "\<not> fails E 4"
    by (auto simp: RecordWebhook_def split: sum.splits option.splits if_splits)
  let ?d = "\<lparr>dlv_ID = i, dlv_Provider = provider, dlv_DeliveryID = we_DeliveryID event, dlv_EventType = we_EventType event,
    dlv_PayloadSHA256 = ph, dlv_Normalized = m, dlv_ReceivedAt = t\<rparr>"
  let ?ob = "\<lparr>obx_ID = j, obx_Topic = ''scm.webhook.'' @ provider, obx_Payload = p, obx_State = ''pending'', obx_Attempts = 0,
    obx_AvailableAt = t, obx_CreatedAt = t, obx_UpdatedAt = t\<rparr>"
  have "RecordWebhook J E provider event ph t db = (Inr True,
      db\<lparr>webhook_deliveries := webhook_deliveries db @ [?d], outbox_events := outbox_events db @ [?ob]\<rparr>)"
    using parts by (simp add: RecordWebhook_def)
  moreover have "(provider, we_DeliveryID event) \<notin> delivery_key ` set (webhook_deliveries db)"
    using parts(3) by (auto simp: list_ex_iff delivery_key_def)
  moreover have "announces J ?d ?ob"
    unfolding announces_def using parts(1,5) by (auto intro!: exI [of _ event])
  ultimately show ?thesis
    using parts(4,7) by (intro recorded) (simp_all add: delivery_key_def)
qed

lemma RecordWebhook_wf:
  assumes "scm_wf J db"
  shows "scm_wf J (snd (RecordWebhook J E provider event ph t db))"
proof (cases rule: RecordWebhook_cases [of J E provider event ph t db])
  case same
  with assms show ?thesis by simp
next
  case (recorded d ob)
  from assms obtain obs where obs: "subseq obs (outbox_events db)" "list_all2 (announces J) (webhook_deliveries db) obs"
    by (auto simp: scm_wf_def)
  have "subseq (obs @ [ob]) (outbox_events db @ [ob])"
    using obs(1) by (intro list_emb_append_mono) auto
  moreover have "list_all2 (announces J) (webhook_deliveries db @ [d]) (obs @ [ob])"
    using obs(2) recorded(9) by (simp add: list_all2_appendI)
  moreover have "obx_State ob = ''pending''" using recorded(9) by (simp add: announces_def)
  ultimately show ?thesis
    using assms recorded by (auto simp: scm_wf_def)
qed

lemmas scm_store_wf = CreateFlow_wf ConsumeFlow_wf UpsertConnection_wf RecordWebhook_wf

section \<open>Properties of the store\<close>

text \<open>
  C17. Synchronisation replaces exactly one snapshot. When \<open>UpsertConnection\<close> succeeds, the enabled repositories of its connection are exactly
  those the provider returned, described as the provider described them (visibility normalised, the last entry winning for a repeated identifier);
  the enabled repositories of every other connection are untouched; and every row that existed keeps its identifier, connection, provider identifier
  and creation time, so that tasks that refer to it stay attached.
\<close>

theorem snapshot_refined:
  assumes "UpsertConnection J E actorID remote ciphertext rs syncedAt db = (Inr conn, db')"
  shows "enabled_view (repositories db') = (enabled_view (repositories db))(con_ID conn := snapshot J syncedAt rs) \<and>
    (\<exists>new. map row_identity (repositories db') = map row_identity (repositories db) @ new)"
proof -
  from assms obtain i conns rows and row :: ConnectionRow where up:
      "upsert_repositories J E (con_ID row) syncedAt 0 rs (switched_off (con_ID row) syncedAt (repositories db)) = Inr rows"
    and conn: "conn = Connection.truncate row" and db': "db' = db\<lparr>scm_connections := conns, repositories := rows\<rparr>"
    by (elim UpsertConnection_success)
  have "con_ID conn = con_ID row" by (simp add: conn Connection.defs)
  with upsert_repositories_view [OF up] upsert_repositories_identity [OF up] show ?thesis
    by (simp add: db' switched_off_view switched_off_identity)
qed

definition sample_codec :: scm_codec where
  "sample_codec = \<lparr>marshal_metadata = (\<lambda>_. Inr ''{}''), unmarshal_metadata = (\<lambda>_. Inr Map.empty),
     marshal_outbox = (\<lambda>p event. Inr (p @ we_DeliveryID event)),
     marshal_credential = (\<lambda>c. Inr (map (\<lambda>x. of_nat (of_char x)) (cred_AccessToken c))),
     unmarshal_credential = (\<lambda>bs. Inr \<lparr>cred_AccessToken = map (\<lambda>b. char_of (unat b)) bs, cred_RefreshToken = [], cred_ExpiresAt = 0\<rparr>),
     collate = (\<lambda>s. s)\<rparr>"

definition sample_scm_env :: "time \<Rightarrow> env" where
  "sample_scm_env t = quiet_env t (\<lambda>n. Some (\<lambda>k. of_nat (n + k)))"

definition sample_remote :: "string \<Rightarrow> string \<Rightarrow> RemoteRepository" where
  "sample_remote i name = \<lparr>rem_ProviderRepositoryID = i, rem_FullName = name, rem_CloneURL = [], rem_WebURL = [], rem_DefaultBranch = ''main'',
     rem_Visibility = ''secret'', rem_Archived = False, rem_Metadata = Map.empty\<rparr>"

definition sample_account :: RemoteConnection where
  "sample_account = \<lparr>rc_Provider = ProviderGitHub, rc_Name = ''octo'', rc_ExternalAccountID = ''7'', rc_BaseURL = []\<rparr>"

definition empty_scm :: scm_db where
  "empty_scm = \<lparr>scm_connections = [], repositories = [], scm_oauth_flows = [], webhook_deliveries = [], outbox_events = []\<rparr>"

text \<open>One state with two enabled repositories, and the synchronisation that follows, in which one of them is gone.\<close>

definition sample_synced :: scm_db where
  "sample_synced = snd (UpsertConnection sample_codec (sample_scm_env 1) ''admin'' sample_account None
     [sample_remote ''1'' ''o/a'', sample_remote ''2'' ''o/b''] 1 empty_scm)"

theorem snapshot_refined_witness:
  "\<exists>conn db'. UpsertConnection sample_codec (sample_scm_env 2) ''admin'' sample_account None [sample_remote ''2'' ''o/b'', sample_remote ''2'' ''o/c''] 2
      sample_synced = (Inr conn, db') \<and>
    enabled_view (repositories db') (con_ID conn) ''1'' = None \<and>
    enabled_view (repositories db') (con_ID conn) ''2'' = Some (''o/c'', [], [], ''main'', ''private'', False, ''{}'', 2)"
proof -
  let ?run = "UpsertConnection sample_codec (sample_scm_env 2) ''admin'' sample_account None [sample_remote ''2'' ''o/b'', sample_remote ''2'' ''o/c''] 2
      sample_synced"
  have "\<not> isl (fst ?run)" by code_simp
  then have run: "?run = (Inr (projr (fst ?run)), snd ?run)" by (rule outcome_Inr)
  have snap: "snapshot sample_codec 2 [sample_remote ''2'' ''o/b'', sample_remote ''2'' ''o/c''] ''1'' = None"
    "snapshot sample_codec 2 [sample_remote ''2'' ''o/b'', sample_remote ''2'' ''o/c''] ''2'' =
      Some (''o/c'', [], [], ''main'', ''private'', False, ''{}'', 2)"
    by code_simp+
  show ?thesis
    using run snap snapshot_refined [OF run] by (intro exI [of _ "projr (fst ?run)"] exI [of _ "snd ?run"]) simp
qed

text \<open>
  C30. A delivery is recorded once, together with its outbox event. A successful \<open>RecordWebhook\<close> answers \<open>true\<close> exactly when the provider's
  delivery identifier was not yet in the table; then one row is added with one pending outbox event that announces it, in the same transaction.
  Otherwise, and on every error, nothing changes; and the tables keep their keys and every delivery keeps its own outbox event.
\<close>

theorem webhook_recorded_once:
  assumes "scm_wf J db" and "RecordWebhook J E provider event payloadHash receivedAt db = (r, db')"
  shows "scm_wf J db' \<and>
    (\<forall>b. r = Inr b \<longrightarrow> (b \<longleftrightarrow> (provider, we_DeliveryID event) \<notin> delivery_key ` set (webhook_deliveries db)) \<and>
       (provider, we_DeliveryID event) \<in> delivery_key ` set (webhook_deliveries db')) \<and>
    (if r = Inr True then \<exists>d ob. webhook_deliveries db' = webhook_deliveries db @ [d] \<and> outbox_events db' = outbox_events db @ [ob] \<and>
       dlv_PayloadSHA256 d = payloadHash \<and> announces J d ob
     else db' = db)"
proof -
  have "scm_wf J db'"
    using RecordWebhook_wf [OF assms(1), of E provider event payloadHash receivedAt] assms(2) by simp
  then show ?thesis
    using assms(2) by (cases rule: RecordWebhook_cases [of J E provider event payloadHash receivedAt db]) force+
qed

definition sample_event :: "string \<Rightarrow> WebhookEvent" where
  "sample_event i = \<lparr>we_DeliveryID = i, we_EventType = ''push'', we_Normalized = Map.empty\<rparr>"

lemma empty_scm_wf: "scm_wf J empty_scm"
  by (simp add: scm_wf_def empty_scm_def repositories_wf_def)

theorem webhook_recorded_once_witness:
  "\<exists>d ob db'. RecordWebhook sample_codec (sample_scm_env 3) ProviderGitHub (sample_event ''d1'') [1] 3 empty_scm = (Inr True, db') \<and>
    webhook_deliveries db' = [d] \<and> outbox_events db' = [ob] \<and> announces sample_codec d ob"
proof -
  let ?run = "RecordWebhook sample_codec (sample_scm_env 3) ProviderGitHub (sample_event ''d1'') [1] 3 empty_scm"
  have "fst ?run = Inr True" by code_simp
  then have run: "?run = (Inr True, snd ?run)" by (simp add: prod_eq_iff)
  have "webhook_deliveries empty_scm = []" "outbox_events empty_scm = []" by (simp_all add: empty_scm_def)
  then show ?thesis
    using run webhook_recorded_once [OF empty_scm_wf run] by auto
qed

end
