(* ===== verification/Diagnosis_Logs.thy ===== *)
theory Diagnosis_Logs
  imports Go_Strings
begin

text \<open>
  Redaction and chunking of CI logs (\<open>RedactAndChunkLogs\<close> and \<open>redact\<close> of \<open>src/server/internal/diagnosis/types.go\<close>).

  \<^item> The two regular expressions are translated to matchers at a position. Their parts are disjoint classes, so the leftmost-first search of
    Go's \<open>regexp\<close> takes the longest run of each class; where the last class of \<open>sk-[A-Za-z0-9_-]+\<close> runs past the last word boundary it
    gives characters back, which \<open>known_length\<close> writes out.
  \<^item> The loop over the lines is a fold of \<open>chunk_line\<close>; the inner loop over an oversized line is \<open>split_long\<close>, which ends because each turn
    takes \<open>chunkSize > 0\<close> bytes off the line.
\<close>

section \<open>Library functions\<close>

text \<open>\<open>strings.ReplaceAll\<close> for a non-empty \<open>old\<close>, the only way the sources call it.\<close>

function ReplaceAll :: "string \<Rightarrow> string \<Rightarrow> string \<Rightarrow> string" where
  "ReplaceAll s old new =
    (if old = [] then s
     else if prefix old s then new @ ReplaceAll (drop (length old) s) old new
     else case s of [] \<Rightarrow> [] | c # t \<Rightarrow> c # ReplaceAll t old new)"
  by pat_completeness auto
termination
  by (relation "measure (\<lambda>(s, old, new). length s)") (auto simp: prefix_def)

declare ReplaceAll.simps [simp del]

text \<open>The width in bytes of the UTF-8 encoding a string begins with, and \<open>utf8.ValidString\<close>.\<close>

definition byte :: "char \<Rightarrow> nat" where
  "byte c = of_char c"

definition continuation :: "char \<Rightarrow> bool" where
  "continuation c \<longleftrightarrow> 128 \<le> byte c \<and> byte c < 192"

fun rune_width :: "string \<Rightarrow> nat" where
  "rune_width [] = 0"
| "rune_width (a # s) =
    (if byte a < 128 then 1
     else if 194 \<le> byte a \<and> byte a < 224 then
       (case s of b # _ \<Rightarrow> if continuation b then 2 else 0 | _ \<Rightarrow> 0)
     else if 224 \<le> byte a \<and> byte a < 240 then
       (case s of b # c # _ \<Rightarrow>
          if continuation b \<and> continuation c \<and> (byte a = 224 \<longrightarrow> 160 \<le> byte b) \<and> (byte a = 237 \<longrightarrow> byte b < 160) then 3 else 0
        | _ \<Rightarrow> 0)
     else if 240 \<le> byte a \<and> byte a < 245 then
       (case s of b # c # d # _ \<Rightarrow>
          if continuation b \<and> continuation c \<and> continuation d \<and> (byte a = 240 \<longrightarrow> 144 \<le> byte b) \<and> (byte a = 244 \<longrightarrow> byte b < 144)
          then 4 else 0
        | _ \<Rightarrow> 0)
     else 0)"

function ValidString :: "string \<Rightarrow> bool" where
  "ValidString s = (if s = [] then True else if rune_width s = 0 then False else ValidString (drop (rune_width s) s))"
  by pat_completeness auto
termination
  by (relation "measure length") auto

declare ValidString.simps [simp del]

section \<open>Redaction (types.go)\<close>

definition is_word :: "char \<Rightarrow> bool" where
  "is_word c \<longleftrightarrow> (48 \<le> byte c \<and> byte c \<le> 57) \<or> (65 \<le> byte c \<and> byte c \<le> 90) \<or> (97 \<le> byte c \<and> byte c \<le> 122) \<or> c = CHR ''_''"

definition is_space :: "char \<Rightarrow> bool" where
  "is_space c \<longleftrightarrow> c \<in> set [CHR 0x09, CHR 0x0A, CHR 0x0C, CHR 0x0D, CHR 0x20]"

definition redacted :: string where
  "redacted = ''[REDACTED]''"

text \<open>
  \<open>assignmentSecret\<close>. A lower-case literal under \<open>(?i)\<close> also matches the upper-case letters, the long s (C5 BF) and the Kelvin sign (E2 84 AA).
  \<open>assignment_at\<close> gives the length of the keyword (the group \<open>$1\<close>) and of the whole match.
\<close>

fun fold_literal :: "string \<Rightarrow> string \<Rightarrow> nat option" where
  "fold_literal [] s = Some 0"
| "fold_literal (l # ls) s =
    (if s \<noteq> [] \<and> ascii_lower (hd s) = l then map_option Suc (fold_literal ls (tl s))
     else if l = CHR ''s'' \<and> prefix [CHR 0xC5, CHR 0xBF] s then map_option ((+) 2) (fold_literal ls (drop 2 s))
     else if l = CHR ''k'' \<and> prefix [CHR 0xE2, CHR 0x84, CHR 0xAA] s then map_option ((+) 3) (fold_literal ls (drop 3 s))
     else None)"

definition api_key :: "string \<Rightarrow> nat option" where
  "api_key s =
    (case fold_literal ''api'' s of
       None \<Rightarrow> None
     | Some i \<Rightarrow>
         let k = (case drop i s of c # _ \<Rightarrow> if c = CHR ''_'' \<or> c = CHR ''-'' then i + 1 else i | [] \<Rightarrow> i)
         in map_option ((+) k) (fold_literal ''key'' (drop k s)))"

definition keyword :: "string \<Rightarrow> nat option" where
  "keyword s =
    (case List.map_filter (\<lambda>w. fold_literal w s) [''token'', ''secret'', ''password'', ''authorization''] of
       n # _ \<Rightarrow> Some n
     | [] \<Rightarrow> api_key s)"

definition assignment_at :: "string \<Rightarrow> (nat \<times> nat) option" where
  "assignment_at s =
    (case keyword s of
       None \<Rightarrow> None
     | Some k \<Rightarrow>
         let i = k + length (takeWhile is_space (drop k s))
         in (case drop i s of
           [] \<Rightarrow> None
         | c # t \<Rightarrow>
             if c \<noteq> CHR '':'' \<and> c \<noteq> CHR ''='' then None
             else
               let j = i + 1 + length (takeWhile is_space t);
                 n = length (takeWhile (\<lambda>c. \<not> is_space c \<and> c \<noteq> CHR '','' \<and> c \<noteq> CHR '';'') (drop j s))
               in if n = 0 then None else Some (k, j + n)))"

lemma assignment_at_positive: "assignment_at s = Some (k, n) \<Longrightarrow> 0 < n"
  by (auto simp: assignment_at_def Let_def split: option.splits list.splits if_splits)

function redact_assignments :: "string \<Rightarrow> string" where
  "redact_assignments s =
    (case s of
       [] \<Rightarrow> []
     | c # t \<Rightarrow>
         (case assignment_at s of
            Some (k, n) \<Rightarrow> take k s @ ''='' @ redacted @ redact_assignments (drop n s)
          | None \<Rightarrow> c # redact_assignments t))"
  by pat_completeness auto
termination
  by (relation "measure length") (auto dest: assignment_at_positive)

declare redact_assignments.simps [simp del]

text \<open>
  \<open>knownToken\<close>: the length of the token a string begins with. \<open>redact_tokens\<close> carries whether the character before is a word character,
  which decides the word boundary the expression begins with.
\<close>

definition known_length :: "string \<Rightarrow> nat option" where
  "known_length s =
    (if take 2 s = ''gh'' \<and> (case drop 2 s of c # d # w # _ \<Rightarrow> c \<in> set ''pousr'' \<and> d = CHR ''_'' \<and> is_word w | _ \<Rightarrow> False)
     then Some (4 + length (takeWhile is_word (drop 4 s)))
     else if take 11 s = ''github_pat_'' \<and> (case drop 11 s of w # _ \<Rightarrow> is_word w | _ \<Rightarrow> False)
     then Some (11 + length (takeWhile is_word (drop 11 s)))
     else
       let run = takeWhile (\<lambda>c. is_word c \<or> c = CHR ''-'') (drop 3 s);
         body = rev (dropWhile (\<lambda>c. c = CHR ''-'') (rev run))
       in if take 3 s = ''sk-'' \<and> body \<noteq> [] then Some (3 + length body) else None)"

lemma known_length_positive: "known_length s = Some n \<Longrightarrow> 0 < n"
  by (auto simp: known_length_def Let_def split: if_splits)

function redact_tokens :: "bool \<Rightarrow> string \<Rightarrow> string" where
  "redact_tokens inside s =
    (case s of
       [] \<Rightarrow> []
     | c # t \<Rightarrow>
         (case (if inside then None else known_length s) of
            Some n \<Rightarrow> redacted @ redact_tokens True (drop n s)
          | None \<Rightarrow> c # redact_tokens (is_word c) t))"
  by pat_completeness auto
termination
  by (relation "measure (\<lambda>(inside, s). length s)") (auto dest: known_length_positive split: if_splits)

declare redact_tokens.simps [simp del]

definition redact_patterns :: "string list \<Rightarrow> string \<Rightarrow> string" where
  "redact_patterns patterns s = fold (\<lambda>p v. if \<not> blank p then ReplaceAll v p redacted else v) patterns s"

definition redact :: "string list \<Rightarrow> string \<Rightarrow> string" where
  "redact patterns s = redact_tokens False (redact_assignments (redact_patterns patterns s))"

section \<open>Chunking (types.go)\<close>

datatype logs_error = ErrBinaryLogs | ErrLogsTooLarge

definition MaxLogBytes :: int where
  "MaxLogBytes = 8388608"

definition DefaultChunkSize :: int where
  "DefaultChunkSize = 32768"

record LogChunk =
  ch_Source :: string
  ch_StartLine :: int
  ch_EndLine :: int
  ch_Text :: string

record chunker =
  chunks :: "LogChunk list"
  current :: string
  startLine :: int
  lineNumber :: int

definition flush :: "int \<Rightarrow> chunker \<Rightarrow> chunker" where
  "flush endLine st =
    (if current st = [] then st
     else st\<lparr>chunks := chunks st @ [\<lparr>ch_Source = ''workflow.log'', ch_StartLine = startLine st, ch_EndLine = endLine, ch_Text = current st\<rparr>],
       current := [], startLine := endLine + 1\<rparr>)"

definition write_string :: "string \<Rightarrow> chunker \<Rightarrow> chunker" where
  "write_string s st =
    (let st1 = (if current st = [] then st\<lparr>startLine := lineNumber st\<rparr> else st) in st1\<lparr>current := current st1 @ s\<rparr>)"

text \<open>The loop over an oversized line, for \<open>chunkSize > 0\<close>; what is left of the line, and the state.\<close>

function split_long :: "int \<Rightarrow> string \<Rightarrow> chunker \<Rightarrow> string \<times> chunker" where
  "split_long chunkSize candidate st =
    (if 0 < chunkSize \<and> chunkSize < int (length candidate)
     then split_long chunkSize (drop (nat chunkSize) candidate) (flush (lineNumber st) (write_string (take (nat chunkSize) candidate) st))
     else (candidate, st))"
  by pat_completeness auto
termination
  by (relation "measure (\<lambda>(n, candidate, st). length candidate)") auto

declare split_long.simps [simp del]

definition chunk_line :: "int \<Rightarrow> string \<Rightarrow> chunker \<Rightarrow> chunker" where
  "chunk_line chunkSize line st =
    (let candidate = (if current st \<noteq> [] then CHR 0x0A # line else line);
       (candidate1, st1) = (if current st \<noteq> [] \<and> int (length (current st)) + int (length candidate) > chunkSize
         then (line, flush (lineNumber st - 1) st) else (candidate, st));
       (candidate2, st2) = split_long chunkSize candidate1 st1;
       st3 = (if candidate2 \<noteq> [] then write_string candidate2 st2 else st2)
     in st3\<lparr>lineNumber := lineNumber st3 + 1\<rparr>)"

definition log_lines :: "string list \<Rightarrow> string \<Rightarrow> string list" where
  "log_lines patterns logs = Split (ReplaceAll (redact patterns logs) [CHR 0x0D, CHR 0x0A] [CHR 0x0A]) (CHR 0x0A)"

definition effective_size :: "int \<Rightarrow> int" where
  "effective_size chunkSize = (if chunkSize \<le> 0 \<or> chunkSize > MaxLogBytes then DefaultChunkSize else chunkSize)"

definition chunk_lines :: "int \<Rightarrow> string list \<Rightarrow> LogChunk list" where
  "chunk_lines chunkSize ls =
    (let st = fold (chunk_line chunkSize) ls \<lparr>chunks = [], current = [], startLine = 1, lineNumber = 1\<rparr>
     in chunks (flush (lineNumber st - 1) st))"

definition RedactAndChunkLogs :: "string \<Rightarrow> string list \<Rightarrow> int \<Rightarrow> logs_error + LogChunk list" where
  "RedactAndChunkLogs logs patterns chunkSize =
    (if int (length logs) > MaxLogBytes then Inl ErrLogsTooLarge
     else if \<not> ValidString logs \<or> CHR 0x00 \<in> set logs then Inl ErrBinaryLogs
     else Inr (chunk_lines (effective_size chunkSize) (log_lines patterns logs)))"


section \<open>What the chunker keeps\<close>

text \<open>The text of the source lines \<open>a\<close> to \<open>b\<close>, counted from one.\<close>

definition source_lines :: "string list \<Rightarrow> int \<Rightarrow> int \<Rightarrow> string" where
  "source_lines ls a b = Join (drop (nat a - 1) (take (nat b) ls)) [CHR 0x0A]"

definition chunk_ok :: "nat \<Rightarrow> string list \<Rightarrow> LogChunk \<Rightarrow> bool" where
  "chunk_ok n ls ch \<longleftrightarrow> ch_Text ch \<noteq> [] \<and> length (ch_Text ch) \<le> n \<and> 1 \<le> ch_StartLine ch \<and> ch_StartLine ch \<le> ch_EndLine ch \<and>
     ch_EndLine ch \<le> int (length ls) \<and> sublist (ch_Text ch) (source_lines ls (ch_StartLine ch) (ch_EndLine ch))"

definition in_order :: "LogChunk list \<Rightarrow> bool" where
  "in_order chs \<longleftrightarrow> sorted_wrt (\<lambda>a b. ch_EndLine a \<le> ch_StartLine b) chs"

text \<open>The state after the first \<open>k\<close> lines.\<close>

definition chunker_ok :: "nat \<Rightarrow> string list \<Rightarrow> nat \<Rightarrow> chunker \<Rightarrow> bool" where
  "chunker_ok n ls k st \<longleftrightarrow> lineNumber st = int k + 1 \<and> (\<forall>ch \<in> set (chunks st). chunk_ok n ls ch) \<and> in_order (chunks st) \<and>
     length (current st) \<le> n \<and>
     (\<forall>ch \<in> set (chunks st). ch_EndLine ch \<le> (if current st = [] then int k else startLine st)) \<and>
     (current st \<noteq> [] \<longrightarrow> 1 \<le> startLine st \<and> startLine st \<le> int k \<and> suffix (current st) (source_lines ls (startLine st) (int k)))"

lemma Join_snoc: "ss \<noteq> [] \<Longrightarrow> Join (ss @ [s]) sep = Join ss sep @ sep @ s"
  by (induction ss sep rule: Join.induct) auto

lemma source_lines_Suc:
  assumes "1 \<le> a" "a \<le> int k" "k < length ls"
  shows "source_lines ls a (int (Suc k)) = source_lines ls a (int k) @ CHR 0x0A # ls ! k"
proof -
  have "drop (nat a - 1) (take k ls) \<noteq> []" using assms by auto
  moreover have "drop (nat a - 1) (take (Suc k) ls) = drop (nat a - 1) (take k ls) @ [ls ! k]"
    using assms by (simp add: take_Suc_conv_app_nth)
  moreover have "nat (int (Suc k)) = Suc k" by (rule nat_int)
  ultimately show ?thesis by (simp add: source_lines_def Join_snoc)
qed

lemma source_line: "k < length ls \<Longrightarrow> source_lines ls (int (Suc k)) (int (Suc k)) = ls ! k"
  by (simp add: source_lines_def take_Suc_conv_app_nth del: of_nat_Suc)

lemma in_order_snoc: "in_order chs \<Longrightarrow> (\<forall>c \<in> set chs. ch_EndLine c \<le> ch_StartLine ch) \<Longrightarrow> in_order (chs @ [ch])"
  by (auto simp: in_order_def sorted_wrt_append)

lemma flush_ok:
  assumes "chunker_ok n ls k st" "k \<le> length ls"
  shows "chunker_ok n ls k (flush (int k) st) \<and> current (flush (int k) st) = []"
  using assms
  by (auto simp: chunker_ok_def flush_def chunk_ok_def suffix_imp_sublist intro!: in_order_snoc)

text \<open>One line from an empty builder: whole pieces are flushed, the rest is carried over.\<close>

definition line_ok :: "nat \<Rightarrow> string list \<Rightarrow> nat \<Rightarrow> string \<Rightarrow> chunker \<Rightarrow> bool" where
  "line_ok n ls k rest st \<longleftrightarrow> lineNumber st = int k + 1 \<and> (\<forall>ch \<in> set (chunks st). chunk_ok n ls ch) \<and> in_order (chunks st) \<and> current st = [] \<and>
     (\<forall>ch \<in> set (chunks st). ch_EndLine ch \<le> int k + 1) \<and> suffix rest (ls ! k)"

lemma split_long_ok:
  assumes "line_ok n ls k rest st" "k < length ls" "0 < n" "split_long (int n) rest st = (rest', st')"
  shows "line_ok n ls k rest' st' \<and> length rest' \<le> n"
  using assms
proof (induction "int n" rest st rule: split_long.induct)
  case (1 rest st)
  show ?case
  proof (cases "n < length rest")
    case False
    with 1 show ?thesis by (simp add: split_long.simps [of "int n" rest st])
  next
    case True
    let ?ch = "\<lparr>ch_Source = ''workflow.log'', ch_StartLine = int k + 1, ch_EndLine = int k + 1, ch_Text = take n rest\<rparr>"
    let ?st = "flush (lineNumber st) (write_string (take n rest) st)"
    have piece: "take n rest \<noteq> []" using True \<open>0 < n\<close> by auto
    have "sublist (take n rest) (ls ! k)"
      using 1(2) by (meson line_ok_def sublist_order.order_trans sublist_take suffix_imp_sublist)
    then have "chunk_ok n ls ?ch"
      using source_line [of k ls] \<open>k < length ls\<close> piece by (simp add: chunk_ok_def add.commute)
    moreover have "suffix (drop n rest) (ls ! k)"
      using 1(2) by (meson line_ok_def suffix_drop suffix_order.trans)
    moreover have "in_order (chunks st @ [?ch])" using 1(2) by (intro in_order_snoc) (auto simp: line_ok_def)
    ultimately have "line_ok n ls k (drop n rest) ?st"
      using 1(2) piece by (auto simp: line_ok_def flush_def write_string_def)
    moreover have "split_long (int n) (drop n rest) ?st = (rest', st')"
      using 1(5) True \<open>0 < n\<close> by (simp add: split_long.simps [of "int n" rest st])
    ultimately show ?thesis using 1(1) \<open>0 < n\<close> True \<open>k < length ls\<close> by simp
  qed
qed

lemma chunk_line_ok:
  assumes "chunker_ok n ls k st" "k < length ls" "0 < n" "CHR 0x0A \<notin> set (ls ! k)"
  shows "chunker_ok n ls (Suc k) (chunk_line (int n) (ls ! k) st)"
proof (cases "current st \<noteq> [] \<and> length (current st) + length (ls ! k) < n")
  case True
  then have "split_long (int n) (CHR 0x0A # ls ! k) st = (CHR 0x0A # ls ! k, st)" by (simp add: split_long.simps)
  then have step: "chunk_line (int n) (ls ! k) st = st\<lparr>current := current st @ CHR 0x0A # ls ! k, lineNumber := lineNumber st + 1\<rparr>"
    using True by (simp add: chunk_line_def write_string_def)
  have "suffix (current st @ CHR 0x0A # ls ! k) (source_lines ls (startLine st) (int (Suc k)))"
    using assms(1,2) True source_lines_Suc [of "startLine st" k ls] by (simp add: chunker_ok_def)
  with assms True step show ?thesis
    by (auto simp: chunker_ok_def take_Suc_conv_app_nth)
next
  case False
  let ?st = "flush (lineNumber st - 1) st"
  have "lineNumber st - 1 = int k" using assms(1) by (simp add: chunker_ok_def)
  with flush_ok [OF assms(1)] assms(2) have ok: "chunker_ok n ls k ?st" "current ?st = []" by auto
  then have "line_ok n ls k (ls ! k) ?st"
    using assms(2) by (fastforce simp: chunker_ok_def line_ok_def take_Suc_conv_app_nth)
  moreover obtain rest st' where sp: "split_long (int n) (ls ! k) ?st = (rest, st')" by fastforce
  ultimately have fin: "line_ok n ls k rest st'" "length rest \<le> n" using split_long_ok assms(2,3) by blast+
  have "(if current st \<noteq> [] \<and> int (length (current st)) + int (length (if current st \<noteq> [] then CHR 0x0A # ls ! k else ls ! k)) > int n
      then (ls ! k, ?st) else (if current st \<noteq> [] then CHR 0x0A # ls ! k else ls ! k, st)) = (ls ! k, ?st)"
    using False by (auto simp: flush_def)
  then have step: "chunk_line (int n) (ls ! k) st =
      (if rest \<noteq> [] then st'\<lparr>startLine := lineNumber st', current := rest, lineNumber := lineNumber st' + 1\<rparr>
       else st'\<lparr>lineNumber := lineNumber st' + 1\<rparr>)"
    using sp fin(1) by (simp add: chunk_line_def write_string_def line_ok_def)
  show ?thesis
    using fin source_line [OF assms(2)] unfolding step by (auto simp: chunker_ok_def line_ok_def add.commute)
qed

lemma fold_chunk_ok:
  assumes "0 < n" "\<forall>l \<in> set ls. CHR 0x0A \<notin> set l" "k \<le> length ls"
  shows "chunker_ok n ls k (fold (chunk_line (int n)) (take k ls) \<lparr>chunks = [], current = [], startLine = 1, lineNumber = 1\<rparr>)"
  using assms(3)
proof (induction k)
  case 0
  then show ?case by (simp add: chunker_ok_def in_order_def)
next
  case (Suc k)
  then show ?case
    using chunk_line_ok [of n ls k] assms(1,2) by (simp add: take_Suc_conv_app_nth)
qed

lemma chunk_lines_ok:
  assumes "0 < n" "\<forall>l \<in> set ls. CHR 0x0A \<notin> set l"
  shows "(\<forall>ch \<in> set (chunk_lines (int n) ls). chunk_ok n ls ch) \<and> in_order (chunk_lines (int n) ls)"
proof -
  let ?st = "fold (chunk_line (int n)) ls \<lparr>chunks = [], current = [], startLine = 1, lineNumber = 1\<rparr>"
  have "chunker_ok n ls (length ls) ?st" using fold_chunk_ok [OF assms, of "length ls"] by simp
  moreover from this have "lineNumber ?st - 1 = int (length ls)" by (simp add: chunker_ok_def)
  ultimately have "chunker_ok n ls (length ls) (flush (lineNumber ?st - 1) ?st)" "current (flush (lineNumber ?st - 1) ?st) = []"
    using flush_ok by auto
  then show ?thesis by (simp add: chunk_lines_def Let_def chunker_ok_def)
qed

text \<open>
  The chunks cover a text: in their order they are consecutive pieces of it, with nothing but line breaks before, between and after them. \<open>covers\<close> is that
  for a state of the chunker, whose open chunk is the last piece.
\<close>

definition breaks_only :: "string list \<Rightarrow> bool" where
  "breaks_only gaps \<longleftrightarrow> (\<forall>gap \<in> set gaps. set gap \<subseteq> {CHR 0x0A})"

definition lay_out :: "string list \<Rightarrow> LogChunk list \<Rightarrow> string" where
  "lay_out gaps chs = concat (map2 (\<lambda>gap ch. gap @ ch_Text ch) gaps chs)"

definition covers :: "chunker \<Rightarrow> string \<Rightarrow> bool" where
  "covers st s \<longleftrightarrow> (\<exists>gaps gap. length gaps = length (chunks st) \<and> breaks_only (gap # gaps) \<and> s = lay_out gaps (chunks st) @ gap @ current st)"

lemma covers_write: "covers st s \<Longrightarrow> covers (write_string x st) (s @ x)"
  by (auto simp: covers_def write_string_def Let_def)

lemma covers_flush:
  assumes "covers st s"
  shows "covers (flush e st) s"
proof (cases "current st = []")
  case False
  from assms obtain gaps gap where g: "length gaps = length (chunks st)" "breaks_only (gap # gaps)" "s = lay_out gaps (chunks st) @ gap @ current st"
    by (auto simp: covers_def)
  show ?thesis
    unfolding covers_def
  proof (intro exI conjI)
    show "length (gaps @ [gap]) = length (chunks (flush e st))" using g(1) False by (simp add: flush_def)
    show "breaks_only ([] # gaps @ [gap])" using g(2) by (auto simp: breaks_only_def)
    show "s = lay_out (gaps @ [gap]) (chunks (flush e st)) @ [] @ current (flush e st)" using g False by (simp add: flush_def lay_out_def)
  qed
qed (use assms in \<open>simp add: flush_def\<close>)

lemma covers_newline:
  assumes "covers st s" "current st = []"
  shows "covers st (s @ [CHR 0x0A])"
proof -
  from assms obtain gaps gap where "length gaps = length (chunks st)" "breaks_only (gap # gaps)" "s = lay_out gaps (chunks st) @ gap"
    by (auto simp: covers_def)
  then show ?thesis using assms(2) unfolding covers_def by (intro exI [of _ gaps] exI [of _ "gap @ [CHR 0x0A]"]) (auto simp: breaks_only_def)
qed

lemma covers_line_number [simp]: "covers (st\<lparr>lineNumber := l\<rparr>) s = covers st s"
  by (simp add: covers_def)

lemma covers_split: "covers st s \<Longrightarrow> split_long n candidate st = (rest, st') \<Longrightarrow> \<exists>x. candidate = x @ rest \<and> covers st' (s @ x)"
proof (induction n candidate st arbitrary: s rule: split_long.induct)
  case (1 n candidate st)
  show ?case
  proof (cases "0 < n \<and> n < int (length candidate)")
    case True
    let ?piece = "take (nat n) candidate"
    have "split_long n (drop (nat n) candidate) (flush (lineNumber st) (write_string ?piece st)) = (rest, st')"
      using "1.prems"(2) True by (simp add: split_long.simps [of n candidate st])
    from "1.IH" [OF True covers_flush [OF covers_write [OF "1.prems"(1)]] this] obtain x where
      "drop (nat n) candidate = x @ rest" "covers st' ((s @ ?piece) @ x)" by blast
    then show ?thesis by (intro exI [of _ "?piece @ x"]) (metis append_assoc append_take_drop_id)
  next
    case False
    with "1.prems" show ?thesis by (simp add: split_long.simps [of n candidate st])
  qed
qed

text \<open>A line, and the line break before it unless the builder is empty.\<close>

lemma covers_candidate:
  assumes "covers st s" "split_long n candidate st = (rest, st')"
  shows "covers (if rest \<noteq> [] then write_string rest st' else st') (s @ candidate)"
  using covers_split [OF assms] covers_write by fastforce

lemma flush_current [simp]: "current (flush e st) = []"
  by (simp add: flush_def)

lemma covers_line:
  assumes "covers st s"
  shows "covers (chunk_line n line st) (s @ (if current st \<noteq> [] then CHR 0x0A # line else line))"
proof (cases "current st \<noteq> [] \<and> int (length (current st)) + int (length (CHR 0x0A # line)) > n")
  case True
  obtain rest st' where sp: "split_long n line (flush (lineNumber st - 1) st) = (rest, st')" by fastforce
  from covers_candidate [OF covers_newline [OF covers_flush [OF assms] flush_current] sp] True sp show ?thesis
    by (simp add: chunk_line_def Let_def)
next
  case False
  let ?candidate = "if current st \<noteq> [] then CHR 0x0A # line else line"
  obtain rest st' where sp: "split_long n ?candidate st = (rest, st')" by fastforce
  have "chunk_line n line st = (if rest \<noteq> [] then write_string rest st' else st')\<lparr>lineNumber := lineNumber (if rest \<noteq> [] then write_string rest st' else st') + 1\<rparr>"
    using False sp by (auto simp: chunk_line_def Let_def)
  with covers_candidate [OF assms sp] show ?thesis by simp
qed

lemma covers_lines:
  assumes "ls \<noteq> []"
  shows "covers (fold (chunk_line n) ls \<lparr>chunks = [], current = [], startLine = 1, lineNumber = 1\<rparr>) (Join ls [CHR 0x0A])"
  using assms
proof (induction ls rule: rev_nonempty_induct)
  case (single l)
  have "covers \<lparr>chunks = [], current = [], startLine = 1, lineNumber = 1\<rparr> []"
    by (auto simp: covers_def lay_out_def breaks_only_def intro!: exI [of _ "[]"])
  from covers_line [OF this, of n l] show ?case by simp
next
  case (snoc l ls)
  let ?st = "fold (chunk_line n) ls \<lparr>chunks = [], current = [], startLine = 1, lineNumber = 1\<rparr>"
  have "covers (chunk_line n l ?st) (Join ls [CHR 0x0A] @ CHR 0x0A # l)"
    using covers_line [OF snoc.IH, of n l] covers_line [OF covers_newline [OF snoc.IH], of n l] by (cases "current ?st = []") simp_all
  then show ?case using snoc.hyps by (simp add: Join_snoc)
qed

lemma covers_chunk_lines:
  assumes "ls \<noteq> []"
  shows "\<exists>gaps end. length gaps = length (chunk_lines n ls) \<and> breaks_only (end # gaps) \<and> Join ls [CHR 0x0A] = lay_out gaps (chunk_lines n ls) @ end"
  using covers_flush [OF covers_lines [OF assms, of n]] unfolding chunk_lines_def Let_def covers_def by simp

section \<open>What redaction removes\<close>

text \<open>A token of the known forms begins somewhere in the string, at a word boundary.\<close>

fun has_token :: "bool \<Rightarrow> string \<Rightarrow> bool" where
  "has_token inside [] = False"
| "has_token inside (c # s) = ((\<not> inside \<and> known_length (c # s) \<noteq> None) \<or> has_token (is_word c) s)"

lemma known_length_hd: "known_length s \<noteq> None \<Longrightarrow> s \<noteq> [] \<and> (hd s = CHR ''g'' \<or> hd s = CHR ''s'')"
  by (cases s) (auto simp: known_length_def Let_def split: if_splits)

lemma body_nonempty: "rev (dropWhile (\<lambda>c. c = x) (rev xs)) \<noteq> [] \<longleftrightarrow> (\<exists>c \<in> set xs. c \<noteq> x)"
  by (auto simp: dropWhile_eq_Nil_conv)

lemma takeWhile_mono_set: "c \<in> set (takeWhile P (x @ y # v)) \<Longrightarrow> \<not> P y \<Longrightarrow> c \<in> set (takeWhile P (x @ w))"
  by (induction x) (auto split: if_splits)

definition token_char :: "char \<Rightarrow> bool" where
  "token_char c \<longleftrightarrow> is_word c \<or> c = CHR ''-''"

lemma starts_drop: "length p = n \<Longrightarrow> take n s = p \<and> P (drop n s) \<longleftrightarrow> (\<exists>t. s = p @ t \<and> P t)"
  by (metis append_eq_conv_conj append_take_drop_id)

lemma known_length_iff:
  "known_length s \<noteq> None \<longleftrightarrow>
     (\<exists>c w t. s = [CHR ''g'', CHR ''h'', c, CHR ''_'', w] @ t \<and> c \<in> set ''pousr'' \<and> is_word w) \<or>
     (\<exists>w t. s = (''github_pat_'' @ [w]) @ t \<and> is_word w) \<or>
     (\<exists>t. s = ''sk-'' @ t \<and> (\<exists>c \<in> set (takeWhile token_char t). c \<noteq> CHR ''-''))"
proof -
  let ?P = "\<lambda>t. case t of c # d # w # _ \<Rightarrow> c \<in> set ''pousr'' \<and> d = CHR ''_'' \<and> is_word w | _ \<Rightarrow> False"
  let ?Q = "\<lambda>t. case t of w # _ \<Rightarrow> is_word w | _ \<Rightarrow> False"
  let ?R = "\<lambda>t. rev (dropWhile (\<lambda>c. c = CHR ''-'') (rev (takeWhile token_char t))) \<noteq> []"
  have "known_length s \<noteq> None \<longleftrightarrow>
      take 2 s = ''gh'' \<and> ?P (drop 2 s) \<or> take 11 s = ''github_pat_'' \<and> ?Q (drop 11 s) \<or> take 3 s = ''sk-'' \<and> ?R (drop 3 s)"
    by (simp only: known_length_def Let_def token_char_def [abs_def] split: if_split) blast
  also have "\<dots> \<longleftrightarrow> (\<exists>t. s = ''gh'' @ t \<and> ?P t) \<or> (\<exists>t. s = ''github_pat_'' @ t \<and> ?Q t) \<or> (\<exists>t. s = ''sk-'' @ t \<and> ?R t)"
    using starts_drop [of "''gh''" 2 s ?P] starts_drop [of "''github_pat_''" 11 s ?Q] starts_drop [of "''sk-''" 3 s ?R] by simp
  also have "?P = (\<lambda>t. \<exists>c w u. t = c # CHR ''_'' # w # u \<and> c \<in> set ''pousr'' \<and> is_word w)"
    by (rule ext) (auto split: list.splits)
  also have "(\<exists>t. s = ''gh'' @ t \<and> (\<exists>c w u. t = c # CHR ''_'' # w # u \<and> c \<in> set ''pousr'' \<and> is_word w)) \<longleftrightarrow>
      (\<exists>c w t. s = [CHR ''g'', CHR ''h'', c, CHR ''_'', w] @ t \<and> c \<in> set ''pousr'' \<and> is_word w)"
    by auto
  also have "?Q = (\<lambda>t. \<exists>w u. t = w # u \<and> is_word w)"
    by (rule ext) (auto split: list.splits)
  also have "(\<exists>t. s = ''github_pat_'' @ t \<and> (\<exists>w u. t = w # u \<and> is_word w)) \<longleftrightarrow> (\<exists>w t. s = (''github_pat_'' @ [w]) @ t \<and> is_word w)"
    by auto
  finally show ?thesis unfolding body_nonempty .
qed

text \<open>A token in front of a bracket is there whatever stands in the bracket's place.\<close>

lemma fixed_part: "pre @ t = x @ y # v \<Longrightarrow> y \<notin> set pre \<Longrightarrow> \<exists>t'. x = pre @ t' \<and> t = t' @ y # v"
  by (auto simp: append_eq_append_conv2 append_eq_Cons_conv)

lemma letters_word: "is_word (CHR ''g'')" "is_word (CHR ''s'')"
  by (simp_all add: is_word_def byte_def)

lemma bracket_not_word [simp]: "\<not> is_word (CHR ''['')" "\<not> is_word (CHR '']'')"
  by (simp_all add: is_word_def byte_def)

lemma known_length_extend:
  assumes "known_length (x @ y # v) \<noteq> None" "\<not> token_char y"
  shows "known_length (x @ w) \<noteq> None"
  using assms(1) unfolding known_length_iff
proof (elim disjE exE conjE, goal_cases)
  case (1 c d t)
  have "list_all token_char ''ghpousr_''" by (simp add: token_char_def is_word_def byte_def)
  moreover have "token_char d" using 1(3) by (simp add: token_char_def)
  ultimately have "list_all token_char [CHR ''g'', CHR ''h'', c, CHR ''_'', d]"
    using 1(2) by (auto simp: list_all_iff)
  then have "y \<notin> set [CHR ''g'', CHR ''h'', c, CHR ''_'', d]" using assms(2) by (auto simp: list_all_iff)
  from fixed_part [OF 1(1) [symmetric] this] obtain t' where "x = [CHR ''g'', CHR ''h'', c, CHR ''_'', d] @ t'" by blast
  then have "x @ w = [CHR ''g'', CHR ''h'', c, CHR ''_'', d] @ (t' @ w)" by simp
  with 1(2,3) show ?case by (intro disjI1 exI conjI)
next
  case (2 d t)
  have "list_all token_char ''github_pat_''" by (simp add: token_char_def is_word_def byte_def)
  then have "list_all token_char (''github_pat_'' @ [d])" using 2(2) by (simp add: token_char_def)
  then have "y \<notin> set (''github_pat_'' @ [d])" using assms(2) by (auto simp: list_all_iff)
  from fixed_part [OF 2(1) [symmetric] this] obtain t' where "x = (''github_pat_'' @ [d]) @ t'" by blast
  then have "x @ w = (''github_pat_'' @ [d]) @ (t' @ w)" by simp
  with 2(2) show ?case by (intro disjI2 disjI1 exI conjI)
next
  case (3 t)
  have "list_all token_char ''sk-''" by (simp add: token_char_def is_word_def byte_def)
  then have "y \<notin> set ''sk-''" using assms(2) by (auto simp: list_all_iff)
  from fixed_part [OF 3(1) [symmetric] this] obtain t' where t: "x = ''sk-'' @ t'" "t = t' @ y # v" by auto
  with 3(2) assms(2) have "\<exists>c \<in> set (takeWhile token_char (t' @ w)). c \<noteq> CHR ''-''"
    using takeWhile_mono_set [of _ token_char t' y v w] by blast
  moreover have "x @ w = ''sk-'' @ (t' @ w)" using t(1) by simp
  ultimately show ?case by blast
qed

lemma bracket_not_token: "\<not> token_char (CHR ''['')"
  by (simp add: token_char_def)

lemma redact_tokens_Nil [simp]: "redact_tokens inside [] = []"
  by (simp add: redact_tokens.simps)

lemma redact_tokens_Cons:
  "redact_tokens inside (c # t) =
    (case (if inside then None else known_length (c # t)) of
       Some n \<Rightarrow> redacted @ redact_tokens True (drop n (c # t))
     | None \<Rightarrow> c # redact_tokens (is_word c) t)"
  by (subst redact_tokens.simps) simp

lemma redact_tokens_match:
  assumes "(if inside then None else known_length s) = Some n"
  shows "redact_tokens inside s = redacted @ redact_tokens True (drop n s)"
proof -
  have "\<not> inside" "known_length s = Some n" using assms by (auto split: if_splits)
  moreover from this have "s \<noteq> []" using known_length_hd [of s] by auto
  ultimately show ?thesis by (cases s) (simp_all add: redact_tokens_Cons)
qed

lemma redact_tokens_prefix:
  "redact_tokens inside s = s \<or> (\<exists>u v w. s = u @ w \<and> redact_tokens inside s = u @ CHR ''['' # v)"
proof (induction inside s rule: redact_tokens.induct)
  case (1 inside s)
  show ?case
  proof (cases s)
    case (Cons c t)
    show ?thesis
    proof (cases "if inside then None else known_length s")
      case (Some n)
      then have "\<exists>v. redact_tokens inside s = [] @ CHR ''['' # v"
        using redact_tokens_match [of inside s n] by (simp add: redacted_def)
      then show ?thesis by blast
    next
      case None
      then have "redact_tokens inside s = c # redact_tokens (is_word c) t" using Cons by (auto simp: redact_tokens_Cons split: if_splits)
      then show ?thesis using 1(1) [OF Cons None] Cons by (metis append_Cons)
    qed
  qed simp
qed

lemma drop_run: "drop (length (takeWhile P t)) t = dropWhile P t"
  by (induction t) auto

lemma run_end: "drop (k + length (takeWhile P (drop k s))) s = [] \<or> \<not> P (hd (drop (k + length (takeWhile P (drop k s))) s))"
proof -
  have "drop (k + length (takeWhile P (drop k s))) s = dropWhile P (drop k s)"
    by (metis add.commute drop_drop drop_run)
  then show ?thesis using hd_dropWhile by metis
qed

lemma stripped_run_end:
  assumes "run = takeWhile P t" "body = rev (dropWhile (\<lambda>c. c = x) (rev run))"
  shows "drop (length body) t = [] \<or> hd (drop (length body) t) = x \<or> \<not> P (hd (drop (length body) t))"
proof -
  have "run = body @ rev (takeWhile (\<lambda>c. c = x) (rev run))"
    using assms(2) by (metis rev_append rev_rev_ident takeWhile_dropWhile_id)
  then have "t = body @ rev (takeWhile (\<lambda>c. c = x) (rev run)) @ dropWhile P t"
    using assms(1) by (metis append.assoc takeWhile_dropWhile_id)
  then have tail: "drop (length body) t = rev (takeWhile (\<lambda>c. c = x) (rev run)) @ dropWhile P t"
    by (metis append_eq_conv_conj)
  show ?thesis
  proof (cases "takeWhile (\<lambda>c. c = x) (rev run) = []")
    case True
    with tail show ?thesis using hd_dropWhile by (metis append_Nil rev.simps(1))
  next
    case False
    then have "hd (drop (length body) t) \<in> set (takeWhile (\<lambda>c. c = x) (rev run))"
      using tail by (simp add: hd_rev)
    then show ?thesis using set_takeWhileD by fastforce
  qed
qed

lemma known_length_end:
  assumes "known_length s = Some n"
  shows "drop n s = [] \<or> \<not> is_word (hd (drop n s))"
proof -
  let ?run = "takeWhile (\<lambda>c. is_word c \<or> c = CHR ''-'') (drop 3 s)"
  let ?body = "rev (dropWhile (\<lambda>c. c = CHR ''-'') (rev ?run))"
  have "n = 4 + length (takeWhile is_word (drop 4 s)) \<or> n = 11 + length (takeWhile is_word (drop 11 s)) \<or> n = 3 + length ?body"
    using assms by (auto simp: known_length_def Let_def split: if_splits)
  then show ?thesis
  proof (elim disjE)
    assume n: "n = 3 + length ?body"
    then have d: "drop n s = drop (length ?body) (drop 3 s)" by (simp add: add.commute)
    have "\<not> is_word (CHR ''-'')" by (simp add: is_word_def byte_def)
    with stripped_run_end [OF refl refl, of "CHR ''-''" "\<lambda>c. is_word c \<or> c = CHR ''-''" "drop 3 s"] show ?thesis
      unfolding d by metis
  qed (use run_end in blast)+
qed

lemma redact_tokens_clean: "\<not> has_token inside (redact_tokens inside s)"
proof (induction inside s rule: redact_tokens.induct)
  case (1 inside s)
  show ?case
  proof (cases s)
    case (Cons c t)
    show ?thesis
    proof (cases "if inside then None else known_length s")
      case (Some n)
      let ?out = "redact_tokens True (drop n s)"
      have "\<not> has_token True ?out" using 1(2) [OF Cons Some] .
      moreover have "known_length ?out = None"
      proof (cases "drop n s")
        case (Cons d u)
        then have "hd ?out = d" "?out \<noteq> []" by (simp_all add: redact_tokens_Cons)
        moreover have "\<not> is_word d" using known_length_end [of s n] Some Cons by (auto split: if_splits)
        ultimately show ?thesis using known_length_hd [of ?out] letters_word by metis
      qed (simp add: known_length_def)
      ultimately have "\<not> has_token False ?out" by (cases ?out) auto
      then show ?thesis
        unfolding redact_tokens_match [OF Some] by (simp add: redacted_def known_length_def)
    next
      case None
      then have out: "redact_tokens inside s = c # redact_tokens (is_word c) t" using Cons by (auto simp: redact_tokens_Cons split: if_splits)
      have "known_length (c # redact_tokens (is_word c) t) = None" if "\<not> inside"
        using redact_tokens_prefix [of "is_word c" t]
      proof (elim disjE exE conjE)
        fix u v w
        assume "t = u @ w" "redact_tokens (is_word c) t = u @ CHR ''['' # v"
        then show ?thesis using known_length_extend [of "c # u" "CHR ''[''" v w] bracket_not_token None Cons that
          by (cases "known_length (c # u @ CHR ''['' # v)") auto
      qed (use None Cons that in auto)
      with 1(1) [OF Cons None] out show ?thesis by (cases inside) auto
    qed
  qed simp
qed

text \<open>Clean texts joined by a character that no token has are clean, and so is what is cut off a clean text.\<close>

lemma has_token_join:
  assumes "\<not> token_char c"
  shows "has_token p (a @ c # b) \<Longrightarrow> has_token p a \<or> has_token False b"
proof (induction a arbitrary: p)
  case Nil
  have "c \<noteq> CHR ''g''" "c \<noteq> CHR ''s''" using assms letters_word by (auto simp: token_char_def)
  then have "known_length (c # b) = None" using known_length_hd [of "c # b"] by (cases "known_length (c # b)") auto
  with Nil assms show ?case by (simp add: token_char_def)
next
  case (Cons d a)
  then show ?case using known_length_extend [of "d # a" c b "[]"] assms by auto
qed

lemma known_length_prefix: "known_length x \<noteq> None \<Longrightarrow> known_length (x @ w) \<noteq> None"
proof -
  assume x: "known_length x \<noteq> None"
  have mono: "c \<in> set (takeWhile token_char (t @ w))" if "c \<in> set (takeWhile token_char t)" for c t
    using that by (induction t) (auto split: if_splits)
  from x show ?thesis unfolding known_length_iff
  proof (elim disjE exE conjE, goal_cases)
    case (1 c d t)
    then have "x @ w = [CHR ''g'', CHR ''h'', c, CHR ''_'', d] @ (t @ w)" by simp
    with 1 show ?case by (intro disjI1 exI conjI)
  next
    case (2 d t)
    then have "x @ w = (''github_pat_'' @ [d]) @ (t @ w)" by simp
    with 2 show ?case by (intro disjI2 disjI1 exI conjI)
  next
    case (3 t)
    then have "x @ w = ''sk-'' @ (t @ w)" by simp
    moreover from 3(2) mono [of _ t] have "\<exists>c \<in> set (takeWhile token_char (t @ w)). c \<noteq> CHR ''-''" by blast
    ultimately show ?case by (intro disjI2 exI conjI)
  qed
qed

lemma has_token_prefix: "has_token p x \<Longrightarrow> has_token p (x @ w)"
proof (induction x arbitrary: p)
  case (Cons c x)
  then show ?case using known_length_prefix [of "c # x" w] by auto
qed simp

lemma has_token_take: "has_token p (take n s) \<Longrightarrow> has_token p s"
  using has_token_prefix [of p "take n s" "drop n s"] by simp

lemma no_letters_no_token: "CHR ''g'' \<notin> set s \<Longrightarrow> CHR ''s'' \<notin> set s \<Longrightarrow> \<not> has_token p s"
proof (induction s arbitrary: p)
  case (Cons c s)
  then show ?case using known_length_hd [of "c # s"] by auto
qed simp

section \<open>Properties\<close>

text \<open>
  Chunks are faithful excerpts. For every log that is accepted, with any patterns and any chunk size: each chunk is a non-empty text of at
  most the chunk size that occurs in exactly the source lines it names, those lines exist, and chunks follow the order of the log.
\<close>

theorem chunks_are_excerpts:
  assumes "RedactAndChunkLogs logs patterns chunkSize = Inr chs"
  shows "(\<forall>ch \<in> set chs. ch_Text ch \<noteq> [] \<and> int (length (ch_Text ch)) \<le> effective_size chunkSize \<and>
      1 \<le> ch_StartLine ch \<and> ch_StartLine ch \<le> ch_EndLine ch \<and> ch_EndLine ch \<le> int (length (log_lines patterns logs)) \<and>
      sublist (ch_Text ch) (source_lines (log_lines patterns logs) (ch_StartLine ch) (ch_EndLine ch))) \<and> in_order chs"
proof -
  have "0 < effective_size chunkSize" by (simp add: effective_size_def DefaultChunkSize_def)
  moreover have "\<forall>l \<in> set (log_lines patterns logs). CHR 0x0A \<notin> set l" by (auto simp: log_lines_def dest: Split_no_sep)
  ultimately show ?thesis
    using assms chunk_lines_ok [of "nat (effective_size chunkSize)" "log_lines patterns logs"]
    by (auto simp: RedactAndChunkLogs_def chunk_ok_def split: if_splits)
qed

text \<open>
  C33. Chunking loses nothing but line breaks between chunks. The redacted log, with its CRLF line ends made LF, consists of the texts of the chunks, each as it is and with its line breaks, in their order, and
  of nothing else but line breaks before, between and after them: the break at which the log was cut, and blank lines that came while no chunk was open.
\<close>

theorem chunks_lose_nothing:
  assumes "RedactAndChunkLogs logs patterns chunkSize = Inr chs"
  shows "\<exists>gaps end. length gaps = length chs \<and> (\<forall>gap \<in> set (end # gaps). set gap \<subseteq> {CHR 0x0A}) \<and>
    ReplaceAll (redact patterns logs) [CHR 0x0D, CHR 0x0A] [CHR 0x0A] = concat (map2 (\<lambda>gap ch. gap @ ch_Text ch) gaps chs) @ end"
proof -
  have "log_lines patterns logs \<noteq> []" by (simp add: log_lines_def)
  from covers_chunk_lines [OF this] show ?thesis
    using assms by (auto simp: RedactAndChunkLogs_def breaks_only_def lay_out_def log_lines_def Join_Split split: if_splits)
qed

definition sample_log :: string where
  "sample_log = ''Run tests'' @ [CHR 0x0D, CHR 0x0A] @ ''password: hunter2'' @ [CHR 0x0A] @ ''ok ghp_a1''"

definition sample_chunks :: "LogChunk list" where
  "sample_chunks =
    [\<lparr>ch_Source = ''workflow.log'', ch_StartLine = 1, ch_EndLine = 1, ch_Text = ''Run tests''\<rparr>,
     \<lparr>ch_Source = ''workflow.log'', ch_StartLine = 2, ch_EndLine = 2, ch_Text = ''password=[REDAC''\<rparr>,
     \<lparr>ch_Source = ''workflow.log'', ch_StartLine = 2, ch_EndLine = 2, ch_Text = ''TED]''\<rparr>,
     \<lparr>ch_Source = ''workflow.log'', ch_StartLine = 3, ch_EndLine = 3, ch_Text = ''ok [REDACTED]''\<rparr>]"

lemma sample_log_chunks: "RedactAndChunkLogs sample_log [] 15 = Inr sample_chunks"
  by code_simp

theorem chunks_are_excerpts_witness: "in_order sample_chunks"
  using chunks_are_excerpts [OF sample_log_chunks] by blast

theorem chunks_lose_nothing_witness:
  "\<exists>gaps end. length gaps = 4 \<and> (\<forall>gap \<in> set (end # gaps). set gap \<subseteq> {CHR 0x0A}) \<and>
    ''Run tests'' @ [CHR 0x0A] @ ''password=[REDACTED]'' @ [CHR 0x0A] @ ''ok [REDACTED]'' =
      concat (map2 (\<lambda>gap ch. gap @ ch_Text ch) gaps sample_chunks) @ end"
proof -
  have "ReplaceAll (redact [] sample_log) [CHR 0x0D, CHR 0x0A] [CHR 0x0A] =
      ''Run tests'' @ [CHR 0x0A] @ ''password=[REDACTED]'' @ [CHR 0x0A] @ ''ok [REDACTED]''" by code_simp
  moreover have "length sample_chunks = 4" by (simp add: sample_chunks_def)
  ultimately show ?thesis using chunks_lose_nothing [OF sample_log_chunks] by metis
qed

text \<open>
  C34. Redaction leaves no token behind: whatever the text and the configured patterns, the redacted text has no GitHub token, GitHub
  fine-grained token or \<open>sk-\<close> key beginning at any word boundary, also where replaced text met other text.
\<close>

theorem no_token_left: "\<not> has_token False (redact patterns s)"
  by (simp add: redact_def redact_tokens_clean)

end
