(* ===== verification/Diagnosis.thy ===== *)
theory Diagnosis
  imports Review Diagnosis_Logs
begin

text \<open>
  CI diagnosis (\<open>src/server/internal/diagnosis\<close>): the workflow-run trigger (types.go, service.go) and the processor (processor.go), which fetches the
  logs, redacts and stores them, runs the agent on the failed commit, and stores and publishes the redacted hypotheses. Redaction and
  chunking are in \<open>Diagnosis_Logs\<close>.

  \<^item> \<open>diagnosis_world\<close> holds what the package calls, as \<open>review_world\<close> does for reviews; \<open>dw_percent\<close> is \<open>fmt\<close>'s \<open>%.0f%%\<close> of a
    hundred times a confidence.
\<close>

section \<open>Types (types.go)\<close>

record WorkflowRunEvent =
  wr_DeliveryID :: string
  wr_Action :: string
  wr_Conclusion :: string
  wr_RepositoryID :: string
  wr_RepositoryName :: string
  wr_CloneURL :: string
  wr_WebURL :: string
  wr_WorkflowRunID :: int
  wr_WorkflowName :: string
  wr_HeadSHA :: string
  wr_InstallationID :: string

record LogEvidence =
  le_Source :: string
  le_StartLine :: int
  le_EndLine :: int
  le_Excerpt :: string

record Hypothesis =
  hy_RootCause :: string
  hy_Component :: string
  hy_Confidence :: "64 word"
  hy_Evidence :: "LogEvidence list"
  hy_Reproduction :: string
  hy_RecommendedAction :: string

record DiagnosisResult =
  dr_SchemaVersion :: string
  dr_Summary :: string
  dr_Hypotheses :: "Hypothesis list"

datatype diagnosis_error =
    ErrUnsupportedEvent
  | ErrInvalidEvent string
  | ErrInvalidResult string
  | DiagnosisMessage string
  | DiagnosisTask task_error

record workflowPayload =
  wp_Provider :: string
  wp_RepositoryID :: string
  wp_RepositoryName :: string
  wp_CloneURL :: string
  wp_WebURL :: string
  wp_WorkflowRunID :: int
  wp_WorkflowName :: string
  wp_Conclusion :: string
  wp_HeadSHA :: string
  wp_InstallationID :: string

definition OutputSchema :: string where
  "OutputSchema = Join
    [''{'',
     ''  \"type\": \"object\",'',
     ''  \"required\": [\"schemaVersion\", \"summary\", \"hypotheses\"],'',
     ''  \"properties\": {'',
     ''    \"schemaVersion\": {\"type\": \"string\", \"const\": \"v1\"},'',
     ''    \"summary\": {\"type\": \"string\", \"maxLength\": 20000},'',
     ''    \"hypotheses\": {'',
     ''      \"type\": \"array\",'',
     ''      \"minItems\": 1,'',
     ''      \"maxItems\": 20,'',
     ''      \"items\": {'',
     ''        \"type\": \"object\",'',
     ''        \"required\": [\"rootCause\", \"component\", \"confidence\", \"evidence\", \"reproduction\", \"recommendedAction\"],'',
     ''        \"properties\": {'',
     ''          \"rootCause\": {\"type\": \"string\", \"maxLength\": 10000},'',
     ''          \"component\": {\"type\": \"string\", \"maxLength\": 1000},'',
     ''          \"confidence\": {\"type\": \"number\", \"minimum\": 0, \"maximum\": 1},'',
     ''          \"evidence\": {'',
     ''            \"type\": \"array\",'',
     ''            \"maxItems\": 20,'',
     ''            \"items\": {'',
     ''              \"type\": \"object\",'',
     ''              \"required\": [\"source\", \"startLine\", \"endLine\", \"excerpt\"],'',
     ''              \"properties\": {'',
     ''                \"source\": {\"type\": \"string\", \"maxLength\": 1000},'',
     ''                \"startLine\": {\"type\": \"integer\", \"minimum\": 1},'',
     ''                \"endLine\": {\"type\": \"integer\", \"minimum\": 1},'',
     ''                \"excerpt\": {\"type\": \"string\", \"maxLength\": 4000}'',
     ''              },'',
     ''              \"additionalProperties\": false'',
     ''            }'',
     ''          },'',
     ''          \"reproduction\": {\"type\": \"string\", \"enum\": [\"confirmed\", \"not_reproducible\", \"not_attempted\", \"blocked\"]},'',
     ''          \"recommendedAction\": {\"type\": \"string\", \"maxLength\": 10000}'',
     ''        },'',
     ''        \"additionalProperties\": false'',
     ''      }'',
     ''    }'',
     ''  },'',
     ''  \"additionalProperties\": false'',
     ''}''] newline"

section \<open>The trigger (types.go, service.go)\<close>

text \<open>\<open>strconv.ParseInt(s, 10, 64)\<close>, which \<open>json.Number.Int64\<close> calls.\<close>

definition is_digit :: "char \<Rightarrow> bool" where
  "is_digit c \<longleftrightarrow> 48 \<le> byte c \<and> byte c \<le> 57"

definition ParseInt :: "string \<Rightarrow> int option" where
  "ParseInt s =
    (let neg = HasPrefix s ''-'';
       ds = (if neg \<or> HasPrefix s ''+'' then tl s else s);
       v = foldl (\<lambda>v c. 10 * v + (int (byte c) - 48)) 0 ds;
       i = (if neg then - v else v)
     in if ds = [] \<or> \<not> list_all is_digit ds \<or> i < - 9223372036854775808 \<or> i > 9223372036854775807 then None else Some i)"

fun integerValue :: "formats \<Rightarrow> any_value \<Rightarrow> int option" where
  "integerValue F (AnyInt i) = Some i"
| "integerValue F (AnyInt64 i) = Some i"
| "integerValue F (AnyFloat w) = Some (float_int F w)"
| "integerValue F (AnyNumber s) = ParseInt s"
| "integerValue F (AnyString s) = sscan_int F s"
| "integerValue F _ = None"

definition EventFromWebhook :: "formats \<Rightarrow> WebhookEvent \<Rightarrow> diagnosis_error + WorkflowRunEvent" where
  "EventFromWebhook F event =
    (let value = event_value F event; conclusion = value ''conclusion''
     in if we_EventType event \<noteq> ''workflow_run'' then Inl ErrUnsupportedEvent
        else if value ''action'' \<noteq> ''completed'' then Inl ErrUnsupportedEvent
        else if conclusion \<notin> set [''failure'', ''timed_out'', ''action_required''] then Inl ErrUnsupportedEvent
        else (case integerValue F (event_any event ''workflowRunId'') of
          None \<Rightarrow> Inl (ErrInvalidEvent '': workflow run id'')
        | Some runID \<Rightarrow>
            if runID \<le> 0 then Inl (ErrInvalidEvent '': workflow run id'')
            else if length (value ''headSHA'') \<noteq> 40 \<or> \<not> is_hex (value ''headSHA'') then Inl (ErrInvalidEvent '': head commit'')
            else if value ''repositoryId'' = [] \<or> value ''repository'' = [] \<or> value ''cloneURL'' = [] then Inl (ErrInvalidEvent '': repository'')
            else Inr \<lparr>wr_DeliveryID = we_DeliveryID event, wr_Action = ''completed'', wr_Conclusion = conclusion,
              wr_RepositoryID = value ''repositoryId'', wr_RepositoryName = value ''repository'', wr_CloneURL = value ''cloneURL'',
              wr_WebURL = value ''webURL'', wr_WorkflowRunID = runID, wr_WorkflowName = value ''workflowName'',
              wr_HeadSHA = value ''headSHA'', wr_InstallationID = value ''installationId''\<rparr>))"

type_synonym log_fetcher = "string \<Rightarrow> string \<Rightarrow> int \<Rightarrow> string + string"

record workflow_provider =
  wp_FetchLogs :: log_fetcher
  wp_PublishDiagnosis :: "string \<Rightarrow> string \<Rightarrow> string \<Rightarrow> string \<Rightarrow> string option"

record diagnosis_world =
  dw_formats :: formats
  dw_sha :: "string \<Rightarrow> 8 word list"
  dw_percent :: "64 word \<Rightarrow> string"
  dw_marshal_payload :: "workflowPayload \<Rightarrow> json"
  dw_unmarshal_payload :: "json \<Rightarrow> string + workflowPayload"
  dw_decode_result :: "json \<Rightarrow> DiagnosisResult option"
  dw_marshal_chunk :: "LogChunk \<Rightarrow> json"
  dw_marshal_evidence :: "string \<Rightarrow> LogEvidence list \<Rightarrow> json"
  dw_marshal_event :: "exec_event \<Rightarrow> json"
  dw_marshal_summary :: "string \<Rightarrow> int \<Rightarrow> json"
  dw_quote :: "string \<Rightarrow> string"
  dw_text :: "task_error \<Rightarrow> string"
  dw_round54 :: "64 word \<Rightarrow> 64 word"
  dw_scm :: "(string \<Rightarrow> repository_lookup) option"
  dw_adapter :: "adapter option"
  dw_provider :: "workflow_provider option"
  dw_projectID :: string
  dw_agentName :: string
  dw_timeout :: duration
  dw_patterns :: "string list"

definition error_text :: "diagnosis_world \<Rightarrow> diagnosis_error \<Rightarrow> string" where
  "error_text D e =
    (case e of
       ErrUnsupportedEvent \<Rightarrow> ''unsupported workflow run event''
     | ErrInvalidEvent what \<Rightarrow> ''invalid workflow run event'' @ what
     | ErrInvalidResult what \<Rightarrow> ''invalid CI diagnosis result'' @ what
     | DiagnosisMessage msg \<Rightarrow> msg
     | DiagnosisTask t \<Rightarrow> dw_text D t)"

definition buildTaskInput :: "diagnosis_world \<Rightarrow> WorkflowRunEvent \<Rightarrow> string \<Rightarrow> Tasks.CreateInput" where
  "buildTaskInput D event repositoryID =
    \<lparr>in_Kind = KindCIDiagnosis,
     in_Title = ''Diagnose '' @ wr_RepositoryName event @ '' '' @ [CHR 0xC2, CHR 0xB7] @ '' run '' @ itoa (wr_WorkflowRunID event) @ '' at '' @
       take 12 (wr_HeadSHA event),
     in_RepositoryID = repositoryID, in_RepositoryName = wr_RepositoryName event,
     in_SourceKey = ''github:workflow_run:'' @ wr_RepositoryID event @ '':'' @ itoa (wr_WorkflowRunID event) @ '':'' @ wr_HeadSHA event,
     in_Payload = Some (dw_marshal_payload D \<lparr>wp_Provider = ''github'', wp_RepositoryID = wr_RepositoryID event,
       wp_RepositoryName = wr_RepositoryName event, wp_CloneURL = wr_CloneURL event, wp_WebURL = wr_WebURL event,
       wp_WorkflowRunID = wr_WorkflowRunID event, wp_WorkflowName = wr_WorkflowName event, wp_Conclusion = wr_Conclusion event,
       wp_HeadSHA = wr_HeadSHA event, wp_InstallationID = wr_InstallationID event\<rparr>),
     in_Priority = 60, in_MaxAttempts = 3, in_CreatedBy = [], in_CreatedAt = 0\<rparr>"

definition validRepositoryName :: "string \<Rightarrow> bool" where
  "validRepositoryName value =
    (case Split (TrimSpace value) (CHR ''/'') of
       [p, q] \<Rightarrow> p \<noteq> [] \<and> q \<noteq> [] \<and>
         list_all (\<lambda>part. \<not> ContainsAny part [CHR 0x5C, CHR ''?'', CHR ''#'', CHR ''%'', CHR 0x22, CHR 0x27, CHR 0x20, CHR 0x0D, CHR 0x0A] \<and>
           part \<noteq> ''.'' \<and> part \<noteq> ''..'') [p, q]
     | _ \<Rightarrow> False)"

definition decodeTaskPayload :: "diagnosis_world \<Rightarrow> json \<Rightarrow> diagnosis_error + workflowPayload" where
  "decodeTaskPayload D raw =
    (case dw_unmarshal_payload D raw of
       Inl msg \<Rightarrow> Inl (DiagnosisMessage msg)
     | Inr payload \<Rightarrow>
         if wp_WorkflowRunID payload \<le> 0 \<or> wp_CloneURL payload = [] \<or> length (wp_HeadSHA payload) \<noteq> 40 \<or> \<not> is_hex (wp_HeadSHA payload) \<or>
            \<not> validRepositoryName (wp_RepositoryName payload)
         then Inl (ErrInvalidEvent '': task payload is incomplete'') else Inr payload)"

definition HandleWebhook ::
  "diagnosis_world \<Rightarrow> (nat \<Rightarrow> 'z tasks_db_scheme \<Rightarrow> 'z tasks_db_scheme) \<Rightarrow> env \<Rightarrow> WebhookEvent \<Rightarrow> 'z tasks_db_scheme \<Rightarrow>
   (diagnosis_error, Task option, 'z tasks_db_scheme) outcome" where
  "HandleWebhook D bt E event db =
    (case EventFromWebhook (dw_formats D) event of
       Inl e \<Rightarrow> if e = ErrUnsupportedEvent then (Inr None, db) else (Inl e, db)
     | Inr workflow \<Rightarrow>
         (case (case dw_scm D of None \<Rightarrow> Inr [] | Some find_repository \<Rightarrow>
                  (case find_repository (wr_RepositoryID workflow) of
                     RepositoryFound i \<Rightarrow> Inr i | ErrRepositoryNotFound \<Rightarrow> Inr [] | LookupFailed msg \<Rightarrow> Inl (DiagnosisMessage msg))) of
            Inl e \<Rightarrow> (Inl e, db)
          | Inr repositoryID \<Rightarrow>
              (case service_Create (call E 0) (buildTaskInput D workflow repositoryID) (bt 0 db) of
                 (Inl e, db1) \<Rightarrow> (Inl (DiagnosisTask e), db1)
               | (Inr task, db1) \<Rightarrow> (Inr (Some task), db1))))"

section \<open>Results (types.go)\<close>

definition check_evidence :: "int \<Rightarrow> int \<Rightarrow> LogEvidence \<Rightarrow> diagnosis_error option" where
  "check_evidence index evidenceIndex e =
    (if le_StartLine e < 1 \<or> le_EndLine e < le_StartLine e \<or> blank (le_Source e) \<or> blank (le_Excerpt e) \<or> int (length (le_Excerpt e)) > 4000
     then Some (ErrInvalidResult ('': hypothesis '' @ itoa index @ '' evidence '' @ itoa evidenceIndex))
     else if ContainsAny (le_Source e) [CHR 0x5C, CHR 0x00, CHR 0x0D, CHR 0x0A] then Some (ErrInvalidResult '': unsafe evidence source'')
     else None)"

fun check_all_evidence :: "int \<Rightarrow> int \<Rightarrow> LogEvidence list \<Rightarrow> diagnosis_error option" where
  "check_all_evidence index evidenceIndex [] = None"
| "check_all_evidence index evidenceIndex (e # es) =
    (case check_evidence index evidenceIndex e of Some err \<Rightarrow> Some err | None \<Rightarrow> check_all_evidence index (evidenceIndex + 1) es)"

definition check_hypothesis :: "int \<Rightarrow> Hypothesis \<Rightarrow> diagnosis_error option" where
  "check_hypothesis index h =
    (let invalid = (\<lambda>what. Some (ErrInvalidResult ('': hypothesis '' @ itoa index @ what)))
     in if blank (hy_RootCause h) \<or> blank (hy_Component h) \<or> blank (hy_RecommendedAction h) \<or> float_nan (hy_Confidence h) \<or>
           float_below_zero (hy_Confidence h) \<or> float_above_one (hy_Confidence h) then invalid '' fields''
        else if hy_Reproduction h \<notin> set [''confirmed'', ''not_reproducible'', ''not_attempted'', ''blocked''] then invalid '' reproduction''
        else if length (hy_Evidence h) > 20 then invalid '' evidence count''
        else check_all_evidence index 0 (hy_Evidence h))"

fun check_hypotheses :: "int \<Rightarrow> Hypothesis list \<Rightarrow> diagnosis_error option" where
  "check_hypotheses index [] = None"
| "check_hypotheses index (h # hs) = (case check_hypothesis index h of Some e \<Rightarrow> Some e | None \<Rightarrow> check_hypotheses (index + 1) hs)"

definition ValidateResult :: "(json \<Rightarrow> DiagnosisResult option) \<Rightarrow> json \<Rightarrow> diagnosis_error + DiagnosisResult" where
  "ValidateResult decode raw =
    (if raw = [] \<or> int (length raw) > 1048576 then Inl (ErrInvalidResult [])
     else case decode raw of
       None \<Rightarrow> Inl (ErrInvalidResult [])
     | Some result \<Rightarrow>
         if dr_SchemaVersion result \<noteq> ''v1'' \<or> blank (dr_Summary result) \<or> int (length (dr_Summary result)) > 20000
         then Inl (ErrInvalidResult [])
         else if dr_Hypotheses result = [] \<or> length (dr_Hypotheses result) > 20 then Inl (ErrInvalidResult [])
         else (case check_hypotheses 0 (dr_Hypotheses result) of Some e \<Rightarrow> Inl e | None \<Rightarrow> Inr result))"

section \<open>Texts (processor.go)\<close>

definition diagnosisPrompt :: "Task \<Rightarrow> workflowPayload \<Rightarrow> LogChunk list \<Rightarrow> string" where
  "diagnosisPrompt task payload chs =
    ''Analyze the failed GitHub Actions run below. Return only JSON matching the supplied schema; do not modify or publish code.'' @ newline @
    ''The sandbox provides a short-lived read-only GitHub token in GH_TOKEN and GITHUB_TOKEN. Use a temporary credential helper or authenticated API to fetch a private repository; never print, persist, or include the token in a URL.'' @ newline @
    ''Repository: '' @ wp_CloneURL payload @ newline @ ''Immutable commit: '' @ wp_HeadSHA payload @ newline @
    ''Workflow: '' @ wp_WorkflowName payload @ newline @ ''Workflow run: '' @ itoa (wp_WorkflowRunID payload) @ newline @
    ''Task: '' @ task_ID task @ newline @
    ''Logs are redacted and each block preserves source line references. Reproduce only when permitted by the sandbox policy.'' @ newline @
    concat (map (\<lambda>ch. newline @ ''['' @ ch_Source ch @ '' lines '' @ itoa (ch_StartLine ch) @ ''-'' @ itoa (ch_EndLine ch) @ '']'' @ newline @
      ch_Text ch @ newline) chs)"

definition hypothesis_text :: "diagnosis_world \<Rightarrow> Hypothesis \<Rightarrow> string" where
  "hypothesis_text D h = newline @ newline @ ''- '' @ hy_RootCause h @ '' (confidence '' @ dw_percent D (hy_Confidence h) @ '')''"

definition diagnosisSummary :: "diagnosis_world \<Rightarrow> DiagnosisResult \<Rightarrow> string" where
  "diagnosisSummary D result =
    (let value = ''## RepoMender CI diagnosis'' @ newline @ newline @ dr_Summary result @ concat (map (hypothesis_text D) (dr_Hypotheses result))
     in if int (length value) > 18000 then take 18000 value @ newline @ newline @ ''[truncated]'' else value)"

definition redact_hypothesis :: "string list \<Rightarrow> Hypothesis \<Rightarrow> Hypothesis" where
  "redact_hypothesis patterns h = h\<lparr>hy_RootCause := redact patterns (hy_RootCause h), hy_Component := redact patterns (hy_Component h),
     hy_RecommendedAction := redact patterns (hy_RecommendedAction h),
     hy_Evidence := map (\<lambda>e. e\<lparr>le_Source := redact patterns (le_Source e), le_Excerpt := redact patterns (le_Excerpt e)\<rparr>) (hy_Evidence h)\<rparr>"

definition redactResult :: "DiagnosisResult \<Rightarrow> string list \<Rightarrow> DiagnosisResult" where
  "redactResult result patterns = result\<lparr>dr_Summary := redact patterns (dr_Summary result),
     dr_Hypotheses := map (redact_hypothesis patterns) (dr_Hypotheses result)\<rparr>"

text \<open>0.9 and 0.7 as \<open>float64\<close>.\<close>

definition diagnosisSeverity :: "64 word \<Rightarrow> string" where
  "diagnosisSeverity confidence =
    (if float_at_least 0x3FECCCCCCCCCCCCD confidence then ''high''
     else if float_at_least 0x3FE6666666666666 confidence then ''medium'' else ''low'')"

fun replace_component :: "string \<Rightarrow> string" where
  "replace_component [] = []"
| "replace_component (c # s) =
    (if c = CHR ''/'' \<or> c = CHR 0x5C then CHR ''_'' # replace_component s
     else if c = CHR ''.'' then (case s of d # t \<Rightarrow> if d = CHR ''.'' then CHR ''_'' # replace_component t else c # replace_component s | [] \<Rightarrow> [c])
     else c # replace_component s)"

definition trim_dots :: "string \<Rightarrow> string" where
  "trim_dots s = rev (dropWhile (\<lambda>c. c = CHR ''.'') (rev (dropWhile (\<lambda>c. c = CHR ''.'') s)))"

definition safeComponent :: "string \<Rightarrow> string" where
  "safeComponent value = (if blank value then ''workflow'' else trim_dots (replace_component (TrimSpace value)))"

text \<open>\<open>strings.ToValidUTF8\<close>: a run of invalid bytes becomes one replacement.\<close>

function ToValidUTF8 :: "bool \<Rightarrow> string \<Rightarrow> string \<Rightarrow> string" where
  "ToValidUTF8 invalid s replacement =
    (if s = [] then []
     else if rune_width s = 0 then (if invalid then [] else replacement) @ ToValidUTF8 True (tl s) replacement
     else take (rune_width s) s @ ToValidUTF8 False (drop (rune_width s) s) replacement)"
  by pat_completeness auto
termination
  by (relation "measure (\<lambda>(invalid, s, replacement). length s)") auto

declare ToValidUTF8.simps [simp del]

definition safeEventText :: "string \<Rightarrow> string" where
  "safeEventText value = ReplaceAll (ToValidUTF8 False value [CHR 0xEF, CHR 0xBF, CHR 0xBD]) [CHR 0x00] []"

section \<open>The processor (processor.go)\<close>

definition chunk_evidence :: "diagnosis_world \<Rightarrow> Task \<Rightarrow> Run \<Rightarrow> LogChunk \<Rightarrow> EvidenceInput" where
  "chunk_evidence D task run ch =
    (let content = dw_marshal_chunk D ch
     in \<lparr>ei_TaskID = task_ID task, ei_RunID = run_ID run, ei_Kind = ''ci_log'', ei_Title = ch_Source ch, ei_Content = Some content,
       ei_Digest = EncodeToString (dw_sha D content)\<rparr>)"

fun persist_evidence ::
  "(nat \<Rightarrow> 'z tasks_db_scheme \<Rightarrow> 'z tasks_db_scheme) \<Rightarrow> env \<Rightarrow> nat \<Rightarrow> EvidenceInput list \<Rightarrow>
   'z tasks_db_scheme \<Rightarrow> task_error option \<times> 'z tasks_db_scheme" where
  "persist_evidence bt E k [] db = (None, db)"
| "persist_evidence bt E k (e # es) db =
    (case service_CreateEvidence (call E (6 + 3 * k)) e (bt (6 + 3 * k) db) of
       (Inl err, db1) \<Rightarrow> (Some err, db1)
     | (Inr _, db1) \<Rightarrow> persist_evidence bt E (Suc k) es db1)"

definition hypothesis_input :: "diagnosis_world \<Rightarrow> Task \<Rightarrow> Run \<Rightarrow> Hypothesis \<Rightarrow> FindingInput" where
  "hypothesis_input D task run h = \<lparr>fi_TaskID = task_ID task, fi_RunID = run_ID run, fi_Severity = diagnosisSeverity (hy_Confidence h),
     fi_Category = ''ci_root_cause'', fi_Path = safeComponent (hy_Component h), fi_LineStart = None, fi_LineEnd = None,
     fi_Explanation = hy_RootCause h, fi_Evidence = Some (dw_marshal_evidence D (hy_Reproduction h) (hy_Evidence h)),
     fi_Confidence = Some (hy_Confidence h), fi_Remediation = hy_RecommendedAction h\<rparr>"

definition diagnosis_event_input :: "diagnosis_world \<Rightarrow> exec_event \<Rightarrow> RunEventInput" where
  "diagnosis_event_input D event = \<lparr>rei_Kind = ex_Kind event, rei_Stream = safeEventText (ex_Stream event),
     rei_Message = safeEventText (ex_Message event), rei_Payload = Some (dw_marshal_event D event), rei_Terminal = ex_Terminal event\<rparr>"

text \<open>Fetching, redacting and storing the logs.\<close>

definition logs_code :: "logs_error \<Rightarrow> string \<times> string" where
  "logs_code e = (case e of
      ErrLogsTooLarge \<Rightarrow> (''m6_logs_too_large'', ''workflow logs exceed the configured limit'')
    | ErrBinaryLogs \<Rightarrow> (''m6_logs_binary'', ''workflow logs are binary or invalid UTF-8''))"

definition store_logs ::
  "diagnosis_world \<Rightarrow> workflow_provider \<Rightarrow> (nat \<Rightarrow> 'z tasks_db_scheme \<Rightarrow> 'z tasks_db_scheme) \<Rightarrow> env \<Rightarrow> Task \<Rightarrow> Run \<Rightarrow> workflowPayload \<Rightarrow>
   'z tasks_db_scheme \<Rightarrow> (string \<times> string + LogChunk list) \<times> 'z tasks_db_scheme" where
  "store_logs D pv bt E task run payload db =
    (case wp_FetchLogs pv (wp_RepositoryName payload) (wp_InstallationID payload) (wp_WorkflowRunID payload) of
       Inl msg \<Rightarrow> (Inl (''m6_logs_fetch_failed'', msg), db)
     | Inr logs \<Rightarrow>
         (case RedactAndChunkLogs logs (dw_patterns D) DefaultChunkSize of
            Inl e \<Rightarrow> (Inl (logs_code e), db)
          | Inr chs \<Rightarrow>
              (case persist_evidence bt E 0 (map (chunk_evidence D task run) chs) db of
                 (Some e, db1) \<Rightarrow> (Inl (''m6_log_persist_failed'', dw_text D e), db1)
               | (None, db1) \<Rightarrow> (Inr chs, db1))))"

definition diagnosis_agent ::
  "diagnosis_world \<Rightarrow> adapter \<Rightarrow> (nat \<Rightarrow> 'z tasks_db_scheme \<Rightarrow> 'z tasks_db_scheme) \<Rightarrow> env \<Rightarrow> Task \<Rightarrow> Run \<Rightarrow> workflowPayload \<Rightarrow> LogChunk list \<Rightarrow>
   'z tasks_db_scheme \<Rightarrow> (string \<times> string + json) \<times> 'z tasks_db_scheme" where
  "diagnosis_agent D ad bt E task run payload chs db =
    (case ad_Start ad \<lparr>xr_CorrelationID = run_CorrelationID run,
        xr_ProjectID = (if dw_projectID D \<noteq> [] then dw_projectID D
          else if task_RepositoryID task \<noteq> [] then task_RepositoryID task else wp_RepositoryID payload),
        xr_AgentName = (if dw_agentName D = [] then ''codex'' else dw_agentName D), xr_Repository = wp_CloneURL payload,
        xr_CommitSHA = wp_HeadSHA payload, xr_Prompt = diagnosisPrompt task payload chs,
        xr_Timeout = (if dw_timeout D \<le> 0 then 15 * minute else dw_timeout D), xr_OutputSchemaJSON = OutputSchema,
        xr_Driver = ''docker'', xr_Cleanup = ''remove'', xr_NetworkEnabled = False\<rparr> of
       Inl msg \<Rightarrow> (Inl (''m6_ac_start_failed'', msg), db)
     | Inr externalID \<Rightarrow>
         (case service_AppendEvent (call E 1) (run_ID run) (status_event ''external_run'' ''AC CI diagnosis started''
             (Some (''{\"externalRunId\":'' @ dw_quote D externalID @ ''}'')) False) (bt 1 db) of
            (Inl e, db1) \<Rightarrow> (Inl (''m6_event_persist_failed'', dw_text D e), db1)
          | (Inr _, db1) \<Rightarrow>
              (case persist_events (diagnosis_event_input D) bt E (run_ID run) 0 (fst (ad_Events ad externalID)) db1 of
                 (Some e, db2) \<Rightarrow> (Inl (''m6_event_persist_failed'', dw_text D e), db2)
               | (None, db2) \<Rightarrow>
                   (case snd (ad_Events ad externalID) of
                      Some msg \<Rightarrow> (Inl (''m6_ac_stream_failed'', msg), db2)
                    | None \<Rightarrow>
                        (case ad_Result ad externalID of
                           Inl msg \<Rightarrow> (Inl (''m6_ac_result_failed'', msg), db2)
                         | Inr output \<Rightarrow> (Inr output, db2))))))"

definition diagnosis_finish ::
  "diagnosis_world \<Rightarrow> workflow_provider \<Rightarrow> (nat \<Rightarrow> 'z tasks_db_scheme \<Rightarrow> 'z tasks_db_scheme) \<Rightarrow> env \<Rightarrow> Task \<Rightarrow> Run \<Rightarrow> workflowPayload \<Rightarrow>
   DiagnosisResult \<Rightarrow> 'z tasks_db_scheme \<Rightarrow> (Status \<times> string \<times> string) \<times> 'z tasks_db_scheme" where
  "diagnosis_finish D pv bt E task run payload validated db =
    (case persist_findings (dw_round54 D) bt E 0 (map (hypothesis_input D task run) (dr_Hypotheses validated)) db of
       (Some e, db1) \<Rightarrow> ((StatusFailed, ''m6_finding_persist_failed'', dw_text D e), db1)
     | (None, db1) \<Rightarrow>
         (case wp_PublishDiagnosis pv (wp_RepositoryName payload) (wp_InstallationID payload) (wp_HeadSHA payload) (diagnosisSummary D validated) of
            Some msg \<Rightarrow> ((StatusFailed, ''m6_publication_failed'', msg), db1)
          | None \<Rightarrow>
              (case service_AppendEvent (call E 2) (run_ID run) (status_event ''result'' ''structured CI diagnosis accepted''
                  (Some (dw_marshal_summary D (dr_Summary validated) (int (length (dr_Hypotheses validated))))) True) (bt 2 db1) of
                 (Inl e, db2) \<Rightarrow> ((StatusFailed, ''m6_event_persist_failed'', dw_text D e), db2)
               | (Inr _, db2) \<Rightarrow>
                   ((StatusSucceeded, [], ''CI diagnosis completed with '' @ itoa (int (length (dr_Hypotheses validated))) @ '' hypotheses''), db2))))"

definition diagnosis_Process ::
  "diagnosis_world \<Rightarrow> (nat \<Rightarrow> 'z tasks_db_scheme \<Rightarrow> 'z tasks_db_scheme) \<Rightarrow> env \<Rightarrow> Task \<Rightarrow> Run \<Rightarrow> 'z tasks_db_scheme \<Rightarrow>
   (Status \<times> string \<times> string) \<times> 'z tasks_db_scheme" where
  "diagnosis_Process D bt E task run db =
    (case (dw_adapter D, dw_provider D) of
       (Some ad, Some pv) \<Rightarrow>
         (case decodeTaskPayload D (task_Payload task) of
            Inl e \<Rightarrow> ((StatusFailed, ''m6_payload_invalid'', error_text D e), db)
          | Inr payload \<Rightarrow>
              (case service_AppendEvent (call E 0) (run_ID run) (status_event ''status''
                  (''fetching CI logs for workflow run '' @ itoa (wp_WorkflowRunID payload)) None False) (bt 0 db) of
                 (Inl e, db1) \<Rightarrow> ((StatusFailed, ''m6_event_persist_failed'', dw_text D e), db1)
               | (Inr _, db1) \<Rightarrow>
                   (case store_logs D pv bt E task run payload db1 of
                      (Inl (code, message), db2) \<Rightarrow> ((StatusFailed, code, message), db2)
                    | (Inr chs, db2) \<Rightarrow>
                        (case diagnosis_agent D ad bt E task run payload chs db2 of
                           (Inl (code, message), db3) \<Rightarrow> ((StatusFailed, code, message), db3)
                         | (Inr raw, db3) \<Rightarrow>
                             (case ValidateResult (dw_decode_result D) raw of
                                Inl e \<Rightarrow> ((StatusFailed, ''m6_result_invalid'', error_text D e), db3)
                              | Inr validated \<Rightarrow>
                                  diagnosis_finish D pv bt E task run payload (redactResult validated (dw_patterns D)) db3)))))
     | _ \<Rightarrow> ((StatusFailed, ''m6_dependency_unavailable'', ''CI diagnosis dependencies are unavailable''), db))"

section \<open>Steps of the system\<close>

context task_client
begin

lemma persist_evidence_steps:
  assumes "\<And>n d. step\<^sup>*\<^sup>* d (bt n d)"
  shows "persist_evidence bt E k es db = (r, db') \<Longrightarrow> step\<^sup>*\<^sup>* db db'"
proof (induction es arbitrary: k db)
  case (Cons e es)
  obtain a db1 where a: "service_CreateEvidence (call E (6 + 3 * k)) e (bt (6 + 3 * k) db) = (a, db1)" by fastforce
  then have "step (bt (6 + 3 * k) db) db1" unfolding service_CreateEvidence_def by (intro task_steps) (rule st_evidence)
  then have "step\<^sup>*\<^sup>* db db1" using assms by (meson rtranclp.rtrancl_into_rtrancl)
  with Cons a show ?case by (cases a) (auto intro: rtranclp_trans)
qed simp

lemma store_logs_steps:
  assumes "\<And>n d. step\<^sup>*\<^sup>* d (bt n d)" "store_logs D pv bt E task run payload db = (r, db')"
  shows "step\<^sup>*\<^sup>* db db'"
  using assms(2) unfolding store_logs_def
  by (auto split: sum.splits prod.splits option.splits dest!: persist_evidence_steps [OF assms(1)])

lemma diagnosis_agent_steps:
  assumes "\<And>n d. step\<^sup>*\<^sup>* d (bt n d)" "diagnosis_agent D ad bt E task run payload chs db = (r, db')"
  shows "step\<^sup>*\<^sup>* db db'"
  using assms(2) unfolding diagnosis_agent_def
  by (auto split: sum.splits prod.splits option.splits
      dest!: gap_event_step [OF assms(1)] persist_events_steps [OF assms(1)] intro: rtranclp_trans)

lemma diagnosis_finish_steps:
  assumes "\<And>n d. step\<^sup>*\<^sup>* d (bt n d)" "diagnosis_finish D pv bt E task run payload validated db = (r, db')"
  shows "step\<^sup>*\<^sup>* db db'"
  using assms(2) unfolding diagnosis_finish_def
  by (auto split: sum.splits prod.splits option.splits
      dest!: gap_event_step [OF assms(1)] persist_findings_steps [OF assms(1)] intro: rtranclp_trans)

lemma diagnosis_Process_steps:
  assumes "\<And>n d. step\<^sup>*\<^sup>* d (bt n d)" "diagnosis_Process D bt E task run db = (r, db')"
  shows "step\<^sup>*\<^sup>* db db'"
  using assms(2) unfolding diagnosis_Process_def
  by (auto split: sum.splits prod.splits option.splits
      dest!: gap_event_step [OF assms(1)] store_logs_steps [OF assms(1)] diagnosis_agent_steps [OF assms(1)] diagnosis_finish_steps [OF assms(1)]
      intro: rtranclp_trans)

end

section \<open>What is published\<close>

lemma separators: "\<not> token_char (CHR 0x0A)" "\<not> token_char (CHR '' '')" "\<not> token_char (CHR ''('')"
  by (simp_all add: token_char_def is_word_def byte_def)

lemma clean_join: "\<not> token_char c \<Longrightarrow> \<not> has_token p a \<Longrightarrow> \<not> has_token False b \<Longrightarrow> \<not> has_token p (a @ c # b)"
  using has_token_join by blast

lemma clean_hypotheses:
  assumes "\<And>w. CHR ''g'' \<notin> set (dw_percent D w) \<and> CHR ''s'' \<notin> set (dw_percent D w)"
    and "\<forall>h \<in> set hs. \<not> has_token False (hy_RootCause h)" "\<not> has_token p a"
  shows "\<not> has_token p (a @ concat (map (hypothesis_text D) hs))"
  using assms(2,3)
proof (induction hs arbitrary: a p)
  case (Cons h hs)
  let ?P = "dw_percent D (hy_Confidence h)"
  let ?rest = "concat (map (hypothesis_text D) hs)"
  have conf: "\<not> has_token False (''(confidence '' @ ?P @ '')'')" using assms(1) by (intro no_letters_no_token) auto
  have 1: "\<not> has_token False ((''(confidence '' @ ?P @ '')'') @ ?rest)" by (rule Cons.IH [OF _ conf]) (use Cons.prems(1) in simp)
  have 2: "\<not> has_token False (hy_RootCause h @ CHR '' '' # (''(confidence '' @ ?P @ '')'') @ ?rest)"
    using Cons.prems(1) by (intro clean_join [OF separators(2) _ 1]) simp
  have dash: "\<not> has_token False ''-''" by (intro no_letters_no_token) auto
  have 3: "\<not> has_token False (''-'' @ CHR '' '' # hy_RootCause h @ CHR '' '' # (''(confidence '' @ ?P @ '')'') @ ?rest)"
    by (rule clean_join [OF separators(2) dash 2])
  have "\<not> has_token p (a @ CHR 0x0A # [] @ CHR 0x0A # ''-'' @ CHR '' '' # hy_RootCause h @ CHR '' '' # (''(confidence '' @ ?P @ '')'') @ ?rest)"
    by (rule clean_join [OF separators(1) Cons.prems(2)], rule clean_join [OF separators(1) _ 3]) simp
  moreover have "hypothesis_text D h = [CHR 0x0A, CHR 0x0A] @ ''- '' @ hy_RootCause h @ '' (confidence '' @ ?P @ '')''"
    by (simp add: hypothesis_text_def newline_def)
  ultimately show ?case by simp
qed simp

lemma heading_clean: "\<not> has_token False ''## RepoMender CI diagnosis''" "\<not> has_token False ''[truncated]''"
  by code_simp+

lemma summary_clean:
  assumes "\<And>w. CHR ''g'' \<notin> set (dw_percent D w) \<and> CHR ''s'' \<notin> set (dw_percent D w)"
  shows "\<not> has_token False (diagnosisSummary D (redactResult r patterns)) \<and> int (length (diagnosisSummary D (redactResult r patterns))) \<le> 18013"
proof -
  let ?r = "redactResult r patterns"
  let ?body = "dr_Summary ?r @ concat (map (hypothesis_text D) (dr_Hypotheses ?r))"
  let ?whole = "''## RepoMender CI diagnosis'' @ newline @ newline @ ?body"
  have red: "\<not> has_token False (redact patterns s)" for s by (simp add: redact_def redact_tokens_clean)
  have "\<not> has_token False ?body"
    by (intro clean_hypotheses assms) (auto simp: redactResult_def redact_hypothesis_def red)
  then have "\<not> has_token False (''## RepoMender CI diagnosis'' @ CHR 0x0A # [] @ CHR 0x0A # ?body)"
    by (intro clean_join separators heading_clean) simp_all
  then have clean: "\<not> has_token False ?whole" by (simp add: newline_def)
  define v where "v = ?whole"
  have v: "\<not> has_token False v" using clean unfolding v_def .
  have cut: "\<not> has_token False (take 18000 v)" using v has_token_take by blast
  have mark: "\<not> has_token False ([] @ CHR 0x0A # ''[truncated]'')"
    by (rule clean_join) (use separators heading_clean(2) in simp_all)
  have "\<not> has_token False (take 18000 v @ CHR 0x0A # [] @ CHR 0x0A # ''[truncated]'')"
    by (rule clean_join [OF separators(1) cut mark])
  moreover have "diagnosisSummary D ?r = (if int (length v) > 18000 then take 18000 v @ newline @ newline @ ''[truncated]'' else v)"
    by (simp only: diagnosisSummary_def Let_def v_def)
  ultimately show ?thesis using v by (simp add: newline_def)
qed

section \<open>What is stored\<close>

lemma persist_evidence_rows:
  assumes "\<And>n d. set (evidence d) \<subseteq> set (evidence (bt n d))"
  shows "persist_evidence bt E k es db = (None, db') \<Longrightarrow> set (evidence db) \<subseteq> set (evidence db') \<and>
    (\<forall>e \<in> set es. \<exists>row \<in> set (evidence db'). evd_TaskID row = ei_TaskID e \<and> evd_RunID row = ei_RunID e \<and> evd_Kind row = ei_Kind e \<and>
       Some (evd_Content row) = Some (case ei_Content e of None \<Rightarrow> ''{}'' | Some c \<Rightarrow> c) \<and> evd_Digest row = ei_Digest e)"
proof (induction es arbitrary: k db)
  case (Cons e es)
  from Cons.prems obtain row db1 where
    c: "service_CreateEvidence (call E (6 + 3 * k)) e (bt (6 + 3 * k) db) = (Inr row, db1)"
    and rest: "persist_evidence bt E (Suc k) es db1 = (None, db')"
    by (auto split: prod.splits sum.splits)
  have "row \<in> set (evidence db1)" "set (evidence (bt (6 + 3 * k) db)) \<subseteq> set (evidence db1)"
    and "evd_TaskID row = ei_TaskID e \<and> evd_RunID row = ei_RunID e \<and> evd_Kind row = ei_Kind e \<and>
      Some (evd_Content row) = Some (case ei_Content e of None \<Rightarrow> ''{}'' | Some c \<Rightarrow> c) \<and> evd_Digest row = ei_Digest e"
    using c by (auto simp: service_CreateEvidence_def CreateEvidence_def Let_def split: option.splits if_splits)
  with Cons.IH [OF rest] assms [of db "6 + 3 * k"] show ?case by auto
qed simp

lemma event_keeps_evidence: "service_AppendEvent E i ei db = (r, db') \<Longrightarrow> evidence db' = evidence db"
  unfolding service_AppendEvent_def AppendRunEvent_def by (auto simp: Let_def split: if_splits option.splits)

lemma events_keep_evidence:
  assumes "\<And>n d. set (evidence d) \<subseteq> set (evidence (bt n d))"
  shows "persist_events ei bt E runID k events db = (r, db') \<Longrightarrow> set (evidence db) \<subseteq> set (evidence db')"
proof (induction events arbitrary: k db)
  case (Cons event events)
  obtain a db1 where a: "service_AppendEvent (call E (4 + 3 * k)) runID (ei event) (bt (4 + 3 * k) db) = (a, db1)" by fastforce
  have "set (evidence db) \<subseteq> set (evidence db1)" using assms event_keeps_evidence [OF a] by simp
  with Cons a show ?case by (cases a) fastforce+
qed simp

lemma findings_keep_evidence:
  assumes "\<And>n d. set (evidence d) \<subseteq> set (evidence (bt n d))"
  shows "persist_findings r54 bt E k fs db = (r, db') \<Longrightarrow> set (evidence db) \<subseteq> set (evidence db')"
proof (induction fs arbitrary: k db)
  case (Cons f fs)
  obtain a db1 where a: "service_CreateFinding r54 (call E (5 + 3 * k)) f (bt (5 + 3 * k) db) = (a, db1)" by fastforce
  have "evidence db1 = evidence (bt (5 + 3 * k) db)"
    using a by (auto simp: service_CreateFinding_def CreateFinding_def Let_def split: option.splits if_splits)
  then have "set (evidence db) \<subseteq> set (evidence db1)" using assms by simp
  with Cons a show ?case by (cases a) fastforce+
qed simp

lemma agent_keeps_evidence:
  assumes "\<And>n d. set (evidence d) \<subseteq> set (evidence (bt n d))" "diagnosis_agent D ad bt E task run payload chs db = (Inr raw, db')"
  shows "set (evidence db) \<subseteq> set (evidence db')"
proof -
  from assms(2) obtain ext ei r db1 where
    a: "service_AppendEvent (call E 1) (run_ID run) ei (bt 1 db) = (r, db1)"
    and p: "persist_events (diagnosis_event_input D) bt E (run_ID run) 0 (fst (ad_Events ad ext)) db1 = (None, db')"
    by (auto simp: diagnosis_agent_def split: sum.splits prod.splits option.splits)
  show ?thesis using assms(1) [of db 1] event_keeps_evidence [OF a] events_keep_evidence [OF assms(1) p] by auto
qed

section \<open>Properties\<close>

text \<open>
  C32. Only redacted summaries reach the provider: two providers that fetch the same logs and answer alike for every text of at most 18013 bytes
  without a known token are indistinguishable to the diagnosis processor, so whatever the agent answers and whatever the logs hold, no
  other text is ever published. The formatted percentage has no letters g or s, as \<open>fmt\<close> prints it.
\<close>

theorem only_clean_summaries_published:
  assumes "\<And>w. CHR ''g'' \<notin> set (dw_percent D w) \<and> CHR ''s'' \<notin> set (dw_percent D w)"
    and "\<And>name i sha t. \<not> has_token False t \<Longrightarrow> int (length t) \<le> 18013 \<Longrightarrow> publish1 name i sha t = publish2 name i sha t"
  shows "diagnosis_Process (D\<lparr>dw_provider := Some \<lparr>wp_FetchLogs = fetch, wp_PublishDiagnosis = publish1\<rparr>\<rparr>) bt E task run db =
    diagnosis_Process (D\<lparr>dw_provider := Some \<lparr>wp_FetchLogs = fetch, wp_PublishDiagnosis = publish2\<rparr>\<rparr>) bt E task run db"
proof -
  let ?D = "\<lambda>p. D\<lparr>dw_provider := Some \<lparr>wp_FetchLogs = fetch, wp_PublishDiagnosis = p\<rparr>\<rparr>"
  let ?pv = "\<lambda>p. \<lparr>wp_FetchLogs = fetch, wp_PublishDiagnosis = p\<rparr>"
  have summ: "diagnosisSummary (?D p) r = diagnosisSummary D r" for p r
    by (simp add: diagnosisSummary_def hypothesis_text_def [abs_def])
  have "publish1 name i sha (diagnosisSummary D (redactResult r (dw_patterns D))) = publish2 name i sha (diagnosisSummary D (redactResult r (dw_patterns D)))"
    for name i sha r using summary_clean [of D r "dw_patterns D", OF assms(1)] assms(2) by blast
  note same = this
  have fields: "dw_round54 (?D p) = dw_round54 D" "dw_text (?D p) = dw_text D" "dw_marshal_summary (?D p) = dw_marshal_summary D"
    "dw_patterns (?D p) = dw_patterns D" "dw_projectID (?D p) = dw_projectID D" "dw_agentName (?D p) = dw_agentName D"
    "dw_timeout (?D p) = dw_timeout D" "dw_quote (?D p) = dw_quote D" "dw_adapter (?D p) = dw_adapter D"
    "dw_decode_result (?D p) = dw_decode_result D" "dw_provider (?D p) = Some (?pv p)"
    "hypothesis_input (?D p) = hypothesis_input D" "chunk_evidence (?D p) = chunk_evidence D"
    "diagnosis_event_input (?D p) = diagnosis_event_input D" "decodeTaskPayload (?D p) = decodeTaskPayload D"
    "error_text (?D p) = error_text D" "wp_FetchLogs (?pv p) = fetch" "wp_PublishDiagnosis (?pv p) = p" for p
    by (simp_all add: fun_eq_iff hypothesis_input_def chunk_evidence_def diagnosis_event_input_def decodeTaskPayload_def error_text_def
        split: diagnosis_error.splits sum.splits)
  have fin: "diagnosis_finish (?D publish1) (?pv publish1) bt E task run payload (redactResult r (dw_patterns D)) d =
      diagnosis_finish (?D publish2) (?pv publish2) bt E task run payload (redactResult r (dw_patterns D)) d" for payload r d
    unfolding diagnosis_finish_def summ fields same ..
  have logs: "store_logs (?D publish1) (?pv publish1) bt E task run payload d = store_logs (?D publish2) (?pv publish2) bt E task run payload d"
    for payload d unfolding store_logs_def fields ..
  have agent: "diagnosis_agent (?D publish1) ad bt E task run payload chs d = diagnosis_agent (?D publish2) ad bt E task run payload chs d"
    for ad payload chs d unfolding diagnosis_agent_def fields ..
  show ?thesis
    unfolding diagnosis_Process_def fields prod.case option.case fin logs agent ..
qed

definition sample_hypothesis :: Hypothesis where
  "sample_hypothesis = \<lparr>hy_RootCause = ''token=abc leaked'', hy_Component = ''ci/../x'', hy_Confidence = 0x3FE0000000000000, hy_Evidence = [],
     hy_Reproduction = ''blocked'', hy_RecommendedAction = ''rotate''\<rparr>"

definition sample_workflow :: workflowPayload where
  "sample_workflow = \<lparr>wp_Provider = ''github'', wp_RepositoryID = ''7'', wp_RepositoryName = ''o/r'', wp_CloneURL = ''https://h/o/r.git'',
     wp_WebURL = [], wp_WorkflowRunID = 5, wp_WorkflowName = ''ci'', wp_Conclusion = ''failure'', wp_HeadSHA = replicate 40 (CHR ''a''),
     wp_InstallationID = ''3''\<rparr>"

definition sample_diagnosis :: diagnosis_world where
  "sample_diagnosis = \<lparr>dw_formats = \<lparr>fmt_float = (\<lambda>_. []), float_int = (\<lambda>_. 0), sscan_int = (\<lambda>_. None)\<rparr>, dw_sha = (\<lambda>_. [0]),
     dw_percent = (\<lambda>_. ''50%''), dw_marshal_payload = (\<lambda>_. ''p''), dw_unmarshal_payload = (\<lambda>_. Inr sample_workflow),
     dw_decode_result = (\<lambda>_. Some \<lparr>dr_SchemaVersion = ''v1'', dr_Summary = ''ghp_a1'', dr_Hypotheses = [sample_hypothesis]\<rparr>),
     dw_marshal_chunk = ch_Text, dw_marshal_evidence = (\<lambda>_ _. ''{}''), dw_marshal_event = (\<lambda>_. ''{}''), dw_marshal_summary = (\<lambda>_ _. ''{}''),
     dw_quote = (\<lambda>s. s), dw_text = (\<lambda>_. []), dw_round54 = (\<lambda>c. c), dw_scm = None, dw_adapter = Some sample_adapter,
     dw_provider = Some \<lparr>wp_FetchLogs = (\<lambda>_ _ _. Inr ''password: hunter2''), wp_PublishDiagnosis = (\<lambda>_ _ _ _. None)\<rparr>,
     dw_projectID = [], dw_agentName = [], dw_timeout = 0, dw_patterns = []\<rparr>"

definition strict_publisher :: "string \<Rightarrow> string \<Rightarrow> string \<Rightarrow> string \<Rightarrow> string option" where
  "strict_publisher name i sha t = (if has_token False t \<or> int (length t) > 18013 then Some ''refused'' else None)"

theorem only_clean_summaries_published_witness:
  "diagnosis_Process (sample_diagnosis\<lparr>dw_provider := Some \<lparr>wp_FetchLogs = (\<lambda>_ _ _. Inr []), wp_PublishDiagnosis = (\<lambda>_ _ _ _. None)\<rparr>\<rparr>)
     (\<lambda>_ d. d) (sample_env 80 30) (hd (tasks sample_db2)) (hd (runs sample_db2)) sample_db2 =
   diagnosis_Process (sample_diagnosis\<lparr>dw_provider := Some \<lparr>wp_FetchLogs = (\<lambda>_ _ _. Inr []), wp_PublishDiagnosis = strict_publisher\<rparr>\<rparr>)
     (\<lambda>_ d. d) (sample_env 80 30) (hd (tasks sample_db2)) (hd (runs sample_db2)) sample_db2"
  by (rule only_clean_summaries_published) (simp_all add: sample_diagnosis_def strict_publisher_def)

text \<open>
  A diagnosis reports success only for what it did. Whatever other processes do in between, as long as evidence and findings are not
  deleted: when the processor reports success, the whole redacted log is stored as evidence of this task and run, chunk by chunk with its
  digest, every hypothesis of the agent's validated answer is stored as a finding with its text redacted, and the provider accepted the
  summary of the redacted answer for the payload's commit.
\<close>

theorem diagnosis_success_truthful:
  assumes keep: "\<And>n d. set (evidence d) \<subseteq> set (evidence (bt n d))" "\<And>n d. set (findings d) \<subseteq> set (findings (bt n d))"
    and "diagnosis_Process D bt E task run db = ((StatusSucceeded, code, message), db')"
  shows "\<exists>pv payload logs chs raw result. dw_provider D = Some pv \<and> decodeTaskPayload D (task_Payload task) = Inr payload \<and>
    wp_FetchLogs pv (wp_RepositoryName payload) (wp_InstallationID payload) (wp_WorkflowRunID payload) = Inr logs \<and>
    RedactAndChunkLogs logs (dw_patterns D) DefaultChunkSize = Inr chs \<and> ValidateResult (dw_decode_result D) raw = Inr result \<and>
    (\<forall>ch \<in> set chs. \<exists>row \<in> set (evidence db'). evd_TaskID row = task_ID task \<and> evd_RunID row = run_ID run \<and> evd_Kind row = ''ci_log'' \<and>
       evd_Content row = dw_marshal_chunk D ch \<and> evd_Digest row = EncodeToString (dw_sha D (dw_marshal_chunk D ch))) \<and>
    (\<forall>h \<in> set (dr_Hypotheses result). \<exists>row \<in> set (findings db'). fin_TaskID row = task_ID task \<and> fin_RunID row = run_ID run \<and>
       fin_Explanation row = redact (dw_patterns D) (hy_RootCause h) \<and>
       fin_Path row = safeComponent (redact (dw_patterns D) (hy_Component h))) \<and>
    wp_PublishDiagnosis pv (wp_RepositoryName payload) (wp_InstallationID payload) (wp_HeadSHA payload)
      (diagnosisSummary D (redactResult result (dw_patterns D))) = None"
proof -
  let ?red = "\<lambda>r. redactResult r (dw_patterns D)"
  from assms(3) obtain ad pv payload db1 db2 db3 chs raw result where pv: "dw_provider D = Some pv"
    and payload: "decodeTaskPayload D (task_Payload task) = Inr payload"
    and logs: "store_logs D pv bt E task run payload db1 = (Inr chs, db2)"
    and agent: "diagnosis_agent D ad bt E task run payload chs db2 = (Inr raw, db3)"
    and result: "ValidateResult (dw_decode_result D) raw = Inr result"
    and fin: "diagnosis_finish D pv bt E task run payload (?red result) db3 = ((StatusSucceeded, code, message), db')"
    by (auto simp: diagnosis_Process_def split: option.splits sum.splits prod.splits)
  from logs obtain ls where ls: "wp_FetchLogs pv (wp_RepositoryName payload) (wp_InstallationID payload) (wp_WorkflowRunID payload) = Inr ls"
    "RedactAndChunkLogs ls (dw_patterns D) DefaultChunkSize = Inr chs"
    and ev: "persist_evidence bt E 0 (map (chunk_evidence D task run) chs) db1 = (None, db2)"
    by (auto simp: store_logs_def split: option.splits sum.splits prod.splits)
  from fin obtain db4 ei r where rows: "persist_findings (dw_round54 D) bt E 0 (map (hypothesis_input D task run) (dr_Hypotheses (?red result))) db3 = (None, db4)"
    and pub: "wp_PublishDiagnosis pv (wp_RepositoryName payload) (wp_InstallationID payload) (wp_HeadSHA payload) (diagnosisSummary D (?red result)) = None"
    and last: "service_AppendEvent (call E 2) (run_ID run) ei (bt 2 db4) = (r, db')"
    by (auto simp: diagnosis_finish_def split: option.splits sum.splits prod.splits)
  have "set (evidence db2) \<subseteq> set (evidence db')"
    using agent_keeps_evidence [OF keep(1) agent] findings_keep_evidence [OF keep(1) rows] keep(1) [of db4 2] event_keeps_evidence [OF last] by auto
  note kept = this
  have E: "\<exists>row \<in> set (evidence db'). evd_TaskID row = task_ID task \<and> evd_RunID row = run_ID run \<and> evd_Kind row = ''ci_log'' \<and>
      evd_Content row = dw_marshal_chunk D ch \<and> evd_Digest row = EncodeToString (dw_sha D (dw_marshal_chunk D ch))" if "ch \<in> set chs" for ch
  proof -
    have "chunk_evidence D task run ch \<in> set (map (chunk_evidence D task run) chs)" using that by simp
    with persist_evidence_rows [OF keep(1) ev] obtain row where "row \<in> set (evidence db2)" "evd_TaskID row = ei_TaskID (chunk_evidence D task run ch)"
      "evd_RunID row = ei_RunID (chunk_evidence D task run ch)" "evd_Kind row = ei_Kind (chunk_evidence D task run ch)"
      "Some (evd_Content row) = Some (case ei_Content (chunk_evidence D task run ch) of None \<Rightarrow> ''{}'' | Some c \<Rightarrow> c)"
      "evd_Digest row = ei_Digest (chunk_evidence D task run ch)" by blast
    with kept show ?thesis by (auto simp: chunk_evidence_def Let_def)
  qed
  have "set (findings db4) \<subseteq> set (findings db')" using keep(2) event_keeps_findings [OF last] by simp
  with persist_findings_rows [OF keep(2) rows]
  have "\<forall>h \<in> set (dr_Hypotheses result). \<exists>row \<in> set (findings db'). fin_TaskID row = task_ID task \<and> fin_RunID row = run_ID run \<and>
      fin_Explanation row = redact (dw_patterns D) (hy_RootCause h) \<and> fin_Path row = safeComponent (redact (dw_patterns D) (hy_Component h))"
    by (fastforce simp: hypothesis_input_def redactResult_def redact_hypothesis_def)
  with pv payload ls result pub E show ?thesis by blast
qed

definition sample_diagnosis_run :: "(Status \<times> string \<times> string) \<times> tasks_db" where
  "sample_diagnosis_run = diagnosis_Process sample_diagnosis (\<lambda>_ d. d) (sample_env 80 30) (hd (tasks sample_db2)) (hd (runs sample_db2)) sample_db2"

lemma sample_diagnosis_succeeds: "fst sample_diagnosis_run = (StatusSucceeded, [], ''CI diagnosis completed with 1 hypotheses'')"
  by code_simp

theorem diagnosis_success_truthful_witness: "evidence (snd sample_diagnosis_run) \<noteq> []"
proof -
  have run: "diagnosis_Process sample_diagnosis (\<lambda>_ d. d) (sample_env 80 30) (hd (tasks sample_db2)) (hd (runs sample_db2)) sample_db2
      = ((StatusSucceeded, [], ''CI diagnosis completed with 1 hypotheses''), snd sample_diagnosis_run)"
    using sample_diagnosis_succeeds by (metis prod.collapse sample_diagnosis_run_def)
  from diagnosis_success_truthful [OF subset_refl subset_refl run] obtain pv and payload :: workflowPayload and logs chs where
    a: "dw_provider sample_diagnosis = Some pv"
    "wp_FetchLogs pv (wp_RepositoryName payload) (wp_InstallationID payload) (wp_WorkflowRunID payload) = Inr logs"
    "RedactAndChunkLogs logs (dw_patterns sample_diagnosis) DefaultChunkSize = Inr chs"
    and rows: "\<forall>ch \<in> set chs. \<exists>row \<in> set (evidence (snd sample_diagnosis_run)). evd_TaskID row = task_ID (hd (tasks sample_db2)) \<and>
       evd_RunID row = run_ID (hd (runs sample_db2)) \<and> evd_Kind row = ''ci_log'' \<and> evd_Content row = dw_marshal_chunk sample_diagnosis ch \<and>
       evd_Digest row = EncodeToString (dw_sha sample_diagnosis (dw_marshal_chunk sample_diagnosis ch))"
    by (elim exE conjE) (rule that; assumption)
  have "logs = ''password: hunter2''" using a(1,2) by (auto simp: sample_diagnosis_def)
  then have "RedactAndChunkLogs ''password: hunter2'' [] DefaultChunkSize = Inr chs" using a(3) by (simp add: sample_diagnosis_def)
  moreover have "RedactAndChunkLogs ''password: hunter2'' [] DefaultChunkSize \<noteq> Inr []" by code_simp
  ultimately have "chs \<noteq> []" by auto
  with rows show ?thesis by (cases chs) auto
qed

end
