(* ===== verification/GitHub.thy ===== *)
theory GitHub
  imports SCM_Store Diagnosis
begin

text \<open>
  The GitHub adapter (\<open>src/server/internal/scm/github.go\<close>): App authentication, the installation's repositories, publication of reviews, diagnoses and draft
  pull requests, workflow logs and webhook verification.

  \<^item> A call of the GitHub API is a value of type \<open>'a http\<close>: it extends the log of the requests sent so far and returns a result or an error. The server is a function
    of that whole log (\<open>hc_Do\<close>), so it may answer the same request differently each time. \<open>andThen\<close> is the sequence \<open>x, err := f(); if err != nil { return err }\<close>.
  \<^item> The body of a request is the value handed to \<open>json.Marshal\<close>. \<open>github_world\<close> holds the decoders of the response types, SHA-256, HMAC, the zip reader
    and the key parsers; a private key is its signing function.
\<close>

section \<open>HTTP\<close>

datatype json_value = JString string | JInt int | JBool bool | JList "json_value list" | JObject "(string \<times> json_value) list"

datatype http_body = NoBody | JsonBody json_value | RawBody string | FormBody "(string \<times> string) list"

record request =
  rq_Method :: string
  rq_URL :: string
  rq_Header :: "(string \<times> string) list"
  rq_Body :: http_body

record response =
  rs_StatusCode :: int
  rs_Body :: string
  rs_ReadError :: "string option"

type_synonym http_log = "request list"
type_synonym 'a http = "http_log \<Rightarrow> (scm_error + 'a) \<times> http_log"

record http_client =
  hc_NewRequest :: "string \<Rightarrow> string option"
  hc_Do :: "http_log \<Rightarrow> request \<Rightarrow> string + response"

definition ret :: "'a \<Rightarrow> 'a http" where
  "ret x log = (Inr x, log)"

definition throw :: "scm_error \<Rightarrow> 'a http" where
  "throw e log = (Inl e, log)"

definition andThen :: "'a http \<Rightarrow> ('a \<Rightarrow> 'b http) \<Rightarrow> 'b http" where
  "andThen m f log = (case m log of (Inl e, log') \<Rightarrow> (Inl e, log') | (Inr x, log') \<Rightarrow> f x log')"

text \<open>\<open>if err := f(); err != nil\<close> where the error is handled rather than returned.\<close>

definition attempt :: "'a http \<Rightarrow> (scm_error + 'a) http" where
  "attempt m log = (case m log of (r, log') \<Rightarrow> (Inr r, log'))"

text \<open>Sending a request: a malformed URL is rejected before anything is sent; other statuses than 2xx are errors.\<close>

definition send :: "http_client \<Rightarrow> string \<Rightarrow> request \<Rightarrow> response http" where
  "send H name rq log =
    (case hc_NewRequest H (rq_URL rq) of
       Some msg \<Rightarrow> (Inl (ScmMessage msg), log)
     | None \<Rightarrow>
         (case hc_Do H log rq of
            Inl msg \<Rightarrow> (Inl (ScmMessage msg), log @ [rq])
          | Inr rs \<Rightarrow>
              if rs_StatusCode rs < 200 \<or> rs_StatusCode rs \<ge> 300
              then (Inl (ScmMessage (name @ '' returned '' @ itoa (rs_StatusCode rs))), log @ [rq])
              else (Inr rs, log @ [rq])))"

text \<open>\<open>io.LimitReader\<close> of a body that is read to its end.\<close>

definition LimitReader :: "int \<Rightarrow> string \<Rightarrow> string" where
  "LimitReader n body = (if int (length body) \<le> n then body else take (nat n) body)"

lemma LimitReader_take: "LimitReader (int n) body = take n body"
  by (simp add: LimitReader_def)

definition decoded :: "string + 'a \<Rightarrow> 'a http" where
  "decoded r = (case r of Inl msg \<Rightarrow> throw (ScmMessage msg) | Inr x \<Rightarrow> ret x)"

section \<open>Strings (net/url, strings)\<close>

definition TrimRight :: "string \<Rightarrow> char \<Rightarrow> string" where
  "TrimRight s c = rev (dropWhile (\<lambda>x. x = c) (rev s))"

definition unreserved :: "char \<Rightarrow> bool" where
  "unreserved c = (let n = of_char c :: nat in (48 \<le> n \<and> n \<le> 57) \<or> (65 \<le> n \<and> n \<le> 90) \<or> (97 \<le> n \<and> n \<le> 122) \<or> c \<in> set ''-_.~'')"

definition percent :: "char \<Rightarrow> string" where
  "percent c = (let n = of_char c :: nat in [CHR ''%'', ''0123456789ABCDEF'' ! (n div 16), ''0123456789ABCDEF'' ! (n mod 16)])"

definition PathEscape :: "string \<Rightarrow> string" where
  "PathEscape s = concat (map (\<lambda>c. if unreserved c \<or> c \<in> set ''$&+=:@'' then [c] else percent c) s)"

definition QueryEscape :: "string \<Rightarrow> string" where
  "QueryEscape s = concat (map (\<lambda>c. if unreserved c then [c] else if c = CHR '' '' then ''+'' else percent c) s)"

definition bytes_of :: "string \<Rightarrow> 8 word list" where
  "bytes_of s = map (\<lambda>c. of_nat (of_char c)) s"

text \<open>\<open>Time.Unix()\<close>: the zero time is second \<open>-62135596800\<close>.\<close>

definition Unix :: "time \<Rightarrow> int" where
  "Unix t = t div second - 62135596800"

definition validGitHubRepository :: "string \<Rightarrow> bool" where
  "validGitHubRepository value =
    (let parts = Split (TrimSpace value) (CHR ''/'')
     in length parts = 2 \<and> parts ! 0 \<noteq> [] \<and> parts ! 1 \<noteq> [] \<and>
        list_all (\<lambda>part. \<not> ContainsAny part [CHR 0x5C, CHR ''?'', CHR ''#'', CHR ''%'', CHR 0x22, CHR 0x27, CHR '' ''] \<and>
          part \<noteq> ''.'' \<and> part \<noteq> ''..'') parts)"

section \<open>The adapter\<close>

type_synonym signer = "8 word list \<Rightarrow> string + 8 word list"

datatype parsed_key = RSAKey signer | OtherKey

record GitHubConfig =
  ghc_AppID :: int
  ghc_Slug :: string
  ghc_PrivateKeyPEM :: string
  ghc_WebhookSecret :: string
  ghc_APIBaseURL :: string
  ghc_WebBaseURL :: string

record GitHubAdapter =
  gha_config :: GitHubConfig
  gha_key :: "signer option"

record gh_repository =
  ghr_ID :: int
  ghr_FullName :: string
  ghr_CloneURL :: string
  ghr_HTMLURL :: string
  ghr_DefaultBranch :: string
  ghr_Visibility :: string
  ghr_Private :: bool
  ghr_Archived :: bool
  ghr_Language :: string

record ScmIssue =
  sci_Number :: int
  sci_Title :: string
  sci_Body :: string
  sci_WebURL :: string
  sci_State :: string
  sci_IsPullRequest :: bool

record DraftFile =
  df_Path :: string
  df_Content :: string

record DraftPublication =
  dp_Repository :: string
  dp_InstallationID :: string
  dp_BaseBranch :: string
  dp_BaseSHA :: string
  dp_BranchName :: string
  dp_Title :: string
  dp_Body :: string
  dp_Files :: "DraftFile list"

record DraftPull =
  dpr_Number :: int
  dpr_URL :: string

text \<open>The parts of a webhook payload the code reads; \<open>pl_IssueIsPull\<close> says that the issue's \<open>pull_request\<close> object is not empty.\<close>

record gh_payload =
  pl_Action :: string
  pl_Ref :: string
  pl_Number :: int
  pl_InstallationID :: int
  pl_RepositoryID :: int
  pl_FullName :: string
  pl_CloneURL :: string
  pl_HTMLURL :: string
  pl_DefaultBranch :: string
  pl_IssueNumber :: int
  pl_IssueTitle :: string
  pl_IssueBody :: string
  pl_IssueHTMLURL :: string
  pl_IssueState :: string
  pl_IssueIsPull :: bool
  pl_PullNumber :: int
  pl_HeadRef :: string
  pl_HeadSHA :: string
  pl_BaseRef :: string
  pl_Login :: string
  pl_RunID :: int
  pl_RunName :: string
  pl_RunHTMLURL :: string
  pl_RunLogsURL :: string
  pl_RunHeadSHA :: string
  pl_RunStatus :: string
  pl_RunConclusion :: string

record zip_entry =
  ze_Name :: string
  ze_IsDir :: bool
  ze_Open :: "string option"
  ze_Content :: string
  ze_ReadError :: "string option"

record github_world =
  gw_client :: http_client
  gw_num_error :: "string \<Rightarrow> string"
  gw_sha256 :: "string \<Rightarrow> 8 word list"
  gw_hmac :: "string \<Rightarrow> string \<Rightarrow> 8 word list"
  gw_pem :: "string \<Rightarrow> string option"
  gw_pkcs8 :: "string \<Rightarrow> parsed_key option"
  gw_pkcs1 :: "string \<Rightarrow> signer option"
  gw_unzip :: "string \<Rightarrow> string + zip_entry list"
  gw_payload :: "string \<Rightarrow> gh_payload option"
  gw_installation :: "string \<Rightarrow> string + int \<times> string"
  gw_token :: "string \<Rightarrow> string + string"
  gw_repositories :: "string \<Rightarrow> string + gh_repository list"
  gw_issue :: "string \<Rightarrow> string + ScmIssue"
  gw_object_sha :: "string \<Rightarrow> string + string"
  gw_sha :: "string \<Rightarrow> string + string"
  gw_object :: "string \<Rightarrow> string + unit"
  gw_pull :: "string \<Rightarrow> string + DraftPull"
  gw_pulls :: "string \<Rightarrow> string + (DraftPull \<times> bool) list"

definition NewGitHubAdapter :: "github_world \<Rightarrow> GitHubConfig \<Rightarrow> string + GitHubAdapter" where
  "NewGitHubAdapter G config =
    (let config = config\<lparr>ghc_APIBaseURL := (if ghc_APIBaseURL config = [] then ''https://api.github.com'' else ghc_APIBaseURL config),
         ghc_WebBaseURL := (if ghc_WebBaseURL config = [] then ''https://github.com'' else ghc_WebBaseURL config)\<rparr>
     in if ghc_PrivateKeyPEM config = [] then Inr \<lparr>gha_config = config, gha_key = None\<rparr>
        else case gw_pem G (ghc_PrivateKeyPEM config) of
          None \<Rightarrow> Inl ''decode GitHub App private key''
        | Some block \<Rightarrow>
            (case gw_pkcs8 G block of
               Some (RSAKey key) \<Rightarrow> Inr \<lparr>gha_config = config, gha_key = Some key\<rparr>
             | Some OtherKey \<Rightarrow> Inl ''GitHub App key is not RSA''
             | None \<Rightarrow>
                 (case gw_pkcs1 G block of
                    Some key \<Rightarrow> Inr \<lparr>gha_config = config, gha_key = Some key\<rparr>
                  | None \<Rightarrow> Inl ''parse GitHub App private key'')))"

definition Available :: "GitHubAdapter \<Rightarrow> bool" where
  "Available a \<longleftrightarrow> ghc_AppID (gha_config a) > 0 \<and> ghc_Slug (gha_config a) \<noteq> [] \<and> gha_key a \<noteq> None \<and> ghc_WebhookSecret (gha_config a) \<noteq> []"

definition ConnectURL :: "GitHubAdapter \<Rightarrow> string \<Rightarrow> string \<Rightarrow> scm_error + string" where
  "ConnectURL a state challenge =
    (if \<not> Available a then Inl ErrProviderUnavailable
     else Inr (TrimRight (ghc_WebBaseURL (gha_config a)) (CHR ''/'') @ ''/apps/'' @ PathEscape (ghc_Slug (gha_config a)) @
       ''/installations/new?state='' @ QueryEscape state))"

definition api_url :: "GitHubAdapter \<Rightarrow> string \<Rightarrow> string" where
  "api_url a path = TrimRight (ghc_APIBaseURL (gha_config a)) (CHR ''/'') @ path"

definition api_request :: "GitHubAdapter \<Rightarrow> string \<Rightarrow> string \<Rightarrow> string \<Rightarrow> http_body \<Rightarrow> request" where
  "api_request a meth path token body = \<lparr>rq_Method = meth, rq_URL = api_url a path,
     rq_Header = [(''Accept'', ''application/vnd.github+json''), (''Authorization'', ''Bearer '' @ token), (''X-GitHub-Api-Version'', ''2022-11-28'')] @
       (if body = NoBody then [] else [(''Content-Type'', ''application/json'')]),
     rq_Body = body\<rparr>"

definition tokenJSON ::
  "github_world \<Rightarrow> GitHubAdapter \<Rightarrow> (string \<Rightarrow> string + 'a) \<Rightarrow> string \<Rightarrow> string \<Rightarrow> string \<Rightarrow> http_body \<Rightarrow> 'a http" where
  "tokenJSON G a decode meth path token body =
    andThen (send (gw_client G) ''GitHub API'' (api_request a meth path token body))
      (\<lambda>rs. decoded (decode (LimitReader 4194304 (rs_Body rs))))"

definition appJWT :: "github_world \<Rightarrow> GitHubAdapter \<Rightarrow> time \<Rightarrow> scm_error + string" where
  "appJWT G a now =
    (case gha_key a of
       None \<Rightarrow> Inl ErrProviderUnavailable
     | Some sign \<Rightarrow>
         let header = ''{\"alg\":\"RS256\",\"typ\":\"JWT\"}'';
           claims = ''{\"exp\":'' @ itoa (Unix (now + 9 * minute)) @ '',\"iat\":'' @ itoa (Unix (now - 30 * second)) @
             '',\"iss\":'' @ itoa (ghc_AppID (gha_config a)) @ ''}'';
           unsigned = RawURLEncode (bytes_of header) @ ''.'' @ RawURLEncode (bytes_of claims)
         in (case sign (gw_sha256 G unsigned) of
           Inl msg \<Rightarrow> Inl (ScmMessage msg)
         | Inr signature \<Rightarrow> Inr (unsigned @ ''.'' @ RawURLEncode signature)))"

definition appJSON ::
  "github_world \<Rightarrow> GitHubAdapter \<Rightarrow> time \<Rightarrow> (string \<Rightarrow> string + 'a) \<Rightarrow> string \<Rightarrow> string \<Rightarrow> http_body \<Rightarrow> 'a http" where
  "appJSON G a now decode meth path body =
    (case appJWT G a now of Inl e \<Rightarrow> throw e | Inr token \<Rightarrow> tokenJSON G a decode meth path token body)"

definition tokenBytes :: "github_world \<Rightarrow> GitHubAdapter \<Rightarrow> string \<Rightarrow> string \<Rightarrow> string \<Rightarrow> int \<Rightarrow> string http" where
  "tokenBytes G a meth path token maxBytes =
    andThen (send (gw_client G) ''GitHub API'' (api_request a meth path token NoBody))
      (\<lambda>rs. case rs_ReadError rs of
         Some msg \<Rightarrow> if int (length (rs_Body rs)) > maxBytes then throw (ScmMessage ''GitHub response exceeds limit'') else throw (ScmMessage msg)
       | None \<Rightarrow> if int (length (rs_Body rs)) > maxBytes then throw (ScmMessage ''GitHub response exceeds limit'') else ret (rs_Body rs))"

section \<open>Connecting and listing repositories\<close>

definition Complete :: "github_world \<Rightarrow> GitHubAdapter \<Rightarrow> time \<Rightarrow> Callback \<Rightarrow> string \<Rightarrow> (RemoteConnection \<times> Credential) http" where
  "Complete G a now callback verifier =
    (case ParseInt (cb_InstallationID callback) of
       None \<Rightarrow> throw (ScmMessage ''invalid GitHub installation'')
     | Some installationID \<Rightarrow>
         if installationID \<le> 0 then throw (ScmMessage ''invalid GitHub installation'')
         else andThen (appJSON G a now (gw_installation G) ''GET'' (''/app/installations/'' @ itoa installationID) NoBody)
           (\<lambda>(i, login).
              if i \<noteq> installationID \<or> login = [] then throw (ScmMessage ''invalid GitHub installation response'')
              else ret (\<lparr>rc_Provider = ProviderGitHub, rc_Name = login, rc_ExternalAccountID = itoa installationID,
                rc_BaseURL = TrimRight (ghc_WebBaseURL (gha_config a)) (CHR ''/'')\<rparr>,
                \<lparr>cred_AccessToken = [], cred_RefreshToken = [], cred_ExpiresAt = 0\<rparr>)))"

definition remote_repository :: "gh_repository \<Rightarrow> RemoteRepository" where
  "remote_repository r = \<lparr>rem_ProviderRepositoryID = itoa (ghr_ID r), rem_FullName = ghr_FullName r, rem_CloneURL = ghr_CloneURL r,
     rem_WebURL = ghr_HTMLURL r, rem_DefaultBranch = ghr_DefaultBranch r,
     rem_Visibility = (if ghr_Visibility r = [] \<and> ghr_Private r then ''private'' else ghr_Visibility r),
     rem_Archived = ghr_Archived r, rem_Metadata = [''language'' \<mapsto> AnyString (ghr_Language r)]\<rparr>"

text \<open>
  The loop \<open>for page := 1; ; page++\<close>, which ends at the first page with fewer than 100 entries or at an error; \<open>None\<close> is a loop that never ends.
\<close>

partial_function (option) list_pages ::
  "(int \<Rightarrow> 'a list http) \<Rightarrow> int \<Rightarrow> 'a list \<Rightarrow> http_log \<Rightarrow> ((scm_error + 'a list) \<times> http_log) option" where
  "list_pages fetch page acc log =
    (let r = fetch page log
     in if isl (fst r) then Some (Inl (projl (fst r)), snd r)
        else if length (projr (fst r)) < 100 then Some (Inr (acc @ projr (fst r)), snd r)
        else list_pages fetch (page + 1) (acc @ projr (fst r)) (snd r))"

declare list_pages.simps [code]

definition fetch_repositories :: "github_world \<Rightarrow> GitHubAdapter \<Rightarrow> string \<Rightarrow> int \<Rightarrow> RemoteRepository list http" where
  "fetch_repositories G a token page =
    andThen (tokenJSON G a (gw_repositories G) ''GET'' (''/installation/repositories?per_page=100&page='' @ itoa page) token NoBody)
      (\<lambda>rs. ret (map remote_repository rs))"

definition Repositories ::
  "github_world \<Rightarrow> GitHubAdapter \<Rightarrow> time \<Rightarrow> RemoteConnection \<Rightarrow> Credential \<Rightarrow> http_log \<Rightarrow>
   ((scm_error + RemoteRepository list \<times> Credential) \<times> http_log) option" where
  "Repositories G a now connection credential log =
    (case ParseInt (rc_ExternalAccountID connection) of
       None \<Rightarrow> Some (Inl (ScmMessage (gw_num_error G (rc_ExternalAccountID connection))), log)
     | Some installationID \<Rightarrow>
         (case appJSON G a now (gw_token G) ''POST'' (''/app/installations/'' @ itoa installationID @ ''/access_tokens'') (RawBody ''{}'') log of
            (Inl e, log1) \<Rightarrow> Some (Inl e, log1)
          | (Inr token, log1) \<Rightarrow>
              if token = [] then Some (Inl (ScmMessage ''GitHub installation token missing''), log1)
              else (case list_pages (fetch_repositories G a token) 1 [] log1 of
                None \<Rightarrow> None
              | Some (Inl e, log2) \<Rightarrow> Some (Inl e, log2)
              | Some (Inr rs, log2) \<Rightarrow>
                  Some (Inr (rs, \<lparr>cred_AccessToken = [], cred_RefreshToken = [], cred_ExpiresAt = 0\<rparr>), log2))))"

definition InstallationToken :: "github_world \<Rightarrow> GitHubAdapter \<Rightarrow> time \<Rightarrow> string \<Rightarrow> string http" where
  "InstallationToken G a now installationID =
    (case ParseInt (TrimSpace installationID) of
       None \<Rightarrow> throw (ScmMessage ''invalid GitHub installation'')
     | Some i \<Rightarrow>
         if i \<le> 0 then throw (ScmMessage ''invalid GitHub installation'')
         else andThen (appJSON G a now (gw_token G) ''POST'' (''/app/installations/'' @ itoa i @ ''/access_tokens'') (RawBody ''{}''))
           (\<lambda>token. if token = [] then throw (ScmMessage ''GitHub installation token missing'') else ret token))"

section \<open>Publishing results and reading logs, issues and branches\<close>

definition createCheckRun ::
  "github_world \<Rightarrow> GitHubAdapter \<Rightarrow> string \<Rightarrow> string \<Rightarrow> string \<Rightarrow> string \<Rightarrow> string \<Rightarrow> bool \<Rightarrow> unit http" where
  "createCheckRun G a token repository sha name summary actionRequired =
    tokenJSON G a (gw_object G) ''POST'' (''/repos/'' @ repository @ ''/check-runs'') token
      (JsonBody (JObject [(''name'', JString name), (''head_sha'', JString sha), (''status'', JString ''completed''),
        (''conclusion'', JString (if actionRequired then ''action_required'' else ''success'')),
        (''output'', JObject [(''title'', JString name), (''summary'', JString summary)])]))"

definition CreateCheckRun :: "github_world \<Rightarrow> GitHubAdapter \<Rightarrow> string \<Rightarrow> string \<Rightarrow> string \<Rightarrow> string \<Rightarrow> int \<Rightarrow> unit http" where
  "CreateCheckRun G a token repository sha summary findingCount =
    createCheckRun G a token repository sha ''RepoMender Code Review'' summary (findingCount > 0)"

definition CreateDiagnosisCheckRun :: "github_world \<Rightarrow> GitHubAdapter \<Rightarrow> string \<Rightarrow> string \<Rightarrow> string \<Rightarrow> string \<Rightarrow> unit http" where
  "CreateDiagnosisCheckRun G a token repository sha summary =
    createCheckRun G a token repository sha ''RepoMender CI Diagnosis'' summary True"

fun collect_logs :: "zip_entry list \<Rightarrow> string \<Rightarrow> scm_error + string" where
  "collect_logs [] output = Inr output"
| "collect_logs (entry # rest) output =
    (if ze_IsDir entry then collect_logs rest output
     else case ze_Open entry of
       Some msg \<Rightarrow> Inl (ScmMessage msg)
     | None \<Rightarrow>
         if int (length (ze_Content entry)) > 8388608 then Inl (ScmMessage ''workflow log entry exceeds limit'')
         else (case ze_ReadError entry of
           Some msg \<Rightarrow> Inl (ScmMessage msg)
         | None \<Rightarrow>
             if int (length output) + int (length (ze_Content entry)) > 8388608 then Inl (ScmMessage ''workflow logs exceed limit'')
             else collect_logs rest (output @ (if output \<noteq> [] then [CHR 0x0A] else []) @ ''== '' @
               ReplaceByte (ze_Name entry) (CHR 0x0A) (CHR ''_'') @ '' =='' @ [CHR 0x0A] @ ze_Content entry)))"

definition DownloadWorkflowLogs :: "github_world \<Rightarrow> GitHubAdapter \<Rightarrow> string \<Rightarrow> string \<Rightarrow> int \<Rightarrow> string http" where
  "DownloadWorkflowLogs G a token repository runID =
    (if runID \<le> 0 \<or> \<not> validGitHubRepository repository then throw (ScmMessage ''invalid workflow log request'')
     else andThen (tokenBytes G a ''GET'' (''/repos/'' @ repository @ ''/actions/runs/'' @ itoa runID @ ''/logs'') token 8388608)
       (\<lambda>body. case gw_unzip G body of
          Inl msg \<Rightarrow> throw (ScmMessage (''decode workflow logs: '' @ msg))
        | Inr entries \<Rightarrow>
            (case collect_logs entries [] of
               Inl e \<Rightarrow> throw e
             | Inr output \<Rightarrow> if output = [] then throw (ScmMessage ''workflow logs are empty'') else ret output)))"

definition CreateIssueComment :: "github_world \<Rightarrow> GitHubAdapter \<Rightarrow> string \<Rightarrow> string \<Rightarrow> int \<Rightarrow> string \<Rightarrow> unit http" where
  "CreateIssueComment G a token repository number bodyText =
    tokenJSON G a (gw_object G) ''POST'' (''/repos/'' @ repository @ ''/issues/'' @ itoa number @ ''/comments'') token
      (JsonBody (JObject [(''body'', JString bodyText)]))"

definition GetIssue :: "github_world \<Rightarrow> GitHubAdapter \<Rightarrow> string \<Rightarrow> string \<Rightarrow> int \<Rightarrow> ScmIssue http" where
  "GetIssue G a token repository number =
    (if number \<le> 0 \<or> \<not> validGitHubRepository repository then throw (ScmMessage ''invalid GitHub issue request'')
     else andThen (tokenJSON G a (gw_issue G) ''GET'' (''/repos/'' @ repository @ ''/issues/'' @ itoa number) token NoBody)
       (\<lambda>issue. if sci_Number issue \<noteq> number \<or> TrimSpace (sci_Title issue) = []
          then throw (ScmMessage ''GitHub issue response is incomplete'') else ret issue))"

definition ResolveDefaultBranchSHA :: "github_world \<Rightarrow> GitHubAdapter \<Rightarrow> string \<Rightarrow> string \<Rightarrow> string \<Rightarrow> string http" where
  "ResolveDefaultBranchSHA G a token repository branch =
    (if \<not> validGitHubRepository repository \<or> TrimSpace branch = [] \<or> ContainsAny branch [CHR 0x0D, CHR 0x0A]
     then throw (ScmMessage ''invalid GitHub base branch request'')
     else andThen (tokenJSON G a (gw_object_sha G) ''GET'' (''/repos/'' @ repository @ ''/git/ref/heads/'' @ branch) token NoBody)
       (\<lambda>sha. if length sha \<noteq> 40 \<or> \<not> is_hex sha then throw (ScmMessage ''GitHub base commit response is invalid'') else ret sha))"

section \<open>Draft pull requests\<close>

definition validRepairPath :: "string \<Rightarrow> bool" where
  "validRepairPath s =
    (let value = TrimSpace (ReplaceByte s (CHR 0x5C) (CHR ''/''))
     in value \<noteq> [] \<and> \<not> HasPrefix value ''/'' \<and> \<not> Contains value ''../'' \<and> value \<noteq> ''..'' \<and> \<not> HasPrefix value ''.git/'')"

definition findDraftPullRequest :: "github_world \<Rightarrow> GitHubAdapter \<Rightarrow> string \<Rightarrow> string \<Rightarrow> string \<Rightarrow> DraftPull option http" where
  "findDraftPullRequest G a token repository branch =
    andThen (attempt (tokenJSON G a (gw_pulls G) ''GET''
        (''/repos/'' @ repository @ ''/pulls?state=all&head='' @ hd (Split repository (CHR ''/'')) @ '':'' @ branch) token NoBody))
      (\<lambda>r. case r of Inl _ \<Rightarrow> ret None | Inr prs \<Rightarrow> ret (map_option fst (find snd prs)))"

text \<open>The branch: \<open>Inl\<close> a draft that another run opened meanwhile, \<open>Inr\<close> the commit to build on.\<close>

definition draft_branch :: "github_world \<Rightarrow> GitHubAdapter \<Rightarrow> string \<Rightarrow> DraftPublication \<Rightarrow> (DraftPull + string) http" where
  "draft_branch G a token inp =
    andThen (attempt (tokenJSON G a (gw_object_sha G) ''GET'' (''/repos/'' @ dp_Repository inp @ ''/git/ref/heads/'' @ dp_BranchName inp) token NoBody))
      (\<lambda>r. if (case r of Inl _ \<Rightarrow> False | Inr sha \<Rightarrow> sha \<noteq> []) then ret (Inr (projr r))
         else andThen (attempt (tokenJSON G a (gw_object G) ''POST'' (''/repos/'' @ dp_Repository inp @ ''/git/refs'') token
             (JsonBody (JObject [(''ref'', JString (''refs/heads/'' @ dp_BranchName inp)), (''sha'', JString (dp_BaseSHA inp))]))))
           (\<lambda>c. case c of
              Inr _ \<Rightarrow> ret (Inr (dp_BaseSHA inp))
            | Inl e \<Rightarrow> andThen (findDraftPullRequest G a token (dp_Repository inp) (dp_BranchName inp))
                (\<lambda>existing. case existing of Some pr \<Rightarrow> ret (Inl pr) | None \<Rightarrow> throw e)))"

fun draft_files :: "github_world \<Rightarrow> GitHubAdapter \<Rightarrow> string \<Rightarrow> string \<Rightarrow> DraftFile list \<Rightarrow> json_value list http" where
  "draft_files G a token repository [] = ret []"
| "draft_files G a token repository (f # fs) =
    (if \<not> validRepairPath (df_Path f) \<or> CHR 0x00 \<in> set (df_Content f) \<or> \<not> ValidString (df_Content f)
     then throw (ScmMessage ''invalid repair file'')
     else andThen (tokenJSON G a (gw_sha G) ''POST'' (''/repos/'' @ repository @ ''/git/blobs'') token
         (JsonBody (JObject [(''content'', JString (df_Content f)), (''encoding'', JString ''utf-8'')])))
       (\<lambda>sha. andThen (draft_files G a token repository fs)
         (\<lambda>entries. ret (JObject [(''path'', JString (df_Path f)), (''mode'', JString ''100644''), (''type'', JString ''blob''), (''sha'', JString sha)] # entries))))"

text \<open>The commit: a tree on top of the base, the commit itself and the move of the branch to it.\<close>

definition draft_commit :: "github_world \<Rightarrow> GitHubAdapter \<Rightarrow> string \<Rightarrow> DraftPublication \<Rightarrow> string \<Rightarrow> json_value list \<Rightarrow> unit http" where
  "draft_commit G a token inp baseSHA entries =
    andThen (tokenJSON G a (gw_sha G) ''POST'' (''/repos/'' @ dp_Repository inp @ ''/git/trees'') token
        (JsonBody (JObject [(''base_tree'', JString baseSHA), (''tree'', JList entries)])))
      (\<lambda>tree. andThen (tokenJSON G a (gw_sha G) ''POST'' (''/repos/'' @ dp_Repository inp @ ''/git/commits'') token
          (JsonBody (JObject [(''message'', JString (dp_Title inp)), (''tree'', JString tree), (''parents'', JList [JString baseSHA])])))
        (\<lambda>commit. tokenJSON G a (gw_object G) ''PATCH'' (''/repos/'' @ dp_Repository inp @ ''/git/refs/heads/'' @ dp_BranchName inp) token
          (JsonBody (JObject [(''sha'', JString commit), (''force'', JBool False)]))))"

definition draft_pull :: "github_world \<Rightarrow> GitHubAdapter \<Rightarrow> string \<Rightarrow> DraftPublication \<Rightarrow> DraftPull http" where
  "draft_pull G a token inp =
    andThen (attempt (tokenJSON G a (gw_pull G) ''POST'' (''/repos/'' @ dp_Repository inp @ ''/pulls'') token
        (JsonBody (JObject [(''title'', JString (dp_Title inp)), (''body'', JString (dp_Body inp)), (''head'', JString (dp_BranchName inp)),
          (''base'', JString (dp_BaseBranch inp)), (''draft'', JBool True)]))))
      (\<lambda>r. case r of
         Inr pr \<Rightarrow> ret pr
       | Inl e \<Rightarrow> andThen (findDraftPullRequest G a token (dp_Repository inp) (dp_BranchName inp))
           (\<lambda>existing. case existing of Some pr \<Rightarrow> ret pr | None \<Rightarrow> throw e))"

definition PublishDraft :: "github_world \<Rightarrow> GitHubAdapter \<Rightarrow> string \<Rightarrow> DraftPublication \<Rightarrow> DraftPull http" where
  "PublishDraft G a token inp =
    (if \<not> validGitHubRepository (dp_Repository inp) \<or> dp_BaseBranch inp = [] \<or> dp_BaseSHA inp = [] \<or> dp_BranchName inp = [] \<or>
        dp_Title inp = [] \<or> dp_Files inp = []
     then throw (ScmMessage ''invalid GitHub draft publication'')
     else if dp_BranchName inp = dp_BaseBranch inp \<or> HasPrefix (dp_BranchName inp) ''main'' \<or> HasPrefix (dp_BranchName inp) ''master''
     then throw (ScmMessage ''protected branch publication rejected'')
     else andThen (findDraftPullRequest G a token (dp_Repository inp) (dp_BranchName inp))
       (\<lambda>existing. case existing of
          Some pr \<Rightarrow> ret pr
        | None \<Rightarrow> andThen (draft_branch G a token inp)
            (\<lambda>base. case base of
               Inl pr \<Rightarrow> ret pr
             | Inr baseSHA \<Rightarrow> andThen (draft_files G a token (dp_Repository inp) (dp_Files inp))
                 (\<lambda>entries. andThen (draft_commit G a token inp baseSHA entries)
                   (\<lambda>_. draft_pull G a token inp)))))"

section \<open>Webhooks\<close>

definition expected_signature :: "github_world \<Rightarrow> GitHubAdapter \<Rightarrow> string \<Rightarrow> string" where
  "expected_signature G a body = ''sha256='' @ EncodeToString (gw_hmac G (ghc_WebhookSecret (gha_config a)) body)"

definition VerifyWebhook :: "github_world \<Rightarrow> GitHubAdapter \<Rightarrow> (string \<Rightarrow> string) \<Rightarrow> string \<Rightarrow> scm_error + WebhookEvent" where
  "VerifyWebhook G a headers body =
    (let signature = headers ''X-Hub-Signature-256''; deliveryID = headers ''X-GitHub-Delivery''; eventType = headers ''X-GitHub-Event''
     in if signature = [] \<or> deliveryID = [] \<or> eventType = [] \<or> ghc_WebhookSecret (gha_config a) = [] then Inl ErrInvalidWebhook
        else if signature \<noteq> expected_signature G a body then Inl ErrInvalidWebhook
        else case gw_payload G body of
          None \<Rightarrow> Inl ErrInvalidWebhook
        | Some p \<Rightarrow>
            if eventType = ''workflow_run'' then
              (if pl_RunID p \<le> 0 \<or> pl_RunHeadSHA p = [] then Inl ErrInvalidWebhook
               else Inr \<lparr>we_DeliveryID = deliveryID, we_EventType = eventType, we_Normalized =
                 [''action'' \<mapsto> AnyString (pl_Action p), ''conclusion'' \<mapsto> AnyString (pl_RunConclusion p),
                  ''installationId'' \<mapsto> AnyInt64 (pl_InstallationID p), ''repositoryId'' \<mapsto> AnyInt64 (pl_RepositoryID p),
                  ''repository'' \<mapsto> AnyString (pl_FullName p), ''cloneURL'' \<mapsto> AnyString (pl_CloneURL p),
                  ''webURL'' \<mapsto> AnyString (pl_RunHTMLURL p), ''workflowRunId'' \<mapsto> AnyInt64 (pl_RunID p),
                  ''workflowName'' \<mapsto> AnyString (pl_RunName p), ''logsURL'' \<mapsto> AnyString (pl_RunLogsURL p),
                  ''headSHA'' \<mapsto> AnyString (pl_RunHeadSHA p), ''status'' \<mapsto> AnyString (pl_RunStatus p)]\<rparr>)
            else if eventType = ''issues'' then
              (if pl_IssueNumber p \<le> 0 \<or> TrimSpace (pl_IssueTitle p) = [] \<or> pl_RepositoryID p \<le> 0 \<or> pl_FullName p = [] \<or> pl_DefaultBranch p = []
               then Inl ErrInvalidWebhook
               else Inr \<lparr>we_DeliveryID = deliveryID, we_EventType = eventType, we_Normalized =
                 [''action'' \<mapsto> AnyString (pl_Action p), ''installationId'' \<mapsto> AnyInt64 (pl_InstallationID p),
                  ''repositoryId'' \<mapsto> AnyInt64 (pl_RepositoryID p), ''repository'' \<mapsto> AnyString (pl_FullName p),
                  ''cloneURL'' \<mapsto> AnyString (pl_CloneURL p), ''webURL'' \<mapsto> AnyString (pl_IssueHTMLURL p),
                  ''defaultBranch'' \<mapsto> AnyString (pl_DefaultBranch p), ''issueNumber'' \<mapsto> AnyInt (pl_IssueNumber p),
                  ''issueTitle'' \<mapsto> AnyString (pl_IssueTitle p), ''issueBody'' \<mapsto> AnyString (pl_IssueBody p),
                  ''issueState'' \<mapsto> AnyString (pl_IssueState p), ''isPullRequest'' \<mapsto> AnyBool (pl_IssueIsPull p)]\<rparr>)
            else Inr \<lparr>we_DeliveryID = deliveryID, we_EventType = eventType, we_Normalized =
                 [''action'' \<mapsto> AnyString (pl_Action p), ''ref'' \<mapsto> AnyString (pl_Ref p),
                  ''installationId'' \<mapsto> AnyInt64 (pl_InstallationID p), ''repositoryId'' \<mapsto> AnyInt64 (pl_RepositoryID p),
                  ''repository'' \<mapsto> AnyString (pl_FullName p), ''cloneURL'' \<mapsto> AnyString (pl_CloneURL p), ''webURL'' \<mapsto> AnyString (pl_HTMLURL p),
                  ''pullRequestNumber'' \<mapsto> AnyInt (if pl_Number p = 0 then pl_PullNumber p else pl_Number p),
                  ''baseBranch'' \<mapsto> AnyString (pl_BaseRef p), ''headBranch'' \<mapsto> AnyString (pl_HeadRef p),
                  ''headSHA'' \<mapsto> AnyString (pl_HeadSHA p), ''author'' \<mapsto> AnyString (pl_Login p)]\<rparr>)"

section \<open>Reasoning about the requests a call sends\<close>

text \<open>\<open>sends P m\<close>: whatever was sent before, \<open>m\<close> only adds requests that satisfy \<open>P\<close>.\<close>

named_theorems sends_intros \<open>composition rules of the requests a call sends\<close>

definition sends :: "(request \<Rightarrow> bool) \<Rightarrow> 'a http \<Rightarrow> bool" where
  "sends P m \<longleftrightarrow> (\<forall>log. \<exists>new. snd (m log) = log @ new \<and> list_all P new)"

lemma sends_ret [sends_intros]: "sends P (ret x)"
  by (simp add: sends_def ret_def)

lemma sends_throw [sends_intros]: "sends P (throw e)"
  by (simp add: sends_def throw_def)

lemma sends_andThen [sends_intros]:
  assumes m: "sends P m" and f: "\<And>x. sends P (f x)"
  shows "sends P (andThen m f)"
  unfolding sends_def
proof
  fix log
  obtain r log' where run: "m log = (r, log')" by (cases "m log")
  obtain new where new: "log' = log @ new" "list_all P new" using m run unfolding sends_def by (metis snd_conv)
  show "\<exists>new. snd (andThen m f log) = log @ new \<and> list_all P new"
  proof (cases r)
    case (Inl e)
    with run new show ?thesis by (auto simp: andThen_def)
  next
    case (Inr x)
    obtain more where "snd (f x log') = log' @ more" "list_all P more" using f unfolding sends_def by blast
    with Inr run new show ?thesis by (auto simp: andThen_def intro!: exI [of _ "new @ more"])
  qed
qed

lemma sends_attempt [sends_intros]: "sends P m \<Longrightarrow> sends P (attempt m)"
  unfolding sends_def attempt_def by (simp add: case_prod_beta)

lemma sends_send: "P rq \<Longrightarrow> sends P (send H name rq)"
  unfolding sends_def send_def by (auto split: option.splits sum.splits)

lemma sends_decoded [sends_intros]: "sends P (decoded r)"
  by (cases r) (simp_all add: decoded_def sends_intros)

lemma sends_tokenJSON: "P (api_request a meth path token body) \<Longrightarrow> sends P (tokenJSON G a decode meth path token body)"
  unfolding tokenJSON_def by (intro sends_intros sends_send)

text \<open>What a publication may send: it reads its own repository, and writes objects, its own branch without force, and a draft pull request.\<close>

definition draft_write :: "DraftPublication \<Rightarrow> string \<Rightarrow> string \<Rightarrow> http_body \<Rightarrow> bool" where
  "draft_write inp meth path body \<longleftrightarrow>
    meth = ''POST'' \<and> path = ''/git/refs'' \<and> body = JsonBody (JObject [(''ref'', JString (''refs/heads/'' @ dp_BranchName inp)), (''sha'', JString (dp_BaseSHA inp))]) \<or>
    meth = ''POST'' \<and> path \<in> {''/git/blobs'', ''/git/trees'', ''/git/commits''} \<or>
    meth = ''PATCH'' \<and> path = ''/git/refs/heads/'' @ dp_BranchName inp \<and> (\<exists>sha. body = JsonBody (JObject [(''sha'', JString sha), (''force'', JBool False)])) \<or>
    meth = ''POST'' \<and> path = ''/pulls'' \<and> body = JsonBody (JObject [(''title'', JString (dp_Title inp)), (''body'', JString (dp_Body inp)),
      (''head'', JString (dp_BranchName inp)), (''base'', JString (dp_BaseBranch inp)), (''draft'', JBool True)])"

definition draft_request :: "GitHubAdapter \<Rightarrow> string \<Rightarrow> DraftPublication \<Rightarrow> request \<Rightarrow> bool" where
  "draft_request a token inp rq \<longleftrightarrow> (\<exists>meth path body. rq = api_request a meth (''/repos/'' @ dp_Repository inp @ path) token body \<and>
     (meth = ''GET'' \<and> body = NoBody \<or> draft_write inp meth path body))"

lemma sends_read [sends_intros]: "sends (draft_request a token inp) (tokenJSON G a decode ''GET'' (''/repos/'' @ dp_Repository inp @ path) token NoBody)"
  by (rule sends_tokenJSON) (auto simp: draft_request_def)

lemma sends_write:
  "draft_write inp meth path body \<Longrightarrow>
   sends (draft_request a token inp) (tokenJSON G a decode meth (''/repos/'' @ dp_Repository inp @ path) token body)"
  by (rule sends_tokenJSON) (unfold draft_request_def, blast)

lemma sends_findDraft [sends_intros]:
  "sends (draft_request a token inp) (findDraftPullRequest G a token (dp_Repository inp) branch)"
  unfolding findDraftPullRequest_def by (intro sends_intros) (auto intro: sends_intros split: sum.split)

lemma sends_draft_branch [sends_intros]: "sends (draft_request a token inp) (draft_branch G a token inp)"
proof -
  have "sends (draft_request a token inp) (tokenJSON G a decode ''POST'' (''/repos/'' @ dp_Repository inp @ ''/git/refs'') token
      (JsonBody (JObject [(''ref'', JString (''refs/heads/'' @ dp_BranchName inp)), (''sha'', JString (dp_BaseSHA inp))])))" for decode :: "string \<Rightarrow> string + unit"
    by (rule sends_write) (simp add: draft_write_def)
  then show ?thesis
    unfolding draft_branch_def by (intro sends_intros) (auto intro!: sends_intros split: sum.split option.split)
qed

lemma sends_draft_files [sends_intros]: "sends (draft_request a token inp) (draft_files G a token (dp_Repository inp) fs)"
proof (induction fs)
  case (Cons f fs)
  have "sends (draft_request a token inp) (tokenJSON G a decode ''POST'' (''/repos/'' @ dp_Repository inp @ ''/git/blobs'') token body)"
    for decode :: "string \<Rightarrow> string + string" and body
    by (rule sends_write) (simp add: draft_write_def)
  with Cons show ?case by (auto intro!: sends_intros)
qed (simp add: sends_intros)

lemma sends_draft_commit [sends_intros]: "sends (draft_request a token inp) (draft_commit G a token inp baseSHA entries)"
  unfolding draft_commit_def by (intro sends_intros sends_write) (simp_all add: draft_write_def)

lemma sends_draft_pull [sends_intros]: "sends (draft_request a token inp) (draft_pull G a token inp)"
proof -
  have "sends (draft_request a token inp) (tokenJSON G a decode ''POST'' (''/repos/'' @ dp_Repository inp @ ''/pulls'') token
      (JsonBody (JObject [(''title'', JString (dp_Title inp)), (''body'', JString (dp_Body inp)),
        (''head'', JString (dp_BranchName inp)), (''base'', JString (dp_BaseBranch inp)), (''draft'', JBool True)])))" for decode :: "string \<Rightarrow> string + DraftPull"
    by (rule sends_write) (simp add: draft_write_def)
  then show ?thesis
    unfolding draft_pull_def by (intro sends_intros) (auto intro!: sends_intros split: sum.split option.split)
qed

lemma sends_PublishDraft: "sends (draft_request a token inp) (PublishDraft G a token inp)"
  unfolding PublishDraft_def by (auto intro!: sends_intros split: option.split sum.split)

section \<open>Paging\<close>

lemma list_pages_error: "fetch page log = (Inl e, log') \<Longrightarrow> list_pages fetch page acc log = Some (Inl e, log')"
  by (subst list_pages.simps) simp

lemma list_pages_last:
  "fetch page log = (Inr xs, log') \<Longrightarrow> length xs < 100 \<Longrightarrow> list_pages fetch page acc log = Some (Inr (acc @ xs), log')"
  by (subst list_pages.simps) simp

lemma list_pages_next:
  "fetch page log = (Inr xs, log') \<Longrightarrow> \<not> length xs < 100 \<Longrightarrow> list_pages fetch page acc log = list_pages fetch (page + 1) (acc @ xs) log'"
  by (subst list_pages.simps) simp

text \<open>\<open>slice xs p\<close> is page \<open>p\<close>, counted from one, of a listing with 100 entries a page.\<close>

definition slice :: "'a list \<Rightarrow> int \<Rightarrow> 'a list" where
  "slice xs p = take 100 (drop (100 * nat (p - 1)) xs)"

lemma list_pages_complete:
  assumes fetch: "\<And>p log. 1 \<le> p \<Longrightarrow> \<exists>rq. fetch p log = (Inr (slice xs p), log @ [rq])"
  shows "1 \<le> p \<Longrightarrow> 100 * nat (p - 1) \<le> length xs \<Longrightarrow>
    \<exists>sent. list_pages fetch p (take (100 * nat (p - 1)) xs) log = Some (Inr xs, log @ sent) \<and>
      length sent = (length xs - 100 * nat (p - 1)) div 100 + 1"
proof (induction "length xs - 100 * nat (p - 1)" arbitrary: p log rule: less_induct)
  case less
  obtain rq where rq: "fetch p log = (Inr (slice xs p), log @ [rq])" using fetch less.prems(1) by blast
  have more: "take (100 * nat (p - 1)) xs @ slice xs p = take (100 * nat (p - 1) + 100) xs"
    unfolding slice_def by (simp add: take_add)
  have len: "length (slice xs p) = min 100 (length xs - 100 * nat (p - 1))"
    by (simp add: slice_def)
  show ?case
  proof (cases "length xs - 100 * nat (p - 1) < 100")
    case True
    with rq more len show ?thesis by (subst list_pages_last [of fetch, OF rq]) (auto intro!: exI [of _ "[rq]"])
  next
    case False
    have step: "100 * nat (p + 1 - 1) = 100 * nat (p - 1) + 100" using less.prems(1) by linarith
    have "100 * nat (p + 1 - 1) \<le> length xs" "length xs - 100 * nat (p + 1 - 1) < length xs - 100 * nat (p - 1)"
      unfolding step using False by simp_all
    then obtain sent where sent: "list_pages fetch (p + 1) (take (100 * nat (p + 1 - 1)) xs) (log @ [rq]) = Some (Inr xs, (log @ [rq]) @ sent)"
      "length sent = (length xs - 100 * nat (p + 1 - 1)) div 100 + 1"
      using less.hyps [of "p + 1" "log @ [rq]"] less.prems(1) by auto
    have "list_pages fetch p (take (100 * nat (p - 1)) xs) log = Some (Inr xs, log @ (rq # sent))"
      using list_pages_next [of fetch, OF rq, of "take (100 * nat (p - 1)) xs"] len False more sent(1) unfolding step by simp
    moreover have "(length xs - 100 * nat (p - 1)) div 100 = (length xs - (100 * nat (p - 1) + 100)) div 100 + 1"
      using False by (simp add: le_div_geq)
    then have "length (rq # sent) = (length xs - 100 * nat (p - 1)) div 100 + 1"
      using sent(2) unfolding step by simp
    ultimately show ?thesis by blast
  qed
qed

text \<open>The documented behaviour of the listing endpoint: page \<open>p\<close> of the installation's repositories \<open>xs\<close>, whatever was asked before.\<close>

definition serves_repositories :: "github_world \<Rightarrow> GitHubAdapter \<Rightarrow> string \<Rightarrow> gh_repository list \<Rightarrow> bool" where
  "serves_repositories G a token xs \<longleftrightarrow>
    (\<forall>p log. 1 \<le> p \<longrightarrow> (let path = ''/installation/repositories?per_page=100&page='' @ itoa p
       in hc_NewRequest (gw_client G) (api_url a path) = None \<and>
          (\<exists>rs. hc_Do (gw_client G) log (api_request a ''GET'' path token NoBody) = Inr rs \<and> rs_StatusCode rs = 200 \<and>
            gw_repositories G (LimitReader 4194304 (rs_Body rs)) = Inr (slice xs p))))"

lemma fetch_repositories_served:
  assumes "serves_repositories G a token xs" "1 \<le> p"
  shows "\<exists>rq. fetch_repositories G a token p log = (Inr (slice (map remote_repository xs) p), log @ [rq])"
proof -
  let ?path = "''/installation/repositories?per_page=100&page='' @ itoa p"
  obtain rs where rs: "hc_NewRequest (gw_client G) (api_url a ?path) = None"
    "hc_Do (gw_client G) log (api_request a ''GET'' ?path token NoBody) = Inr rs" "rs_StatusCode rs = 200"
    "gw_repositories G (LimitReader 4194304 (rs_Body rs)) = Inr (slice xs p)"
    using assms unfolding serves_repositories_def Let_def by blast
  have "rq_URL (api_request a ''GET'' ?path token NoBody) = api_url a ?path" by (simp add: api_request_def)
  with rs have "send (gw_client G) ''GitHub API'' (api_request a ''GET'' ?path token NoBody) log =
      (Inr rs, log @ [api_request a ''GET'' ?path token NoBody])"
    by (simp add: send_def)
  with rs(4) show ?thesis
    by (simp add: fetch_repositories_def tokenJSON_def andThen_def decoded_def ret_def slice_def take_map drop_map)
qed

section \<open>Properties\<close>

text \<open>
  C31. Listing an installation ends and is complete. Once the installation token has been obtained, and when the server pages a listing of \<open>n\<close> repositories
  100 at a time, the unbounded loop of \<open>Repositories\<close> returns after \<open>n div 100 + 1\<close> requests with every repository, in order, and with an empty
  credential: the installation token is not handed to the persistence layer.
\<close>

theorem repositories_complete:
  assumes "ParseInt (rc_ExternalAccountID connection) = Some i"
    and "appJSON G a now (gw_token G) ''POST'' (''/app/installations/'' @ itoa i @ ''/access_tokens'') (RawBody ''{}'') log = (Inr token, log1)"
    and "token \<noteq> []" and "serves_repositories G a token xs"
  shows "\<exists>sent. Repositories G a now connection credential log =
      Some (Inr (map remote_repository xs, \<lparr>cred_AccessToken = [], cred_RefreshToken = [], cred_ExpiresAt = 0\<rparr>), log1 @ sent) \<and>
    length sent = length xs div 100 + 1"
proof -
  obtain sent where "list_pages (fetch_repositories G a token) 1 [] log1 = Some (Inr (map remote_repository xs), log1 @ sent)"
    "length sent = length xs div 100 + 1"
    using list_pages_complete [of "fetch_repositories G a token" "map remote_repository xs" 1 log1, OF fetch_repositories_served [OF assms(4)]]
    by auto
  with assms(1-3) show ?thesis by (simp add: Repositories_def)
qed

definition sample_repository :: "int \<Rightarrow> string \<Rightarrow> gh_repository" where
  "sample_repository i name = \<lparr>ghr_ID = i, ghr_FullName = name, ghr_CloneURL = [], ghr_HTMLURL = [], ghr_DefaultBranch = ''main'',
     ghr_Visibility = [], ghr_Private = True, ghr_Archived = False, ghr_Language = ''Go''\<rparr>"

definition sample_repositories :: "gh_repository list" where
  "sample_repositories = [sample_repository 1 ''o/a'', sample_repository 2 ''o/b'']"

definition sample_adapter :: GitHubAdapter where
  "sample_adapter = \<lparr>gha_config = \<lparr>ghc_AppID = 1, ghc_Slug = ''mender'', ghc_PrivateKeyPEM = ''pem'', ghc_WebhookSecret = ''k'', ghc_APIBaseURL = ''h'',
     ghc_WebBaseURL = ''w''\<rparr>, gha_key = Some (\<lambda>d. Inr [1])\<rparr>"

text \<open>A server that answers every request with its URL; the decoders read the answers off it.\<close>

definition sample_github :: github_world where
  "sample_github = \<lparr>gw_client = \<lparr>hc_NewRequest = (\<lambda>_. None), hc_Do = (\<lambda>log rq. Inr \<lparr>rs_StatusCode = 200, rs_Body = rq_URL rq, rs_ReadError = None\<rparr>)\<rparr>,
     gw_num_error = (\<lambda>s. s), gw_sha256 = (\<lambda>_. [0]), gw_hmac = (\<lambda>key body. bytes_of (key @ body)), gw_pem = (\<lambda>s. Some s), gw_pkcs8 = (\<lambda>_. None),
     gw_pkcs1 = (\<lambda>_. Some (\<lambda>d. Inr [1])), gw_unzip = (\<lambda>_. Inr []),
     gw_payload = (\<lambda>body. Some \<lparr>pl_Action = ''opened'', pl_Ref = [], pl_Number = 0, pl_InstallationID = 7, pl_RepositoryID = 42, pl_FullName = ''o/a'',
       pl_CloneURL = ''c'', pl_HTMLURL = ''h'', pl_DefaultBranch = ''main'', pl_IssueNumber = 5, pl_IssueTitle = body, pl_IssueBody = [],
       pl_IssueHTMLURL = [], pl_IssueState = ''open'', pl_IssueIsPull = False, pl_PullNumber = 0, pl_HeadRef = [], pl_HeadSHA = [], pl_BaseRef = [],
       pl_Login = [], pl_RunID = 0, pl_RunName = [], pl_RunHTMLURL = [], pl_RunLogsURL = [], pl_RunHeadSHA = [], pl_RunStatus = [], pl_RunConclusion = []\<rparr>),
     gw_installation = (\<lambda>_. Inr (7, ''octo'')), gw_token = (\<lambda>_. Inr ''t''),
     gw_repositories = (\<lambda>body. Inr (if take 48 body = ''h/installation/repositories?per_page=100&page=1'' then sample_repositories else [])),
     gw_issue = (\<lambda>_. Inl ''eof''), gw_object_sha = (\<lambda>_. Inl ''eof''), gw_sha = (\<lambda>_. Inr ''s''), gw_object = (\<lambda>_. Inr ()),
     gw_pull = (\<lambda>_. Inr \<lparr>dpr_Number = 9, dpr_URL = ''u''\<rparr>), gw_pulls = (\<lambda>_. Inr [])\<rparr>"

lemma itoa_one: "1 \<le> p \<Longrightarrow> take 2 (itoa p) = ''1'' \<longleftrightarrow> p = 1"
proof -
  assume "1 \<le> p"
  then have int: "itoa p = itoa_nat (nat p)" by (simp add: itoa_def)
  show ?thesis
  proof (cases "nat p < 10")
    case True
    have "char_of (48 + nat p) = CHR ''1'' \<longleftrightarrow> p = 1"
    proof
      assume "char_of (48 + nat p) = CHR ''1''"
      then have "of_char (char_of (48 + nat p) :: char) = (of_char (CHR ''1'') :: nat)" by simp
      with True have "48 + nat p = 49" by simp
      then show "p = 1" by simp
    next
      have "char_of (48 + nat 1) = CHR ''1''" by code_simp
      then show "p = 1 \<Longrightarrow> char_of (48 + nat p) = CHR ''1''" by simp
    qed
    with True show ?thesis by (simp add: int itoa_nat.simps [of "nat p"])
  next
    case False
    then have "2 \<le> length (itoa p)"
      unfolding int by (subst itoa_nat.simps) (simp add: Suc_le_eq)
    then have "length (take 2 (itoa p)) = 2" by simp
    then have "take 2 (itoa p) \<noteq> ''1''" by (metis length_Cons list.size(3) n_not_Suc_n numeral_2_eq_2)
    with False show ?thesis by auto
  qed
qed

lemma sample_serves: "serves_repositories sample_github sample_adapter token sample_repositories"
  unfolding serves_repositories_def Let_def
proof (intro allI impI conjI)
  fix p :: int and log
  assume p: "1 \<le> p"
  let ?path = "''/installation/repositories?per_page=100&page='' @ itoa p"
  let ?body = "''h/installation/repositories?per_page=100&page='' @ itoa p"
  have base: "api_url sample_adapter ?path = ?body"
    by (simp add: api_url_def sample_adapter_def TrimRight_def)
  show "hc_NewRequest (gw_client sample_github) (api_url sample_adapter ?path) = None"
    by (simp add: sample_github_def)
  have answer: "hc_Do (gw_client sample_github) log rq = Inr \<lparr>rs_StatusCode = 200, rs_Body = rq_URL rq, rs_ReadError = None\<rparr>" for rq
    by (simp add: sample_github_def)
  have decode: "gw_repositories sample_github body =
      Inr (if take 48 body = ''h/installation/repositories?per_page=100&page='' @ ''1'' then sample_repositories else [])" for body
    by (simp add: sample_github_def)
  have "slice sample_repositories p = (if p = 1 then sample_repositories else [])"
    using p by (auto simp: slice_def sample_repositories_def)
  moreover have "take 48 (take 4194304 ?body) = ''h/installation/repositories?per_page=100&page='' @ take 2 (itoa p)"
    unfolding take_take by simp
  then have page: "take 48 (take 4194304 ?body) = ''h/installation/repositories?per_page=100&page='' @ ''1'' \<longleftrightarrow> p = 1"
    unfolding itoa_one [OF p, symmetric] by (simp only: same_append_eq)
  have "gw_repositories sample_github (LimitReader 4194304 ?body) = Inr (if p = 1 then sample_repositories else [])"
    using decode [of "LimitReader 4194304 ?body"] unfolding LimitReader_take [of 4194304, simplified] page .
  moreover have "hc_Do (gw_client sample_github) log (api_request sample_adapter ''GET'' ?path token NoBody) =
      Inr \<lparr>rs_StatusCode = 200, rs_Body = ?body, rs_ReadError = None\<rparr>"
    unfolding answer by (simp only: api_request_def request.select_convs base)
  ultimately show "\<exists>rs. hc_Do (gw_client sample_github) log (api_request sample_adapter ''GET'' ?path token NoBody) = Inr rs \<and>
      rs_StatusCode rs = 200 \<and> gw_repositories sample_github (LimitReader 4194304 (rs_Body rs)) = Inr (slice sample_repositories p)"
    by simp
qed

definition sample_connection :: RemoteConnection where
  "sample_connection = \<lparr>rc_Provider = ProviderGitHub, rc_Name = ''octo'', rc_ExternalAccountID = ''7'', rc_BaseURL = ''w''\<rparr>"

lemma sample_app_token:
  "\<exists>log1. appJSON sample_github sample_adapter now (gw_token sample_github) meth path body log = (Inr ''t'', log1)"
proof -
  have "\<exists>jwt. appJWT sample_github sample_adapter now = Inr jwt"
    by (simp add: appJWT_def sample_adapter_def Let_def)
  then show ?thesis
    by (auto simp: appJSON_def tokenJSON_def andThen_def send_def decoded_def ret_def sample_github_def)
qed

theorem repositories_complete_witness:
  "\<exists>log1 sent. Repositories sample_github sample_adapter 0 sample_connection \<lparr>cred_AccessToken = [], cred_RefreshToken = [], cred_ExpiresAt = 0\<rparr> [] =
      Some (Inr (map remote_repository sample_repositories, \<lparr>cred_AccessToken = [], cred_RefreshToken = [], cred_ExpiresAt = 0\<rparr>), log1 @ sent) \<and> length sent = 1"
proof -
  have num: "ParseInt (rc_ExternalAccountID sample_connection) = Some 7" by code_simp
  obtain log1 where tok:
    "appJSON sample_github sample_adapter 0 (gw_token sample_github) ''POST'' (''/app/installations/'' @ itoa 7 @ ''/access_tokens'') (RawBody ''{}'') [] = (Inr ''t'', log1)"
    using sample_app_token by blast
  have "length sample_repositories div 100 + 1 = 1" by (simp add: sample_repositories_def)
  with repositories_complete [OF num tok _ sample_serves] show ?thesis by (simp only: list.distinct not_False_eq_True) blast
qed

text \<open>
  C16. Publication is confined. Whatever the server answers, \<open>PublishDraft\<close> only reads its own repository and writes Git objects, the ref of its own branch,
  never with force, and a pull request that is a draft from that branch; every request carries the installation token it was given. Nothing at all is sent
  unless the repository name is valid and the branch is neither the base branch nor one whose name begins with \<open>main\<close> or \<open>master\<close>.
\<close>

theorem publish_draft_confined:
  assumes "PublishDraft G a token inp log = (r, log')"
  shows "\<exists>sent. log' = log @ sent \<and> (\<forall>rq \<in> set sent. draft_request a token inp rq) \<and>
    (sent = [] \<or> validGitHubRepository (dp_Repository inp) \<and> dp_BranchName inp \<noteq> dp_BaseBranch inp \<and>
       \<not> HasPrefix (dp_BranchName inp) ''main'' \<and> \<not> HasPrefix (dp_BranchName inp) ''master'')"
proof -
  obtain sent where sent: "log' = log @ sent" "list_all (draft_request a token inp) sent"
    using sends_PublishDraft [of a token inp G] assms unfolding sends_def by (metis snd_conv)
  moreover have "sent = []"
    if "\<not> (validGitHubRepository (dp_Repository inp) \<and> dp_BranchName inp \<noteq> dp_BaseBranch inp \<and>
       \<not> HasPrefix (dp_BranchName inp) ''main'' \<and> \<not> HasPrefix (dp_BranchName inp) ''master'')"
    using that assms sent(1) unfolding PublishDraft_def by (auto simp: throw_def split: if_splits)
  ultimately show ?thesis by (auto simp: list_all_iff)
qed

definition sample_draft :: DraftPublication where
  "sample_draft = \<lparr>dp_Repository = ''o/a'', dp_InstallationID = ''7'', dp_BaseBranch = ''main'', dp_BaseSHA = ''b'', dp_BranchName = ''fix'',
     dp_Title = ''T'', dp_Body = [], dp_Files = [\<lparr>df_Path = ''a.go'', df_Content = ''x''\<rparr>]\<rparr>"

theorem publish_draft_confined_witness:
  "\<exists>r log'. PublishDraft sample_github sample_adapter ''t'' sample_draft [] = (r, log') \<and> length log' = 8 \<and>
    list_all (draft_request sample_adapter ''t'' sample_draft) log'"
proof -
  let ?run = "PublishDraft sample_github sample_adapter ''t'' sample_draft []"
  have "length (snd ?run) = 8" by code_simp
  moreover have run: "?run = (fst ?run, snd ?run)" by simp
  ultimately show ?thesis
    using publish_draft_confined [OF run] by (auto simp: list_all_iff simp del: prod.collapse intro!: exI [of _ "fst ?run"] exI [of _ "snd ?run"])
qed

text \<open>
  Webhooks are authenticated. An event is accepted only under a configured secret, when the signature header is the HMAC-SHA-256 of exactly these body bytes;
  its delivery identifier and type are the non-empty headers, a workflow run has a positive number and a commit, and an issue a positive number and a title.
  The same headers with a body of another HMAC are refused.
\<close>

theorem webhook_authentic:
  assumes "VerifyWebhook G a headers body = Inr event"
  shows "ghc_WebhookSecret (gha_config a) \<noteq> [] \<and> headers ''X-Hub-Signature-256'' = expected_signature G a body \<and>
    we_DeliveryID event = headers ''X-GitHub-Delivery'' \<and> we_DeliveryID event \<noteq> [] \<and>
    we_EventType event = headers ''X-GitHub-Event'' \<and> we_EventType event \<noteq> [] \<and>
    (we_EventType event = ''workflow_run'' \<longrightarrow> (\<exists>i. we_Normalized event ''workflowRunId'' = Some (AnyInt64 i) \<and> 0 < i) \<and>
       (\<exists>sha. we_Normalized event ''headSHA'' = Some (AnyString sha) \<and> sha \<noteq> [])) \<and>
    (we_EventType event = ''issues'' \<longrightarrow> (\<exists>n. we_Normalized event ''issueNumber'' = Some (AnyInt n) \<and> 0 < n) \<and>
       (\<exists>title. we_Normalized event ''issueTitle'' = Some (AnyString title) \<and> TrimSpace title \<noteq> [])) \<and>
    (\<forall>body'. expected_signature G a body' \<noteq> expected_signature G a body \<longrightarrow> VerifyWebhook G a headers body' = Inl ErrInvalidWebhook)"
  using assms unfolding VerifyWebhook_def Let_def by (auto split: if_splits option.splits)

definition sample_headers :: "string \<Rightarrow> string" where
  "sample_headers h = (if h = ''X-GitHub-Event'' then ''issues'' else if h = ''X-GitHub-Delivery'' then ''d1''
     else if h = ''X-Hub-Signature-256'' then ''sha256=6b42'' else [])"

theorem webhook_authentic_witness:
  "\<exists>event. VerifyWebhook sample_github sample_adapter sample_headers ''B'' = Inr event \<and> we_DeliveryID event = ''d1'' \<and>
    VerifyWebhook sample_github sample_adapter sample_headers ''C'' = Inl ErrInvalidWebhook"
proof -
  let ?r = "VerifyWebhook sample_github sample_adapter sample_headers ''B''"
  have "\<not> isl ?r" by code_simp
  then have r: "?r = Inr (projr ?r)" by (simp add: sum.collapse(2))
  have "expected_signature sample_github sample_adapter ''C'' \<noteq> expected_signature sample_github sample_adapter ''B''"
    "sample_headers ''X-GitHub-Delivery'' = ''d1''"
    by code_simp+
  then show ?thesis
    using webhook_authentic [OF r] r by (intro exI [of _ "projr ?r"]) simp
qed

lemma length_collect_logs:
  "collect_logs entries out = Inr out' \<Longrightarrow> (\<forall>e \<in> set entries. length (ze_Name e) \<le> n) \<Longrightarrow>
   int (length out) \<le> 8388608 + int n + 8 \<Longrightarrow> int (length out') \<le> 8388608 + int n + 8"
proof (induction entries arbitrary: out)
  case (Cons e es)
  then show ?case
    by (auto simp: ReplaceByte_def split: if_splits option.splits)
qed simp

end
