(* ===== verification/GitLab.thy ===== *)
theory GitLab
  imports GitHub
begin

text \<open>
  The GitLab adapter (\<open>src/server/internal/scm/gitlab.go\<close>): OAuth with PKCE, refresh of the access token, the projects of the account and webhook verification.
  HTTP is as in the GitHub adapter; the \<open>namespace\<close> object of a project is an opaque value.
\<close>

record GitLabConfig =
  glc_ClientID :: string
  glc_ClientSecret :: string
  glc_WebhookSecret :: string
  glc_RedirectURL :: string
  glc_APIBaseURL :: string
  glc_WebBaseURL :: string

record gl_project =
  glp_ID :: int
  glp_PathWithNamespace :: string
  glp_HTTPURLToRepo :: string
  glp_WebURL :: string
  glp_DefaultBranch :: string
  glp_Visibility :: string
  glp_Archived :: bool
  glp_Namespace :: any_value

record gl_token =
  glt_AccessToken :: string
  glt_RefreshToken :: string
  glt_ExpiresIn :: int

record gl_payload =
  glw_ObjectKind :: string
  glw_Ref :: string
  glw_ProjectID :: int
  glw_PathWithNamespace :: string
  glw_Action :: string

record gitlab_world =
  glw_client :: http_client
  glw_token :: "string \<Rightarrow> string + gl_token"
  glw_user :: "string \<Rightarrow> string + int \<times> string"
  glw_projects :: "string \<Rightarrow> string + gl_project list"
  glw_payload :: "string \<Rightarrow> gl_payload option"

definition NewGitLabAdapter :: "GitLabConfig \<Rightarrow> GitLabConfig" where
  "NewGitLabAdapter config = config\<lparr>
     glc_APIBaseURL := (if glc_APIBaseURL config = [] then ''https://gitlab.com/api/v4'' else glc_APIBaseURL config),
     glc_WebBaseURL := (if glc_WebBaseURL config = [] then ''https://gitlab.com'' else glc_WebBaseURL config)\<rparr>"

definition gitlab_Available :: "GitLabConfig \<Rightarrow> bool" where
  "gitlab_Available c \<longleftrightarrow> glc_ClientID c \<noteq> [] \<and> glc_ClientSecret c \<noteq> [] \<and> glc_WebhookSecret c \<noteq> [] \<and> glc_RedirectURL c \<noteq> []"

text \<open>\<open>url.Values.Encode\<close> of values whose keys are listed in order.\<close>

definition encode_values :: "(string \<times> string) list \<Rightarrow> string" where
  "encode_values vs = Join (map (\<lambda>(k, v). QueryEscape k @ ''='' @ QueryEscape v) vs) ''&''"

definition gitlab_ConnectURL :: "GitLabConfig \<Rightarrow> string \<Rightarrow> string \<Rightarrow> scm_error + string" where
  "gitlab_ConnectURL c state challenge =
    (if \<not> gitlab_Available c then Inl ErrProviderUnavailable
     else Inr (TrimRight (glc_WebBaseURL c) (CHR ''/'') @ ''/oauth/authorize?'' @
       encode_values [(''client_id'', glc_ClientID c), (''code_challenge'', challenge), (''code_challenge_method'', ''S256''),
         (''redirect_uri'', glc_RedirectURL c), (''response_type'', ''code''), (''scope'', ''api read_user''), (''state'', state)]))"

text \<open>\<open>time.Duration(n) * time.Second\<close> in 64 bits.\<close>

definition seconds64 :: "int \<Rightarrow> duration" where
  "seconds64 n = (n * second + 2 ^ 63) mod 2 ^ 64 - 2 ^ 63"

definition exchange :: "gitlab_world \<Rightarrow> GitLabConfig \<Rightarrow> time \<Rightarrow> (string \<times> string) list \<Rightarrow> Credential http" where
  "exchange L c now values =
    andThen (send (glw_client L) ''GitLab OAuth'' \<lparr>rq_Method = ''POST'', rq_URL = TrimRight (glc_WebBaseURL c) (CHR ''/'') @ ''/oauth/token'',
        rq_Header = [(''Content-Type'', ''application/x-www-form-urlencoded'')], rq_Body = FormBody values\<rparr>)
      (\<lambda>rs. andThen (decoded (glw_token L (LimitReader 1048576 (rs_Body rs))))
        (\<lambda>token. if glt_AccessToken token = [] then throw (ScmMessage ''GitLab access token missing'')
          else ret \<lparr>cred_AccessToken = glt_AccessToken token, cred_RefreshToken = glt_RefreshToken token,
            cred_ExpiresAt = now + seconds64 (glt_ExpiresIn token)\<rparr>))"

definition apiJSON :: "gitlab_world \<Rightarrow> GitLabConfig \<Rightarrow> (string \<Rightarrow> string + 'a) \<Rightarrow> string \<Rightarrow> string \<Rightarrow> 'a http" where
  "apiJSON L c decode path token =
    andThen (send (glw_client L) ''GitLab API'' \<lparr>rq_Method = ''GET'', rq_URL = TrimRight (glc_APIBaseURL c) (CHR ''/'') @ path,
        rq_Header = [(''Authorization'', ''Bearer '' @ token)], rq_Body = NoBody\<rparr>)
      (\<lambda>rs. decoded (decode (LimitReader 4194304 (rs_Body rs))))"

definition gitlab_Complete ::
  "gitlab_world \<Rightarrow> GitLabConfig \<Rightarrow> time \<Rightarrow> Callback \<Rightarrow> string \<Rightarrow> (RemoteConnection \<times> Credential) http" where
  "gitlab_Complete L c now callback verifier =
    (if cb_Code callback = [] then throw (ScmMessage ''GitLab authorization code missing'')
     else andThen (exchange L c now [(''client_id'', glc_ClientID c), (''client_secret'', glc_ClientSecret c), (''code'', cb_Code callback),
         (''code_verifier'', verifier), (''grant_type'', ''authorization_code''), (''redirect_uri'', glc_RedirectURL c)])
       (\<lambda>credential. andThen (apiJSON L c (glw_user L) ''/user'' (cred_AccessToken credential))
         (\<lambda>(i, username). if i \<le> 0 \<or> username = [] then throw (ScmMessage ''invalid GitLab user response'')
           else ret (\<lparr>rc_Provider = ProviderGitLab, rc_Name = username, rc_ExternalAccountID = itoa i,
             rc_BaseURL = TrimRight (glc_WebBaseURL c) (CHR ''/'')\<rparr>, credential))))"

definition remote_project :: "gl_project \<Rightarrow> RemoteRepository" where
  "remote_project p = \<lparr>rem_ProviderRepositoryID = itoa (glp_ID p), rem_FullName = glp_PathWithNamespace p, rem_CloneURL = glp_HTTPURLToRepo p,
     rem_WebURL = glp_WebURL p, rem_DefaultBranch = glp_DefaultBranch p, rem_Visibility = glp_Visibility p, rem_Archived = glp_Archived p,
     rem_Metadata = [''namespace'' \<mapsto> glp_Namespace p]\<rparr>"

definition needs_refresh :: "time \<Rightarrow> Credential \<Rightarrow> bool" where
  "needs_refresh now credential \<longleftrightarrow>
    cred_RefreshToken credential \<noteq> [] \<and> \<not> IsZero (cred_ExpiresAt credential) \<and> \<not> now + minute < cred_ExpiresAt credential"

definition fresh_credential :: "gitlab_world \<Rightarrow> GitLabConfig \<Rightarrow> time \<Rightarrow> Credential \<Rightarrow> Credential http" where
  "fresh_credential L c now credential =
    (if needs_refresh now credential
     then exchange L c now [(''client_id'', glc_ClientID c), (''client_secret'', glc_ClientSecret c), (''grant_type'', ''refresh_token''),
       (''redirect_uri'', glc_RedirectURL c), (''refresh_token'', cred_RefreshToken credential)]
     else ret credential)"

definition fetch_projects :: "gitlab_world \<Rightarrow> GitLabConfig \<Rightarrow> string \<Rightarrow> int \<Rightarrow> RemoteRepository list http" where
  "fetch_projects L c token page =
    andThen (apiJSON L c (glw_projects L) (''/projects?membership=true&simple=true&per_page=100&page='' @ itoa page) token)
      (\<lambda>ps. ret (map remote_project ps))"

definition gitlab_Repositories ::
  "gitlab_world \<Rightarrow> GitLabConfig \<Rightarrow> time \<Rightarrow> RemoteConnection \<Rightarrow> Credential \<Rightarrow> http_log \<Rightarrow>
   ((scm_error + RemoteRepository list \<times> Credential) \<times> http_log) option" where
  "gitlab_Repositories L c now connection credential log =
    (case fresh_credential L c now credential log of
       (Inl e, log1) \<Rightarrow> Some (Inl e, log1)
     | (Inr cred, log1) \<Rightarrow>
         if cred_AccessToken cred = [] then Some (Inl (ScmMessage ''GitLab access token missing''), log1)
         else (case list_pages (fetch_projects L c (cred_AccessToken cred)) 1 [] log1 of
           None \<Rightarrow> None
         | Some (Inl e, log2) \<Rightarrow> Some (Inl e, log2)
         | Some (Inr rs, log2) \<Rightarrow> Some (Inr (rs, cred), log2)))"

definition gitlab_VerifyWebhook :: "gitlab_world \<Rightarrow> GitLabConfig \<Rightarrow> (string \<Rightarrow> string) \<Rightarrow> string \<Rightarrow> scm_error + WebhookEvent" where
  "gitlab_VerifyWebhook L c headers body =
    (let token = headers ''X-Gitlab-Token''; deliveryID = headers ''X-Gitlab-Event-UUID''; eventType = headers ''X-Gitlab-Event''
     in if token = [] \<or> deliveryID = [] \<or> eventType = [] \<or> glc_WebhookSecret c = [] \<or> token \<noteq> glc_WebhookSecret c
        then Inl ErrInvalidWebhook
        else case glw_payload L body of
          None \<Rightarrow> Inl ErrInvalidWebhook
        | Some p \<Rightarrow> Inr \<lparr>we_DeliveryID = deliveryID, we_EventType = eventType, we_Normalized =
            [''kind'' \<mapsto> AnyString (glw_ObjectKind p), ''action'' \<mapsto> AnyString (glw_Action p), ''ref'' \<mapsto> AnyString (glw_Ref p),
             ''repositoryId'' \<mapsto> AnyInt64 (glw_ProjectID p), ''repository'' \<mapsto> AnyString (glw_PathWithNamespace p)]\<rparr>)"

section \<open>Properties\<close>

lemma seconds64_exact: "0 \<le> n \<Longrightarrow> n * second < 2 ^ 63 \<Longrightarrow> seconds64 n = n * second"
  by (simp add: seconds64_def)

text \<open>
  Synchronisation never uses a GitLab token that has expired. The listing goes out with the stored access token only while it is valid for more than another minute,
  or when the account has no refresh token or no expiry; otherwise the first request of \<open>Repositories\<close> is the refresh grant, and both the listing and the credential
  that is handed back for storage are the refreshed ones, valid for as long as the server said.
\<close>

theorem gitlab_token_fresh:
  assumes "gitlab_Repositories L c now connection credential log = Some (Inr (rs, cred), log')"
  shows "cred_AccessToken cred \<noteq> [] \<and>
    (if needs_refresh now credential
     then \<exists>token rq. (\<exists>resp. glw_token L resp = Inr token) \<and> cred_AccessToken cred = glt_AccessToken token \<and>
       cred_RefreshToken cred = glt_RefreshToken token \<and> cred_ExpiresAt cred = now + seconds64 (glt_ExpiresIn token) \<and>
       rq_Body rq = FormBody [(''client_id'', glc_ClientID c), (''client_secret'', glc_ClientSecret c), (''grant_type'', ''refresh_token''),
         (''redirect_uri'', glc_RedirectURL c), (''refresh_token'', cred_RefreshToken credential)] \<and>
       list_pages (fetch_projects L c (cred_AccessToken cred)) 1 [] (log @ [rq]) = Some (Inr rs, log')
     else cred = credential \<and> list_pages (fetch_projects L c (cred_AccessToken cred)) 1 [] log = Some (Inr rs, log') \<and>
       (cred_RefreshToken cred = [] \<or> IsZero (cred_ExpiresAt cred) \<or> now + minute < cred_ExpiresAt cred))"
proof (cases "needs_refresh now credential")
  case True
  let ?vs = "[(''client_id'', glc_ClientID c), (''client_secret'', glc_ClientSecret c), (''grant_type'', ''refresh_token''),
         (''redirect_uri'', glc_RedirectURL c), (''refresh_token'', cred_RefreshToken credential)]"
  obtain fresh log1 where ex: "exchange L c now ?vs log = (Inr fresh, log1)" and acc: "cred_AccessToken fresh \<noteq> []" and
    pages: "list_pages (fetch_projects L c (cred_AccessToken fresh)) 1 [] log1 = Some (Inr rs, log')" and cred: "cred = fresh"
    using assms True
    by (auto simp: gitlab_Repositories_def fresh_credential_def split: prod.splits sum.splits if_splits option.splits)
  from ex obtain token rq resp where "glw_token L resp = Inr token" "fresh = \<lparr>cred_AccessToken = glt_AccessToken token,
      cred_RefreshToken = glt_RefreshToken token, cred_ExpiresAt = now + seconds64 (glt_ExpiresIn token)\<rparr>"
    "log1 = log @ [rq]" "rq_Body rq = FormBody ?vs"
    by (auto simp: exchange_def andThen_def send_def decoded_def ret_def throw_def split: option.splits sum.splits if_splits)
  then show ?thesis using True acc pages cred by auto
next
  case False
  then show ?thesis
    using assms
    by (auto simp: gitlab_Repositories_def fresh_credential_def needs_refresh_def ret_def split: sum.splits if_splits option.splits)
qed

definition sample_gitlab :: gitlab_world where
  "sample_gitlab = \<lparr>glw_client = gw_client sample_github, glw_token = (\<lambda>_. Inr \<lparr>glt_AccessToken = ''a'', glt_RefreshToken = ''r'', glt_ExpiresIn = 7200\<rparr>),
     glw_user = (\<lambda>_. Inr (3, ''octo'')), glw_projects = (\<lambda>_. Inr []), glw_payload = (\<lambda>_. None)\<rparr>"

definition sample_gitlab_config :: GitLabConfig where
  "sample_gitlab_config = \<lparr>glc_ClientID = ''i'', glc_ClientSecret = ''s'', glc_WebhookSecret = ''k'', glc_RedirectURL = ''u'', glc_APIBaseURL = ''g'', glc_WebBaseURL = ''w''\<rparr>"

theorem gitlab_token_fresh_witness:
  "\<exists>cred log'. gitlab_Repositories sample_gitlab sample_gitlab_config 5 sample_connection
      \<lparr>cred_AccessToken = ''old'', cred_RefreshToken = ''r'', cred_ExpiresAt = 7\<rparr> [] = Some (Inr ([], cred), log') \<and>
    cred_AccessToken cred = ''a'' \<and> cred_ExpiresAt cred = 5 + 7200 * second"
proof -
  let ?cred = "\<lparr>cred_AccessToken = ''old'', cred_RefreshToken = ''r'', cred_ExpiresAt = 7\<rparr>"
  let ?run = "gitlab_Repositories sample_gitlab sample_gitlab_config 5 sample_connection ?cred []"
  have "?run \<noteq> None" "\<not> isl (fst (the ?run))" "fst (projr (fst (the ?run))) = []" "needs_refresh 5 ?cred" by code_simp+
  then have run: "?run = Some (Inr ([], snd (projr (fst (the ?run)))), snd (the ?run))" and stale: "needs_refresh 5 ?cred"
    by (metis option.collapse prod.collapse sum.collapse(2))+
  have token: "token = \<lparr>glt_AccessToken = ''a'', glt_RefreshToken = ''r'', glt_ExpiresIn = 7200\<rparr>" if "glw_token sample_gitlab resp = Inr token" for resp token
    using that by (simp add: sample_gitlab_def)
  have "seconds64 7200 = 7200 * second" by (rule seconds64_exact) simp_all
  moreover obtain resp t where t: "glw_token sample_gitlab resp = Inr t"
      "cred_AccessToken (snd (projr (fst (the ?run)))) = glt_AccessToken t" "cred_ExpiresAt (snd (projr (fst (the ?run)))) = 5 + seconds64 (glt_ExpiresIn t)"
    using gitlab_token_fresh [OF run] unfolding if_P [OF stale] by blast
  ultimately have "cred_AccessToken (snd (projr (fst (the ?run)))) = ''a''" "cred_ExpiresAt (snd (projr (fst (the ?run)))) = 5 + 7200 * second"
    using token [OF t(1)] by simp_all
  with run show ?thesis by blast
qed

end
