(* ===== verification/SCM.thy ===== *)
theory SCM
  imports GitLab
begin

text \<open>
  The source-control service (\<open>src/server/internal/scm/service.go\<close>): connecting an account, synchronising its repositories, webhooks and the publication of results.

  \<^item> \<open>Adapter\<close> is the Go interface of the same name as a record of functions; the two adapters of the program are \<open>github_adapter\<close> and \<open>gitlab_adapter\<close>, and the type
    assertion \<open>adapter.(*GitHubAdapter)\<close> is the field \<open>ada_GitHub\<close>.
  \<^item> An operation threads the log of HTTP requests beside the database. Its result is \<open>None\<close> when a provider's listing never ends. \<open>bt\<close> is what other processes do to the
    database while the operation waits for the provider.
\<close>

section \<open>Adapters and the service\<close>

record Adapter =
  ada_Provider :: Provider
  ada_Available :: bool
  ada_ConnectURL :: "string \<Rightarrow> string \<Rightarrow> scm_error + string"
  ada_Complete :: "time \<Rightarrow> Callback \<Rightarrow> string \<Rightarrow> (RemoteConnection \<times> Credential) http"
  ada_Repositories :: "time \<Rightarrow> RemoteConnection \<Rightarrow> Credential \<Rightarrow> http_log \<Rightarrow>
    ((scm_error + RemoteRepository list \<times> Credential) \<times> http_log) option"
  ada_VerifyWebhook :: "(string \<Rightarrow> string) \<Rightarrow> string \<Rightarrow> scm_error + WebhookEvent"
  ada_GitHub :: "(github_world \<times> GitHubAdapter) option"

definition github_adapter :: "github_world \<Rightarrow> GitHubAdapter \<Rightarrow> Adapter" where
  "github_adapter G a = \<lparr>ada_Provider = ProviderGitHub, ada_Available = Available a, ada_ConnectURL = ConnectURL a, ada_Complete = Complete G a,
     ada_Repositories = Repositories G a, ada_VerifyWebhook = VerifyWebhook G a, ada_GitHub = Some (G, a)\<rparr>"

definition gitlab_adapter :: "gitlab_world \<Rightarrow> GitLabConfig \<Rightarrow> Adapter" where
  "gitlab_adapter L c = \<lparr>ada_Provider = ProviderGitLab, ada_Available = gitlab_Available c, ada_ConnectURL = gitlab_ConnectURL c,
     ada_Complete = gitlab_Complete L c, ada_Repositories = gitlab_Repositories L c, ada_VerifyWebhook = gitlab_VerifyWebhook L c, ada_GitHub = None\<rparr>"

record review_output =
  ro_Summary :: string
  ro_Findings :: "(string \<times> string \<times> int option) list"

record scm_world =
  sw_codec :: scm_codec
  sw_box :: aead
  sw_crypto :: crypto
  sw_adapters :: "Provider \<rightharpoonup> Adapter"
  sw_review_output :: "json \<Rightarrow> review_output option"

definition NewService :: "Adapter option list \<Rightarrow> Provider \<rightharpoonup> Adapter" where
  "NewService adapters = foldl (\<lambda>registry ad. case ad of None \<Rightarrow> registry | Some a \<Rightarrow> registry(ada_Provider a \<mapsto> a)) Map.empty adapters"

definition Providers :: "scm_world \<Rightarrow> Provider \<rightharpoonup> bool" where
  "Providers W = [ProviderGitHub \<mapsto> False, ProviderGitLab \<mapsto> False] ++ (\<lambda>p. map_option ada_Available (sw_adapters W p))"

text \<open>\<open>adapter, ok := s.adapters[provider]; if !ok || !adapter.Available()\<close>.\<close>

definition adapter_for :: "scm_world \<Rightarrow> Provider \<Rightarrow> Adapter option" where
  "adapter_for W provider = (case sw_adapters W provider of None \<Rightarrow> None | Some ad \<Rightarrow> if ada_Available ad then Some ad else None)"

definition safeReturnTo :: "string \<Rightarrow> bool" where
  "safeReturnTo value \<longleftrightarrow> HasPrefix value ''/'' \<and> \<not> HasPrefix value ''//'' \<and> \<not> ContainsAny value [CHR 0x0D, CHR 0x0A]"

definition digest :: "scm_world \<Rightarrow> string \<Rightarrow> 8 word list" where
  "digest W value = sha256 (sw_crypto W) value"

definition randomToken :: "env \<Rightarrow> nat \<Rightarrow> nat \<Rightarrow> scm_error + string" where
  "randomToken E n len = (case rand_read E n len of None \<Rightarrow> Inl (ScmExternal ErrEntropy) | Some value \<Rightarrow> Inr (RawURLEncode value))"

definition sealCredential :: "scm_world \<Rightarrow> env \<Rightarrow> nat \<Rightarrow> Credential \<Rightarrow> scm_error + 8 word list option" where
  "sealCredential W E n credential =
    (if cred_AccessToken credential = [] \<and> cred_RefreshToken credential = [] then Inr None
     else case marshal_credential (sw_codec W) credential of
       Inl msg \<Rightarrow> Inl (ScmMessage msg)
     | Inr plaintext \<Rightarrow> Seal (sw_box W) E n plaintext)"

definition openCredential :: "scm_world \<Rightarrow> 8 word list option \<Rightarrow> scm_error + Credential" where
  "openCredential W ciphertext =
    (if ciphertext = None \<or> ciphertext = Some [] then Inr \<lparr>cred_AccessToken = [], cred_RefreshToken = [], cred_ExpiresAt = 0\<rparr>
     else case Open (sw_box W) ciphertext of
       Inl e \<Rightarrow> Inl e
     | Inr plaintext \<Rightarrow>
         (case unmarshal_credential (sw_codec W) (case plaintext of None \<Rightarrow> [] | Some p \<Rightarrow> p) of
            Inl msg \<Rightarrow> Inl (ScmMessage msg)
          | Inr credential \<Rightarrow> Inr credential))"

definition BeginConnect ::
  "scm_world \<Rightarrow> env \<Rightarrow> User \<Rightarrow> Provider \<Rightarrow> string \<Rightarrow> 'z scm_db_scheme \<Rightarrow> (scm_error, string, 'z scm_db_scheme) outcome" where
  "BeginConnect W E actor provider returnTo db =
    (if user_Role actor \<noteq> RoleAdmin then (Inl ErrForbidden, db)
     else case adapter_for W provider of
       None \<Rightarrow> (Inl ErrProviderUnavailable, db)
     | Some ad \<Rightarrow>
         let returnTo = (if safeReturnTo returnTo then returnTo else ''/repositories'')
         in (case randomToken E 0 32 of
           Inl e \<Rightarrow> (Inl e, db)
         | Inr state \<Rightarrow>
             (case randomToken E 1 48 of
                Inl e \<Rightarrow> (Inl e, db)
              | Inr verifier \<Rightarrow>
                  let challenge = RawURLEncode (sha256 (sw_crypto W) verifier)
                  in (case CreateFlow (call E 1) (digest W state)
                      \<lparr>fl_Provider = provider, fl_UserID = user_ID actor, fl_Verifier = verifier, fl_ReturnTo = returnTo\<rparr>
                      (clock E + 10 * minute) db of
                    (Inl e, db1) \<Rightarrow> (Inl e, db1)
                  | (Inr _, db1) \<Rightarrow> (ada_ConnectURL ad state challenge, db1)))))"

definition CompleteConnect ::
  "scm_world \<Rightarrow> ('z scm_db_scheme \<Rightarrow> 'z scm_db_scheme) \<Rightarrow> env \<Rightarrow> Provider \<Rightarrow> string \<Rightarrow> Callback \<Rightarrow> http_log \<Rightarrow> 'z scm_db_scheme \<Rightarrow>
   (scm_error + Connection \<times> string) option \<times> http_log \<times> 'z scm_db_scheme" where
  "CompleteConnect W bt E provider state callback log db =
    (if state = [] then (Some (Inl ErrInvalidFlow), log, db)
     else case ConsumeFlow (call E 0) (digest W state) (clock E) db of
       (Inl _, db1) \<Rightarrow> (Some (Inl ErrInvalidFlow), log, db1)
     | (Inr flow, db1) \<Rightarrow>
         if fl_Provider flow \<noteq> provider then (Some (Inl ErrInvalidFlow), log, db1)
         else (case adapter_for W provider of
           None \<Rightarrow> (Some (Inl ErrProviderUnavailable), log, db1)
         | Some ad \<Rightarrow>
             (case ada_Complete ad (clock E) callback (fl_Verifier flow) log of
                (Inl e, log1) \<Rightarrow> (Some (Inl e), log1, db1)
              | (Inr (remote, credential), log1) \<Rightarrow>
                  (case ada_Repositories ad (clock E) remote credential log1 of
                     None \<Rightarrow> (None, log1, db1)
                   | Some (Inl e, log2) \<Rightarrow> (Some (Inl e), log2, db1)
                   | Some (Inr (rs, credential'), log2) \<Rightarrow>
                       (case sealCredential W E 0 credential' of
                          Inl e \<Rightarrow> (Some (Inl e), log2, db1)
                        | Inr ciphertext \<Rightarrow>
                            (case UpsertConnection (sw_codec W) (call E 1) (fl_UserID flow) remote ciphertext rs (clock E) (bt db1) of
                               (Inl e, db2) \<Rightarrow> (Some (Inl e), log2, db2)
                             | (Inr connection, db2) \<Rightarrow> (Some (Inr (connection, fl_ReturnTo flow)), log2, db2)))))))"

definition Sync ::
  "scm_world \<Rightarrow> ('z scm_db_scheme \<Rightarrow> 'z scm_db_scheme) \<Rightarrow> env \<Rightarrow> User \<Rightarrow> string \<Rightarrow> http_log \<Rightarrow> 'z scm_db_scheme \<Rightarrow>
   (scm_error + Connection) option \<times> http_log \<times> 'z scm_db_scheme" where
  "Sync W bt E actor connectionID log db =
    (if user_Role actor \<noteq> RoleAdmin \<and> user_Role actor \<noteq> RoleMaintainer then (Some (Inl ErrForbidden), log, db)
     else case GetConnection (call E 0) connectionID db of
       Inl e \<Rightarrow> (Some (Inl e), log, db)
     | Inr stored \<Rightarrow>
         (case adapter_for W (con_Provider stored) of
            None \<Rightarrow> (Some (Inl ErrProviderUnavailable), log, db)
          | Some ad \<Rightarrow>
              (case openCredential W (con_CredentialCiphertext stored) of
                 Inl e \<Rightarrow> (Some (Inl e), log, db)
               | Inr credential \<Rightarrow>
                   let remote = \<lparr>rc_Provider = con_Provider stored, rc_Name = con_Name stored,
                     rc_ExternalAccountID = con_ExternalAccountID stored, rc_BaseURL = con_BaseURL stored\<rparr>
                   in (case ada_Repositories ad (clock E) remote credential log of
                     None \<Rightarrow> (None, log, db)
                   | Some (Inl e, log1) \<Rightarrow> (Some (Inl e), log1, db)
                   | Some (Inr (rs, credential'), log1) \<Rightarrow>
                       (case sealCredential W E 0 credential' of
                          Inl e \<Rightarrow> (Some (Inl e), log1, db)
                        | Inr ciphertext \<Rightarrow>
                            (case UpsertConnection (sw_codec W) (call E 1) (user_ID actor) remote ciphertext rs (clock E) (bt db) of
                               (r, db1) \<Rightarrow> (Some r, log1, db1)))))))"

definition service_GetRepository :: "scm_world \<Rightarrow> env \<Rightarrow> string \<Rightarrow> 'z scm_db_scheme \<Rightarrow> scm_error + Repository" where
  "service_GetRepository W E i db =
    (case GetRepository (sw_codec W) E i db of Inl _ \<Rightarrow> Inl ErrRepositoryNotFound | Inr r \<Rightarrow> Inr r)"

definition FindRepository :: "scm_world \<Rightarrow> env \<Rightarrow> Provider \<Rightarrow> string \<Rightarrow> 'z scm_db_scheme \<Rightarrow> scm_error + Repository" where
  "FindRepository W E provider providerRepositoryID db =
    (case ListRepositories (sw_codec W) E db of
       Inl e \<Rightarrow> Inl e
     | Inr rs \<Rightarrow>
         (case find (\<lambda>r. repo_Provider r = provider \<and> repo_ProviderRepositoryID r = providerRepositoryID) rs of
            None \<Rightarrow> Inl ErrRepositoryNotFound
          | Some r \<Rightarrow> Inr r))"

definition service_VerifyWebhook :: "scm_world \<Rightarrow> Provider \<Rightarrow> (string \<Rightarrow> string) \<Rightarrow> string \<Rightarrow> scm_error + WebhookEvent" where
  "service_VerifyWebhook W provider headers body =
    (case adapter_for W provider of None \<Rightarrow> Inl ErrProviderUnavailable | Some ad \<Rightarrow> ada_VerifyWebhook ad headers body)"

definition service_RecordWebhook ::
  "scm_world \<Rightarrow> env \<Rightarrow> Provider \<Rightarrow> WebhookEvent \<Rightarrow> string \<Rightarrow> 'z scm_db_scheme \<Rightarrow> (scm_error, bool, 'z scm_db_scheme) outcome" where
  "service_RecordWebhook W E provider event body db =
    RecordWebhook (sw_codec W) E provider event (sha256 (sw_crypto W) body) (clock E) db"

definition HandleWebhookEvent ::
  "scm_world \<Rightarrow> env \<Rightarrow> Provider \<Rightarrow> (string \<Rightarrow> string) \<Rightarrow> string \<Rightarrow> 'z scm_db_scheme \<Rightarrow>
   (scm_error, WebhookEvent \<times> bool, 'z scm_db_scheme) outcome" where
  "HandleWebhookEvent W E provider headers body db =
    (case service_VerifyWebhook W provider headers body of
       Inl e \<Rightarrow> (Inl e, db)
     | Inr event \<Rightarrow>
         (case service_RecordWebhook W E provider event body db of
            (Inl e, db1) \<Rightarrow> (Inl e, db1)
          | (Inr created, db1) \<Rightarrow> (Inr (event, created), db1)))"

section \<open>Publishing through GitHub\<close>

text \<open>The adapter of a publication, with the error of a provider that is not the GitHub adapter.\<close>

definition github_for :: "scm_world \<Rightarrow> scm_error \<Rightarrow> scm_error + github_world \<times> GitHubAdapter" where
  "github_for W other =
    (case adapter_for W ProviderGitHub of
       None \<Rightarrow> Inl ErrProviderUnavailable
     | Some ad \<Rightarrow> (case ada_GitHub ad of None \<Rightarrow> Inl other | Some gh \<Rightarrow> Inr gh))"

definition githubToken :: "scm_world \<Rightarrow> time \<Rightarrow> string \<Rightarrow> ((github_world \<times> GitHubAdapter) \<times> string) http" where
  "githubToken W now installationID =
    (case github_for W ErrProviderUnavailable of
       Inl e \<Rightarrow> throw e
     | Inr (G, a) \<Rightarrow> andThen (InstallationToken G a now installationID) (\<lambda>token. ret ((G, a), token)))"

definition review_comment :: "review_output \<Rightarrow> string" where
  "review_comment out = ''## RepoMender code review'' @ newline @ newline @ ro_Summary out @ newline @ newline @
     (if ro_Findings out = [] then ''No actionable findings.''
      else concat (map (\<lambda>(severity, path, line). ''- **'' @ severity @ ''** `'' @ path @ ''`'' @
        (case line of None \<Rightarrow> [] | Some l \<Rightarrow> '':'' @ itoa l) @ newline) (ro_Findings out)))"

definition PublishGitHubReview :: "scm_world \<Rightarrow> time \<Rightarrow> string \<Rightarrow> string \<Rightarrow> int \<Rightarrow> string \<Rightarrow> json \<Rightarrow> unit http" where
  "PublishGitHubReview W now repository installationID number sha result =
    (case github_for W (ScmMessage ''GitHub adapter does not support review publication'') of
       Inl e \<Rightarrow> throw e
     | Inr (G, a) \<Rightarrow>
         (case sw_review_output W result of
            None \<Rightarrow> throw ErrInvalidWebhook
          | Some out \<Rightarrow>
              if TrimSpace (ro_Summary out) = [] then throw ErrInvalidWebhook
              else if \<not> validGitHubRepository repository \<or> int (length (ro_Findings out)) > 200 then throw ErrInvalidWebhook
              else andThen (InstallationToken G a now installationID)
                (\<lambda>token. andThen (CreateCheckRun G a token repository sha (ro_Summary out) (int (length (ro_Findings out))))
                  (\<lambda>_. CreateIssueComment G a token repository number (review_comment out)))))"

definition FetchGitHubWorkflowLogs :: "scm_world \<Rightarrow> time \<Rightarrow> string \<Rightarrow> string \<Rightarrow> int \<Rightarrow> string http" where
  "FetchGitHubWorkflowLogs W now repository installationID runID =
    (case github_for W (ScmMessage ''GitHub adapter does not support workflow logs'') of
       Inl e \<Rightarrow> throw e
     | Inr (G, a) \<Rightarrow> andThen (InstallationToken G a now installationID) (\<lambda>token. DownloadWorkflowLogs G a token repository runID))"

definition PublishGitHubDiagnosis :: "scm_world \<Rightarrow> time \<Rightarrow> string \<Rightarrow> string \<Rightarrow> string \<Rightarrow> string \<Rightarrow> unit http" where
  "PublishGitHubDiagnosis W now repository installationID sha summary =
    (case github_for W (ScmMessage ''GitHub adapter does not support diagnosis publication'') of
       Inl e \<Rightarrow> throw e
     | Inr (G, a) \<Rightarrow>
         if \<not> validGitHubRepository repository \<or> summary = [] \<or> int (length summary) > 20000 then throw ErrInvalidWebhook
         else andThen (InstallationToken G a now installationID)
           (\<lambda>token. CreateDiagnosisCheckRun G a token repository sha summary))"

definition ResolveGitHubIssue :: "scm_world \<Rightarrow> time \<Rightarrow> string \<Rightarrow> string \<Rightarrow> int \<Rightarrow> ScmIssue http" where
  "ResolveGitHubIssue W now repository installationID number =
    andThen (githubToken W now installationID) (\<lambda>((G, a), token). GetIssue G a token repository number)"

definition ResolveGitHubBaseSHA :: "scm_world \<Rightarrow> time \<Rightarrow> string \<Rightarrow> string \<Rightarrow> string \<Rightarrow> string http" where
  "ResolveGitHubBaseSHA W now repository installationID branch =
    andThen (githubToken W now installationID) (\<lambda>((G, a), token). ResolveDefaultBranchSHA G a token repository branch)"

definition PublishGitHubDraft :: "scm_world \<Rightarrow> time \<Rightarrow> DraftPublication \<Rightarrow> DraftPull http" where
  "PublishGitHubDraft W now inp =
    andThen (githubToken W now (dp_InstallationID inp)) (\<lambda>((G, a), token). PublishDraft G a token inp)"

section \<open>The provider of the repair component (repair/provider_scm.go)\<close>

definition repair_issue :: "string \<Rightarrow> string \<Rightarrow> ScmIssue \<Rightarrow> Issue" where
  "repair_issue repository installationID issue = \<lparr>iss_Provider = ''github'', iss_RepositoryID = [], iss_Repository = repository, iss_CloneURL = [],
     iss_WebURL = sci_WebURL issue, iss_InstallationID = installationID, iss_Number = sci_Number issue, iss_Title = sci_Title issue,
     iss_Body = sci_Body issue, iss_State = sci_State issue, iss_IsPullRequest = sci_IsPullRequest issue, iss_BaseBranch = [], iss_BaseSHA = []\<rparr>"

definition draft_publication :: "PublishInput \<Rightarrow> DraftPublication" where
  "draft_publication inp = \<lparr>dp_Repository = pub_Repository inp, dp_InstallationID = pub_InstallationID inp, dp_BaseBranch = pub_BaseBranch inp,
     dp_BaseSHA = pub_BaseSHA inp, dp_BranchName = pub_BranchName inp, dp_Title = pub_Title inp, dp_Body = pub_Body inp,
     dp_Files = map (\<lambda>f. \<lparr>df_Path = pf_Path f, df_Content = pf_Content f\<rparr>) (pub_Files inp)\<rparr>"

text \<open>The interface that the repair component calls, on top of the service; \<open>err\<close> is the text of an error.\<close>

definition SCMProvider :: "scm_world \<Rightarrow> (scm_error \<Rightarrow> string) \<Rightarrow> time \<Rightarrow> http_log \<Rightarrow> provider" where
  "SCMProvider W err now log = \<lparr>
     pv_ResolveIssue = (\<lambda>repository installationID number.
       case fst (ResolveGitHubIssue W now repository installationID number log) of
         Inl e \<Rightarrow> Inl (err e) | Inr issue \<Rightarrow> Inr (repair_issue repository installationID issue)),
     pv_ResolveBaseSHA = (\<lambda>repository installationID branch.
       case fst (ResolveGitHubBaseSHA W now repository installationID branch log) of Inl e \<Rightarrow> Inl (err e) | Inr sha \<Rightarrow> Inr sha),
     pv_PublishDraft = (\<lambda>inp.
       case fst (PublishGitHubDraft W now (draft_publication inp) log) of
         Inl e \<Rightarrow> Inl (err e) | Inr pr \<Rightarrow> Inr \<lparr>pr_Number = dpr_Number pr, pr_URL = dpr_URL pr\<rparr>)\<rparr>"

section \<open>The provider contract\<close>

text \<open>What the service relies on in an adapter: a completed handshake describes an account of the adapter's own provider.\<close>

lemma UpsertConnection_provider:
  assumes "UpsertConnection J E actor remote ct rs t db = (Inr conn, db')"
  shows "con_Provider conn = rc_Provider remote \<and> con_ExternalAccountID conn = rc_ExternalAccountID remote"
proof -
  from assms obtain i conns rows and row :: ConnectionRow where
    up: "upsert_connection i actor remote ct t (scm_connections db) = Some (row, conns)" and conn: "conn = Connection.truncate row"
    by (elim UpsertConnection_success)
  from up have "connection_key row = (rc_Provider remote, rc_ExternalAccountID remote)"
    by (cases rule: upsert_connection_cases) simp_all
  then show ?thesis by (simp add: conn Connection.defs connection_key_def)
qed

lemma CompleteConnect_success:
  assumes "CompleteConnect W bt E provider state cb log db = (Some (Inr (conn, returnTo)), log', db')"
  obtains flow db1 ad remote cred log1 rs cred' ct where "state \<noteq> []"
    "ConsumeFlow (call E 0) (digest W state) (clock E) db = (Inr flow, db1)" "fl_Provider flow = provider" "fl_ReturnTo flow = returnTo"
    "adapter_for W provider = Some ad" "ada_Complete ad (clock E) cb (fl_Verifier flow) log = (Inr (remote, cred), log1)"
    "ada_Repositories ad (clock E) remote cred log1 = Some (Inr (rs, cred'), log')" "sealCredential W E 0 cred' = Inr ct"
    "UpsertConnection (sw_codec W) (call E 1) (fl_UserID flow) remote ct rs (clock E) (bt db1) = (Inr conn, db')"
  using assms unfolding CompleteConnect_def
  by (auto split: if_splits prod.splits sum.splits option.splits)

locale scm_adapter =
  fixes ad :: Adapter
  assumes complete_provider: "ada_Complete ad now cb verifier log = (Inr (remote, cred), log') \<Longrightarrow> rc_Provider remote = ada_Provider ad"
begin

lemma connected_provider:
  assumes "adapter_for W provider = Some ad" "ada_Provider ad = provider"
    "CompleteConnect W bt E provider state cb log db = (Some (Inr (conn, returnTo)), log', db')"
  shows "con_Provider conn = provider"
  using assms(3)
proof (cases rule: CompleteConnect_success)
  case (1 flow db1 ad' remote)
  then have "rc_Provider remote = ada_Provider ad" using assms(1) complete_provider by simp
  with 1 assms(2) show ?thesis using UpsertConnection_provider by fastforce
qed

end

interpretation github_provider: scm_adapter "github_adapter G a" for G a
  by unfold_locales
    (auto simp: github_adapter_def Complete_def andThen_def throw_def ret_def split: option.splits if_splits sum.splits prod.splits)

interpretation gitlab_provider: scm_adapter "gitlab_adapter L c" for L c
  by unfold_locales
    (auto simp: gitlab_adapter_def gitlab_Complete_def andThen_def throw_def ret_def split: option.splits if_splits sum.splits prod.splits)

section \<open>The system of the integration\<close>

text \<open>
  All histories of the tables: connections are begun and completed, synchronised, and webhooks recorded, in any order, while a handler waits for its provider other
  handlers run. \<open>A\<close> is the set of the users that ever acted as administrators. Every step may meet other providers (\<open>W\<close>).
\<close>

inductive scm_step :: "scm_codec \<Rightarrow> string set \<Rightarrow> 'z scm_db_scheme \<Rightarrow> 'z scm_db_scheme \<Rightarrow> bool" for J A where
  begin_connect: "sw_codec W = J \<Longrightarrow> (user_Role actor = RoleAdmin \<longrightarrow> user_ID actor \<in> A) \<Longrightarrow>
    scm_step J A db (snd (BeginConnect W E actor provider returnTo db))"
| complete_connect: "sw_codec W = J \<Longrightarrow> (\<forall>s. (scm_step J A)\<^sup>*\<^sup>* s (bt s)) \<Longrightarrow>
    scm_step J A db (snd (snd (CompleteConnect W bt E provider state cb log db)))"
| sync: "sw_codec W = J \<Longrightarrow> (\<forall>s. (scm_step J A)\<^sup>*\<^sup>* s (bt s)) \<Longrightarrow>
    scm_step J A db (snd (snd (Sync W bt E actor connectionID log db)))"
| handle_webhook: "sw_codec W = J \<Longrightarrow> scm_step J A db (snd (HandleWebhookEvent W E provider headers body db))"
| record_webhook: "sw_codec W = J \<Longrightarrow> scm_step J A db (snd (service_RecordWebhook W E provider event body db))"

definition scm_start :: "'z scm_db_scheme \<Rightarrow> bool" where
  "scm_start db \<longleftrightarrow> scm_connections db = [] \<and> repositories db = [] \<and> scm_oauth_flows db = [] \<and> webhook_deliveries db = [] \<and> outbox_events db = []"

definition scm_inv :: "scm_codec \<Rightarrow> string set \<Rightarrow> 'z scm_db_scheme \<Rightarrow> bool" where
  "scm_inv J A db \<longleftrightarrow> scm_wf J db \<and> (\<forall>f \<in> set (scm_oauth_flows db). fl_UserID (flr_Flow f) \<in> A) \<and>
     (\<forall>c \<in> set (scm_connections db). con_CreatedBy c \<in> A)"

definition connection_keys :: "'z scm_db_scheme \<Rightarrow> (Provider \<times> string) set" where
  "connection_keys db = connection_key ` set (scm_connections db)"

text \<open>What every transaction keeps: the invariant, and the accounts that are known.\<close>

definition scm_grows :: "scm_codec \<Rightarrow> string set \<Rightarrow> 'z scm_db_scheme \<Rightarrow> 'z scm_db_scheme \<Rightarrow> bool" where
  "scm_grows J A s t \<longleftrightarrow> (scm_inv J A s \<longrightarrow> scm_inv J A t \<and> connection_keys s \<subseteq> connection_keys t)"

lemma scm_grows_refl [simp]: "scm_grows J A s s"
  by (simp add: scm_grows_def)

lemma scm_grows_trans: "scm_grows J A s t \<Longrightarrow> scm_grows J A t u \<Longrightarrow> scm_grows J A s u"
  by (auto simp: scm_grows_def)

lemma scm_grows_star:
  assumes "(\<lambda>s t. R s t \<and> scm_grows J A s t)\<^sup>*\<^sup>* s t"
  shows "scm_grows J A s t"
  using assms by (induction rule: rtranclp_induct) (auto intro: scm_grows_trans)

lemma CreateFlow_grows: "fl_UserID flow \<in> A \<Longrightarrow> scm_grows J A db (snd (CreateFlow E h flow t db))"
  using CreateFlow_wf [of J db E h flow t] by (auto simp: scm_grows_def scm_inv_def CreateFlow_def connection_keys_def)

lemma ConsumeFlow_grows: "scm_grows J A db (snd (ConsumeFlow E h now db))"
  using ConsumeFlow_wf [of J db E h now]
  by (cases rule: ConsumeFlow_cases [of E h now db]) (auto simp: scm_grows_def scm_inv_def connection_keys_def table_simps)

lemma ConsumeFlow_admin:
  assumes "ConsumeFlow E h now db = (Inr flow, db1)" "scm_inv J A db"
  shows "fl_UserID flow \<in> A"
  using assms by (cases rule: ConsumeFlow_cases [of E h now db]) (auto simp: scm_inv_def)

lemma RecordWebhook_grows: "scm_grows J A db (snd (RecordWebhook J E provider event ph t db))"
  using RecordWebhook_wf [of J db E provider event ph t]
  by (cases rule: RecordWebhook_cases [of J E provider event ph t db]) (auto simp: scm_grows_def scm_inv_def connection_keys_def)

lemma UpsertConnection_grows:
  assumes "scm_inv J A db" "actor \<in> A \<or> (rc_Provider remote, rc_ExternalAccountID remote) \<in> connection_keys db"
  shows "scm_grows J A db (snd (UpsertConnection J' E actor remote ct rs t db))"
proof (cases rule: UpsertConnection_cases [of J' E actor remote ct rs t db])
  case failed
  then show ?thesis by simp
next
  case (written conn db')
  then obtain i conns rows and row :: ConnectionRow where
    up: "upsert_connection i actor remote ct t (scm_connections db) = Some (row, conns)" and
    db': "db' = db\<lparr>scm_connections := conns, repositories := rows\<rparr>"
    by (elim UpsertConnection_success)
  have dist: "distinct (map con_ID (scm_connections db))" "distinct (map connection_key (scm_connections db))"
    using assms(1) by (simp_all add: scm_inv_def scm_wf_def)
  have "connection_key ` set (scm_connections db) \<subseteq> connection_key ` set conns"
    by (rule upsert_connection_wf(5) [OF up dist])
  moreover have "\<forall>c \<in> set conns. con_CreatedBy c \<in> A"
    using up
  proof (cases rule: upsert_connection_cases)
    case (refresh c upd)
    then show ?thesis using assms(1) by (auto simp: scm_inv_def table_simps)
  next
    case insert
    then have "actor \<in> A" using assms(2) by (simp add: connection_keys_def)
    with insert assms(1) show ?thesis by (auto simp: scm_inv_def)
  qed
  moreover have "scm_wf J db'"
    using UpsertConnection_wf [of J db J' E actor remote ct rs t] assms(1) written by (simp add: scm_inv_def)
  ultimately show ?thesis
    using assms(1) by (simp add: scm_grows_def scm_inv_def connection_keys_def written db')
qed

lemma BeginConnect_grows:
  "(user_Role actor = RoleAdmin \<longrightarrow> user_ID actor \<in> A) \<Longrightarrow> scm_grows J A db (snd (BeginConnect W E actor provider returnTo db))"
  using CreateFlow_grows [of _ A J db "call E 1"]
  by (auto simp: BeginConnect_def Let_def split: option.splits sum.splits prod.splits) (metis Flow.select_convs(2) snd_conv)+

lemma CompleteConnect_grows:
  assumes gap: "\<And>s. scm_grows (sw_codec W) A s (bt s)"
  shows "scm_grows (sw_codec W) A db (snd (snd (CompleteConnect W bt E provider state cb log db)))"
proof (cases "ConsumeFlow (call E 0) (digest W state) (clock E) db")
  case (Pair r db1)
  let ?run = "snd (snd (CompleteConnect W bt E provider state cb log db))"
  have db1: "scm_grows (sw_codec W) A db db1"
    using ConsumeFlow_grows [of "sw_codec W" A db "call E 0"] Pair by (metis snd_conv)
  have "?run = db \<or> ?run = db1 \<or> (\<exists>flow remote ct rs. r = Inr flow \<and>
      ?run = snd (UpsertConnection (sw_codec W) (call E 1) (fl_UserID flow) remote ct rs (clock E) (bt db1)))"
    using Pair unfolding CompleteConnect_def
    by (auto split: if_splits sum.splits option.splits prod.splits) (metis snd_conv)+
  then show ?thesis
  proof (elim disjE exE conjE)
    fix flow remote ct rs
    assume flow: "r = Inr flow" and run: "?run = snd (UpsertConnection (sw_codec W) (call E 1) (fl_UserID flow) remote ct rs (clock E) (bt db1))"
    show ?thesis
    proof (cases "scm_inv (sw_codec W) A db")
      case True
      then have "scm_inv (sw_codec W) A (bt db1)" using db1 gap [of db1] by (simp add: scm_grows_def)
      moreover have "fl_UserID flow \<in> A" using Pair flow True by (auto intro: ConsumeFlow_admin)
      ultimately show ?thesis
        unfolding run by (blast intro: UpsertConnection_grows scm_grows_trans db1 gap)
    qed (simp add: scm_grows_def)
  qed (simp_all add: db1)
qed

lemma GetConnection_known:
  "GetConnection E i db = Inr stored \<Longrightarrow> (con_Provider stored, con_ExternalAccountID stored) \<in> connection_keys db"
  by (force simp: GetConnection_def connection_keys_def connection_key_def StoredConnection.defs
    split: if_splits option.splits dest: select_by_SomeD)

lemma Sync_grows:
  assumes gap: "\<And>s. scm_grows (sw_codec W) A s (bt s)"
  shows "scm_grows (sw_codec W) A db (snd (snd (Sync W bt E actor connectionID log db)))"
proof -
  let ?run = "snd (snd (Sync W bt E actor connectionID log db))"
  have "?run = db \<or> (\<exists>stored remote ct rs. GetConnection (call E 0) connectionID db = Inr stored \<and>
      (rc_Provider remote, rc_ExternalAccountID remote) = (con_Provider stored, con_ExternalAccountID stored) \<and>
      ?run = snd (UpsertConnection (sw_codec W) (call E 1) (user_ID actor) remote ct rs (clock E) (bt db)))"
    unfolding Sync_def Let_def
    by (auto split: if_splits sum.splits option.splits prod.splits)
      (metis RemoteConnection.select_convs(1,3) snd_conv)+
  then show ?thesis
  proof (elim disjE exE conjE)
    fix stored remote ct rs
    assume get: "GetConnection (call E 0) connectionID db = Inr stored"
      and key: "(rc_Provider remote, rc_ExternalAccountID remote) = (con_Provider stored, con_ExternalAccountID stored)"
      and run: "?run = snd (UpsertConnection (sw_codec W) (call E 1) (user_ID actor) remote ct rs (clock E) (bt db))"
    show ?thesis
    proof (cases "scm_inv (sw_codec W) A db")
      case True
      then have "scm_inv (sw_codec W) A (bt db)" "connection_keys db \<subseteq> connection_keys (bt db)"
        using gap [of db] by (simp_all add: scm_grows_def)
      moreover have "(rc_Provider remote, rc_ExternalAccountID remote) \<in> connection_keys db"
        unfolding key by (rule GetConnection_known [OF get])
      ultimately show ?thesis
        unfolding run by (blast intro: UpsertConnection_grows scm_grows_trans gap)
    qed (simp add: scm_grows_def)
  qed simp
qed

lemma HandleWebhookEvent_grows: "scm_grows (sw_codec W) A db (snd (HandleWebhookEvent W E provider headers body db))"
  using RecordWebhook_grows [of "sw_codec W" A db E provider]
  by (auto simp: HandleWebhookEvent_def service_RecordWebhook_def split: sum.splits prod.splits) (metis snd_conv)+

lemma scm_step_grows: "scm_step J A s t \<Longrightarrow> scm_grows J A s t"
proof (induction rule: scm_step.induct)
  case (complete_connect W bt db E provider state cb log)
  then have "scm_grows J A s (bt s)" for s by (blast intro: scm_grows_star)
  with complete_connect(1) show ?case by (auto intro: CompleteConnect_grows)
next
  case (sync W bt db E actor connectionID log)
  then have "scm_grows J A s (bt s)" for s by (blast intro: scm_grows_star)
  with sync(1) show ?case by (auto intro: Sync_grows)
next
  case (record_webhook W db E provider event body)
  then show ?case by (auto simp: service_RecordWebhook_def intro: RecordWebhook_grows)
qed (auto intro: BeginConnect_grows HandleWebhookEvent_grows)

interpretation scm_system: transition_system scm_start "scm_step J A" "scm_inv J A" for J A
proof unfold_locales
  fix db :: "'z scm_db_scheme"
  assume "scm_start db"
  then show "scm_inv J A db" by (simp add: scm_start_def scm_inv_def scm_wf_def repositories_wf_def)
next
  fix s t :: "'z scm_db_scheme"
  assume "scm_step J A s t" "scm_inv J A s"
  then show "scm_inv J A t" using scm_step_grows scm_grows_def by blast
qed

section \<open>Properties\<close>

text \<open>
  C12. Only administrators connect accounts, and the tables stay well formed. In every history of connecting, synchronising and webhooks, with the waiting time of every handler
  filled by other handlers, every connection was created, and every pending connection flow begun, by a user who acted as an administrator: a maintainer who
  synchronises can refresh an account but never add one. Connections are unique per provider account, repositories per connection and provider identifier, and
  every recorded delivery has its own outbox event.
\<close>

theorem connections_by_admins:
  assumes "reachable scm_start (scm_step J A) db"
  shows "scm_wf J db \<and> con_CreatedBy ` set (scm_connections db) \<subseteq> A \<and> (fl_UserID \<circ> flr_Flow) ` set (scm_oauth_flows db) \<subseteq> A"
  using scm_system.reachable_inv [OF assms] by (auto simp: scm_inv_def)

definition sample_aead :: aead where
  "sample_aead = \<lparr>NonceSize = 2, aead_Seal = (\<lambda>nonce p. rev p @ [0]), aead_Open = (\<lambda>nonce c. if c \<noteq> [] \<and> last c = 0 then Some (rev (butlast c)) else None)\<rparr>"

definition sample_crypto :: crypto where
  "sample_crypto = \<lparr>sha256 = (\<lambda>s. take 2 (bytes_of s)), bcrypt_hash = (\<lambda>_. None), bcrypt_ok = (\<lambda>_ _. False), parse_address = (\<lambda>_. None),
     unicode_lower = (\<lambda>s. s)\<rparr>"

definition sample_world :: scm_world where
  "sample_world = \<lparr>sw_codec = sample_codec, sw_box = sample_aead, sw_crypto = sample_crypto,
     sw_adapters = NewService [Some (github_adapter sample_github sample_adapter), Some (gitlab_adapter sample_gitlab sample_gitlab_config)],
     sw_review_output = (\<lambda>_. Some \<lparr>ro_Summary = ''ok'', ro_Findings = []\<rparr>)\<rparr>"

definition sample_admin :: User where
  "sample_admin = \<lparr>user_ID = ''u1'', user_Email = [], user_DisplayName = [], user_Role = RoleAdmin, user_AuthSource = [], user_Active = True, user_CreatedAt = 0\<rparr>"

definition sample_begun :: scm_db where
  "sample_begun = snd (BeginConnect sample_world (sample_scm_env 0) sample_admin ProviderGitLab ''/x'' empty_scm)"

text \<open>The state the browser brings back, and the callback that completes the flow.\<close>

definition sample_state :: string where
  "sample_state = projr (randomToken (sample_scm_env 0) 0 32)"

abbreviation sample_complete where
  "sample_complete \<equiv> CompleteConnect sample_world (\<lambda>s. s) (sample_scm_env 5) ProviderGitLab sample_state \<lparr>cb_Code = ''c'', cb_InstallationID = []\<rparr> [] sample_begun"

theorem connections_by_admins_witness:
  "\<exists>db :: scm_db. reachable scm_start (scm_step sample_codec {''u1''}) db \<and> length (scm_connections db) = 1 \<and>
    con_CreatedBy ` set (scm_connections db) \<subseteq> {''u1''}"
proof -
  let ?db = "snd (snd sample_complete)"
  have W: "sw_codec sample_world = sample_codec" by (simp add: sample_world_def)
  have "scm_start empty_scm" by (simp add: scm_start_def empty_scm_def)
  then have "reachable scm_start (scm_step sample_codec {''u1''}) empty_scm" by (rule reach_start)
  moreover have "scm_step sample_codec {''u1''} empty_scm sample_begun"
    unfolding sample_begun_def by (rule begin_connect [OF W]) (simp add: sample_admin_def)
  moreover have "scm_step sample_codec {''u1''} sample_begun ?db"
    by (rule complete_connect [OF W]) simp
  ultimately have run: "reachable scm_start (scm_step sample_codec {''u1''}) ?db" by (blast intro: reach_step)
  moreover have "length (scm_connections ?db) = 1" by code_simp
  ultimately show ?thesis using connections_by_admins [OF run] by blast
qed

text \<open>
  Credentials survive storage. For an authenticated cipher whose \<open>Open\<close> inverts \<open>Seal\<close> and whose output is no shorter than its input, and a JSON
  encoding that decodes to what was encoded, opening a sealed credential gives the credential back; a credential without tokens is not stored at all; and
  a stored value that is too short for a nonce is an error, not an empty credential.
\<close>

theorem credential_roundtrip:
  assumes "\<And>nonce p. length nonce = NonceSize (sw_box W) \<Longrightarrow> aead_Open (sw_box W) nonce (aead_Seal (sw_box W) nonce p) = Some p"
    and "\<And>nonce p. length p \<le> length (aead_Seal (sw_box W) nonce p)"
    and "marshal_credential (sw_codec W) cred = Inr plain" and "plain \<noteq> []"
    and "unmarshal_credential (sw_codec W) plain = Inr cred"
    and "sealCredential W E n cred = Inr ct"
  shows "if cred_AccessToken cred = [] \<and> cred_RefreshToken cred = [] then ct = None
    else openCredential W ct = Inr cred \<and> (\<exists>c. ct = Some c \<and> length c > NonceSize (sw_box W)) \<and>
      (\<forall>short. short \<noteq> [] \<and> length short \<le> NonceSize (sw_box W) \<longrightarrow>
         openCredential W (Some short) = Inl (ScmMessage ''invalid encrypted SCM credential''))"
proof (cases "cred_AccessToken cred = [] \<and> cred_RefreshToken cred = []")
  case True
  with assms(6) show ?thesis by (simp add: sealCredential_def)
next
  case False
  with assms(3,4,6) obtain nonce where nonce: "rand_read E n (NonceSize (sw_box W)) = Some nonce"
    and ct: "ct = Some (nonce @ aead_Seal (sw_box W) nonce plain)"
    by (auto simp: sealCredential_def Seal_def split: option.splits)
  have len: "length nonce = NonceSize (sw_box W)" by (rule rand_read_length [OF nonce])
  moreover have "aead_Seal (sw_box W) nonce plain \<noteq> []" using assms(2) [of plain nonce] assms(4) by auto
  ultimately show ?thesis
    using False assms(1) [OF len, of plain] assms(5) by (auto simp: ct openCredential_def Open_def)
qed

theorem credential_roundtrip_witness:
  "\<exists>c. sealCredential sample_world (sample_scm_env 0) 3 \<lparr>cred_AccessToken = ''tok'', cred_RefreshToken = [], cred_ExpiresAt = 0\<rparr> = Inr (Some c) \<and>
    openCredential sample_world (Some c) = Inr \<lparr>cred_AccessToken = ''tok'', cred_RefreshToken = [], cred_ExpiresAt = 0\<rparr>"
proof -
  let ?cred = "\<lparr>cred_AccessToken = ''tok'', cred_RefreshToken = [], cred_ExpiresAt = 0\<rparr>"
  let ?seal = "sealCredential sample_world (sample_scm_env 0) 3 ?cred"
  have box: "sw_box sample_world = sample_aead" and codec: "sw_codec sample_world = sample_codec" by (simp_all add: sample_world_def)
  have plain: "marshal_credential sample_codec ?cred = Inr [0x74, 0x6F, 0x6B]" "unmarshal_credential sample_codec [0x74, 0x6F, 0x6B] = Inr ?cred"
    and sealed: "\<not> isl ?seal"
    by code_simp+
  from sealed have ct: "?seal = Inr (projr ?seal)" by (simp add: sum.collapse(2))
  have "openCredential sample_world (projr ?seal) = Inr ?cred \<and> (\<exists>c. projr ?seal = Some c)"
    using credential_roundtrip [of sample_world ?cred "[0x74, 0x6F, 0x6B]" "sample_scm_env 0" 3 "projr ?seal"] ct plain
    by (simp add: box codec sample_aead_def) blast
  with ct show ?thesis by (metis (no_types))
qed

text \<open>
  A connection flow is used once, by whoever holds its state, and never after it expired. When the callback succeeds, an unexpired flow with the digest of its state existed for
  that provider, and it is gone afterwards: unless another process begins a flow with the same digest, the callback repeated is refused and changes nothing. The account that was connected is one of the provider that was asked for.
\<close>

theorem connect_flow_once:
  assumes "sw_adapters W = NewService [Some (github_adapter G a), Some (gitlab_adapter L c)]"
    and "\<And>s. digest W state \<notin> flr_StateHash ` set (scm_oauth_flows s) \<Longrightarrow> digest W state \<notin> flr_StateHash ` set (scm_oauth_flows (bt s))"
    and "distinct (map flr_StateHash (scm_oauth_flows db))"
    and "CompleteConnect W bt E provider state cb log db = (Some (Inr (conn, returnTo)), log', db')"
  shows "(\<exists>f \<in> set (scm_oauth_flows db). flr_StateHash f = digest W state \<and> clock E < flr_ExpiresAt f \<and> fl_Provider (flr_Flow f) = provider \<and>
      fl_ReturnTo (flr_Flow f) = returnTo) \<and>
    digest W state \<notin> flr_StateHash ` set (scm_oauth_flows db') \<and> con_Provider conn = provider \<and>
    CompleteConnect W bt E' provider state cb log'' db' = (Some (Inl ErrInvalidFlow), log'', db')"
  using assms(4)
proof (cases rule: CompleteConnect_success)
  case (1 flow db1 ad remote cred log1 rs cred' ct)
  obtain f where f: "f \<in> set (scm_oauth_flows db)" "flr_StateHash f = digest W state" "clock E < flr_ExpiresAt f" "flow = flr_Flow f"
    and db1: "db1 = db\<lparr>scm_oauth_flows := delete_where (\<lambda>f. flr_StateHash f = digest W state \<and> clock E < flr_ExpiresAt f) (scm_oauth_flows db)\<rparr>"
    using 1(2) by (cases rule: ConsumeFlow_cases [of "call E 0" "digest W state" "clock E" db]) auto
  have "g = f" if "g \<in> set (scm_oauth_flows db)" "flr_StateHash g = digest W state" for g
    using that f(1,2) assms(3) by (metis distinct_map inj_onD)
  then have gone: "digest W state \<notin> flr_StateHash ` set (scm_oauth_flows db1)"
    using f(3) by (auto simp: db1 table_simps)
  obtain conns rows where db': "db' = (bt db1)\<lparr>scm_connections := conns, repositories := rows\<rparr>"
    using 1(9) by (elim UpsertConnection_success)
  have flows: "digest W state \<notin> flr_StateHash ` set (scm_oauth_flows db')"
    using assms(2) [OF gone] by (simp add: db')
  then have "find (\<lambda>f. flr_StateHash f = digest W state \<and> clock E' < flr_ExpiresAt f) (scm_oauth_flows db') = None"
    by (force simp: find_None_iff)
  then have "\<exists>e. ConsumeFlow (call E' 0) (digest W state) (clock E') db' = (Inl e, db')"
    by (simp add: ConsumeFlow_def Let_def)
  then have "CompleteConnect W bt E' provider state cb log'' db' = (Some (Inl ErrInvalidFlow), log'', db')"
    by (auto simp: CompleteConnect_def)
  moreover have "con_Provider conn = provider"
  proof -
    have "ad = github_adapter G a \<and> ada_Provider ad = provider \<or> ad = gitlab_adapter L c \<and> ada_Provider ad = provider"
      using 1(5) assms(1)
      by (auto simp: adapter_for_def NewService_def github_adapter_def gitlab_adapter_def split: option.splits if_splits)
    then show ?thesis
      using 1(5) assms(4) by (auto intro: github_provider.connected_provider gitlab_provider.connected_provider)
  qed
  ultimately show ?thesis
    using f 1(3,4) flows by auto
qed

theorem connect_flow_once_witness:
  "\<exists>conn log' db'. sample_complete = (Some (Inr (conn, ''/x'')), log', db') \<and> con_Provider conn = ProviderGitLab \<and>
    CompleteConnect sample_world (\<lambda>s. s) (sample_scm_env 6) ProviderGitLab sample_state \<lparr>cb_Code = ''c'', cb_InstallationID = []\<rparr> [] db' =
      (Some (Inl ErrInvalidFlow), [], db')"
proof -
  let ?run = "sample_complete"
  have "fst ?run \<noteq> None" "\<not> isl (the (fst ?run))" "snd (projr (the (fst ?run))) = ''/x''" by code_simp+
  then have run: "?run = (Some (Inr (fst (projr (the (fst ?run))), ''/x'')), fst (snd ?run), snd (snd ?run))"
    by (metis option.collapse prod.collapse sum.collapse(2))
  have "sw_adapters sample_world = NewService [Some (github_adapter sample_github sample_adapter), Some (gitlab_adapter sample_gitlab sample_gitlab_config)]"
    by (simp add: sample_world_def)
  moreover have "distinct (map flr_StateHash (scm_oauth_flows sample_begun))" by code_simp
  ultimately show ?thesis
    using connect_flow_once [OF _ _ _ run, of sample_github sample_adapter sample_gitlab sample_gitlab_config "sample_scm_env 6" "[]"] run by blast
qed

text \<open>
  A webhook is attached to a repository that is still synchronised whenever there is one. \<open>FindRepository\<close> answers with a repository of the provider with the identifier
  that was asked for; if any such repository is enabled, in whichever connection, the answer is enabled; and it reports \<open>ErrRepositoryNotFound\<close> only when
  there is none at all.
\<close>

lemma scan_all_rows:
  "scan_all J xs = Inr rs \<Longrightarrow> list_all2 (\<lambda>(x, c) r. scanRepository J (con_Provider c) x = Inr r) xs rs"
  by (induction J xs arbitrary: rs rule: scan_all.induct) (auto split: sum.splits)

lemma scanRepository_fields:
  "scanRepository J p x = Inr r \<Longrightarrow> repo_ID r = row_ID x \<and> repo_Provider r = p \<and> repo_ProviderRepositoryID r = row_ProviderRepositoryID x \<and>
     repo_Enabled r = row_Enabled x"
  by (auto simp: scanRepository_def split: sum.splits)

lemma ListRepositories_enabled_first:
  assumes "ListRepositories J E db = Inr rs"
  shows "sorted_wrt (\<lambda>r r'. repo_Enabled r' \<longrightarrow> repo_Enabled r) rs"
proof -
  let ?xs = "sort_key (\<lambda>(x, c). (\<not> row_Enabled x, collate J (row_FullName x))) (join_connections (scm_connections db) (repositories db))"
  have "scan_all J ?xs = Inr rs" using assms by (simp add: ListRepositories_def split: if_splits)
  then have rel: "list_all2 (\<lambda>(x, c) r. scanRepository J (con_Provider c) x = Inr r) ?xs rs" by (rule scan_all_rows)
  then have "map repo_Enabled rs = map (row_Enabled \<circ> fst) ?xs"
    by (induction rule: list_all2_induct) (auto dest: scanRepository_fields)
  moreover have "sorted (map (\<lambda>(x, c). (\<not> row_Enabled x, collate J (row_FullName x))) ?xs)" by (rule sorted_sort_key)
  then have "sorted_wrt (\<lambda>b b'. b' \<longrightarrow> b) (map (row_Enabled \<circ> fst) ?xs)"
    unfolding sorted_wrt_map by (rule sorted_wrt_mono_rel [rotated]) (auto simp: less_eq_prod_def)
  ultimately have "sorted_wrt (\<lambda>b b'. b' \<longrightarrow> b) (map repo_Enabled rs)" by simp
  then show ?thesis by (simp add: sorted_wrt_map)
qed

lemma find_sorted_first:
  assumes "sorted_wrt R xs" "find P xs = Some x" "y \<in> set xs" "P y"
  shows "x = y \<or> R x y"
  using assms by (induction xs) (auto split: if_splits)

theorem find_repository_enabled:
  assumes "ListRepositories (sw_codec W) E db = Inr rs"
  shows "case FindRepository W E provider prid db of
      Inr r \<Rightarrow> r \<in> set rs \<and> repo_Provider r = provider \<and> repo_ProviderRepositoryID r = prid \<and>
        (repo_Enabled r \<or> (\<forall>r' \<in> set rs. repo_Provider r' = provider \<and> repo_ProviderRepositoryID r' = prid \<longrightarrow> \<not> repo_Enabled r'))
    | Inl e \<Rightarrow> e = ErrRepositoryNotFound \<and> (\<forall>r' \<in> set rs. \<not> (repo_Provider r' = provider \<and> repo_ProviderRepositoryID r' = prid))"
proof -
  let ?P = "\<lambda>r. repo_Provider r = provider \<and> repo_ProviderRepositoryID r = prid"
  show ?thesis
  proof (cases "find ?P rs")
    case None
    then have "\<forall>r' \<in> set rs. \<not> ?P r'" by (auto simp: find_None_iff)
    with None assms show ?thesis by (simp add: FindRepository_def)
  next
    case (Some r)
    then have "r \<in> set rs" "?P r" by (auto simp: find_Some_iff)
    moreover have "repo_Enabled r" if "r' \<in> set rs" "?P r'" "repo_Enabled r'" for r'
      using find_sorted_first [OF ListRepositories_enabled_first [OF assms] Some that(1,2)] that(3) by auto
    ultimately show ?thesis using assms Some by (auto simp: FindRepository_def)
  qed
qed

theorem find_repository_enabled_witness:
  "\<exists>rs r. ListRepositories sample_codec (sample_scm_env 3) sample_synced = Inr rs \<and> length rs = 2 \<and>
    FindRepository sample_world (sample_scm_env 3) ProviderGitHub ''2'' sample_synced = Inr r \<and> repo_ProviderRepositoryID r = ''2'' \<and> r \<in> set rs"
proof -
  let ?rs = "ListRepositories sample_codec (sample_scm_env 3) sample_synced"
  let ?r = "FindRepository sample_world (sample_scm_env 3) ProviderGitHub ''2'' sample_synced"
  have ok: "\<not> isl ?rs" "length (projr ?rs) = 2" "\<not> isl ?r" by code_simp+
  obtain rs r where rs: "?rs = Inr rs" and r: "?r = Inr r" using ok(1,3) by (cases ?rs; cases ?r) auto
  have "ListRepositories (sw_codec sample_world) (sample_scm_env 3) sample_synced = Inr rs"
    using rs by (simp add: sample_world_def)
  from find_repository_enabled [OF this, of ProviderGitHub "''2''"] ok(2) rs r show ?thesis by auto
qed

end
