(* ===== verification/Automations.thy ===== *)
theory Automations
  imports Tasks
begin

text \<open>
  Automation templates (\<open>src/server/internal/automations\<close>): the configuration and its validation (types.go), the transactional
  store of templates, published versions and trigger reservations (store.go), and the service with its audit trail (service.go).

  \<^item> The three tables extend the database of the task queue, since a trigger inserts the task and the run in one transaction.
    Deleting a template deletes its versions and runs (\<open>ON DELETE CASCADE\<close>), never a task.
  \<^item> A transaction locks the template row first, so an operation is one step. \<open>fails E n\<close> is the failure of its \<open>n\<close>-th
    statement (the first is \<open>Begin\<close>, the last \<open>Commit\<close>).
  \<^item> JSON and SHA-256 are the record \<open>automation_world\<close>. The text of a validation error is not kept.
\<close>

section \<open>Configuration (types.go)\<close>

record EventFilter =
  ef_Event :: string
  ef_Actions :: "string list"
  ef_Branches :: "string list"

record Input =
  inp_Name :: string
  inp_Description :: string
  inp_Kind :: Kind
  inp_Provider :: string
  inp_RepositoryScope :: "string list"
  inp_EventFilters :: "EventFilter list"
  inp_AgentTemplate :: string
  inp_ExecutionBudget :: int
  inp_TimeoutSeconds :: int
  inp_ConcurrencyLimit :: int
  inp_Risk :: string
  inp_ApprovalPolicy :: string

record Template =
  tpl_ID :: string
  tpl_Name :: string
  tpl_Description :: string
  tpl_Kind :: Kind
  tpl_Provider :: string
  tpl_Enabled :: bool
  tpl_RepositoryScope :: "string list"
  tpl_EventFilters :: "EventFilter list"
  tpl_AgentTemplate :: string
  tpl_ExecutionBudget :: int
  tpl_TimeoutSeconds :: int
  tpl_ConcurrencyLimit :: int
  tpl_Risk :: string
  tpl_ApprovalPolicy :: string
  tpl_Version :: int
  tpl_Revision :: int
  tpl_CreatedBy :: string
  tpl_UpdatedBy :: string
  tpl_PublishedBy :: string
  tpl_CreatedAt :: time
  tpl_UpdatedAt :: time
  tpl_PublishedAt :: "time option"

record Version =
  ver_TemplateID :: string
  ver_Version :: int
  ver_Enabled :: bool
  ver_Config :: json
  ver_ChangedBy :: string
  ver_ChangedAt :: time

record TriggerInput =
  ti_TemplateID :: string
  ti_TriggerKey :: string
  ti_Provider :: string
  ti_Event :: string
  ti_Action :: string
  ti_Branch :: string
  ti_Repository :: string
  ti_RepositoryID :: string
  ti_Title :: string
  ti_TaskPayload :: json
  ti_SourcePayload :: json
  ti_ActorID :: string
  ti_CreatedAt :: time

text \<open>A row of \<open>automation_runs\<close>; the \<open>Run\<close> that queries return has the status of the joined task beside it.\<close>

record RunRow =
  ar_ID :: string
  ar_TemplateID :: string
  ar_TemplateVersion :: int
  ar_TriggerKey :: string
  ar_Provider :: string
  ar_Event :: string
  ar_Action :: string
  ar_Repository :: string
  ar_TaskID :: string
  ar_Status :: string
  ar_SourcePayload :: json
  ar_CreatedAt :: time
  ar_UpdatedAt :: time

type_synonym automation_run = "RunRow \<times> Status"

record TriggerResult =
  tr_Run :: automation_run
  tr_Task :: Task
  tr_Duplicate :: bool

datatype automation_error = ErrTemplateNotFound | ErrRunNotFound | ErrValidation | ErrConflict | ErrDisabled
  | ErrDuplicateTrigger | ErrConcurrencyLimit | ErrInvalidTrigger | ErrPublished | AutomationExternal external_error

definition validRisk :: "string \<Rightarrow> bool" where
  "validRisk value \<longleftrightarrow> value \<in> set [''low'', ''medium'', ''high'', ''critical'']"

definition line_chars :: string where
  "line_chars = [CHR 0x0D, CHR 0x0A, CHR 0x09]"

fun allowedEvent :: "Kind \<Rightarrow> string" where
  "allowedEvent KindCodeReview = ''pull_request''"
| "allowedEvent KindCIDiagnosis = ''workflow_run''"
| "allowedEvent KindIssueRepair = ''issues''"
| "allowedEvent _ = []"

definition allowedActions :: "string \<Rightarrow> string list" where
  "allowedActions event =
    (if event = ''pull_request'' then [''opened'', ''reopened'', ''synchronize'', ''ready_for_review'']
     else if event = ''workflow_run'' then [''completed'']
     else if event = ''issues'' then [''opened'', ''reopened''] else [])"

text \<open>The loops over repositories and actions, each with the set of values seen so far.\<close>

fun check_repositories :: "string list \<Rightarrow> string list \<Rightarrow> automation_error option" where
  "check_repositories seen [] = None"
| "check_repositories seen (r # rs) =
    (let repository = TrimSpace r
     in if repository = [] \<or> length repository > 200 \<or> ContainsAny repository line_chars \<or> repository = ''*''
        then Some ErrValidation
        else if repository \<in> set seen then Some ErrValidation
        else check_repositories (repository # seen) rs)"

fun check_actions :: "string \<Rightarrow> string list \<Rightarrow> string list \<Rightarrow> automation_error option" where
  "check_actions event seen [] = None"
| "check_actions event seen (a # as) =
    (let action = TrimSpace a
     in if action \<notin> set (allowedActions event) then Some ErrValidation
        else if action \<in> set seen then Some ErrValidation
        else check_actions event (action # seen) as)"

definition validateEventFilter :: "Kind \<Rightarrow> EventFilter \<Rightarrow> automation_error option" where
  "validateEventFilter kind flt =
    (if ef_Event flt \<noteq> allowedEvent kind then Some ErrValidation
     else if ef_Actions flt = [] \<or> length (ef_Actions flt) > 20 then Some ErrValidation
     else case check_actions (ef_Event flt) [] (ef_Actions flt) of
       Some e \<Rightarrow> Some e
     | None \<Rightarrow>
         if list_ex (\<lambda>b. let branch = TrimSpace b in branch = [] \<or> length branch > 200 \<or> ContainsAny branch line_chars)
              (ef_Branches flt)
         then Some ErrValidation else None)"

fun check_filters :: "Kind \<Rightarrow> EventFilter list \<Rightarrow> automation_error option" where
  "check_filters kind [] = None"
| "check_filters kind (f # fs) = (case validateEventFilter kind f of Some e \<Rightarrow> Some e | None \<Rightarrow> check_filters kind fs)"

definition Validate :: "Input \<Rightarrow> automation_error option" where
  "Validate input =
    (let len = length (TrimSpace (inp_Name input))
     in if len < 1 \<or> len > 120 then Some ErrValidation
        else if int (length (TrimSpace (inp_Description input))) > 2000 then Some ErrValidation
        else if inp_Provider input \<noteq> ''github'' then Some ErrValidation
        else if \<not> ValidKind (inp_Kind input) then Some ErrValidation
        else if inp_RepositoryScope input = [] \<or> length (inp_RepositoryScope input) > 100 then Some ErrValidation
        else case check_repositories [] (inp_RepositoryScope input) of
          Some e \<Rightarrow> Some e
        | None \<Rightarrow>
            if inp_EventFilters input = [] \<or> length (inp_EventFilters input) > 20 then Some ErrValidation
            else case check_filters (inp_Kind input) (inp_EventFilters input) of
              Some e \<Rightarrow> Some e
            | None \<Rightarrow>
                let value = TrimSpace (inp_AgentTemplate input)
                in if value = [] \<or> length value > 200 then Some ErrValidation
                   else if inp_ExecutionBudget input < 1 \<or> inp_ExecutionBudget input > 100000 then Some ErrValidation
                   else if inp_TimeoutSeconds input < 30 \<or> inp_TimeoutSeconds input > 3600 then Some ErrValidation
                   else if inp_ConcurrencyLimit input < 1 \<or> inp_ConcurrencyLimit input > 20 then Some ErrValidation
                   else if \<not> validRisk (inp_Risk input) then Some ErrValidation
                   else if inp_ApprovalPolicy input \<noteq> ''required'' \<and> inp_ApprovalPolicy input \<noteq> ''risk_based''
                   then Some ErrValidation
                   else if inp_Risk input = ''critical'' \<and> inp_ApprovalPolicy input \<noteq> ''required'' then Some ErrValidation
                   else None)"

definition tpl_Input :: "Template \<Rightarrow> Input" where
  "tpl_Input t = \<lparr>inp_Name = tpl_Name t, inp_Description = tpl_Description t, inp_Kind = tpl_Kind t, inp_Provider = tpl_Provider t,
     inp_RepositoryScope = tpl_RepositoryScope t, inp_EventFilters = tpl_EventFilters t, inp_AgentTemplate = tpl_AgentTemplate t,
     inp_ExecutionBudget = tpl_ExecutionBudget t, inp_TimeoutSeconds = tpl_TimeoutSeconds t,
     inp_ConcurrencyLimit = tpl_ConcurrencyLimit t, inp_Risk = tpl_Risk t, inp_ApprovalPolicy = tpl_ApprovalPolicy t\<rparr>"

definition contains :: "string list \<Rightarrow> string \<Rightarrow> bool" where
  "contains values wanted \<longleftrightarrow> list_ex (\<lambda>value. TrimSpace value = TrimSpace wanted) values"

definition Matches :: "Template \<Rightarrow> string \<Rightarrow> string \<Rightarrow> string \<Rightarrow> string \<Rightarrow> string \<Rightarrow> bool" where
  "Matches t provider event action branch repository \<longleftrightarrow>
     tpl_Enabled t \<and> provider = tpl_Provider t \<and> contains (tpl_RepositoryScope t) repository \<and>
     list_ex (\<lambda>flt. ef_Event flt = event \<and> contains (ef_Actions flt) action \<and>
       (ef_Branches flt = [] \<or> contains (ef_Branches flt) branch)) (tpl_EventFilters t)"

section \<open>The store (store.go)\<close>

datatype meta_value = MetaInt int | MetaStr string | MetaBool bool

record automation_world =
  aw_config :: "Input \<Rightarrow> bool \<Rightarrow> json"
  aw_sha :: "string \<Rightarrow> 8 word list"
  aw_valid :: "json \<Rightarrow> bool"
  aw_decorate :: "json \<Rightarrow> string \<Rightarrow> string \<Rightarrow> json option"
  aw_marshal :: "(string \<times> meta_value) list option \<Rightarrow> json"
  aw_audit :: bool

record automations_db = tasks_db +
  automation_templates :: "Template list"
  automation_template_versions :: "Version list"
  automation_runs :: "RunRow list"

definition newID :: "env \<Rightarrow> nat \<Rightarrow> string option" where
  "newID E n = map_option format_uuid (rand_read E n 16)"

definition priorityFor :: "Kind \<Rightarrow> int" where
  "priorityFor kind = (if kind = KindCIDiagnosis then 60 else if kind = KindIssueRepair then 40 else 50)"

definition triggerDigest :: "automation_world \<Rightarrow> string \<Rightarrow> string" where
  "triggerDigest W value = EncodeToString (aw_sha W value)"

definition sourceKey :: "automation_world \<Rightarrow> string \<Rightarrow> string \<Rightarrow> string" where
  "sourceKey W templateID key = ''automation:'' @ templateID @ '':'' @ triggerDigest W key"

definition new_template :: "string \<Rightarrow> Input \<Rightarrow> string \<Rightarrow> time \<Rightarrow> Template" where
  "new_template i input actorID now = \<lparr>tpl_ID = i, tpl_Name = TrimSpace (inp_Name input),
     tpl_Description = TrimSpace (inp_Description input), tpl_Kind = inp_Kind input, tpl_Provider = inp_Provider input,
     tpl_Enabled = False, tpl_RepositoryScope = inp_RepositoryScope input, tpl_EventFilters = inp_EventFilters input,
     tpl_AgentTemplate = TrimSpace (inp_AgentTemplate input), tpl_ExecutionBudget = inp_ExecutionBudget input,
     tpl_TimeoutSeconds = inp_TimeoutSeconds input, tpl_ConcurrencyLimit = inp_ConcurrencyLimit input,
     tpl_Risk = inp_Risk input, tpl_ApprovalPolicy = inp_ApprovalPolicy input, tpl_Version = 0, tpl_Revision = 1,
     tpl_CreatedBy = actorID, tpl_UpdatedBy = actorID, tpl_PublishedBy = [], tpl_CreatedAt = now, tpl_UpdatedAt = now,
     tpl_PublishedAt = None\<rparr>"

definition store_Create ::
  "env \<Rightarrow> Input \<Rightarrow> string \<Rightarrow> 'z automations_db_scheme \<Rightarrow> (automation_error, Template, 'z automations_db_scheme) outcome" where
  "store_Create E input actorID db =
    (case Validate input of
       Some e \<Rightarrow> (Inl e, db)
     | None \<Rightarrow>
         (case newID E 0 of
            None \<Rightarrow> (Inl (AutomationExternal ErrEntropy), db)
          | Some i \<Rightarrow>
              let template = new_template i input actorID (clock E)
              in if fails E 0 \<or> i \<in> tpl_ID ` set (automation_templates db) \<or>
                    tpl_Name template \<in> tpl_Name ` set (automation_templates db)
                 then (Inl (AutomationExternal ErrDatabase), db)
                 else (Inr template, db\<lparr>automation_templates := automation_templates db @ [template]\<rparr>)))"

definition store_Get :: "env \<Rightarrow> string \<Rightarrow> 'z automations_db_scheme \<Rightarrow> automation_error + Template" where
  "store_Get E i db =
    (if fails E 0 then Inl (AutomationExternal ErrDatabase)
     else case select_by tpl_ID (TrimSpace i) (automation_templates db) of
       None \<Rightarrow> Inl ErrTemplateNotFound | Some template \<Rightarrow> Inr template)"

definition store_List :: "env \<Rightarrow> int \<Rightarrow> 'z automations_db_scheme \<Rightarrow> automation_error + Template list" where
  "store_List E limit db =
    (if fails E 0 then Inl (AutomationExternal ErrDatabase)
     else Inr (order_limit (\<lambda>t. - tpl_UpdatedAt t) (page_limit limit) (automation_templates db)))"

definition edit_template :: "Input \<Rightarrow> string \<Rightarrow> time \<Rightarrow> Template \<Rightarrow> Template" where
  "edit_template input actorID now t = t\<lparr>tpl_Name := TrimSpace (inp_Name input),
     tpl_Description := TrimSpace (inp_Description input), tpl_Kind := inp_Kind input, tpl_Provider := inp_Provider input,
     tpl_RepositoryScope := inp_RepositoryScope input, tpl_EventFilters := inp_EventFilters input,
     tpl_AgentTemplate := TrimSpace (inp_AgentTemplate input), tpl_ExecutionBudget := inp_ExecutionBudget input,
     tpl_TimeoutSeconds := inp_TimeoutSeconds input, tpl_ConcurrencyLimit := inp_ConcurrencyLimit input,
     tpl_Risk := inp_Risk input, tpl_ApprovalPolicy := inp_ApprovalPolicy input, tpl_UpdatedBy := actorID,
     tpl_Revision := tpl_Revision t + 1, tpl_UpdatedAt := now\<rparr>"

definition put_template :: "Template \<Rightarrow> 'z automations_db_scheme \<Rightarrow> 'z automations_db_scheme" where
  "put_template t db =
    db\<lparr>automation_templates := update_where (\<lambda>q. tpl_ID q = tpl_ID t) (\<lambda>_. t) (automation_templates db)\<rparr>"

definition store_UpdateDraft ::
  "env \<Rightarrow> string \<Rightarrow> int \<Rightarrow> Input \<Rightarrow> string \<Rightarrow> 'z automations_db_scheme \<Rightarrow>
   (automation_error, Template, 'z automations_db_scheme) outcome" where
  "store_UpdateDraft E i expectedRevision input actorID db =
    (case Validate input of
       Some e \<Rightarrow> (Inl e, db)
     | None \<Rightarrow>
         if fails E 0 then (Inl (AutomationExternal ErrDatabase), db)
         else if expectedRevision \<le> 0 then (Inl ErrConflict, db)
         else if fails E 1 then (Inl (AutomationExternal ErrDatabase), db)
         else case select_by tpl_ID i (automation_templates db) of
           None \<Rightarrow> (Inl ErrTemplateNotFound, db)
         | Some current \<Rightarrow>
             if tpl_Revision current \<noteq> expectedRevision then (Inl ErrConflict, db)
             else if tpl_Enabled current then (Inl ErrPublished, db)
             else
               let updated = edit_template input actorID (clock E) current
               in if fails E 2 \<or> list_ex (\<lambda>q. tpl_ID q \<noteq> i \<and> tpl_Name q = tpl_Name updated) (automation_templates db) \<or> fails E 3
                  then (Inl (AutomationExternal ErrDatabase), db)
                  else (Inr updated, put_template updated db))"

definition lockTemplate ::
  "env \<Rightarrow> string \<Rightarrow> int \<Rightarrow> 'z automations_db_scheme \<Rightarrow> automation_error + Template" where
  "lockTemplate E i expectedRevision db =
    (if fails E 1 then Inl (AutomationExternal ErrDatabase)
     else case select_by tpl_ID (TrimSpace i) (automation_templates db) of
       None \<Rightarrow> Inl ErrTemplateNotFound
     | Some template \<Rightarrow>
         if expectedRevision > 0 \<and> tpl_Revision template \<noteq> expectedRevision then Inl ErrConflict else Inr template)"

definition publish_template :: "bool \<Rightarrow> string \<Rightarrow> time \<Rightarrow> Template \<Rightarrow> Template" where
  "publish_template enabled actorID now t = t\<lparr>tpl_Enabled := enabled, tpl_Version := tpl_Version t + 1,
     tpl_Revision := tpl_Revision t + 1, tpl_UpdatedBy := actorID, tpl_PublishedBy := actorID, tpl_PublishedAt := Some now,
     tpl_UpdatedAt := now\<rparr>"

definition snapshot :: "automation_world \<Rightarrow> string \<Rightarrow> time \<Rightarrow> Template \<Rightarrow> Version" where
  "snapshot W actorID now t = \<lparr>ver_TemplateID = tpl_ID t, ver_Version = tpl_Version t, ver_Enabled = tpl_Enabled t,
     ver_Config = aw_config W (tpl_Input t) (tpl_Enabled t), ver_ChangedBy = actorID, ver_ChangedAt = now\<rparr>"

definition publishLocked ::
  "automation_world \<Rightarrow> env \<Rightarrow> Template \<Rightarrow> string \<Rightarrow> bool \<Rightarrow> 'z automations_db_scheme \<Rightarrow>
   (automation_error, Template, 'z automations_db_scheme) outcome" where
  "publishLocked W E template actorID enabled db =
    (let updated = publish_template enabled actorID (clock E) template;
       version = snapshot W actorID (clock E) updated
     in if fails E 2 \<or> fails E 3 \<or>
           (tpl_ID updated, tpl_Version updated) \<in> (\<lambda>v. (ver_TemplateID v, ver_Version v)) ` set (automation_template_versions db)
        then (Inl (AutomationExternal ErrDatabase), db)
        else (Inr updated, (put_template updated db)\<lparr>automation_template_versions := automation_template_versions db @ [version]\<rparr>))"

definition store_Publish ::
  "automation_world \<Rightarrow> env \<Rightarrow> string \<Rightarrow> int \<Rightarrow> string \<Rightarrow> 'z automations_db_scheme \<Rightarrow>
   (automation_error, Template, 'z automations_db_scheme) outcome" where
  "store_Publish W E i expectedRevision actorID db =
    (if fails E 0 then (Inl (AutomationExternal ErrDatabase), db)
     else case lockTemplate E i expectedRevision db of
       Inl e \<Rightarrow> (Inl e, db)
     | Inr template \<Rightarrow>
         if tpl_Version template > 0 \<and> tpl_Enabled template then (Inl ErrPublished, db)
         else case Validate (tpl_Input template) of
           Some e \<Rightarrow> (Inl e, db)
         | None \<Rightarrow>
             (case publishLocked W E template actorID False db of
                (Inl e, _) \<Rightarrow> (Inl e, db)
              | (Inr updated, db1) \<Rightarrow>
                  if fails E 4 then (Inl (AutomationExternal ErrDatabase), db) else (Inr updated, db1)))"

definition store_SetEnabled ::
  "automation_world \<Rightarrow> env \<Rightarrow> string \<Rightarrow> int \<Rightarrow> bool \<Rightarrow> string \<Rightarrow> 'z automations_db_scheme \<Rightarrow>
   (automation_error, Template, 'z automations_db_scheme) outcome" where
  "store_SetEnabled W E i expectedRevision enabled actorID db =
    (if fails E 0 then (Inl (AutomationExternal ErrDatabase), db)
     else case lockTemplate E i expectedRevision db of
       Inl e \<Rightarrow> (Inl e, db)
     | Inr template \<Rightarrow>
         if tpl_Version template = 0 then (Inl ErrValidation, db)
         else if tpl_Enabled template = enabled
         then (if fails E 4 then (Inl (AutomationExternal ErrDatabase), db) else (Inr template, db))
         else (case publishLocked W E template actorID enabled db of
             (Inl e, _) \<Rightarrow> (Inl e, db)
           | (Inr updated, db1) \<Rightarrow>
               if fails E 4 then (Inl (AutomationExternal ErrDatabase), db) else (Inr updated, db1)))"

definition cascade_delete :: "string \<Rightarrow> 'z automations_db_scheme \<Rightarrow> 'z automations_db_scheme" where
  "cascade_delete i db = db\<lparr>automation_templates := delete_where (\<lambda>t. tpl_ID t = i) (automation_templates db),
     automation_template_versions := delete_where (\<lambda>v. ver_TemplateID v = i) (automation_template_versions db),
     automation_runs := delete_where (\<lambda>r. ar_TemplateID r = i) (automation_runs db)\<rparr>"

definition store_Delete ::
  "env \<Rightarrow> string \<Rightarrow> int \<Rightarrow> 'z automations_db_scheme \<Rightarrow> (automation_error, unit, 'z automations_db_scheme) outcome" where
  "store_Delete E i expectedRevision db =
    (if fails E 0 \<or> fails E 1 then (Inl (AutomationExternal ErrDatabase), db)
     else case select_by tpl_ID i (automation_templates db) of
       None \<Rightarrow> (Inl ErrTemplateNotFound, db)
     | Some current \<Rightarrow>
         if tpl_Revision current \<noteq> expectedRevision then (Inl ErrConflict, db)
         else if tpl_Enabled current then (Inl ErrConflict, db)
         else if fails E 2 \<or> fails E 4 then (Inl (AutomationExternal ErrDatabase), db)
         else (Inr (), cascade_delete i db))"

definition store_History :: "env \<Rightarrow> string \<Rightarrow> int \<Rightarrow> 'z automations_db_scheme \<Rightarrow> automation_error + Version list" where
  "store_History E i limit db =
    (if fails E 0 then Inl (AutomationExternal ErrDatabase)
     else Inr (order_limit (\<lambda>v. - ver_Version v) (page_limit limit)
       (filter (\<lambda>v. ver_TemplateID v = i) (automation_template_versions db))))"

text \<open>The join of runs with the tasks they created.\<close>

definition run_view :: "'z automations_db_scheme \<Rightarrow> RunRow \<Rightarrow> automation_run list" where
  "run_view db r = map (\<lambda>t. (r, task_Status t)) (filter (\<lambda>t. task_ID t = ar_TaskID r) (tasks db))"

definition store_Runs :: "env \<Rightarrow> string \<Rightarrow> int \<Rightarrow> 'z automations_db_scheme \<Rightarrow> automation_error + automation_run list" where
  "store_Runs E templateID limit db =
    (if fails E 0 then Inl (AutomationExternal ErrDatabase)
     else Inr (order_limit (\<lambda>r. - ar_CreatedAt (fst r)) (page_limit limit)
       (concat (map (run_view db) (filter (\<lambda>r. ar_TemplateID r = templateID) (automation_runs db))))))"

definition active_runs :: "string \<Rightarrow> 'z automations_db_scheme \<Rightarrow> nat" where
  "active_runs templateID db = length (filter (\<lambda>v. snd v \<in> {StatusQueued, StatusRunning, StatusAwaitingApproval})
     (concat (map (run_view db) (filter (\<lambda>r. ar_TemplateID r = templateID) (automation_runs db)))))"

definition trigger_task :: "automation_world \<Rightarrow> Template \<Rightarrow> TriggerInput \<Rightarrow> string \<Rightarrow> time \<Rightarrow> time \<Rightarrow> Task" where
  "trigger_task W template input taskID createdAt available = \<lparr>task_ID = taskID, task_Kind = tpl_Kind template,
     task_Status = StatusQueued,
     task_Title = (let title = TrimSpace (ti_Title input)
        in if title = [] then tpl_Name template @ [CHR '' '', CHR 0xC2, CHR 0xB7, CHR '' ''] @ ti_Repository input else title),
     task_RepositoryID = ti_RepositoryID input, task_RepositoryName = ti_Repository input,
     task_SourceKey = sourceKey W (tpl_ID template) (ti_TriggerKey input),
     task_Payload = ti_TaskPayload input, task_Priority = priorityFor (tpl_Kind template), task_Attempts = 0,
     task_MaxAttempts = (if tpl_Kind template = KindIssueRepair then 5 else 3), task_AvailableAt = available,
     task_LeaseOwner = [], task_LeaseUntil = None, task_LastError = [], task_SupersededBy = [],
     task_CreatedBy = ti_ActorID input, task_CreatedAt = createdAt, task_UpdatedAt = createdAt, task_StartedAt = None,
     task_FinishedAt = None\<rparr>"

definition trigger_run :: "Template \<Rightarrow> TriggerInput \<Rightarrow> string \<Rightarrow> string \<Rightarrow> time \<Rightarrow> RunRow" where
  "trigger_run template input runID taskID createdAt = \<lparr>ar_ID = runID, ar_TemplateID = tpl_ID template,
     ar_TemplateVersion = tpl_Version template, ar_TriggerKey = ti_TriggerKey input, ar_Provider = ti_Provider input,
     ar_Event = ti_Event input, ar_Action = ti_Action input, ar_Repository = ti_Repository input, ar_TaskID = taskID,
     ar_Status = ''scheduled'', ar_SourcePayload = ti_SourcePayload input, ar_CreatedAt = createdAt,
     ar_UpdatedAt = createdAt\<rparr>"

text \<open>
  \<open>Trigger\<close> reports a duplicate together with the run and task of the first trigger. The template is looked up by the trimmed
  identifier, the runs by the identifier as given, which the database refuses unless it is a well-formed UUID.
\<close>

definition find_run :: "string \<Rightarrow> string \<Rightarrow> 'z automations_db_scheme \<Rightarrow> automation_run option" where
  "find_run templateID key db =
    (case concat (map (run_view db) (filter (\<lambda>r. ar_TemplateID r = templateID \<and> ar_TriggerKey r = key) (automation_runs db))) of
       [] \<Rightarrow> None | v # _ \<Rightarrow> Some v)"

definition insert_trigger ::
  "automation_world \<Rightarrow> env \<Rightarrow> Template \<Rightarrow> TriggerInput \<Rightarrow> 'z automations_db_scheme \<Rightarrow>
   (automation_error \<times> TriggerResult option, TriggerResult, 'z automations_db_scheme) outcome" where
  "insert_trigger W E template input db =
    (let createdAt = (if IsZero (ti_CreatedAt input) then clock E else ti_CreatedAt input)
     in case newID E 0 of
       None \<Rightarrow> (Inl (AutomationExternal ErrEntropy, None), db)
     | Some taskID \<Rightarrow>
         (case newID E 1 of
            None \<Rightarrow> (Inl (AutomationExternal ErrEntropy, None), db)
          | Some runID \<Rightarrow>
              let task = trigger_task W template input taskID createdAt (db_clock E);
                run = trigger_run template input runID taskID createdAt
              in if fails E 5 \<or> taskID \<in> task_ID ` set (tasks db) \<or> task_SourceKey task \<in> task_SourceKey ` set (tasks db) \<or>
                    fails E 6 \<or> runID \<in> ar_ID ` set (automation_runs db) \<or>
                    (ar_TemplateID run, ar_TriggerKey run) \<in> (\<lambda>r. (ar_TemplateID r, ar_TriggerKey r)) ` set (automation_runs db) \<or>
                    taskID \<in> ar_TaskID ` set (automation_runs db) \<or>
                    (ar_TemplateID run, ar_TemplateVersion run) \<notin>
                      (\<lambda>v. (ver_TemplateID v, ver_Version v)) ` set (automation_template_versions db) \<or> fails E 7
                 then (Inl (AutomationExternal ErrDatabase, None), db)
                 else (Inr \<lparr>tr_Run = (run, StatusQueued), tr_Task = task, tr_Duplicate = False\<rparr>,
                   db\<lparr>tasks := tasks db @ [task], automation_runs := automation_runs db @ [run]\<rparr>)))"

definition store_Trigger ::
  "automation_world \<Rightarrow> env \<Rightarrow> TriggerInput \<Rightarrow> 'z automations_db_scheme \<Rightarrow>
   (automation_error \<times> TriggerResult option, TriggerResult, 'z automations_db_scheme) outcome" where
  "store_Trigger W E input db =
    (if fails E 0 then (Inl (AutomationExternal ErrDatabase, None), db)
     else case lockTemplate E (ti_TemplateID input) 0 db of
       Inl e \<Rightarrow> (Inl (e, None), db)
     | Inr template \<Rightarrow>
         if \<not> tpl_Enabled template then (Inl (ErrDisabled, None), db)
         else if \<not> Matches template (ti_Provider input) (ti_Event input) (ti_Action input) (ti_Branch input) (ti_Repository input)
         then (Inl (ErrInvalidTrigger, None), db)
         else if fails E 2 \<or> TrimSpace (ti_TemplateID input) \<noteq> ti_TemplateID input
         then (Inl (AutomationExternal ErrDatabase, None), db)
         else case find_run (ti_TemplateID input) (ti_TriggerKey input) db of
           Some run \<Rightarrow>
             (case select_by task_ID (ar_TaskID (fst run)) (tasks db) of
                None \<Rightarrow> (Inl (AutomationExternal ErrDatabase, None), db)
              | Some task \<Rightarrow>
                  if fails E 3 then (Inl (AutomationExternal ErrDatabase, None), db)
                  else (Inl (ErrDuplicateTrigger, Some \<lparr>tr_Run = run, tr_Task = task, tr_Duplicate = True\<rparr>), db))
         | None \<Rightarrow>
             if fails E 4 then (Inl (AutomationExternal ErrDatabase, None), db)
             else if int (active_runs (ti_TemplateID input) db) \<ge> tpl_ConcurrencyLimit template
             then (Inl (ErrConcurrencyLimit, None), db)
             else if blank (ti_ActorID input) then (Inl (ErrInvalidTrigger, None), db)
             else insert_trigger W E template input db)"

section \<open>The service (service.go)\<close>

definition recordAudit ::
  "automation_world \<Rightarrow> env \<Rightarrow> string \<Rightarrow> string \<Rightarrow> string \<Rightarrow> (string \<times> meta_value) list option \<Rightarrow>
   'z automations_db_scheme \<Rightarrow> 'z automations_db_scheme" where
  "recordAudit W E actorID action resourceID metadata db =
    (if \<not> aw_audit W then db
     else snd (service_RecordAudit E \<lparr>ai_ActorID = actorID, ai_Action = action, ai_ResourceType = ''automation'',
       ai_ResourceID = resourceID, ai_Outcome = ''accepted'', ai_CorrelationID = [],
       ai_Metadata = Some (aw_marshal W metadata)\<rparr> db))"

definition Create ::
  "automation_world \<Rightarrow> env \<Rightarrow> Input \<Rightarrow> string \<Rightarrow> 'z automations_db_scheme \<Rightarrow>
   (automation_error, Template, 'z automations_db_scheme) outcome" where
  "Create W E input actorID db =
    (case Validate input of
       Some e \<Rightarrow> (Inl e, db)
     | None \<Rightarrow>
         (case store_Create (call E 0) input actorID db of
            (Inl e, db1) \<Rightarrow> (Inl e, db1)
          | (Inr template, db1) \<Rightarrow>
              (Inr template, recordAudit W (call E 1) actorID ''automation.create'' (tpl_ID template)
                (Some [(''revision'', MetaInt (tpl_Revision template))]) db1)))"

definition Get :: "env \<Rightarrow> string \<Rightarrow> 'z automations_db_scheme \<Rightarrow> automation_error + Template" where
  "Get E i db = store_Get E (TrimSpace i) db"

definition List_templates :: "env \<Rightarrow> int \<Rightarrow> 'z automations_db_scheme \<Rightarrow> automation_error + Template list" where
  "List_templates E limit db = store_List E limit db"

definition UpdateDraft ::
  "automation_world \<Rightarrow> env \<Rightarrow> string \<Rightarrow> int \<Rightarrow> Input \<Rightarrow> string \<Rightarrow> 'z automations_db_scheme \<Rightarrow>
   (automation_error, Template, 'z automations_db_scheme) outcome" where
  "UpdateDraft W E i expectedRevision input actorID db =
    (case Validate input of
       Some e \<Rightarrow> (Inl e, db)
     | None \<Rightarrow>
         (case store_UpdateDraft (call E 0) (TrimSpace i) expectedRevision input actorID db of
            (Inl e, db1) \<Rightarrow> (Inl e, db1)
          | (Inr template, db1) \<Rightarrow>
              (Inr template, recordAudit W (call E 1) actorID ''automation.edit'' (tpl_ID template)
                (Some [(''revision'', MetaInt (tpl_Revision template))]) db1)))"

definition Publish ::
  "automation_world \<Rightarrow> env \<Rightarrow> string \<Rightarrow> int \<Rightarrow> string \<Rightarrow> 'z automations_db_scheme \<Rightarrow>
   (automation_error, Template, 'z automations_db_scheme) outcome" where
  "Publish W E i expectedRevision actorID db =
    (case store_Publish W (call E 0) (TrimSpace i) expectedRevision actorID db of
       (Inl e, db1) \<Rightarrow> (Inl e, db1)
     | (Inr template, db1) \<Rightarrow>
         (Inr template, recordAudit W (call E 1) actorID ''automation.publish'' (tpl_ID template)
           (Some [(''version'', MetaInt (tpl_Version template))]) db1))"

definition SetEnabled ::
  "automation_world \<Rightarrow> env \<Rightarrow> string \<Rightarrow> int \<Rightarrow> bool \<Rightarrow> string \<Rightarrow> 'z automations_db_scheme \<Rightarrow>
   (automation_error, Template, 'z automations_db_scheme) outcome" where
  "SetEnabled W E i expectedRevision enabled actorID db =
    (case store_SetEnabled W (call E 0) (TrimSpace i) expectedRevision enabled actorID db of
       (Inl e, db1) \<Rightarrow> (Inl e, db1)
     | (Inr template, db1) \<Rightarrow>
         (Inr template, recordAudit W (call E 1) actorID (if enabled then ''automation.activate'' else ''automation.disable'')
           (tpl_ID template) (Some [(''version'', MetaInt (tpl_Version template)), (''enabled'', MetaBool enabled)]) db1))"

definition Delete ::
  "automation_world \<Rightarrow> env \<Rightarrow> string \<Rightarrow> int \<Rightarrow> string \<Rightarrow> 'z automations_db_scheme \<Rightarrow>
   (automation_error, unit, 'z automations_db_scheme) outcome" where
  "Delete W E i expectedRevision actorID db =
    (case store_Delete (call E 0) (TrimSpace i) expectedRevision db of
       (Inl e, db1) \<Rightarrow> (Inl e, db1)
     | (Inr _, db1) \<Rightarrow> (Inr (), recordAudit W (call E 1) actorID ''automation.delete'' (TrimSpace i) None db1))"

definition History :: "env \<Rightarrow> string \<Rightarrow> int \<Rightarrow> 'z automations_db_scheme \<Rightarrow> automation_error + Version list" where
  "History E i limit db = store_History E (TrimSpace i) limit db"

definition Runs :: "env \<Rightarrow> string \<Rightarrow> int \<Rightarrow> 'z automations_db_scheme \<Rightarrow> automation_error + automation_run list" where
  "Runs E templateID limit db = store_Runs E (TrimSpace templateID) limit db"

definition decoratePayload :: "automation_world \<Rightarrow> json \<Rightarrow> string \<Rightarrow> string \<Rightarrow> json" where
  "decoratePayload W raw templateID triggerKey =
    (case aw_decorate W raw templateID triggerKey of None \<Rightarrow> raw | Some encoded \<Rightarrow> encoded)"

definition Trigger ::
  "automation_world \<Rightarrow> env \<Rightarrow> TriggerInput \<Rightarrow> 'z automations_db_scheme \<Rightarrow>
   (automation_error \<times> TriggerResult option, TriggerResult, 'z automations_db_scheme) outcome" where
  "Trigger W E input0 db =
    (if blank (ti_TemplateID input0) \<or> blank (ti_TriggerKey input0) \<or> blank (ti_Provider input0) \<or> blank (ti_Event input0) \<or>
        blank (ti_Action input0) \<or> blank (ti_Repository input0) \<or> blank (ti_ActorID input0)
     then (Inl (ErrInvalidTrigger, None), db)
     else if length (ti_TriggerKey input0) > 512 \<or> ContainsAny (ti_TriggerKey input0) [CHR 0x0D, CHR 0x0A]
     then (Inl (ErrInvalidTrigger, None), db)
     else if ti_TaskPayload input0 = [] \<or> \<not> aw_valid W (ti_TaskPayload input0) then (Inl (ErrInvalidTrigger, None), db)
     else
       let sourcePayload = (if ti_SourcePayload input0 = [] then ''{}'' else ti_SourcePayload input0)
       in if \<not> aw_valid W sourcePayload then (Inl (ErrInvalidTrigger, None), db)
          else
            let key = TrimSpace (ti_TriggerKey input0);
              input = input0\<lparr>ti_SourcePayload := sourcePayload,
                ti_CreatedAt := (if IsZero (ti_CreatedAt input0) then clock E else ti_CreatedAt input0),
                ti_TriggerKey := key,
                ti_TaskPayload := decoratePayload W (ti_TaskPayload input0) (ti_TemplateID input0) key\<rparr>
            in (case store_Trigger W (call E 0) input db of
              (Inl (e, result), db1) \<Rightarrow> (Inl (e, if e = ErrDuplicateTrigger then result else None), db1)
            | (Inr result, db1) \<Rightarrow>
                (Inr result, recordAudit W (call E 1) (ti_ActorID input) ''automation.trigger'' (ti_TemplateID input)
                  (Some [(''runId'', MetaStr (ar_ID (fst (tr_Run result)))), (''taskId'', MetaStr (task_ID (tr_Task result))),
                    (''version'', MetaInt (ar_TemplateVersion (fst (tr_Run result)))),
                    (''triggerDigest'', MetaStr (triggerDigest W key))]) db1)))"

definition Matching ::
  "env \<Rightarrow> string \<Rightarrow> string \<Rightarrow> string \<Rightarrow> string \<Rightarrow> string \<Rightarrow> 'z automations_db_scheme \<Rightarrow> automation_error + Template list" where
  "Matching E provider event action branch repository db =
    (case store_List E 200 db of
       Inl e \<Rightarrow> Inl e
     | Inr items \<Rightarrow> Inr (filter (\<lambda>item. Matches item provider event action branch repository) items))"

section \<open>The effects of the operations\<close>

text \<open>
  Every store operation either fails and changes nothing or has one of five effects. The rest of the theory argues about these.
\<close>

inductive change :: "automation_world \<Rightarrow> 'z automations_db_scheme \<Rightarrow> 'z automations_db_scheme \<Rightarrow> bool" for W where
  ch_none: "change W db db"
| ch_create: "Validate input = None \<Longrightarrow> i \<notin> tpl_ID ` set (automation_templates db) \<Longrightarrow> TrimSpace i = i \<Longrightarrow>
    TrimSpace (inp_Name input) \<notin> tpl_Name ` set (automation_templates db) \<Longrightarrow>
    change W db (db\<lparr>automation_templates := automation_templates db @ [new_template i input actor now]\<rparr>)"
| ch_edit: "Validate input = None \<Longrightarrow> t \<in> set (automation_templates db) \<Longrightarrow> \<not> tpl_Enabled t \<Longrightarrow>
    \<forall>q \<in> set (automation_templates db). tpl_ID q \<noteq> tpl_ID t \<longrightarrow> tpl_Name q \<noteq> TrimSpace (inp_Name input) \<Longrightarrow>
    change W db (put_template (edit_template input actor now t) db)"
| ch_publish: "t \<in> set (automation_templates db) \<Longrightarrow> \<not> enabled \<and> (tpl_Version t \<le> 0 \<or> \<not> tpl_Enabled t) \<or>
      tpl_Version t \<noteq> 0 \<and> tpl_Enabled t \<noteq> enabled \<Longrightarrow> u = publish_template enabled actor now t \<Longrightarrow>
    change W db ((put_template u db)\<lparr>automation_template_versions := automation_template_versions db @ [snapshot W actor now u]\<rparr>)"
| ch_delete: "t \<in> set (automation_templates db) \<Longrightarrow> \<not> tpl_Enabled t \<Longrightarrow> change W db (cascade_delete (tpl_ID t) db)"
| ch_trigger: "t \<in> set (automation_templates db) \<Longrightarrow> tpl_Enabled t \<Longrightarrow> ti_TemplateID input = tpl_ID t \<Longrightarrow>
    Matches t (ti_Provider input) (ti_Event input) (ti_Action input) (ti_Branch input) (ti_Repository input) \<Longrightarrow>
    int (active_runs (tpl_ID t) db) < tpl_ConcurrencyLimit t \<Longrightarrow>
    k = trigger_task W t input taskID createdAt available \<Longrightarrow> r = trigger_run t input runID taskID createdAt \<Longrightarrow>
    taskID \<notin> task_ID ` set (tasks db) \<Longrightarrow> task_SourceKey k \<notin> task_SourceKey ` set (tasks db) \<Longrightarrow>
    runID \<notin> ar_ID ` set (automation_runs db) \<Longrightarrow> taskID \<notin> ar_TaskID ` set (automation_runs db) \<Longrightarrow>
    (tpl_ID t, ti_TriggerKey input) \<notin> (\<lambda>r. (ar_TemplateID r, ar_TriggerKey r)) ` set (automation_runs db) \<Longrightarrow>
    change W db (db\<lparr>tasks := tasks db @ [k], automation_runs := automation_runs db @ [r]\<rparr>)"

lemma store_Create_change: "store_Create E input actor db = (res, db') \<Longrightarrow> change W db db'"
proof -
  assume op: "store_Create E input actor db = (res, db')"
  show ?thesis
  proof (cases "db' = db")
    case False
    with op obtain bs where "Validate input = None" "rand_read E 0 16 = Some bs"
        "format_uuid bs \<notin> tpl_ID ` set (automation_templates db)"
        "TrimSpace (inp_Name input) \<notin> tpl_Name ` set (automation_templates db)"
        "db' = db\<lparr>automation_templates := automation_templates db @ [new_template (format_uuid bs) input actor (clock E)]\<rparr>"
      by (auto simp: store_Create_def newID_def new_template_def Let_def split: option.splits if_splits)
    then show ?thesis by (metis ch_create TrimSpace_format_uuid)
  qed (simp add: ch_none)
qed

lemma store_UpdateDraft_ok:
  assumes "store_UpdateDraft E i rv input actor db = (res, db')" "db' \<noteq> db \<or> \<not> isl res"
  shows "\<exists>t. select_by tpl_ID i (automation_templates db) = Some t \<and> tpl_Revision t = rv \<and> \<not> tpl_Enabled t \<and> 0 < rv \<and>
    Validate input = None \<and> (\<forall>q \<in> set (automation_templates db). tpl_ID q \<noteq> i \<longrightarrow> tpl_Name q \<noteq> TrimSpace (inp_Name input)) \<and>
    db' = put_template (edit_template input actor (clock E) t) db \<and> res = Inr (edit_template input actor (clock E) t)"
proof (cases "Validate input"; cases "select_by tpl_ID i (automation_templates db)")
  fix t assume "Validate input = None" and "select_by tpl_ID i (automation_templates db) = Some t"
  moreover have "tpl_Name (edit_template input actor (clock E) t) = TrimSpace (inp_Name input)" by (simp add: edit_template_def)
  ultimately show ?thesis
    using assms unfolding store_UpdateDraft_def Let_def by (auto simp: list_ex_iff split: if_splits)
qed (use assms in \<open>auto simp del: select_by_None_iff simp: store_UpdateDraft_def split: if_splits\<close>)

lemma store_UpdateDraft_change: "store_UpdateDraft E i rv input actor db = (res, db') \<Longrightarrow> change W db db'"
proof (cases "db' = db")
  case False
  assume "store_UpdateDraft E i rv input actor db = (res, db')"
  from store_UpdateDraft_ok [OF this] False show ?thesis by (auto intro: ch_edit dest!: select_by_SomeD)
qed (simp add: ch_none)

lemma publishLocked_ok:
  assumes "publishLocked W E t actor enabled db = (Inr u, db')"
  shows "u = publish_template enabled actor (clock E) t \<and>
    db' = (put_template u db)\<lparr>automation_template_versions := automation_template_versions db @ [snapshot W actor (clock E) u]\<rparr>"
  using assms by (auto simp: publishLocked_def Let_def split: if_splits)

lemma lockTemplate_row:
  assumes "lockTemplate E i rv db = Inr t"
  shows "t \<in> set (automation_templates db) \<and> tpl_ID t = TrimSpace i \<and> (rv > 0 \<longrightarrow> tpl_Revision t = rv)"
  using assms by (auto simp del: select_by_None_iff simp: lockTemplate_def split: if_splits option.splits dest!: select_by_SomeD)

lemma store_Publish_change: "store_Publish W E i rv actor db = (res, db') \<Longrightarrow> change W db db'"
  by (auto simp: store_Publish_def not_less intro!: ch_none dest!: publishLocked_ok lockTemplate_row
      split: if_splits sum.splits option.splits prod.splits intro: ch_publish [where enabled = False])

lemma store_SetEnabled_change: "store_SetEnabled W E i rv enabled actor db = (res, db') \<Longrightarrow> change W db db'"
  by (auto simp: store_SetEnabled_def intro!: ch_none dest!: publishLocked_ok lockTemplate_row
      split: if_splits sum.splits option.splits prod.splits intro: ch_publish [where enabled = enabled])

lemma store_Delete_ok:
  assumes "store_Delete E i rv db = (res, db')" "db' \<noteq> db \<or> \<not> isl res"
  shows "\<exists>t. select_by tpl_ID i (automation_templates db) = Some t \<and> tpl_Revision t = rv \<and> \<not> tpl_Enabled t \<and>
    db' = cascade_delete i db"
  using assms
  by (cases "select_by tpl_ID i (automation_templates db)")
    (auto simp del: select_by_None_iff simp: store_Delete_def split: if_splits)

lemma store_Delete_change: "store_Delete E i rv db = (res, db') \<Longrightarrow> change W db db'"
proof (cases "db' = db")
  case False
  assume "store_Delete E i rv db = (res, db')"
  from store_Delete_ok [OF this] False show ?thesis by (auto intro: ch_delete dest!: select_by_SomeD)
qed (simp add: ch_none)

lemma insert_trigger_ok:
  assumes "insert_trigger W E t input db = (res, db')" "db' \<noteq> db \<or> \<not> isl res"
  shows "\<exists>taskID runID createdAt k r. k = trigger_task W t input taskID createdAt (db_clock E) \<and>
    r = trigger_run t input runID taskID createdAt \<and>
    taskID \<notin> task_ID ` set (tasks db) \<and> task_SourceKey k \<notin> task_SourceKey ` set (tasks db) \<and>
    runID \<notin> ar_ID ` set (automation_runs db) \<and> taskID \<notin> ar_TaskID ` set (automation_runs db) \<and>
    (ar_TemplateID r, ar_TriggerKey r) \<notin> (\<lambda>r. (ar_TemplateID r, ar_TriggerKey r)) ` set (automation_runs db) \<and>
    db' = db\<lparr>tasks := tasks db @ [k], automation_runs := automation_runs db @ [r]\<rparr> \<and>
    res = Inr \<lparr>tr_Run = (r, StatusQueued), tr_Task = k, tr_Duplicate = False\<rparr>"
proof (cases "newID E 0"; cases "newID E 1")
  fix taskID runID assume ids: "newID E 0 = Some taskID" "newID E 1 = Some runID"
  define createdAt where "createdAt = (if IsZero (ti_CreatedAt input) then clock E else ti_CreatedAt input)"
  define k where "k = trigger_task W t input taskID createdAt (db_clock E)"
  define r where "r = trigger_run t input runID taskID createdAt"
  note op = assms(1) [unfolded insert_trigger_def Let_def createdAt_def [symmetric] ids option.case, folded k_def r_def]
  show ?thesis
    by (rule exI [of _ taskID], rule exI [of _ runID], rule exI [of _ createdAt], rule exI [of _ k], rule exI [of _ r])
      (use op assms(2) in \<open>auto simp: k_def r_def split: if_splits\<close>)
qed (use assms in \<open>auto simp: insert_trigger_def Let_def split: option.splits\<close>)

lemma store_Trigger_ok:
  assumes "store_Trigger W E input db = (res, db')" "db' \<noteq> db \<or> \<not> isl res"
  shows "\<exists>t. t \<in> set (automation_templates db) \<and> tpl_ID t = ti_TemplateID input \<and> tpl_Enabled t \<and>
    Matches t (ti_Provider input) (ti_Event input) (ti_Action input) (ti_Branch input) (ti_Repository input) \<and>
    int (active_runs (ti_TemplateID input) db) < tpl_ConcurrencyLimit t \<and> insert_trigger W E t input db = (res, db')"
proof (cases "lockTemplate E (ti_TemplateID input) 0 db")
  case (Inr t)
  from lockTemplate_row [OF Inr] have t: "t \<in> set (automation_templates db)" "tpl_ID t = TrimSpace (ti_TemplateID input)" by auto
  show ?thesis
    by (rule exI [of _ t])
      (use assms t Inr in \<open>auto simp del: select_by_None_iff simp: store_Trigger_def split: if_splits option.splits\<close>)
qed (use assms in \<open>auto simp: store_Trigger_def split: if_splits\<close>)

lemma store_Trigger_err:
  assumes "store_Trigger W E input db = (Inl e, db')"
  shows "db' = db"
proof (rule ccontr)
  assume "db' \<noteq> db"
  then obtain t where "insert_trigger W E t input db = (Inl e, db')" using store_Trigger_ok [OF assms] by blast
  from insert_trigger_ok [OF this disjI1 [OF \<open>db' \<noteq> db\<close>]] show False by blast
qed

lemma store_Trigger_change:
  assumes "store_Trigger W E input db = (res, db')"
  shows "change W db db'"
proof (cases "db' = db")
  case False
  from store_Trigger_ok [OF assms] False obtain t where
    t: "t \<in> set (automation_templates db)" "tpl_Enabled t" "ti_TemplateID input = tpl_ID t"
      "Matches t (ti_Provider input) (ti_Event input) (ti_Action input) (ti_Branch input) (ti_Repository input)"
      "int (active_runs (tpl_ID t) db) < tpl_ConcurrencyLimit t" and i: "insert_trigger W E t input db = (res, db')" by auto
  from insert_trigger_ok [OF i disjI1 [OF False]] obtain taskID runID createdAt k r where
    k: "k = trigger_task W t input taskID createdAt (db_clock E)" "r = trigger_run t input runID taskID createdAt"
      "taskID \<notin> task_ID ` set (tasks db)" "task_SourceKey k \<notin> task_SourceKey ` set (tasks db)"
      "runID \<notin> ar_ID ` set (automation_runs db)" "taskID \<notin> ar_TaskID ` set (automation_runs db)"
      "(ar_TemplateID r, ar_TriggerKey r) \<notin> (\<lambda>r. (ar_TemplateID r, ar_TriggerKey r)) ` set (automation_runs db)"
    and db': "db' = db\<lparr>tasks := tasks db @ [k], automation_runs := automation_runs db @ [r]\<rparr>" by blast
  have "(tpl_ID t, ti_TriggerKey input) = (ar_TemplateID r, ar_TriggerKey r)" by (simp add: k(2) trigger_run_def)
  with k(7) show ?thesis unfolding db' by (intro ch_trigger [OF t k(1-6)]) simp
qed (simp add: ch_none)

section \<open>Interleaved operation\<close>

text \<open>A step is a call of the service with any input, clock and failures, or any operation of the task queue.\<close>

inductive automation_step :: "automation_world \<Rightarrow> 'z automations_db_scheme \<Rightarrow> 'z automations_db_scheme \<Rightarrow> bool" for W where
  as_create: "Create W E input actor db = (rc, db') \<Longrightarrow> automation_step W db db'"
| as_edit: "UpdateDraft W E i rv input actor db = (rc, db') \<Longrightarrow> automation_step W db db'"
| as_publish: "Publish W E i rv actor db = (rc, db') \<Longrightarrow> automation_step W db db'"
| as_enable: "SetEnabled W E i rv enabled actor db = (rc, db') \<Longrightarrow> automation_step W db db'"
| as_delete: "Delete W E i rv actor db = (ru, db') \<Longrightarrow> automation_step W db db'"
| as_trigger: "Trigger W E ti db = (rt, db') \<Longrightarrow> automation_step W db db'"
| as_task: "task_step db db' \<Longrightarrow> automation_step W db db'"

text \<open>A service call is a change of the store, followed at most by an audit record.\<close>

definition audited :: "'z automations_db_scheme \<Rightarrow> 'z automations_db_scheme \<Rightarrow> bool" where
  "audited db db' \<longleftrightarrow> db' = db \<or> task_step db db'"

lemma recordAudit_audited [simp]: "audited db (recordAudit W E a b c m db)"
  unfolding audited_def recordAudit_def service_RecordAudit_def by (auto intro: st_audit [OF prod.collapse [symmetric]])

lemma audited_refl [simp]: "audited db db"
  by (simp add: audited_def)

lemma service_changes:
  "Create W E input actor db = (rc, db') \<Longrightarrow> \<exists>d. change W db d \<and> audited d db'"
  "UpdateDraft W E i rv input actor db = (rc, db') \<Longrightarrow> \<exists>d. change W db d \<and> audited d db'"
  "Publish W E i rv actor db = (rc, db') \<Longrightarrow> \<exists>d. change W db d \<and> audited d db'"
  "SetEnabled W E i rv enabled actor db = (rc, db') \<Longrightarrow> \<exists>d. change W db d \<and> audited d db'"
  "Delete W E i rv actor db = (ru, db') \<Longrightarrow> \<exists>d. change W db d \<and> audited d db'"
  "Trigger W E ti db = (rt, db') \<Longrightarrow> \<exists>d. change W db d \<and> audited d db'"
  by (auto simp: Create_def UpdateDraft_def Publish_def SetEnabled_def Delete_def Trigger_def Let_def
      split: option.splits sum.splits prod.splits if_splits
      dest!: store_Create_change [where W = W] store_UpdateDraft_change [where W = W] store_Publish_change store_SetEnabled_change
        store_Delete_change [where W = W] store_Trigger_change
      intro: ch_none recordAudit_audited audited_refl)

section \<open>The invariant\<close>

definition versions_of :: "string \<Rightarrow> Version list \<Rightarrow> Version list" where
  "versions_of i vs = filter (\<lambda>v. ver_TemplateID v = i) vs"

definition tpl_ok :: "automation_world \<Rightarrow> Version list \<Rightarrow> Template \<Rightarrow> bool" where
  "tpl_ok W vs t \<longleftrightarrow> Validate (tpl_Input t) = None \<and> TrimSpace (tpl_ID t) = tpl_ID t \<and> 1 \<le> tpl_Revision t \<and> 0 \<le> tpl_Version t \<and>
     map ver_Version (versions_of (tpl_ID t) vs) = [1..tpl_Version t] \<and>
     (0 < tpl_Version t \<longrightarrow> ver_Enabled (last (versions_of (tpl_ID t) vs)) = tpl_Enabled t) \<and>
     (tpl_Enabled t \<longrightarrow> 0 < tpl_Version t \<and>
        ver_Config (last (versions_of (tpl_ID t) vs)) = aw_config W (tpl_Input t) True)"

definition run_ok :: "automation_world \<Rightarrow> Template list \<Rightarrow> Task list \<Rightarrow> RunRow \<Rightarrow> bool" where
  "run_ok W ts ks r \<longleftrightarrow>
     (\<exists>t \<in> set ts. tpl_ID t = ar_TemplateID r \<and> 1 \<le> ar_TemplateVersion r \<and> ar_TemplateVersion r \<le> tpl_Version t) \<and>
     (\<exists>k \<in> set ks. task_ID k = ar_TaskID r \<and>
        task_SourceKey k = sourceKey W (ar_TemplateID r) (ar_TriggerKey r))"

definition templates_wf :: "automation_world \<Rightarrow> Version list \<Rightarrow> Template list \<Rightarrow> bool" where
  "templates_wf W vs ts \<longleftrightarrow> distinct (map tpl_ID ts) \<and> distinct (map tpl_Name ts) \<and> (\<forall>t \<in> set ts. tpl_ok W vs t) \<and>
     (\<forall>v \<in> set vs. ver_TemplateID v \<in> tpl_ID ` set ts)"

definition reservations_wf :: "automation_world \<Rightarrow> Template list \<Rightarrow> Task list \<Rightarrow> RunRow list \<Rightarrow> bool" where
  "reservations_wf W ts ks rs \<longleftrightarrow> distinct (map ar_ID rs) \<and> distinct (map ar_TaskID rs) \<and>
     distinct (map (\<lambda>r. (ar_TemplateID r, ar_TriggerKey r)) rs) \<and> (\<forall>r \<in> set rs. run_ok W ts ks r)"

definition automations_inv :: "automation_world \<Rightarrow> 'z automations_db_scheme \<Rightarrow> bool" where
  "automations_inv W db \<longleftrightarrow> tasks_inv db \<and> templates_wf W (automation_template_versions db) (automation_templates db) \<and>
     reservations_wf W (automation_templates db) (tasks db) (automation_runs db)"

definition automations_empty :: "'z automations_db_scheme \<Rightarrow> bool" where
  "automations_empty db \<longleftrightarrow> tasks_empty db \<and> automation_templates db = [] \<and> automation_template_versions db = [] \<and>
     automation_runs db = []"

lemma template_unique:
  "distinct (map tpl_ID ts) \<Longrightarrow> t \<in> set ts \<Longrightarrow> q \<in> set ts \<Longrightarrow> tpl_ID q = tpl_ID t \<Longrightarrow> q = t"
  by (auto simp: distinct_map dest: inj_onD)

text \<open>What is stored of a valid input is valid.\<close>

lemma Validate_trimmed:
  "Validate (input\<lparr>inp_Name := TrimSpace (inp_Name input), inp_Description := TrimSpace (inp_Description input),
     inp_AgentTemplate := TrimSpace (inp_AgentTemplate input)\<rparr>) = Validate input"
  by (cases input) (simp only: Validate_def Input.simps TrimSpace_idem)

lemma new_template_input:
  "tpl_Input (new_template i input actor now) = input\<lparr>inp_Name := TrimSpace (inp_Name input),
     inp_Description := TrimSpace (inp_Description input), inp_AgentTemplate := TrimSpace (inp_AgentTemplate input)\<rparr>"
  "tpl_Input (edit_template input actor now t) = input\<lparr>inp_Name := TrimSpace (inp_Name input),
     inp_Description := TrimSpace (inp_Description input), inp_AgentTemplate := TrimSpace (inp_AgentTemplate input)\<rparr>"
  "tpl_Input (publish_template e actor now t) = tpl_Input t"
  by (simp_all add: tpl_Input_def new_template_def edit_template_def publish_template_def)

lemma new_template_simps [simp]:
  "tpl_ID (new_template i input actor now) = i" "tpl_Name (new_template i input actor now) = TrimSpace (inp_Name input)"
  "tpl_Version (new_template i input actor now) = 0" "tpl_Revision (new_template i input actor now) = 1"
  "tpl_Enabled (new_template i input actor now) = False"
  by (simp_all add: new_template_def)

lemma edit_template_simps [simp]:
  "tpl_ID (edit_template input actor now t) = tpl_ID t" "tpl_Name (edit_template input actor now t) = TrimSpace (inp_Name input)"
  "tpl_Version (edit_template input actor now t) = tpl_Version t" "tpl_Enabled (edit_template input actor now t) = tpl_Enabled t"
  "tpl_Revision (edit_template input actor now t) = tpl_Revision t + 1"
  by (simp_all add: edit_template_def)

lemma publish_template_simps [simp]:
  "tpl_ID (publish_template e actor now t) = tpl_ID t" "tpl_Name (publish_template e actor now t) = tpl_Name t"
  "tpl_Version (publish_template e actor now t) = tpl_Version t + 1" "tpl_Enabled (publish_template e actor now t) = e"
  "tpl_Revision (publish_template e actor now t) = tpl_Revision t + 1"
  by (simp_all add: publish_template_def)

lemma put_template_simps [simp]:
  "automation_templates (put_template t db) = update_where (\<lambda>q. tpl_ID q = tpl_ID t) (\<lambda>_. t) (automation_templates db)"
  "automation_template_versions (put_template t db) = automation_template_versions db"
  "automation_runs (put_template t db) = automation_runs db" "tasks (put_template t db) = tasks db"
  "runs (put_template t db) = runs db" "run_events (put_template t db) = run_events db"
  by (simp_all add: put_template_def)

lemma versions_of_simps [simp]:
  "versions_of i [] = []" "versions_of i (vs @ ws) = versions_of i vs @ versions_of i ws"
  "versions_of i [v] = (if ver_TemplateID v = i then [v] else [])"
  by (simp_all add: versions_of_def)

lemma versions_of_none: "\<forall>v \<in> set vs. ver_TemplateID v \<noteq> i \<Longrightarrow> versions_of i vs = []"
  by (simp add: versions_of_def filter_empty_conv)

lemma put_names:
  assumes "distinct (map tpl_Name ts)" "distinct (map tpl_ID ts)" "t \<in> set ts" "tpl_ID u = tpl_ID t"
    and "\<forall>q \<in> set ts. tpl_ID q \<noteq> tpl_ID t \<longrightarrow> tpl_Name q \<noteq> tpl_Name u"
  shows "distinct (map tpl_Name (update_where (\<lambda>q. tpl_ID q = tpl_ID u) (\<lambda>_. u) ts)) \<and>
    map tpl_ID (update_where (\<lambda>q. tpl_ID q = tpl_ID u) (\<lambda>_. u) ts) = map tpl_ID ts"
  using assms(1,2,5) unfolding assms(4)
proof (induction ts)
  case (Cons q ts)
  then have IH: "distinct (map tpl_Name (update_where (\<lambda>q. tpl_ID q = tpl_ID t) (\<lambda>_. u) ts))"
    "map tpl_ID (update_where (\<lambda>q. tpl_ID q = tpl_ID t) (\<lambda>_. u) ts) = map tpl_ID ts" by auto
  show ?case
  proof (cases "tpl_ID q = tpl_ID t")
    case True
    with Cons.prems(2) have "update_where (\<lambda>q. tpl_ID q = tpl_ID t) (\<lambda>_. u) ts = ts"
      by (intro update_where_id) (auto simp: image_iff)
    with True Cons.prems IH assms(4) show ?thesis by (force simp: image_iff)
  next
    case False
    with Cons.prems IH assms(4) show ?thesis by (auto simp: set_update_where)
  qed
qed simp

lemma templates_wfD:
  assumes "templates_wf W vs ts"
  shows "distinct (map tpl_ID ts)" "distinct (map tpl_Name ts)" "t \<in> set ts \<Longrightarrow> tpl_ok W vs t"
    "v \<in> set vs \<Longrightarrow> ver_TemplateID v \<in> tpl_ID ` set ts"
  using assms by (auto simp: templates_wf_def)

text \<open>Writing one row: the others keep their names, identifiers and versions.\<close>

lemma put_wf:
  assumes wf: "templates_wf W vs ts" and t: "t \<in> set ts" "tpl_ID u = tpl_ID t"
    and names: "\<forall>q \<in> set ts. tpl_ID q \<noteq> tpl_ID t \<longrightarrow> tpl_Name q \<noteq> tpl_Name u"
    and u: "tpl_ok W (vs @ new) u" and new: "\<forall>v \<in> set new. ver_TemplateID v = tpl_ID t"
  shows "templates_wf W (vs @ new) (update_where (\<lambda>q. tpl_ID q = tpl_ID u) (\<lambda>_. u) ts)"
proof -
  note d = templates_wfD [OF wf]
  have ids: "distinct (map tpl_Name (update_where (\<lambda>q. tpl_ID q = tpl_ID u) (\<lambda>_. u) ts))"
    "map tpl_ID (update_where (\<lambda>q. tpl_ID q = tpl_ID u) (\<lambda>_. u) ts) = map tpl_ID ts"
    using put_names [OF d(2,1) t names] by auto
  have "tpl_ok W (vs @ new) q" if "q \<in> set ts" "tpl_ID q \<noteq> tpl_ID u" for q
  proof -
    have "versions_of (tpl_ID q) (vs @ new) = versions_of (tpl_ID q) vs"
      using new that(2) t(2) by (simp add: versions_of_none)
    with d(3) [OF that(1)] show ?thesis by (simp add: tpl_ok_def)
  qed
  moreover have "tpl_ID ` set (update_where (\<lambda>q. tpl_ID q = tpl_ID u) (\<lambda>_. u) ts) = tpl_ID ` set ts"
    using ids(2) by (metis list.set_map)
  ultimately show ?thesis
    unfolding templates_wf_def using d(1,4) ids u t new by (auto simp: set_update_where)
qed

lemma put_reservations:
  assumes "reservations_wf W ts ks rs" "t \<in> set ts" "distinct (map tpl_ID ts)" "tpl_ID u = tpl_ID t" "tpl_Version t \<le> tpl_Version u"
  shows "reservations_wf W (update_where (\<lambda>q. tpl_ID q = tpl_ID u) (\<lambda>_. u) ts) ks rs"
proof -
  have *: "\<exists>q' \<in> set (update_where (\<lambda>q. tpl_ID q = tpl_ID u) (\<lambda>_. u) ts). tpl_ID q' = i \<and> 1 \<le> n \<and> n \<le> tpl_Version q'"
    if "\<exists>q \<in> set ts. tpl_ID q = i \<and> 1 \<le> n \<and> n \<le> tpl_Version q" for i n
  proof -
    from that obtain q where q: "q \<in> set ts" "tpl_ID q = i" "1 \<le> n" "n \<le> tpl_Version q" by blast
    show ?thesis
    proof (cases "tpl_ID q = tpl_ID u")
      case True
      with template_unique [OF assms(3,2) q(1)] assms(4) have "q = t" by simp
      with q assms(2,4,5) show ?thesis by (intro bexI [of _ u]) (auto simp: set_update_where image_iff)
    next
      case False
      with q show ?thesis by (intro bexI [of _ q]) (auto simp: set_update_where image_iff)
    qed
  qed
  then show ?thesis using assms(1) unfolding reservations_wf_def run_ok_def by simp
qed

lemma last_version: "tpl_ok W vs t \<Longrightarrow> 0 < tpl_Version t \<Longrightarrow> versions_of (tpl_ID t) vs \<noteq> []"
  by (auto simp: tpl_ok_def)

lemma edit_ok:
  assumes "tpl_ok W vs t" "\<not> tpl_Enabled t" "Validate input = None"
  shows "tpl_ok W vs (edit_template input actor now t)"
  using assms by (simp add: tpl_ok_def new_template_input Validate_trimmed)

lemma publish_ok:
  assumes "tpl_ok W vs t" "u = publish_template enabled actor now t" "enabled \<longrightarrow> tpl_Version t \<noteq> 0"
  shows "tpl_ok W (vs @ [snapshot W actor now u]) u"
proof -
  have "[1..tpl_Version t + 1] = [1..tpl_Version t] @ [tpl_Version t + 1]"
    using assms(1) upto_rec2 [of 1 "tpl_Version t + 1"] by (simp add: tpl_ok_def)
  with assms show ?thesis by (simp add: tpl_ok_def new_template_input snapshot_def)
qed

lemma run_ok_insert:
  "run_ok W ts ks r \<Longrightarrow> run_ok W (ts @ xs) ks r" "run_ok W ts ks r \<Longrightarrow> run_ok W ts (ks @ ys) r"
  unfolding run_ok_def set_append by blast+

lemma run_ok_moves: "run_ok W ts ks r \<Longrightarrow> moves ks ks' \<Longrightarrow> run_ok W ts ks' r"
  unfolding run_ok_def moves_def task_move_def by metis

lemma automations_invD:
  assumes "automations_inv W db"
  shows "tasks_inv db" "templates_wf W (automation_template_versions db) (automation_templates db)"
    "reservations_wf W (automation_templates db) (tasks db) (automation_runs db)"
  using assms by (auto simp: automations_inv_def)

lemma create_wf:
  assumes "templates_wf W vs ts" "Validate input = None" "i \<notin> tpl_ID ` set ts" "TrimSpace i = i"
    "TrimSpace (inp_Name input) \<notin> tpl_Name ` set ts"
  shows "templates_wf W vs (ts @ [new_template i input actor now])"
proof -
  have "versions_of i vs = []" using templates_wfD(4) [OF assms(1)] assms(3) by (auto intro!: versions_of_none)
  then have "tpl_ok W vs (new_template i input actor now)"
    using assms(2,4) by (simp add: tpl_ok_def new_template_input Validate_trimmed)
  with assms show ?thesis by (auto simp: templates_wf_def)
qed

lemma delete_wf:
  assumes wf: "templates_wf W vs ts"
  shows "templates_wf W (delete_where (\<lambda>v. ver_TemplateID v = i) vs) (delete_where (\<lambda>t. tpl_ID t = i) ts)"
proof -
  have "versions_of j (delete_where (\<lambda>v. ver_TemplateID v = i) vs) = versions_of j vs" if "j \<noteq> i" for j
    using that by (auto simp: versions_of_def delete_where_def intro!: filter_cong)
  then have "tpl_ok W (delete_where (\<lambda>v. ver_TemplateID v = i) vs) t" if "t \<in> set ts" "tpl_ID t \<noteq> i" for t
    using templates_wfD(3) [OF wf that(1)] that(2) by (simp add: tpl_ok_def)
  then show ?thesis
    using wf distinct_delete_where unfolding templates_wf_def by (auto simp: set_delete_where image_iff)
qed

lemma delete_reservations:
  assumes "reservations_wf W ts ks rs"
  shows "reservations_wf W (delete_where (\<lambda>t. tpl_ID t = i) ts) ks (delete_where (\<lambda>r. ar_TemplateID r = i) rs)"
proof -
  have "run_ok W (delete_where (\<lambda>t. tpl_ID t = i) ts) ks r" if "run_ok W ts ks r" "ar_TemplateID r \<noteq> i" for r
    using that unfolding run_ok_def by (auto simp: set_delete_where)
  with assms show ?thesis
    by (simp add: reservations_wf_def set_delete_where distinct_delete_where)
qed

lemma trigger_task_ok:
  assumes "ValidKind (tpl_Kind t)"
  shows "task_ok (trigger_task W t input taskID createdAt available)"
    "task_Status (trigger_task W t input taskID createdAt available) = StatusQueued"
    "task_ID (trigger_task W t input taskID createdAt available) = taskID"
    "task_SourceKey (trigger_task W t input taskID createdAt available) = sourceKey W (tpl_ID t) (ti_TriggerKey input)"
  using assms by (simp_all add: task_ok_def trigger_task_def)

lemma trigger_run_simps [simp]:
  "ar_ID (trigger_run t input runID taskID createdAt) = runID" "ar_TaskID (trigger_run t input runID taskID createdAt) = taskID"
  "ar_TemplateID (trigger_run t input runID taskID createdAt) = tpl_ID t"
  "ar_TemplateVersion (trigger_run t input runID taskID createdAt) = tpl_Version t"
  "ar_TriggerKey (trigger_run t input runID taskID createdAt) = ti_TriggerKey input"
  by (simp_all add: trigger_run_def)

lemma Validate_kind: "Validate input = None \<Longrightarrow> ValidKind (inp_Kind input)"
  by (simp add: Validate_def Let_def split: if_splits)

lemma trigger_inv:
  assumes inv: "automations_inv W db" and t: "t \<in> set (automation_templates db)" "tpl_Enabled t"
    and k: "k = trigger_task W t input taskID createdAt available" "r = trigger_run t input runID taskID createdAt"
    and new: "taskID \<notin> task_ID ` set (tasks db)" "task_SourceKey k \<notin> task_SourceKey ` set (tasks db)"
      "runID \<notin> ar_ID ` set (automation_runs db)" "taskID \<notin> ar_TaskID ` set (automation_runs db)"
      "(tpl_ID t, ti_TriggerKey input) \<notin> (\<lambda>r. (ar_TemplateID r, ar_TriggerKey r)) ` set (automation_runs db)"
  shows "automations_inv W (db\<lparr>tasks := tasks db @ [k], automation_runs := automation_runs db @ [r]\<rparr>)"
proof -
  note d = automations_invD [OF inv]
  have ok: "tpl_ok W (automation_template_versions db) t" by (rule templates_wfD(3) [OF d(2) t(1)])
  then have kind: "ValidKind (tpl_Kind t)" using Validate_kind [of "tpl_Input t"] by (simp add: tpl_ok_def tpl_Input_def)
  note kk = trigger_task_ok [OF kind, of W input taskID createdAt available, folded k(1)]
  have "tasks_inv (db\<lparr>tasks := tasks db @ [k]\<rparr>)" using insert_task_inv [OF d(1) kk(1,2)] kk(3) new(1,2) by simp
  then have "tasks_inv (db\<lparr>tasks := tasks db @ [k], automation_runs := automation_runs db @ [r]\<rparr>)" by (simp add: tasks_inv_def)
  moreover have "run_ok W (automation_templates db) (tasks db @ [k]) r"
    using t ok kk by (auto simp: run_ok_def k(2) tpl_ok_def)
  moreover have "run_ok W (automation_templates db) (tasks db @ [k]) q" if "q \<in> set (automation_runs db)" for q
    using d(3) that by (simp add: reservations_wf_def run_ok_insert)
  ultimately show ?thesis
    using d(2,3) new by (auto simp: automations_inv_def reservations_wf_def k(2))
qed

lemma change_inv: "change W db db' \<Longrightarrow> automations_inv W db \<Longrightarrow> automations_inv W db'"
proof (induction rule: change.induct)
  case (ch_create input i db actor now)
  note d = automations_invD [OF ch_create(5)]
  have "run_ok W (automation_templates db @ [new_template i input actor now]) (tasks db) r" if "r \<in> set (automation_runs db)" for r
    using d(3) that by (simp add: reservations_wf_def run_ok_insert)
  then show ?case
    using d create_wf [OF d(2) ch_create(1-4)] by (simp add: automations_inv_def reservations_wf_def tasks_inv_def)
next
  case (ch_edit input t db actor now)
  note d = automations_invD [OF ch_edit(5)]
  note w = templates_wfD [OF d(2)]
  have "templates_wf W (automation_template_versions db @ [])
      (automation_templates (put_template (edit_template input actor now t) db))"
    using put_wf [OF d(2) ch_edit(2), of "edit_template input actor now t" "[]"] edit_ok [OF w(3) [OF ch_edit(2)] ch_edit(3,1)] ch_edit(4)
    by simp
  then show ?case
    using d put_reservations [OF d(3) ch_edit(2) w(1), of "edit_template input actor now t"]
    by (simp add: automations_inv_def tasks_inv_def)
next
  case (ch_publish t db enabled u actor now)
  note d = automations_invD [OF ch_publish(4)]
  note w = templates_wfD [OF d(2)]
  have ok: "tpl_ok W (automation_template_versions db @ [snapshot W actor now u]) u"
    using publish_ok [OF w(3) [OF ch_publish(1)] ch_publish(3)] ch_publish(2) by auto
  have "tpl_Name q \<noteq> tpl_Name u" if "q \<in> set (automation_templates db)" "tpl_ID q \<noteq> tpl_ID t" for q
    using w(2) that ch_publish(1,3) by (auto simp: distinct_map dest: inj_onD)
  then have "templates_wf W (automation_template_versions db @ [snapshot W actor now u]) (automation_templates (put_template u db))"
    using put_wf [OF d(2) ch_publish(1) _ _ ok] ch_publish(3) by (simp add: snapshot_def)
  then show ?case
    using d put_reservations [OF d(3) ch_publish(1) w(1), of u] ch_publish(3)
    by (simp add: automations_inv_def tasks_inv_def)
next
  case (ch_delete t db)
  note d = automations_invD [OF ch_delete(3)]
  show ?case
    using d delete_wf [OF d(2)] delete_reservations [OF d(3)]
    by (simp add: automations_inv_def cascade_delete_def tasks_inv_def)
next
  case (ch_trigger t db input k taskID createdAt available r runID)
  show ?case by (rule trigger_inv [OF ch_trigger(13,1,2,6-12)])
qed

lemma task_step_automations:
  "task_step db db' \<Longrightarrow> automation_templates db' = automation_templates db \<and>
     automation_template_versions db' = automation_template_versions db \<and> automation_runs db' = automation_runs db"
  by (induction rule: task_step.induct)
     (auto simp: op_defs Let_def split: if_splits option.splits list.splits)

lemma task_step_automations_inv:
  assumes "task_step db db'" "automations_inv W db"
  shows "automations_inv W db'"
proof -
  note d = automations_invD [OF assms(2)]
  have "moves (tasks db) (tasks db')" by (rule task_step_moves [OF assms(1) d(1)])
  then have "reservations_wf W (automation_templates db) (tasks db') (automation_runs db)"
    using d(3) run_ok_moves by (auto simp: reservations_wf_def)
  then show ?thesis
    using d(2) task_step_inv [OF assms(1) d(1)] task_step_automations [OF assms(1)] by (simp add: automations_inv_def)
qed

text \<open>Induction over a step: a change of the store or a step of the task queue.\<close>

lemma automation_step_change:
  assumes "automation_step W db db'"
  shows "\<exists>d. change W db d \<and> audited d db'"
  using assms
proof cases
  case as_task
  then show ?thesis using ch_none [of W db] by (auto simp: audited_def)
qed (erule service_changes)+

lemma audited_inv: "audited db db' \<Longrightarrow> automations_inv W db \<Longrightarrow> automations_inv W db'"
  by (auto simp: audited_def intro: task_step_automations_inv)

lemma audited_frame:
  "audited db db' \<Longrightarrow> automation_templates db' = automation_templates db \<and>
     automation_template_versions db' = automation_template_versions db \<and> automation_runs db' = automation_runs db"
  using task_step_automations by (auto simp: audited_def)

lemma automation_step_inv: "automation_step W db db' \<Longrightarrow> automations_inv W db \<Longrightarrow> automations_inv W db'"
  by (drule automation_step_change) (blast intro: audited_inv change_inv)

interpretation automations: transition_system automations_empty "automation_step W" "automations_inv W"
proof (unfold_locales, goal_cases)
  case (1 db)
  then show ?case
    by (simp add: automations_empty_def automations_inv_def tasks_empty_inv templates_wf_def reservations_wf_def)
qed (rule automation_step_inv)

text \<open>Revisions only grow while a template exists.\<close>

lemma change_revision:
  assumes "change W db db'" "automations_inv W db" "t \<in> set (automation_templates db)" "t' \<in> set (automation_templates db')"
    "tpl_ID t' = tpl_ID t"
  shows "tpl_Revision t \<le> tpl_Revision t'"
proof -
  note uniq = template_unique [OF templates_wfD(1) [OF automations_invD(2) [OF assms(2)]]]
  have same: ?thesis if "t' \<in> set (automation_templates db)" using uniq [OF assms(3) that assms(5)] by simp
  show ?thesis
    using assms(1)
  proof cases
    case ch_create
    with same assms(3-5) show ?thesis by auto
  next
    case (ch_edit input q actor now)
    with same uniq [OF ch_edit(3) assms(3)] assms(4,5) show ?thesis by (auto simp: set_update_where split: if_splits)
  next
    case (ch_publish q enabled u actor now)
    with same uniq [OF ch_publish(2) assms(3)] assms(4,5) show ?thesis by (auto simp: set_update_where split: if_splits)
  next
    case (ch_delete q)
    with same assms(4) show ?thesis by (auto simp: cascade_delete_def set_delete_where)
  qed (use same assms(4) in simp_all)
qed

lemma step_revision:
  assumes "automation_step W db db'" "automations_inv W db" "t \<in> set (automation_templates db)" "t' \<in> set (automation_templates db')"
    "tpl_ID t' = tpl_ID t"
  shows "tpl_Revision t \<le> tpl_Revision t'"
proof -
  obtain d where d: "change W db d" "audited d db'" using automation_step_change [OF assms(1)] by blast
  with assms(4) have "t' \<in> set (automation_templates d)" by (simp add: audited_frame)
  from change_revision [OF d(1) assms(2,3) this assms(5)] show ?thesis .
qed

lemma history_revision:
  assumes "(\<lambda>d d'. automation_step W d d' \<and> i \<in> tpl_ID ` set (automation_templates d'))\<^sup>*\<^sup>* db db'" "automations_inv W db"
    "t \<in> set (automation_templates db)" "tpl_ID t = i"
  shows "automations_inv W db' \<and> (\<exists>t' \<in> set (automation_templates db'). tpl_ID t' = i \<and> tpl_Revision t \<le> tpl_Revision t')"
  using assms
proof (induction rule: rtranclp_induct)
  case base
  then show ?case by auto
next
  case (step d d')
  then obtain t1 t2 where "t1 \<in> set (automation_templates d)" "tpl_ID t1 = i" "tpl_Revision t \<le> tpl_Revision t1"
      "t2 \<in> set (automation_templates d')" "tpl_ID t2 = i" by auto
  moreover with step have "tpl_Revision t1 \<le> tpl_Revision t2" using step_revision [of W d d' t1 t2] by auto
  moreover have "automations_inv W d'" using step automation_step_inv by blast
  ultimately show ?case by force
qed

text \<open>Tasks persist under their source keys.\<close>

lemma moves_source_keys: "moves ks ks' \<Longrightarrow> task_SourceKey ` set ks \<subseteq> task_SourceKey ` set ks'"
  unfolding moves_def task_move_def by (auto simp: image_iff) metis

lemma step_source_keys:
  assumes "automation_step W db db'" "automations_inv W db"
  shows "task_SourceKey ` set (tasks db) \<subseteq> task_SourceKey ` set (tasks db')"
proof -
  obtain d where d: "change W db d" "audited d db'" using automation_step_change [OF assms(1)] by blast
  have "set (tasks db) \<subseteq> set (tasks d)" using d(1) by cases (auto simp: cascade_delete_def)
  moreover have "moves (tasks d) (tasks db')"
    using d(2) task_step_moves [OF _ automations_invD(1) [OF change_inv [OF d(1) assms(2)]]] by (auto simp: audited_def)
  ultimately show ?thesis using moves_source_keys by blast
qed

lemma history_source_keys:
  "(automation_step W)\<^sup>*\<^sup>* db db' \<Longrightarrow> automations_inv W db \<Longrightarrow>
     automations_inv W db' \<and> task_SourceKey ` set (tasks db) \<subseteq> task_SourceKey ` set (tasks db')"
proof (induction rule: rtranclp_induct)
  case (step d d')
  then show ?case using step_source_keys [of W d d'] automation_step_inv [of W d d'] by (meson order_trans)
qed simp

text \<open>What a successful trigger did, seen from the service.\<close>

lemma recordAudit_frame [simp]:
  "tasks (recordAudit W E a b c m db) = tasks db" "automation_runs (recordAudit W E a b c m db) = automation_runs db"
  "automation_templates (recordAudit W E a b c m db) = automation_templates db"
  "automation_template_versions (recordAudit W E a b c m db) = automation_template_versions db"
  by (auto simp: recordAudit_def service_RecordAudit_def RecordAudit_def Let_def split: option.splits)

lemma Trigger_ok:
  assumes "Trigger W E input0 db = (Inr result, db')"
  shows "\<exists>t input k r taskID runID createdAt. t \<in> set (automation_templates db) \<and> tpl_ID t = ti_TemplateID input0 \<and> tpl_Enabled t \<and>
    Matches t (ti_Provider input0) (ti_Event input0) (ti_Action input0) (ti_Branch input0) (ti_Repository input0) \<and>
    int (active_runs (tpl_ID t) db) < tpl_ConcurrencyLimit t \<and> ti_TriggerKey input = TrimSpace (ti_TriggerKey input0) \<and>
    ti_Repository input = ti_Repository input0 \<and> ti_ActorID input = ti_ActorID input0 \<and>
    k = trigger_task W t input taskID createdAt (db_clock E) \<and> r = trigger_run t input runID taskID createdAt \<and>
    taskID \<notin> task_ID ` set (tasks db) \<and> task_SourceKey k \<notin> task_SourceKey ` set (tasks db) \<and>
    taskID \<notin> ar_TaskID ` set (automation_runs db) \<and>
    tasks db' = tasks db @ [k] \<and> automation_runs db' = automation_runs db @ [r] \<and>
    result = \<lparr>tr_Run = (r, StatusQueued), tr_Task = k, tr_Duplicate = False\<rparr>"
proof -
  define input where "input = input0\<lparr>ti_SourcePayload := if ti_SourcePayload input0 = [] then ''{}'' else ti_SourcePayload input0,
    ti_CreatedAt := (if IsZero (ti_CreatedAt input0) then clock E else ti_CreatedAt input0),
    ti_TriggerKey := TrimSpace (ti_TriggerKey input0),
    ti_TaskPayload := decoratePayload W (ti_TaskPayload input0) (ti_TemplateID input0) (TrimSpace (ti_TriggerKey input0))\<rparr>"
  obtain db1 where st: "store_Trigger W (call E 0) input db = (Inr result, db1)" and db1: "tasks db' = tasks db1"
      "automation_runs db' = automation_runs db1"
    using assms unfolding Trigger_def Let_def input_def by (auto split: if_splits prod.splits sum.splits)
  from store_Trigger_ok [OF st] obtain t where t: "t \<in> set (automation_templates db)" "tpl_ID t = ti_TemplateID input0" "tpl_Enabled t"
      "Matches t (ti_Provider input0) (ti_Event input0) (ti_Action input0) (ti_Branch input0) (ti_Repository input0)"
      "int (active_runs (tpl_ID t) db) < tpl_ConcurrencyLimit t" and i: "insert_trigger W (call E 0) t input db = (Inr result, db1)"
    by (auto simp: input_def)
  have "ti_TriggerKey input = TrimSpace (ti_TriggerKey input0)" "ti_Repository input = ti_Repository input0"
    "ti_ActorID input = ti_ActorID input0" by (simp_all add: input_def)
  with insert_trigger_ok [OF i] t db1 show ?thesis by (fastforce simp: call_simps)
qed

section \<open>A sample history\<close>

definition sample_aw :: automation_world where
  "sample_aw = \<lparr>aw_config = (\<lambda>input e. inp_Name input), aw_sha = (\<lambda>s. replicate 2 (word_of_nat (length s))), aw_valid = (\<lambda>_. True),
     aw_decorate = (\<lambda>_ _ _. None), aw_marshal = (\<lambda>_. ''{}''), aw_audit = True\<rparr>"

definition sample_config :: Input where
  "sample_config = \<lparr>inp_Name = '' review '', inp_Description = [], inp_Kind = KindCodeReview, inp_Provider = ''github'',
     inp_RepositoryScope = [''o/r''],
     inp_EventFilters = [\<lparr>ef_Event = ''pull_request'', ef_Actions = [''opened''], ef_Branches = []\<rparr>],
     inp_AgentTemplate = ''codex'', inp_ExecutionBudget = 10, inp_TimeoutSeconds = 60, inp_ConcurrencyLimit = 1,
     inp_Risk = ''low'', inp_ApprovalPolicy = ''required''\<rparr>"

definition sample_au0 :: automations_db where
  "sample_au0 = \<lparr>tasks = [], runs = [], run_events = [], findings = [], evidence = [], audit_events = [],
     automation_templates = [], automation_template_versions = [], automation_runs = []\<rparr>"

definition sample_tpl :: string where
  "sample_tpl = ''00010203-0405-0607-0809-0a0b0c0d0e0f''"

definition sample_trigger :: "string \<Rightarrow> TriggerInput" where
  "sample_trigger key = \<lparr>ti_TemplateID = sample_tpl, ti_TriggerKey = key, ti_Provider = ''github'', ti_Event = ''pull_request'',
     ti_Action = ''opened'', ti_Branch = ''main'', ti_Repository = ''o/r'', ti_RepositoryID = [], ti_Title = [],
     ti_TaskPayload = ''{}'', ti_SourcePayload = [], ti_ActorID = ''u1'', ti_CreatedAt = 0\<rparr>"

definition sample_au1 :: automations_db where
  "sample_au1 = snd (Create sample_aw (sample_env 0 10) sample_config ''u1'' sample_au0)"
definition sample_au2 :: automations_db where
  "sample_au2 = snd (Publish sample_aw (sample_env 3 20) sample_tpl 1 ''u1'' sample_au1)"
definition sample_au3 :: automations_db where
  "sample_au3 = snd (SetEnabled sample_aw (sample_env 4 30) sample_tpl 2 True ''u1'' sample_au2)"
definition sample_au4 :: automations_db where
  "sample_au4 = snd (Trigger sample_aw (sample_env 5 40) (sample_trigger ''k1'') sample_au3)"

definition au_progress :: "automations_db \<Rightarrow> (int \<times> int \<times> bool) list \<times> int list \<times> Status list \<times> nat" where
  "au_progress db = (map (\<lambda>t. (tpl_Version t, tpl_Revision t, tpl_Enabled t)) (automation_templates db),
     map ver_Version (automation_template_versions db), map task_Status (tasks db), active_runs sample_tpl db)"

lemma sample_au_steps:
  "reachable automations_empty (automation_step sample_aw) sample_au1" "reachable automations_empty (automation_step sample_aw) sample_au3"
  "reachable automations_empty (automation_step sample_aw) sample_au4" "automation_step sample_aw sample_au3 sample_au4"
proof -
  have 0: "reachable automations_empty (automation_step sample_aw) sample_au0"
    by (rule reach_start) (simp add: automations_empty_def tasks_empty_def sample_au0_def)
  have 1: "automation_step sample_aw sample_au0 sample_au1"
    unfolding sample_au1_def by (rule as_create [OF prod.collapse [symmetric]])
  have 2: "automation_step sample_aw sample_au1 sample_au2"
    unfolding sample_au2_def by (rule as_publish [OF prod.collapse [symmetric]])
  have 3: "automation_step sample_aw sample_au2 sample_au3"
    unfolding sample_au3_def by (rule as_enable [OF prod.collapse [symmetric]])
  show 4: "automation_step sample_aw sample_au3 sample_au4"
    unfolding sample_au4_def by (rule as_trigger [OF prod.collapse [symmetric]])
  from 0 1 2 3 4 show "reachable automations_empty (automation_step sample_aw) sample_au1"
    "reachable automations_empty (automation_step sample_aw) sample_au3"
    "reachable automations_empty (automation_step sample_aw) sample_au4" by (blast intro: reach_step)+
qed

lemma sample_au_progress:
  "au_progress sample_au4 = ([(2, 3, True)], [1, 2], [StatusQueued], 1)"
  by code_simp

section \<open>Properties\<close>

text \<open>
  The published history of a template is complete and truthful. In every reachable state the version rows of a template are numbered
  1, 2, ..., version without a gap; the stored configuration is valid; and a template that is enabled, so that it can start work, has a
  published version whose snapshot is enabled and is exactly its present configuration: what runs is what was published.
\<close>

theorem enabled_is_published:
  assumes "reachable automations_empty (automation_step W) db" "t \<in> set (automation_templates db)"
  shows "map ver_Version (versions_of (tpl_ID t) (automation_template_versions db)) = [1..tpl_Version t] \<and>
    Validate (tpl_Input t) = None \<and>
    (tpl_Enabled t \<longrightarrow> versions_of (tpl_ID t) (automation_template_versions db) \<noteq> [] \<and>
       ver_Enabled (last (versions_of (tpl_ID t) (automation_template_versions db))) \<and>
       ver_Config (last (versions_of (tpl_ID t) (automation_template_versions db))) = aw_config W (tpl_Input t) True)"
  using templates_wfD(3) [OF automations_invD(2) [OF automations.reachable_inv [OF assms(1)]] assms(2)] last_version
  by (auto simp: tpl_ok_def)

lemma sample_au_row:
  "hd (automation_templates sample_au4) \<in> set (automation_templates sample_au4)" "tpl_Version (hd (automation_templates sample_au4)) = 2"
  "tpl_Enabled (hd (automation_templates sample_au4))"
  using sample_au_progress by (cases "automation_templates sample_au4"; simp add: au_progress_def)+

theorem enabled_is_published_witness:
  "map ver_Version (versions_of (tpl_ID (hd (automation_templates sample_au4))) (automation_template_versions sample_au4)) = [1, 2]"
proof -
  have "[1..(2::int)] = [1, 2]" by code_simp
  then show ?thesis
    using enabled_is_published [OF sample_au_steps(3) sample_au_row(1)] sample_au_row(2) by simp
qed

text \<open>
  No update is lost. Once an edit of a template succeeded against a revision, no later edit against that same revision succeeds, for as
  long as the template exists: it is refused and changes nothing, whatever else happened in between.
\<close>

theorem no_lost_update:
  assumes "reachable automations_empty (automation_step W) db" "UpdateDraft W E1 i rv in1 a1 db = (Inr t1, db1)"
    and "(\<lambda>d d'. automation_step W d d' \<and> TrimSpace i \<in> tpl_ID ` set (automation_templates d'))\<^sup>*\<^sup>* db1 db2"
  shows "\<exists>e. UpdateDraft W E2 i rv in2 a2 db2 = (Inl e, db2)"
proof -
  have inv: "automations_inv W db" by (rule automations.reachable_inv [OF assms(1)])
  have inv1: "automations_inv W db1" by (rule automation_step_inv [OF as_edit [OF assms(2)] inv])
  from assms(2) obtain d1 where d1: "store_UpdateDraft (call E1 0) (TrimSpace i) rv in1 a1 db = (Inr t1, d1)"
      "automation_templates db1 = automation_templates d1"
    by (auto simp: UpdateDraft_def split: option.splits prod.splits sum.splits)
  from store_UpdateDraft_ok [OF d1(1)] obtain t where "t \<in> set (automation_templates db)" "tpl_ID t = TrimSpace i" "tpl_Revision t = rv"
      "t1 = edit_template in1 a1 (clock E1) t" "d1 = put_template t1 db"
    by (auto dest!: select_by_SomeD)
  then have t1: "t1 \<in> set (automation_templates db1)" "tpl_ID t1 = TrimSpace i" "tpl_Revision t1 = rv + 1"
    using d1(2) by (auto simp: set_update_where image_iff)
  from history_revision [OF assms(3) inv1 t1(1,2)] t1(3) obtain t2 where inv2: "automations_inv W db2" and
    t2: "t2 \<in> set (automation_templates db2)" "tpl_ID t2 = TrimSpace i" "rv < tpl_Revision t2" by auto
  have uniq: "q = t2" if "select_by tpl_ID (TrimSpace i) (automation_templates db2) = Some q" for q
    using select_by_SomeD [OF that] template_unique [OF templates_wfD(1) [OF automations_invD(2) [OF inv2]] t2(1), of q] t2(2) by simp
  obtain res d2 where s2: "store_UpdateDraft (call E2 0) (TrimSpace i) rv in2 a2 db2 = (res, d2)" by fastforce
  have "d2 = db2 \<and> isl res"
    using store_UpdateDraft_ok [OF s2] uniq t2(3) by (metis less_irrefl)
  with s2 show ?thesis by (cases res) (auto simp: UpdateDraft_def split: option.splits)
qed

theorem no_lost_update_witness:
  "\<exists>e. UpdateDraft sample_aw (sample_env 9 50) sample_tpl 1 sample_config ''u2''
     (snd (UpdateDraft sample_aw (sample_env 8 40) sample_tpl 1 sample_config ''u1'' sample_au1)) =
     (Inl e, snd (UpdateDraft sample_aw (sample_env 8 40) sample_tpl 1 sample_config ''u1'' sample_au1))"
proof -
  have "\<not> isl (fst (UpdateDraft sample_aw (sample_env 8 40) sample_tpl 1 sample_config ''u1'' sample_au1))" by code_simp
  from no_lost_update [OF sample_au_steps(1) outcome_Inr [OF this] rtranclp.rtrancl_refl] show ?thesis .
qed

text \<open>
  C35. A trigger starts work once. After a trigger of a template succeeded, every later trigger of that template with the same key (up to
  surrounding white space) is refused and creates no task and no run, whatever happened in between, even after the first task has finished
  or the template was deleted.
\<close>

theorem trigger_once:
  assumes "reachable automations_empty (automation_step W) db" "Trigger W E1 in1 db = (Inr res1, db1)" "(automation_step W)\<^sup>*\<^sup>* db1 db2"
    and "ti_TemplateID in2 = ti_TemplateID in1" "TrimSpace (ti_TriggerKey in2) = TrimSpace (ti_TriggerKey in1)"
  shows "\<exists>e. Trigger W E2 in2 db2 = (Inl e, db2)"
proof -
  have inv1: "automations_inv W db1"
    by (rule automation_step_inv [OF as_trigger [OF assms(2)] automations.reachable_inv [OF assms(1)]])
  have key: "task_SourceKey (trigger_task W t input i c a) = sourceKey W (tpl_ID t) (ti_TriggerKey input)" for t input i c a
    by (simp add: trigger_task_def)
  from Trigger_ok [OF assms(2)] have "sourceKey W (ti_TemplateID in1) (TrimSpace (ti_TriggerKey in1)) \<in> task_SourceKey ` set (tasks db1)"
    using key by auto
  then have k2: "sourceKey W (ti_TemplateID in2) (TrimSpace (ti_TriggerKey in2)) \<in> task_SourceKey ` set (tasks db2)"
    using history_source_keys [OF assms(3) inv1] assms(4,5) by auto
  have no: "Trigger W E2 in2 db2 \<noteq> (Inr res, d)" for res d
    using Trigger_ok [of W E2 in2 db2 res d] k2 key by auto
  obtain r d where t: "Trigger W E2 in2 db2 = (r, d)" by fastforce
  with no obtain e where e: "r = Inl e" by (cases r) auto
  have "d = db2"
  proof (rule ccontr)
    assume "d \<noteq> db2"
    with t e obtain input e' where "store_Trigger W (call E2 0) input db2 = (Inl e', d)"
      by (auto simp: Trigger_def Let_def split: if_splits prod.splits sum.splits)
    with \<open>d \<noteq> db2\<close> show False using store_Trigger_err by blast
  qed
  with t e show ?thesis by simp
qed

theorem trigger_once_witness:
  "\<exists>e. Trigger sample_aw (sample_env 7 60) (sample_trigger '' k1 '') sample_au4 = (Inl e, sample_au4)"
proof -
  let ?t = "Trigger sample_aw (sample_env 5 40) (sample_trigger ''k1'') sample_au3"
  have "\<not> isl (fst ?t)" "TrimSpace '' k1 '' = TrimSpace ''k1''" by code_simp+
  then show ?thesis
    using trigger_once [OF sample_au_steps(2) outcome_Inr rtranclp.rtrancl_refl, of "sample_env 5 40" "sample_trigger ''k1''"
        "sample_trigger '' k1 ''" "sample_env 7 60"]
    unfolding sample_au4_def by (simp add: sample_trigger_def)
qed

lemma run_view_append:
  "run_view (db\<lparr>tasks := tasks db @ [k], automation_runs := rs\<rparr>) r =
     run_view db r @ (if task_ID k = ar_TaskID r then [(r, task_Status k)] else [])"
  by (simp add: run_view_def)

lemma active_runs_trigger:
  assumes "tasks db' = tasks db @ [k]" "automation_runs db' = automation_runs db @ [r]" "task_ID k = ar_TaskID r"
    and "task_ID k \<notin> task_ID ` set (tasks db)" "task_ID k \<notin> ar_TaskID ` set (automation_runs db)" "task_Status k = StatusQueued"
  shows "active_runs (ar_TemplateID r) db' = Suc (active_runs (ar_TemplateID r) db)"
proof -
  have "run_view db' q = run_view db q" if "q \<in> set (automation_runs db)" for q
    using assms(1,5) that by (auto simp: run_view_def)
  then have "concat (map (run_view db') (filter (\<lambda>q. ar_TemplateID q = i) (automation_runs db))) =
      concat (map (run_view db) (filter (\<lambda>q. ar_TemplateID q = i) (automation_runs db)))" for i
    by (intro arg_cong [of _ _ concat]) simp
  moreover have "filter (\<lambda>t. task_ID t = ar_TaskID r) (tasks db) = []"
    using assms(3,4) by (force simp: filter_empty_conv)
  ultimately show ?thesis
    using assms(1-3,6) by (simp add: active_runs_def run_view_def)
qed

text \<open>
  A trigger respects the template and its concurrency limit: it succeeds only for an enabled template whose provider, repository scope
  and event filters match, it adds exactly one queued task and one run, of the template's current version, and with them the template has
  at most \<open>ConcurrencyLimit\<close> runs whose task is queued, running or awaiting approval.
\<close>

theorem trigger_respects_limit:
  assumes "Trigger W E input db = (Inr result, db')"
  shows "\<exists>t \<in> set (automation_templates db). tpl_ID t = ti_TemplateID input \<and>
    Matches t (ti_Provider input) (ti_Event input) (ti_Action input) (ti_Branch input) (ti_Repository input) \<and>
    tasks db' = tasks db @ [tr_Task result] \<and> task_Status (tr_Task result) = StatusQueued \<and> task_Kind (tr_Task result) = tpl_Kind t \<and>
    automation_runs db' = automation_runs db @ [fst (tr_Run result)] \<and>
    ar_TaskID (fst (tr_Run result)) = task_ID (tr_Task result) \<and> ar_TemplateVersion (fst (tr_Run result)) = tpl_Version t \<and>
    active_runs (tpl_ID t) db' = active_runs (tpl_ID t) db + 1 \<and> int (active_runs (tpl_ID t) db') \<le> tpl_ConcurrencyLimit t"
proof -
  from Trigger_ok [OF assms] obtain t inp k r taskID runID createdAt where
    t: "t \<in> set (automation_templates db)" "tpl_ID t = ti_TemplateID input"
      "Matches t (ti_Provider input) (ti_Event input) (ti_Action input) (ti_Branch input) (ti_Repository input)"
      "int (active_runs (tpl_ID t) db) < tpl_ConcurrencyLimit t"
    and k: "k = trigger_task W t inp taskID createdAt (db_clock E)" "r = trigger_run t inp runID taskID createdAt"
      "taskID \<notin> task_ID ` set (tasks db)" "taskID \<notin> ar_TaskID ` set (automation_runs db)"
      "tasks db' = tasks db @ [k]" "automation_runs db' = automation_runs db @ [r]"
      "result = \<lparr>tr_Run = (r, StatusQueued), tr_Task = k, tr_Duplicate = False\<rparr>" by blast
  have kk: "task_ID k = taskID" "task_Status k = StatusQueued" "task_Kind k = tpl_Kind t" by (simp_all add: k(1) trigger_task_def)
  have "active_runs (tpl_ID t) db' = Suc (active_runs (tpl_ID t) db)"
    using active_runs_trigger [OF k(5,6)] kk k(2-4) by simp
  with t k kk show ?thesis by (intro bexI [of _ t]) auto
qed

theorem trigger_respects_limit_witness:
  "\<exists>t \<in> set (automation_templates sample_au3). int (active_runs (tpl_ID t) sample_au4) \<le> tpl_ConcurrencyLimit t"
proof -
  let ?t = "Trigger sample_aw (sample_env 5 40) (sample_trigger ''k1'') sample_au3"
  have "\<not> isl (fst ?t)" by code_simp
  from trigger_respects_limit [OF outcome_Inr [OF this]] show ?thesis unfolding sample_au4_def by auto
qed

definition sample_au5 :: automations_db where
  "sample_au5 = (case ClaimTask (\<lambda>_. False) (sample_env 20 50) ''w1'' 30 sample_au4 of
     (Inl _, d) \<Rightarrow> d
   | (Inr (task, run), d) \<Rightarrow>
       if run_ID run = [] then d
       else snd (RetryTask (sample_env 60 80) (task_ID task) ''again''
         (snd (Trigger sample_aw (sample_env 70 70) (sample_trigger ''key2'')
           (snd (CompleteTask (sample_env 50 60) (task_ID task) (run_ID run) StatusFailed ''x'' ''y'' d))))))"

lemma sample_au5_reachable: "(automation_step sample_aw)\<^sup>*\<^sup>* sample_au4 sample_au5"
proof -
  obtain r d where c: "ClaimTask (\<lambda>_. False) (sample_env 20 50) ''w1'' 30 sample_au4 = (r, d)" by fastforce
  have 1: "automation_step sample_aw sample_au4 d" by (rule as_task [OF st_claim [OF c]])
  show ?thesis
  proof (cases r)
    case (Inr tr)
    obtain task run where tr: "tr = (task, run)" by fastforce
    let ?c = "snd (CompleteTask (sample_env 50 60) (task_ID task) (run_ID run) StatusFailed ''x'' ''y'' d)"
    let ?t = "snd (Trigger sample_aw (sample_env 70 70) (sample_trigger ''key2'') ?c)"
    have "automation_step sample_aw d ?c" if "run_ID run \<noteq> []"
      by (rule as_task, rule st_complete [OF prod.collapse [symmetric] that])
    moreover have "automation_step sample_aw ?c ?t" by (rule as_trigger [OF prod.collapse [symmetric]])
    moreover have "automation_step sample_aw ?t (snd (RetryTask (sample_env 60 80) (task_ID task) ''again'' ?t))"
      by (rule as_task, rule st_retry [OF prod.collapse [symmetric]])
    ultimately show ?thesis using 1 c Inr tr by (auto simp: sample_au5_def intro: converse_rtranclp_into_rtranclp)
  qed (use 1 c in \<open>simp add: sample_au5_def\<close>)
qed

lemma sample_au5_active:
  "(map (\<lambda>t. (tpl_ConcurrencyLimit t, tpl_ID t)) (automation_templates sample_au5), au_progress sample_au5) =
    ([(1, sample_tpl)], [(2, 3, True)], [1, 2], [StatusQueued, StatusQueued], 2)"
  by code_simp

text \<open>
  The limit is only checked when a trigger arrives. Retrying a finished task of the template puts it back in the queue without a check, so
  there are reachable states in which more runs of a template are active than its limit allows.
\<close>

theorem retry_exceeds_limit:
  "\<exists>W (db :: automations_db). \<exists>t \<in> set (automation_templates db). reachable automations_empty (automation_step W) db \<and>
     tpl_ConcurrencyLimit t < int (active_runs (tpl_ID t) db)"
proof -
  have "\<exists>t \<in> set (automation_templates sample_au5). tpl_ConcurrencyLimit t < int (active_runs (tpl_ID t) sample_au5)"
    using sample_au5_active by (cases "automation_templates sample_au5") (auto simp: au_progress_def)
  then show ?thesis using automations.reachable_star [OF sample_au5_reachable sample_au_steps(3)] by blast
qed

lemma check_repositories_None:
  "check_repositories seen rs = None \<Longrightarrow> distinct (map TrimSpace rs) \<and> (\<forall>r \<in> set rs. TrimSpace r \<notin> set seen) \<and>
     (\<forall>r \<in> set rs. TrimSpace r \<noteq> [] \<and> TrimSpace r \<noteq> ''*'')"
proof (induction rs arbitrary: seen)
  case (Cons r rs)
  from Cons.prems have "check_repositories (TrimSpace r # seen) rs = None" "TrimSpace r \<noteq> []" "TrimSpace r \<noteq> ''*''" "TrimSpace r \<notin> set seen"
    by (simp_all add: Let_def split: if_splits)
  with Cons.IH [of "TrimSpace r # seen"] show ?case by fastforce
qed simp

lemma check_filters_None: "check_filters kind fs = None \<longleftrightarrow> (\<forall>f \<in> set fs. validateEventFilter kind f = None)"
  by (induction fs) (auto split: option.splits)

lemma check_actions_None: "check_actions event seen as = None \<Longrightarrow> \<forall>a \<in> set as. TrimSpace a \<in> set (allowedActions event)"
  by (induction as arbitrary: seen) (auto simp: Let_def split: if_splits)

lemma filter_actions:
  assumes "validateEventFilter kind f = None"
  shows "ef_Event f = allowedEvent kind \<and> ef_Actions f \<noteq> [] \<and> set (map TrimSpace (ef_Actions f)) \<subseteq> set (allowedActions (allowedEvent kind))"
  using assms check_actions_None [of "ef_Event f" "[]" "ef_Actions f"]
  by (auto simp: validateEventFilter_def split: if_splits option.splits)

text \<open>
  What a configuration is allowed to say. An input that passes \<open>Validate\<close> names between 1 and 100 repositories, all different, none
  of them empty or a wildcard; every filter listens to the event of the task kind and only to supported actions; budget, timeout and
  concurrency are within their bounds; and a critical automation requires approval.
\<close>

theorem valid_automation_bounds:
  assumes "Validate input = None"
  shows "1 \<le> length (inp_RepositoryScope input) \<and> length (inp_RepositoryScope input) \<le> 100 \<and>
    distinct (map TrimSpace (inp_RepositoryScope input)) \<and>
    (\<forall>r \<in> set (inp_RepositoryScope input). TrimSpace r \<noteq> [] \<and> TrimSpace r \<noteq> ''*'') \<and>
    (\<forall>f \<in> set (inp_EventFilters input). ef_Event f = allowedEvent (inp_Kind input) \<and> ef_Actions f \<noteq> [] \<and>
       set (map TrimSpace (ef_Actions f)) \<subseteq> set (allowedActions (ef_Event f))) \<and>
    inp_ExecutionBudget input \<in> {1..100000} \<and> inp_TimeoutSeconds input \<in> {30..3600} \<and> inp_ConcurrencyLimit input \<in> {1..20} \<and>
    (inp_Risk input = ''critical'' \<longrightarrow> inp_ApprovalPolicy input = ''required'')"
proof -
  have scope: "check_repositories [] (inp_RepositoryScope input) = None" and fs: "check_filters (inp_Kind input) (inp_EventFilters input) = None"
    and len: "inp_RepositoryScope input \<noteq> []" "length (inp_RepositoryScope input) \<le> 100"
    using assms by (auto simp: Validate_def Let_def split: if_splits option.splits)
  have nums: "inp_ExecutionBudget input \<in> {1..100000}" "inp_TimeoutSeconds input \<in> {30..3600}" "inp_ConcurrencyLimit input \<in> {1..20}"
    "inp_Risk input = ''critical'' \<longrightarrow> inp_ApprovalPolicy input = ''required''"
    using assms unfolding Validate_def Let_def scope fs option.case by (auto split: if_splits)
  from fs have "ef_Event f = allowedEvent (inp_Kind input) \<and> ef_Actions f \<noteq> [] \<and>
      set (map TrimSpace (ef_Actions f)) \<subseteq> set (allowedActions (ef_Event f))" if "f \<in> set (inp_EventFilters input)" for f
    using filter_actions [of "inp_Kind input" f] that by (simp add: check_filters_None)
  moreover have "1 \<le> length (inp_RepositoryScope input)" using len(1) by (cases "inp_RepositoryScope input") simp_all
  ultimately show ?thesis using check_repositories_None [OF scope] len(2) nums by blast
qed

theorem valid_automation_bounds_witness:
  "inp_ConcurrencyLimit sample_config \<in> {1..20} \<and> distinct (map TrimSpace (inp_RepositoryScope sample_config))"
proof -
  have "Validate sample_config = None" by code_simp
  from valid_automation_bounds [OF this] show ?thesis by blast
qed

text \<open>
  A webhook reaches the right automations: \<open>Matching\<close> only returns stored templates that are enabled and match the event, and it
  returns all of them as long as there are at most 200 templates.
\<close>

theorem matching_exact:
  assumes "Matching E provider event action branch repository db = Inr items"
  shows "set items \<subseteq> {t \<in> set (automation_templates db). tpl_Enabled t \<and> Matches t provider event action branch repository} \<and>
    (length (automation_templates db) \<le> 200 \<longrightarrow>
      set items = {t \<in> set (automation_templates db). Matches t provider event action branch repository})"
proof -
  let ?l = "order_limit (\<lambda>t. - tpl_UpdatedAt t) (page_limit 200) (automation_templates db)"
  have items: "items = filter (\<lambda>t. Matches t provider event action branch repository) ?l"
    using assms by (auto simp: Matching_def store_List_def split: if_splits)
  have "set ?l = set (automation_templates db)" if "length (automation_templates db) \<le> 200"
    using that by (intro set_order_limit_all) (simp add: page_limit_def)
  with items set_order_limit [of _ _ "automation_templates db"] show ?thesis by (auto simp: Matches_def)
qed

theorem matching_exact_witness:
  "set (projr (Matching (sample_env 0 90) ''github'' ''pull_request'' ''opened'' ''main'' ''o/r'' sample_au4)) =
     {t \<in> set (automation_templates sample_au4). Matches t ''github'' ''pull_request'' ''opened'' ''main'' ''o/r''}"
proof -
  let ?m = "Matching (sample_env 0 90) ''github'' ''pull_request'' ''opened'' ''main'' ''o/r'' sample_au4"
  have "\<not> isl ?m" by (simp add: Matching_def store_List_def sample_env_def)
  then have m: "?m = Inr (projr ?m)" by (simp add: sum.collapse(2))
  have "length (automation_templates sample_au4) \<le> 200"
    using sample_au_progress by (cases "automation_templates sample_au4") (auto simp: au_progress_def)
  with matching_exact [OF m] show ?thesis by blast
qed

end
