(* ===== verification/Webhooks.thy ===== *)
theory Webhooks
  imports SCM Automations
begin

text \<open>
  The webhook endpoint (\<open>src/server/internal/httpserver/scm.go\<close>: \<open>handleWebhook\<close> and its helpers), where the components meet: a request is authenticated by the
  source-control service, scheduled either by the automation templates or by the review, diagnosis and repair triggers, and recorded as a delivery.

  \<^item> \<open>server_db\<close> is the database as one state: the tables of tasks, approvals and repairs (\<open>srv_core\<close>), those of the automations beside the same task tables,
    of source control and of authentication. \<open>on_automations\<close> runs an automation operation on the shared task tables.
  \<^item> \<open>server\<close> holds the services, each optional as in the program. \<open>bt n\<close> and \<open>bc n\<close> are what other processes do to the database before the \<open>n\<close>-th call.
\<close>

section \<open>State and services\<close>

record server_db =
  srv_core :: repairs_db
  srv_templates :: "Template list"
  srv_versions :: "Version list"
  srv_runs :: "RunRow list"
  srv_scm :: scm_db
  srv_auth :: auth_db

definition automation_view :: "server_db \<Rightarrow> automations_db" where
  "automation_view s = tasks_db.extend (tasks_db.truncate (srv_core s)) (automations_db.fields (srv_templates s) (srv_versions s) (srv_runs s))"

definition put_automation_view :: "automations_db \<Rightarrow> server_db \<Rightarrow> server_db" where
  "put_automation_view v s = s\<lparr>srv_core := tasks_db.extend (tasks_db.truncate v) (tasks_db.more (srv_core s)),
     srv_templates := automation_templates v, srv_versions := automation_template_versions v, srv_runs := automation_runs v\<rparr>"

definition on_automations :: "(automations_db \<Rightarrow> 'r \<times> automations_db) \<Rightarrow> server_db \<Rightarrow> 'r \<times> server_db" where
  "on_automations f s = (case f (automation_view s) of (r, v) \<Rightarrow> (r, put_automation_view v s))"

record server =
  sv_scm :: scm_world
  sv_formats :: formats
  sv_review :: "review_world option"
  sv_diagnosis :: "diagnosis_world option"
  sv_repair :: "world option"
  sv_automations :: "automation_world option"
  sv_marshal :: "(string \<times> any_value) list \<Rightarrow> json"
  sv_scm_text :: "scm_error \<Rightarrow> string"
  sv_automation_text :: "automation_error \<Rightarrow> string"

datatype reply = WebhookError int string | WebhookAccepted string "Task list"

section \<open>Helpers\<close>

definition normalizedString :: "server \<Rightarrow> WebhookEvent \<Rightarrow> string \<Rightarrow> string" where
  "normalizedString S event key = (case we_Normalized event key of Some value \<Rightarrow> TrimSpace (Sprint (sv_formats S) value) | None \<Rightarrow> [])"

definition webhookBranch :: "server \<Rightarrow> WebhookEvent \<Rightarrow> string" where
  "webhookBranch S event =
    (if normalizedString S event ''baseBranch'' \<noteq> [] then normalizedString S event ''baseBranch'' else normalizedString S event ''defaultBranch'')"

text \<open>The separator is the UTF-8 encoding of the middle dot.\<close>

definition webhookTaskTitle :: "server \<Rightarrow> WebhookEvent \<Rightarrow> string \<Rightarrow> string" where
  "webhookTaskTitle S event templateName =
    (let head = templateName @ [CHR '' '', CHR 0xC2, CHR 0xB7, CHR '' ''] @ normalizedString S event ''repository''
     in if we_EventType event = ''pull_request'' then head @ ''#'' @ normalizedString S event ''pullRequestNumber''
        else if we_EventType event = ''workflow_run'' then head @ '' run '' @ normalizedString S event ''workflowRunId''
        else head @ '' issue '' @ normalizedString S event ''issueNumber'')"

text \<open>
  \<open>Inl\<close> is the error of \<open>strconv\<close>. A number that parses but is not positive gives \<open>nil, nil\<close>: an empty payload and no error.
\<close>

definition webhookTaskPayload :: "server \<Rightarrow> WebhookEvent \<Rightarrow> unit + json" where
  "webhookTaskPayload S event =
    (let str = (\<lambda>key. AnyString (normalizedString S event key));
       fields = [(''provider'', AnyString ''github''), (''repositoryId'', str ''repositoryId''), (''repositoryName'', str ''repository''),
         (''cloneURL'', str ''cloneURL''), (''webURL'', str ''webURL''), (''installationId'', str ''installationId''), (''action'', str ''action''),
         (''headSHA'', str ''headSHA''), (''headBranch'', str ''headBranch''), (''baseBranch'', str ''baseBranch''), (''author'', str ''author''),
         (''workflowName'', str ''workflowName''), (''conclusion'', str ''conclusion''), (''issueTitle'', str ''issueTitle''),
         (''issueBody'', str ''issueBody''), (''issueState'', str ''issueState''), (''defaultBranch'', str ''defaultBranch''), (''source'', AnyString ''automation'')];
       numbered = (\<lambda>key mk. case ParseInt (normalizedString S event key) of
         None \<Rightarrow> Inl ()
       | Some value \<Rightarrow> if value \<le> 0 then Inr [] else Inr (sv_marshal S (fields @ [(key, mk value)])))
     in if we_EventType event = ''pull_request'' then numbered ''pullRequestNumber'' AnyInt
        else if we_EventType event = ''workflow_run'' then numbered ''workflowRunId'' AnyInt64
        else if we_EventType event = ''issues'' then numbered ''issueNumber'' AnyInt
        else Inr (sv_marshal S fields))"

text \<open>\<open>Atoi\<close> returns the nearest number of 64 bits together with a range error, and the handler drops the error.\<close>

definition mustAtoi :: "string \<Rightarrow> int" where
  "mustAtoi value =
    (case ParseInt value of
       Some n \<Rightarrow> n
     | None \<Rightarrow>
         let neg = HasPrefix value ''-''; ds = (if neg \<or> HasPrefix value ''+'' then tl value else value)
         in if ds = [] \<or> \<not> list_all is_digit ds then 0 else if neg then - 9223372036854775808 else 9223372036854775807)"

definition webhookIssue :: "server \<Rightarrow> WebhookEvent \<Rightarrow> Issue" where
  "webhookIssue S event = \<lparr>iss_Provider = ''github'', iss_RepositoryID = normalizedString S event ''repositoryId'',
     iss_Repository = normalizedString S event ''repository'', iss_CloneURL = normalizedString S event ''cloneURL'',
     iss_WebURL = normalizedString S event ''webURL'', iss_InstallationID = normalizedString S event ''installationId'',
     iss_Number = mustAtoi (normalizedString S event ''issueNumber''), iss_Title = normalizedString S event ''issueTitle'',
     iss_Body = normalizedString S event ''issueBody'', iss_State = normalizedString S event ''issueState'',
     iss_IsPullRequest = (normalizedString S event ''isPullRequest'' = ''true''), iss_BaseBranch = normalizedString S event ''defaultBranch'',
     iss_BaseSHA = normalizedString S event ''headSHA''\<rparr>"

definition automationErrorCode :: "server \<Rightarrow> automation_error \<Rightarrow> string" where
  "automationErrorCode S e =
    (case e of
       ErrTemplateNotFound \<Rightarrow> ''automation_not_found''
     | ErrValidation \<Rightarrow> ''automation_invalid''
     | automation_error.ErrInvalidTrigger \<Rightarrow> ''automation_trigger_invalid''
     | ErrDisabled \<Rightarrow> ''automation_disabled''
     | ErrDuplicateTrigger \<Rightarrow> ''automation_trigger_duplicate''
     | ErrConcurrencyLimit \<Rightarrow> ''automation_concurrency_limit''
     | ErrConflict \<Rightarrow> ''automation_revision_conflict''
     | ErrPublished \<Rightarrow> ''automation_published''
     | _ \<Rightarrow> TrimSpace (sv_automation_text S e))"

definition writeAutomationError :: "server \<Rightarrow> automation_error \<Rightarrow> reply" where
  "writeAutomationError S e = WebhookError
    (if e = ErrTemplateNotFound then 404
     else if e = ErrValidation \<or> e = automation_error.ErrInvalidTrigger then 400
     else if e \<in> {ErrDisabled, ErrDuplicateTrigger, ErrConcurrencyLimit, ErrConflict, ErrPublished} then 409
     else 500) (automationErrorCode S e)"

section \<open>The handler\<close>

definition recorded :: "server \<Rightarrow> env \<Rightarrow> Provider \<Rightarrow> WebhookEvent \<Rightarrow> string \<Rightarrow> server_db \<Rightarrow> (scm_error + bool) \<times> server_db" where
  "recorded S E provider event body s =
    (case service_RecordWebhook (sv_scm S) E provider event body (srv_scm s) of (r, d) \<Rightarrow> (r, s\<lparr>srv_scm := d\<rparr>))"

text \<open>Every path that schedules or ignores an event ends by recording the delivery.\<close>

definition finish_webhook :: "server \<Rightarrow> env \<Rightarrow> WebhookEvent \<Rightarrow> string \<Rightarrow> reply \<Rightarrow> server_db \<Rightarrow> reply \<times> server_db" where
  "finish_webhook S E event body answer s =
    (case recorded S E ProviderGitHub event body s of
       (Inl _, s1) \<Rightarrow> (WebhookError 500 ''webhook_failed'', s1)
     | (Inr created, s1) \<Rightarrow> (if created then answer else WebhookAccepted ''duplicate'' [], s1))"

definition trigger_input :: "server \<Rightarrow> WebhookEvent \<Rightarrow> string \<Rightarrow> string \<Rightarrow> json \<Rightarrow> string \<Rightarrow> Template \<Rightarrow> TriggerInput" where
  "trigger_input S event triggerKey actorID taskPayload body template =
    \<lparr>ti_TemplateID = tpl_ID template, ti_TriggerKey = triggerKey, ti_Provider = ProviderGitHub, ti_Event = we_EventType event,
     ti_Action = normalizedString S event ''action'', ti_Branch = webhookBranch S event, ti_Repository = normalizedString S event ''repository'',
     ti_RepositoryID = normalizedString S event ''repositoryId'', ti_Title = webhookTaskTitle S event (tpl_Name template),
     ti_TaskPayload = taskPayload, ti_SourcePayload = body, ti_ActorID = actorID, ti_CreatedAt = 0\<rparr>"

fun trigger_all ::
  "server \<Rightarrow> automation_world \<Rightarrow> (nat \<Rightarrow> server_db \<Rightarrow> server_db) \<Rightarrow> (nat \<Rightarrow> repairs_db \<Rightarrow> repairs_db) \<Rightarrow> env \<Rightarrow> WebhookEvent \<Rightarrow>
   (Template \<Rightarrow> TriggerInput) \<Rightarrow> string \<Rightarrow> nat \<Rightarrow> Template list \<Rightarrow> Task list \<Rightarrow> server_db \<Rightarrow> (reply + Task list) \<times> server_db" where
  "trigger_all S AW bt bc E event inp actorID k [] created s = (Inr created, s)"
| "trigger_all S AW bt bc E event inp actorID k (template # rest) created s =
    (case on_automations (Trigger AW (call E (4 + 4 * k)) (inp template)) (bt (4 + 4 * k) s) of
       (r, s1) \<Rightarrow>
         (case (case r of Inr result \<Rightarrow> Inr result
                | Inl (e, result) \<Rightarrow> (if e = ErrDuplicateTrigger then (case result of Some d \<Rightarrow> Inr d | None \<Rightarrow> Inl e) else Inl e)) of
            Inl e \<Rightarrow> (Inl (writeAutomationError S e), s1)
          | Inr result \<Rightarrow>
              (case (if tpl_Kind template = KindIssueRepair \<and> \<not> tr_Duplicate result then sv_repair S else None) of
                 None \<Rightarrow> trigger_all S AW bt bc E event inp actorID (Suc k) rest (created @ [tr_Task result]) s1
               | Some RW \<Rightarrow>
                   (case BindAutomationTask RW bc (call E (6 + 4 * k)) (tr_Task result) (webhookIssue S event) actorID (srv_core (bt (6 + 4 * k) s1)) of
                      (Inl _, core) \<Rightarrow> (Inl (WebhookError 400 ''automation_issue_repair_invalid''), (bt (6 + 4 * k) s1)\<lparr>srv_core := core\<rparr>)
                    | (Inr _, core) \<Rightarrow>
                        trigger_all S AW bt bc E event inp actorID (Suc k) rest (created @ [tr_Task result])
                          ((bt (6 + 4 * k) s1)\<lparr>srv_core := core\<rparr>)))))"

text \<open>The path with automations: templates are the sole scheduling authority.\<close>

definition automation_webhook ::
  "server \<Rightarrow> automation_world \<Rightarrow> (nat \<Rightarrow> server_db \<Rightarrow> server_db) \<Rightarrow> (nat \<Rightarrow> repairs_db \<Rightarrow> repairs_db) \<Rightarrow> env \<Rightarrow> WebhookEvent \<Rightarrow> string \<Rightarrow> server_db \<Rightarrow>
   reply \<times> server_db" where
  "automation_webhook S AW bt bc E event body s =
    (case Matching (call E 1) ProviderGitHub (we_EventType event) (normalizedString S event ''action'') (webhookBranch S event)
        (normalizedString S event ''repository'') (automation_view s) of
       Inl _ \<Rightarrow> (WebhookError 500 ''automation_lookup_failed'', s)
     | Inr [] \<Rightarrow> finish_webhook S (call E 0) event body (WebhookAccepted ''ignored'' []) (bt 0 s)
     | Inr (template # rest) \<Rightarrow>
         (case SystemActor (call E 2) (srv_auth s) of
            Inl _ \<Rightarrow> (WebhookError 403 ''automation_actor_unavailable'', s)
          | Inr actor \<Rightarrow>
              (case webhookTaskPayload S event of
                 Inl _ \<Rightarrow> (WebhookError 400 ''automation_event_invalid'', s)
               | Inr taskPayload \<Rightarrow>
                   let triggerKey = (if we_DeliveryID event = [] then ''body:'' @ EncodeToString (sha256 (sw_crypto (sv_scm S)) body)
                     else we_DeliveryID event)
                   in (case trigger_all S AW bt bc E event (trigger_input S event triggerKey (user_ID actor) taskPayload body) (user_ID actor) 0
                       (template # rest) [] s of
                     (Inl answer, s1) \<Rightarrow> (answer, s1)
                   | (Inr created, s1) \<Rightarrow>
                       finish_webhook S (call E 0) event body (WebhookAccepted ''automation_tasks_created'' created) (bt 0 s1)))))"

definition resolver :: "server \<Rightarrow> env \<Rightarrow> server_db \<Rightarrow> string \<Rightarrow> repository_lookup" where
  "resolver S E s providerRepositoryID =
    (case FindRepository (sv_scm S) E ProviderGitHub providerRepositoryID (srv_scm s) of
       Inr r \<Rightarrow> RepositoryFound (repo_ID r)
     | Inl e \<Rightarrow> if e = scm_error.ErrRepositoryNotFound then repository_lookup.ErrRepositoryNotFound else LookupFailed (sv_scm_text S e))"

text \<open>
  The triggers of the path without automations. Each returns the \<open>task\<close>, \<open>actionable\<close> and \<open>err\<close> the handler holds next: a task, nothing, or an error (\<open>Inl ()\<close>).
\<close>

definition review_trigger ::
  "server \<Rightarrow> (nat \<Rightarrow> repairs_db \<Rightarrow> repairs_db) \<Rightarrow> env \<Rightarrow> WebhookEvent \<Rightarrow> server_db \<Rightarrow> (unit + Task option) \<times> server_db" where
  "review_trigger S bc E event s =
    (case sv_review S of
       None \<Rightarrow> (Inr None, s)
     | Some V \<Rightarrow>
         (case Review.HandleWebhook (V\<lparr>rw_scm := Some (resolver S (call E 4) s)\<rparr>) bc (call E 5) event (srv_core s) of
            (Inl e, core) \<Rightarrow> (if e = review_error.ErrUnsupportedEvent then Inr None else Inl (), s\<lparr>srv_core := core\<rparr>)
          | (Inr r, core) \<Rightarrow> (Inr r, s\<lparr>srv_core := core\<rparr>)))"

definition diagnosis_trigger ::
  "server \<Rightarrow> (nat \<Rightarrow> repairs_db \<Rightarrow> repairs_db) \<Rightarrow> env \<Rightarrow> WebhookEvent \<Rightarrow> (unit + Task option) \<Rightarrow> server_db \<Rightarrow> (unit + Task option) \<times> server_db" where
  "diagnosis_trigger S bc E event prev s =
    (case (if (case prev of Inr (Some _) \<Rightarrow> False | _ \<Rightarrow> True) then sv_diagnosis S else None) of
       None \<Rightarrow> (prev, s)
     | Some D \<Rightarrow>
         (case Diagnosis.HandleWebhook (D\<lparr>dw_scm := Some (resolver S (call E 6) s)\<rparr>) bc (call E 7) event (srv_core s) of
            (Inl e, core) \<Rightarrow> (if e = diagnosis_error.ErrUnsupportedEvent then Inr None else Inl (), s\<lparr>srv_core := core\<rparr>)
          | (Inr r, core) \<Rightarrow> (Inr r, s\<lparr>srv_core := core\<rparr>)))"

definition repair_trigger ::
  "server \<Rightarrow> (nat \<Rightarrow> repairs_db \<Rightarrow> repairs_db) \<Rightarrow> env \<Rightarrow> WebhookEvent \<Rightarrow> (unit + Task option) \<Rightarrow> server_db \<Rightarrow> (unit + Task option) \<times> server_db" where
  "repair_trigger S bc E event prev s =
    (case (if (case prev of Inr (Some _) \<Rightarrow> False | _ \<Rightarrow> True) \<and> we_EventType event = ''issues'' \<and>
           normalizedString S event ''action'' \<in> {''opened'', ''reopened''} then sv_repair S else None) of
       None \<Rightarrow> (prev, s)
     | Some RW \<Rightarrow>
         (case FindRepository (sv_scm S) (call E 8) ProviderGitHub (normalizedString S event ''repositoryId'') (srv_scm s) of
            Inl _ \<Rightarrow> (Inl (), s)
          | Inr repository \<Rightarrow>
              (case SystemActor (call E 9) (srv_auth s) of
                 Inl _ \<Rightarrow> (Inl (), s)
               | Inr actor \<Rightarrow>
                   (case ParseInt (normalizedString S event ''issueNumber'') of
                      None \<Rightarrow> (Inl (), s)
                    | Some number \<Rightarrow>
                        (case CreateFromIssue RW bc (call E 10) ((webhookIssue S event)\<lparr>iss_RepositoryID := repo_ID repository, iss_Number := number, iss_BaseSHA := []\<rparr>)
                            (user_ID actor) (srv_core s) of
                           (Inl _, core) \<Rightarrow> (Inl (), s\<lparr>srv_core := core\<rparr>)
                         | (Inr repair, core) \<Rightarrow>
                             (case GetTask (call E 11) (rep_TaskID repair) (bc 11 core) of
                                Inl _ \<Rightarrow> (Inl (), s\<lparr>srv_core := bc 11 core\<rparr>)
                              | Inr task \<Rightarrow> (Inr (Some task), s\<lparr>srv_core := bc 11 core\<rparr>)))))))"

definition legacy_webhook ::
  "server \<Rightarrow> (nat \<Rightarrow> server_db \<Rightarrow> server_db) \<Rightarrow> (nat \<Rightarrow> repairs_db \<Rightarrow> repairs_db) \<Rightarrow> env \<Rightarrow> WebhookEvent \<Rightarrow> string \<Rightarrow> server_db \<Rightarrow> reply \<times> server_db" where
  "legacy_webhook S bt bc E event body s =
    (case review_trigger S bc E event s of
       (r1, s1) \<Rightarrow>
         (case diagnosis_trigger S bc E event r1 s1 of
            (r2, s2) \<Rightarrow>
              (case repair_trigger S bc E event r2 s2 of
                 (Inl _, s3) \<Rightarrow> (WebhookError 400 ''review_event_invalid'', s3)
               | (Inr None, s3) \<Rightarrow> finish_webhook S (call E 0) event body (WebhookAccepted ''ignored'' []) (bt 0 s3)
               | (Inr (Some task), s3) \<Rightarrow> finish_webhook S (call E 0) event body (WebhookAccepted ''task_created'' [task]) (bt 0 s3))))"

definition verify_failure :: "scm_error \<Rightarrow> reply" where
  "verify_failure e =
    (if e = ErrInvalidWebhook then WebhookError 401 ''webhook_invalid''
     else if e = ErrProviderUnavailable then WebhookError 503 ''scm_provider_unavailable''
     else WebhookError 500 ''webhook_failed'')"

text \<open>\<open>body\<close> is \<open>None\<close> when reading it fails; \<open>MaxBytesReader\<close> stops after 2 MiB.\<close>

definition handleWebhook ::
  "server \<Rightarrow> (nat \<Rightarrow> server_db \<Rightarrow> server_db) \<Rightarrow> (nat \<Rightarrow> repairs_db \<Rightarrow> repairs_db) \<Rightarrow> env \<Rightarrow> (string \<Rightarrow> string) \<Rightarrow> string option \<Rightarrow> Provider \<Rightarrow>
   server_db \<Rightarrow> reply \<times> server_db" where
  "handleWebhook S bt bc E headers request_body provider s =
    (case request_body of
       None \<Rightarrow> (WebhookError 413 ''webhook_too_large'', s)
     | Some body \<Rightarrow>
         if int (length body) > 2097152 then (WebhookError 413 ''webhook_too_large'', s)
         else if (sv_review S \<noteq> None \<or> sv_diagnosis S \<noteq> None \<or> sv_repair S \<noteq> None \<or> sv_automations S \<noteq> None) \<and> provider = ProviderGitHub
         then (case service_VerifyWebhook (sv_scm S) provider headers body of
           Inl e \<Rightarrow> (verify_failure e, s)
         | Inr event \<Rightarrow>
             (case sv_automations S of
                Some AW \<Rightarrow> automation_webhook S AW bt bc E event body s
              | None \<Rightarrow> legacy_webhook S bt bc E event body s))
         else (case HandleWebhookEvent (sv_scm S) (call E 0) provider headers body (srv_scm s) of
           (Inl e, d) \<Rightarrow> (verify_failure e, s\<lparr>srv_scm := d\<rparr>)
         | (Inr (event, created), d) \<Rightarrow>
             (WebhookAccepted (if created then ''accepted'' else ''duplicate'') [], s\<lparr>srv_scm := d\<rparr>)))"

section \<open>The shared task tables\<close>

lemma automation_view_simps [simp]:
  "tasks (automation_view s) = tasks (srv_core s)" "automation_templates (automation_view s) = srv_templates s"
  "automation_template_versions (automation_view s) = srv_versions s" "automation_runs (automation_view s) = srv_runs s"
  by (simp_all add: automation_view_def tasks_db.defs automations_db.defs)

lemma automation_view_put [simp]: "automation_view (put_automation_view v s) = v"
  by (cases v) (simp add: automation_view_def put_automation_view_def tasks_db.defs automations_db.defs)

lemma automation_view_scm [simp]: "automation_view (s\<lparr>srv_scm := d\<rparr>) = automation_view s"
  by (simp add: automation_view_def)

lemma automation_view_repairs [simp]: "automation_view (s\<lparr>srv_core := core\<lparr>issue_repairs := rs\<rparr>\<rparr>) = automation_view (s\<lparr>srv_core := core\<rparr>)"
  by (simp add: automation_view_def tasks_db.defs)

lemma finish_webhook_scm: "\<exists>d. snd (finish_webhook S E event body answer s) = s\<lparr>srv_scm := d\<rparr>"
  by (auto simp: finish_webhook_def recorded_def split: prod.splits sum.splits)

lemma store_Create_issue_repairs: "\<exists>rs. snd (Repair.store_Create E input db) = db\<lparr>issue_repairs := rs\<rparr>"
proof -
  have "snd (Repair.store_Create E input db) = db \<or> (\<exists>rs. snd (Repair.store_Create E input db) = db\<lparr>issue_repairs := rs\<rparr>)"
    by (auto simp: Repair.store_Create_def Let_def split: option.splits if_splits)
  then show ?thesis
  proof
    assume "snd (Repair.store_Create E input db) = db"
    then have "snd (Repair.store_Create E input db) = db\<lparr>issue_repairs := issue_repairs db\<rparr>" by simp
    then show ?thesis ..
  qed
qed

section \<open>Keeping the automations consistent\<close>

definition automations_ok :: "automation_world \<Rightarrow> server_db \<Rightarrow> bool" where
  "automations_ok AW s \<longleftrightarrow> automations_inv AW (automation_view s)"

text \<open>What the endpoint expects of the other processes: they keep the automations consistent too.\<close>

definition gaps_ok :: "automation_world \<Rightarrow> (nat \<Rightarrow> server_db \<Rightarrow> server_db) \<Rightarrow> (nat \<Rightarrow> repairs_db \<Rightarrow> repairs_db) \<Rightarrow> bool" where
  "gaps_ok AW bt bc \<longleftrightarrow> (\<forall>n s. automations_ok AW s \<longrightarrow> automations_ok AW (bt n s)) \<and>
     (\<forall>n s core. automations_ok AW (s\<lparr>srv_core := core\<rparr>) \<longrightarrow> automations_ok AW (s\<lparr>srv_core := bc n core\<rparr>))"

lemma Trigger_spawns:
  assumes "automations_ok AW s" "on_automations (Trigger AW E inp) s = (r, s1)"
  shows "automations_ok AW s1"
proof -
  obtain v where v: "Trigger AW E inp (automation_view s) = (r, v)" "s1 = put_automation_view v s"
    using assms(2) by (auto simp: on_automations_def split: prod.splits)
  have "automations_inv AW v"
    using automation_step_inv [OF as_trigger [OF v(1)]] assms(1) by (simp add: automations_ok_def)
  then show ?thesis by (simp add: automations_ok_def v(2))
qed

lemma BindAutomationTask_ok:
  assumes gaps: "gaps_ok AW bt bc" and ok: "automations_ok AW s"
  shows "automations_ok AW (s\<lparr>srv_core := snd (BindAutomationTask RW bc E task issue actorID (srv_core s))\<rparr>)"
proof -
  let ?run = "snd (BindAutomationTask RW bc E task issue actorID (srv_core s))"
  have "?run = srv_core s \<or> (\<exists>input. ?run = snd (Repair.store_Create (call E 1) input (srv_core s)) \<or>
      ?run = bc 1 (snd (Repair.store_Create (call E 1) input (srv_core s))))"
    by (auto simp: BindAutomationTask_def create_or_existing_def Let_def split: sum.splits option.splits prod.splits) (metis snd_conv)+
  moreover have "automations_ok AW (s\<lparr>srv_core := snd (Repair.store_Create (call E 1) input (srv_core s))\<rparr>)" for input
    using store_Create_issue_repairs [of "call E 1" input "srv_core s"] ok by (auto simp: automations_ok_def)
  moreover have "automations_ok AW (s\<lparr>srv_core := core\<rparr>) \<Longrightarrow> automations_ok AW (s\<lparr>srv_core := bc 1 core\<rparr>)" for core
    using gaps by (simp add: gaps_ok_def)
  ultimately show ?thesis
    using ok by (elim disjE exE) simp_all
qed

lemma trigger_all_ok:
  assumes gaps: "gaps_ok AW bt bc"
  shows "automations_ok AW s \<Longrightarrow> automations_ok AW (snd (trigger_all S AW bt bc E event inp actorID k ts created s))"
proof (induction ts arbitrary: k created s)
  case (Cons t ts)
  obtain r s1 where run: "on_automations (Trigger AW (call E (4 + 4 * k)) (inp t)) (bt (4 + 4 * k) s) = (r, s1)" by fastforce
  have s1: "automations_ok AW s1"
    using Trigger_spawns [OF _ run] Cons.prems gaps by (simp add: gaps_ok_def)
  then have s2: "automations_ok AW (bt (6 + 4 * k) s1)" using gaps by (simp add: gaps_ok_def)
  have bind: "automations_ok AW ((bt (6 + 4 * k) s1)\<lparr>srv_core := core\<rparr>)"
    if "BindAutomationTask RW bc E' task issue actorID (srv_core (bt (6 + 4 * k) s1)) = (b, core)" for RW E' task issue b core
    using BindAutomationTask_ok [OF gaps s2, of RW E' task issue actorID] that by simp
  let ?norm = "case r of Inr result \<Rightarrow> Inr result
    | Inl (e, result) \<Rightarrow> (if e = ErrDuplicateTrigger then (case result of Some d \<Rightarrow> Inr d | None \<Rightarrow> Inl e) else Inl e)"
  show ?case
  proof (cases ?norm)
    case (Inl e)
    then show ?thesis using s1 by (simp add: run)
  next
    case (Inr result)
    show ?thesis
    proof (cases "if tpl_Kind t = KindIssueRepair \<and> \<not> tr_Duplicate result then sv_repair S else None")
      case None
      then show ?thesis using Inr Cons.IH [OF s1] by (simp add: run)
    next
      case (Some RW)
      obtain b core where bound: "BindAutomationTask RW bc (call E (6 + 4 * k)) (tr_Task result) (webhookIssue S event) actorID
          (srv_core (bt (6 + 4 * k) s1)) = (b, core)" by fastforce
      show ?thesis
        using Inr Some bind [OF bound] Cons.IH [OF bind [OF bound]] by (cases b) (simp_all add: run bound)
    qed
  qed
qed simp

lemma automation_webhook_ok:
  assumes gaps: "gaps_ok AW bt bc" and ok: "automations_ok AW s"
  shows "automations_ok AW (snd (automation_webhook S AW bt bc E event body s))"
proof -
  have fin: "automations_ok AW t \<Longrightarrow> automations_ok AW (snd (finish_webhook S E' event body answer t))" for E' answer t
    using finish_webhook_scm [of S E' event body answer t] by (auto simp: automations_ok_def)
  have bt: "automations_ok AW t \<Longrightarrow> automations_ok AW (bt 0 t)" for t using gaps by (simp add: gaps_ok_def)
  let ?match = "Matching (call E 1) ProviderGitHub (we_EventType event) (normalizedString S event ''action'') (webhookBranch S event)
      (normalizedString S event ''repository'') (automation_view s)"
  consider (lookup) e where "?match = Inl e" | (none) "?match = Inr []" | (some) t ts where "?match = Inr (t # ts)"
    by (metis list.exhaust sum.exhaust)
  then show ?thesis
  proof cases
    case lookup
    then show ?thesis using ok by (simp add: automation_webhook_def)
  next
    case none
    then show ?thesis using fin [OF bt [OF ok]] by (simp add: automation_webhook_def)
  next
    case (some t ts)
    show ?thesis
    proof (cases "SystemActor (call E 2) (srv_auth s)")
      case (Inl e)
      with some ok show ?thesis by (simp add: automation_webhook_def)
    next
      case actor: (Inr actor)
      show ?thesis
      proof (cases "webhookTaskPayload S event")
        case (Inl e)
        with some actor ok show ?thesis by (simp add: automation_webhook_def)
      next
        case (Inr payload)
        let ?key = "if we_DeliveryID event = [] then ''body:'' @ EncodeToString (sha256 (sw_crypto (sv_scm S)) body) else we_DeliveryID event"
        obtain r u where run: "trigger_all S AW bt bc E event (trigger_input S event ?key (user_ID actor) payload body) (user_ID actor) 0 (t # ts) [] s = (r, u)"
          by fastforce
        have u: "automations_ok AW u"
          using trigger_all_ok [OF gaps ok, of S E event "trigger_input S event ?key (user_ID actor) payload body" "user_ID actor" 0 "t # ts" "[]"]
          unfolding run by simp
        show ?thesis
          unfolding automation_webhook_def Let_def some actor Inr
          using u fin [OF bt [OF u]] run by (cases r) (simp_all del: trigger_all.simps)
      qed
    qed
  qed
qed

section \<open>Decimal identifiers\<close>

lemma length_itoa_nat: "n < 10 ^ Suc k \<Longrightarrow> length (itoa_nat n) \<le> Suc k"
proof (induction k arbitrary: n)
  case 0
  then show ?case by (subst itoa_nat.simps) simp
next
  case (Suc k)
  then have "n div 10 < 10 ^ Suc k" by (simp add: less_mult_imp_div_less mult.commute)
  from Suc.IH [OF this] show ?case by (subst itoa_nat.simps) simp
qed

lemma length_itoa64: "- (2 ^ 63) \<le> i \<Longrightarrow> i < 2 ^ 63 \<Longrightarrow> length (itoa i) \<le> 20"
proof -
  assume i: "- (2 ^ 63) \<le> i" "i < 2 ^ 63"
  have "nat \<bar>i\<bar> < 10 ^ Suc 18" using i by (simp add: nat_less_iff)
  from length_itoa_nat [OF this] show ?thesis by (auto simp: itoa_def abs_if split: if_splits)
qed

lemma visible_digit: "n < 10 \<Longrightarrow> visible (char_of (48 + n :: nat))"
  by (simp add: visible_def)

lemma visible_itoa_nat: "list_all visible (itoa_nat n)"
proof (induction n rule: itoa_nat.induct)
  case (1 n)
  then show ?case by (subst itoa_nat.simps) (simp add: visible_digit)
qed

lemma visible_itoa: "list_all visible (itoa i)"
proof -
  have "visible (CHR ''-'')" by code_simp
  then show ?thesis by (simp add: itoa_def visible_itoa_nat)
qed

lemma itoa_nonempty [simp]: "itoa i \<noteq> []"
  by (simp add: itoa_def)

text \<open>
  A necessary condition on the text of a PostgreSQL \<open>uuid\<close>: without its optional braces and hyphens it is 32 hexadecimal digits.
\<close>

definition uuid_shape :: "string \<Rightarrow> bool" where
  "uuid_shape s = (let digits = filter (\<lambda>c. c \<notin> set ''{}-'') s in length digits = 32 \<and> is_hex digits)"

section \<open>Properties\<close>

text \<open>
  C13. A forged webhook is inert. When the GitHub adapter is configured and the signature header is not the HMAC of the body, the endpoint answers 401 and changes no table of
  the system, whichever services are enabled; a body over 2 MiB is refused before anything else, and changes nothing either.
\<close>

theorem forged_webhook_inert:
  assumes "adapter_for (sv_scm S) ProviderGitHub = Some (github_adapter G a)"
    and "headers ''X-Hub-Signature-256'' \<noteq> expected_signature G a body"
  shows "handleWebhook S bt bc E headers (Some body) ProviderGitHub s =
    (WebhookError (if int (length body) > 2097152 then 413 else 401) (if int (length body) > 2097152 then ''webhook_too_large'' else ''webhook_invalid''), s)"
proof -
  have "VerifyWebhook G a headers body = Inl ErrInvalidWebhook"
    using assms(2) by (auto simp: VerifyWebhook_def Let_def)
  then have "service_VerifyWebhook (sv_scm S) ProviderGitHub headers body = Inl ErrInvalidWebhook"
    using assms(1) by (simp add: service_VerifyWebhook_def github_adapter_def)
  then show ?thesis
    by (simp add: handleWebhook_def HandleWebhookEvent_def verify_failure_def)
qed

text \<open>Recording a delivery at the end of the handler: nothing changes, or one delivery and the outbox event that announces it are appended.\<close>

lemma finish_webhook_cases:
  assumes "finish_webhook S E event body answer s = (r, s')"
  shows "s' = s \<and> r \<in> {WebhookError 500 ''webhook_failed'', WebhookAccepted ''duplicate'' []} \<or>
    r = answer \<and> (ProviderGitHub, we_DeliveryID event) \<notin> delivery_key ` set (webhook_deliveries (srv_scm s)) \<and>
    (\<exists>d ob. delivery_key d = (ProviderGitHub, we_DeliveryID event) \<and> announces (sw_codec (sv_scm S)) d ob \<and>
       s' = s\<lparr>srv_scm := (srv_scm s)\<lparr>webhook_deliveries := webhook_deliveries (srv_scm s) @ [d],
         outbox_events := outbox_events (srv_scm s) @ [ob]\<rparr>\<rparr>)"
proof (cases rule: RecordWebhook_cases [of "sw_codec (sv_scm S)" E ProviderGitHub event "sha256 (sw_crypto (sv_scm S)) body" "clock E" "srv_scm s"])
  case (same r)
  with assms show ?thesis
    by (cases r) (auto simp: finish_webhook_def recorded_def service_RecordWebhook_def)
next
  case (recorded d ob)
  with assms show ?thesis
    by (auto simp: finish_webhook_def recorded_def service_RecordWebhook_def)
qed

text \<open>
  C28. With automations enabled, templates are the sole scheduling authority. When no enabled template matches a verified event, the endpoint schedules nothing, although
  the review, diagnosis and repair triggers may be configured. Apart from what other processes do, it either changes nothing and answers that the body is too large, that the lookup or the recording
  failed, or that the delivery is a duplicate; or it appends one row to the deliveries, under a key no delivery had, and the outbox event that announces it, and answers that the event
  was ignored. No other table changes.
\<close>

theorem templates_sole_authority:
  assumes "sv_automations S = Some AW"
    and "service_VerifyWebhook (sv_scm S) ProviderGitHub headers body = Inr event"
    and "\<And>t. t \<in> set (srv_templates s) \<Longrightarrow> \<not> Matches t ProviderGitHub (we_EventType event) (normalizedString S event ''action'')
      (webhookBranch S event) (normalizedString S event ''repository'')"
    and "handleWebhook S bt bc E headers (Some body) ProviderGitHub s = (answer, s')"
  shows "s' \<in> {s, bt 0 s} \<and> answer \<in> {WebhookError 413 ''webhook_too_large'', WebhookError 500 ''automation_lookup_failed'',
      WebhookError 500 ''webhook_failed'', WebhookAccepted ''duplicate'' []} \<or>
    answer = WebhookAccepted ''ignored'' [] \<and>
    (ProviderGitHub, we_DeliveryID event) \<notin> delivery_key ` set (webhook_deliveries (srv_scm (bt 0 s))) \<and>
    (\<exists>d ob. delivery_key d = (ProviderGitHub, we_DeliveryID event) \<and> announces (sw_codec (sv_scm S)) d ob \<and>
       s' = (bt 0 s)\<lparr>srv_scm := (srv_scm (bt 0 s))\<lparr>webhook_deliveries := webhook_deliveries (srv_scm (bt 0 s)) @ [d],
         outbox_events := outbox_events (srv_scm (bt 0 s)) @ [ob]\<rparr>\<rparr>)"
proof -
  let ?match = "Matching (call E 1) ProviderGitHub (we_EventType event) (normalizedString S event ''action'') (webhookBranch S event)
      (normalizedString S event ''repository'') (automation_view s)"
  have "?match = Inr ms \<Longrightarrow> ms = []" for ms
    using assms(3) set_order_limit by (fastforce simp: Matching_def store_List_def filter_empty_conv split: if_splits sum.splits)
  then consider (lookup) e where "?match = Inl e" | (none) "?match = Inr []" by (metis sum.exhaust)
  then show ?thesis
  proof cases
    case lookup
    then show ?thesis using assms(1,2,4) by (auto simp: handleWebhook_def automation_webhook_def split: if_splits)
  next
    case none
    show ?thesis
    proof (cases "int (length body) > 2097152")
      case True
      then show ?thesis using assms(4) by (auto simp: handleWebhook_def)
    next
      case False
      with none assms(1,2,4) have "finish_webhook S (call E 0) event body (WebhookAccepted ''ignored'' []) (bt 0 s) = (answer, s')"
        by (simp add: handleWebhook_def automation_webhook_def)
      from finish_webhook_cases [OF this] show ?thesis by blast
    qed
  qed
qed

text \<open>
  C29. A delivery starts a template at most once. While other processes keep the automations consistent, so does the endpoint: after any webhook, genuine, forged or repeated, there is at most
  one run for a template and a trigger key, every run has its own task, and the template of each run and its task exist, the task with the source key of that template and trigger.
\<close>

theorem endpoint_keeps_automations:
  assumes "sv_automations S = Some AW" and "gaps_ok AW bt bc" and "automations_ok AW s"
    and "s' = snd (handleWebhook S bt bc E headers request_body provider s)"
  shows "automations_ok AW s' \<and>
    distinct (map (\<lambda>r. (ar_TemplateID r, ar_TriggerKey r)) (srv_runs s')) \<and>
    distinct (map ar_TaskID (srv_runs s')) \<and>
    (\<forall>r \<in> set (srv_runs s'). ar_TemplateID r \<in> tpl_ID ` set (srv_templates s') \<and>
       (\<exists>k \<in> set (tasks (srv_core s')). task_ID k = ar_TaskID r \<and> task_SourceKey k = sourceKey AW (ar_TemplateID r) (ar_TriggerKey r)))"
proof -
  have "automations_ok AW s'"
  proof (cases request_body)
    case None
    then show ?thesis using assms(3,4) by (simp add: handleWebhook_def)
  next
    case (Some body)
    have "s' = s \<or> (\<exists>event. s' = snd (automation_webhook S AW bt bc E event body s)) \<or> (\<exists>d. s' = s\<lparr>srv_scm := d\<rparr>)"
      using assms(1,4) Some by (auto simp: handleWebhook_def split: sum.splits prod.splits)
    then show ?thesis
      using assms(3) automation_webhook_ok [OF assms(2,3)] by (elim disjE exE) (auto simp: automations_ok_def)
  qed
  moreover from this have "reservations_wf AW (srv_templates s') (tasks (srv_core s')) (srv_runs s')"
    using automations_invD(3) by (fastforce simp: automations_ok_def)
  ultimately show ?thesis by (fastforce simp: reservations_wf_def run_ok_def intro: rev_image_eqI)
qed

text \<open>
  A failed review trigger is lost. Without automations, when the review and the diagnosis triggers are both configured and the review trigger fails on a pull request, because
  the event is malformed or because the database refused the task, the diagnosis trigger overwrites the error: the endpoint records the delivery and answers 202 \<open>ignored\<close>, so
  that the provider does not deliver the event again and no review is scheduled.
\<close>

theorem review_failure_swallowed:
  assumes "sv_automations S = None" "sv_review S = Some V" "sv_diagnosis S = Some D"
    and "service_VerifyWebhook (sv_scm S) ProviderGitHub headers body = Inr event" "we_EventType event = ''pull_request''"
    and "Review.HandleWebhook (V\<lparr>rw_scm := Some (resolver S (call E 4) s)\<rparr>) bc (call E 5) event (srv_core s) = (Inl e, core)"
    and "int (length body) \<le> 2097152"
    and "recorded S (call E 0) ProviderGitHub event body (bt 0 (s\<lparr>srv_core := core\<rparr>)) = (Inr True, s')"
  shows "handleWebhook S bt bc E headers (Some body) ProviderGitHub s = (WebhookAccepted ''ignored'' [], s')"
proof -
  have "Diagnosis.EventFromWebhook F event = Inl diagnosis_error.ErrUnsupportedEvent" for F
    using assms(5) by (simp add: Diagnosis.EventFromWebhook_def Let_def)
  then have diagnosis: "diagnosis_trigger S bc E event prev t = (Inr None, t)" if "prev = Inl () \<or> prev = Inr None" for prev t
    using that assms(3) by (auto simp: diagnosis_trigger_def Diagnosis.HandleWebhook_def)
  have review: "review_trigger S bc E event s = (r, s\<lparr>srv_core := core\<rparr>) \<and> (r = Inl () \<or> r = Inr None)"
    if "r = (if e = review_error.ErrUnsupportedEvent then Inr None else Inl ())" for r
    using that assms(2,6) by (simp add: review_trigger_def)
  have repair: "repair_trigger S bc E event prev t = (prev, t)" for prev t
    using assms(5) by (simp add: repair_trigger_def)
  have "legacy_webhook S bt bc E event body s = (WebhookAccepted ''ignored'' [], s')"
    using review [OF refl] diagnosis repair assms(8) by (simp add: legacy_webhook_def finish_webhook_def)
  then show ?thesis
    using assms(1,2,4,7) by (simp add: handleWebhook_def)
qed

text \<open>
  The repository identifier of an automation task is never a UUID. For every event the GitHub adapter accepts, the identifier that the endpoint puts into the trigger is GitHub's own
  number in decimal, not the identifier of the synchronised repository; it is never empty and at most 20 characters, so the cast of \<open>tasks.repository_id\<close> to \<open>uuid\<close>
  in the insertion of the task rejects it.
\<close>

theorem automation_repository_id_no_uuid:
  assumes "VerifyWebhook G a headers body = Inr event"
    and "\<And>p. gw_payload G body = Some p \<Longrightarrow> - (2 ^ 63) \<le> pl_RepositoryID p \<and> pl_RepositoryID p < 2 ^ 63"
  shows "ti_RepositoryID (trigger_input S event key actorID payload body template) \<noteq> [] \<and>
    \<not> uuid_shape (ti_RepositoryID (trigger_input S event key actorID payload body template))"
proof -
  obtain p where p: "gw_payload G body = Some p" "we_Normalized event ''repositoryId'' = Some (AnyInt64 (pl_RepositoryID p))"
    using assms(1) unfolding VerifyWebhook_def Let_def by (auto split: if_splits option.splits)
  have "ti_RepositoryID (trigger_input S event key actorID payload body template) = itoa (pl_RepositoryID p)"
    using p(2) by (simp add: trigger_input_def normalizedString_def TrimSpace_visible [OF visible_itoa])
  moreover have "length (filter P (itoa (pl_RepositoryID p))) \<le> 20" for P
    using length_itoa64 [of "pl_RepositoryID p"] assms(2) [OF p(1)] length_filter_le [of P "itoa (pl_RepositoryID p)"] by linarith
  then have "\<not> uuid_shape (itoa (pl_RepositoryID p))"
    unfolding uuid_shape_def Let_def by (metis (no_types, lifting) numeral_le_iff semiring_norm(68,69,71,72,75,78))
  ultimately show ?thesis by simp
qed

section \<open>Witnesses\<close>

definition sample_server :: server where
  "sample_server = \<lparr>sv_scm = sample_world, sv_formats = \<lparr>fmt_float = (\<lambda>_. []), float_int = (\<lambda>_. 0), sscan_int = (\<lambda>_. None)\<rparr>,
     sv_review = Some sample_review, sv_diagnosis = Some sample_diagnosis, sv_repair = None, sv_automations = None,
     sv_marshal = (\<lambda>_. ''{}''), sv_scm_text = (\<lambda>_. []), sv_automation_text = (\<lambda>_. [])\<rparr>"

definition sample_server_db :: server_db where
  "sample_server_db = put_automation_view sample_au3 \<lparr>srv_core = \<lparr>tasks = [], runs = [], run_events = [], findings = [], evidence = [], audit_events = [],
     approval_requests = [], issue_repairs = [], publications = []\<rparr>, srv_templates = [], srv_versions = [], srv_runs = [], srv_scm = empty_scm,
     srv_auth = \<lparr>users = [], sessions = [], oidc_flows = []\<rparr>\<rparr>"

definition pull_headers :: "string \<Rightarrow> string" where
  "pull_headers h = (if h = ''X-GitHub-Event'' then ''pull_request'' else if h = ''X-GitHub-Delivery'' then ''d1''
     else if h = ''X-Hub-Signature-256'' then ''sha256=6b42'' else [])"

lemma sample_automations_ok: "automations_ok sample_aw sample_server_db"
  using automations.reachable_inv [OF sample_au_steps(2)] by (simp add: automations_ok_def sample_server_db_def)

lemma sample_gaps_ok: "gaps_ok sample_aw (\<lambda>_ s. s) (\<lambda>_ c. c)"
  by (simp add: gaps_ok_def)

lemma sample_github_for: "adapter_for (sv_scm sample_server) ProviderGitHub = Some (github_adapter sample_github GitHub.sample_adapter)"
  by (simp add: adapter_for_def sample_server_def sample_world_def NewService_def github_adapter_def gitlab_adapter_def ProviderGitHub_def ProviderGitLab_def
    Available_def GitHub.sample_adapter_def)

theorem forged_webhook_inert_witness:
  "handleWebhook sample_server (\<lambda>_ s. s) (\<lambda>_ c. c) (sample_scm_env 3) pull_headers (Some ''forged'') ProviderGitHub sample_server_db =
    (WebhookError 401 ''webhook_invalid'', sample_server_db)"
proof -
  have "pull_headers ''X-Hub-Signature-256'' \<noteq> expected_signature sample_github GitHub.sample_adapter ''forged''" by code_simp
  from forged_webhook_inert [OF sample_github_for, of pull_headers, OF this] show ?thesis by simp
qed

definition sample_automation_server :: server where
  "sample_automation_server = sample_server\<lparr>sv_automations := Some sample_aw\<rparr>"

lemma sample_verified:
  "\<exists>event. service_VerifyWebhook (sv_scm sample_server) ProviderGitHub pull_headers ''B'' = Inr event \<and> we_EventType event = ''pull_request'' \<and>
    event = projr (service_VerifyWebhook (sv_scm sample_server) ProviderGitHub pull_headers ''B'')"
proof -
  let ?r = "service_VerifyWebhook (sv_scm sample_server) ProviderGitHub pull_headers ''B''"
  have "\<not> isl ?r" "we_EventType (projr ?r) = ''pull_request''" by code_simp+
  then show ?thesis by (cases ?r) auto
qed

theorem templates_sole_authority_witness:
  "\<exists>d ob. handleWebhook sample_automation_server (\<lambda>_ s. s) (\<lambda>_ c. c) (sample_scm_env 3) pull_headers (Some ''B'') ProviderGitHub sample_server_db =
     (WebhookAccepted ''ignored'' [], sample_server_db\<lparr>srv_scm := empty_scm\<lparr>webhook_deliveries := [d], outbox_events := [ob]\<rparr>\<rparr>)"
proof -
  let ?run = "handleWebhook sample_automation_server (\<lambda>_ s. s) (\<lambda>_ c. c) (sample_scm_env 3) pull_headers (Some ''B'') ProviderGitHub sample_server_db"
  obtain event where event: "service_VerifyWebhook (sv_scm sample_automation_server) ProviderGitHub pull_headers ''B'' = Inr event"
    and ev: "event = projr (service_VerifyWebhook (sv_scm sample_server) ProviderGitHub pull_headers ''B'')"
    using sample_verified by (auto simp: sample_automation_server_def)
  have "list_all (\<lambda>t. \<not> Matches t ProviderGitHub (we_EventType event) (normalizedString sample_automation_server event ''action'')
      (webhookBranch sample_automation_server event) (normalizedString sample_automation_server event ''repository'')) (srv_templates sample_server_db)"
    unfolding ev by code_simp
  then have none: "t \<in> set (srv_templates sample_server_db) \<Longrightarrow> \<not> Matches t ProviderGitHub (we_EventType event) (normalizedString sample_automation_server event ''action'')
      (webhookBranch sample_automation_server event) (normalizedString sample_automation_server event ''repository'')" for t
    by (simp add: list_all_iff)
  have on: "sv_automations sample_automation_server = Some sample_aw" by (simp add: sample_automation_server_def)
  have "fst ?run = WebhookAccepted ''ignored'' []" by code_simp
  then have run: "?run = (WebhookAccepted ''ignored'' [], snd ?run)" by (metis prod.collapse)
  have "webhook_deliveries (srv_scm sample_server_db) = []" "outbox_events (srv_scm sample_server_db) = []" "srv_scm sample_server_db = empty_scm"
    by (simp_all add: sample_server_db_def put_automation_view_def empty_scm_def)
  with templates_sole_authority [OF on event none run] obtain d ob where
    "snd ?run = sample_server_db\<lparr>srv_scm := empty_scm\<lparr>webhook_deliveries := [d], outbox_events := [ob]\<rparr>\<rparr>" by auto
  with run show ?thesis by metis
qed

theorem endpoint_keeps_automations_witness:
  "automations_ok sample_aw
     (snd (handleWebhook sample_automation_server (\<lambda>_ s. s) (\<lambda>_ c. c) (sample_scm_env 3) pull_headers (Some ''B'') ProviderGitHub sample_server_db))"
proof -
  have "sv_automations sample_automation_server = Some sample_aw" by (simp add: sample_automation_server_def)
  from endpoint_keeps_automations [OF this sample_gaps_ok sample_automations_ok refl] show ?thesis by blast
qed

theorem review_failure_swallowed_witness:
  "fst (handleWebhook sample_server (\<lambda>_ s. s) (\<lambda>_ c. c) (sample_scm_env 3) pull_headers (Some ''B'') ProviderGitHub sample_server_db) =
    WebhookAccepted ''ignored'' []"
proof -
  let ?r = "service_VerifyWebhook (sv_scm sample_server) ProviderGitHub pull_headers ''B''"
  let ?V = "sample_review\<lparr>rw_scm := Some (resolver sample_server (call (sample_scm_env 3) 4) sample_server_db)\<rparr>"
  let ?rev = "Review.HandleWebhook ?V (\<lambda>_ c. c) (call (sample_scm_env 3) 5) (projr ?r) (srv_core sample_server_db)"
  let ?rec = "recorded sample_server (call (sample_scm_env 3) 0) ProviderGitHub (projr ?r) ''B'' (sample_server_db\<lparr>srv_core := snd ?rev\<rparr>)"
  obtain event where event: "?r = Inr event" "we_EventType event = ''pull_request''" "projr ?r = event" using sample_verified by auto
  have "isl (fst ?rev)" by code_simp
  then have rev: "?rev = (Inl (projl (fst ?rev)), snd ?rev)" by (rule outcome_Inl)
  have "fst ?rec = Inr True" by code_simp
  then have rec: "?rec = (Inr True, snd ?rec)" by (metis prod.collapse)
  show ?thesis
    using review_failure_swallowed [of sample_server sample_review sample_diagnosis pull_headers "''B''" event "sample_scm_env 3" sample_server_db "\<lambda>_ c. c"
        "projl (fst ?rev)" "snd ?rev" "\<lambda>_ s. s" "snd ?rec"] event rev rec
    by (simp add: sample_server_def)
qed

theorem automation_repository_id_no_uuid_witness:
  "\<not> uuid_shape (ti_RepositoryID (trigger_input sample_server (projr (VerifyWebhook sample_github GitHub.sample_adapter pull_headers ''B''))
     ''d1'' ''u1'' ''{}'' ''B'' (hd (srv_templates sample_server_db))))"
proof -
  let ?r = "VerifyWebhook sample_github GitHub.sample_adapter pull_headers ''B''"
  have "\<not> isl ?r" by code_simp
  then have r: "?r = Inr (projr ?r)" by (simp add: sum.collapse(2))
  have "gw_payload sample_github ''B'' = Some p \<Longrightarrow> - (2 ^ 63) \<le> pl_RepositoryID p \<and> pl_RepositoryID p < 2 ^ 63" for p
    by (auto simp: sample_github_def)
  from automation_repository_id_no_uuid [OF r this] show ?thesis by blast
qed

end
