(* ===== verification/Repair_Safety.thy ===== *)
theory Repair_Safety
  imports Repair
begin

text \<open>
  What the two-stage repair promises when approvals, queue workers, API calls and automations all run against one database: the step relation
  of the whole service, its invariant, and the properties of repairs and of what is published.
\<close>

section \<open>Interleaved operation\<close>

text \<open>
  A step is any operation of the approvals and the task queue, or a call of the repair service or the processor with any input, clock,
  failures, agent runtime and provider. The gaps of a call are filled with further steps.
\<close>

inductive repair_step :: "world \<Rightarrow> 'z repairs_db_scheme \<Rightarrow> 'z repairs_db_scheme \<Rightarrow> bool" for W where
  rs_approvals: "approvals_step db db' \<Longrightarrow> repair_step W db db'"
| rs_issue: "(\<And>n d. (repair_step W)\<^sup>*\<^sup>* d (bt n d)) \<Longrightarrow>
    CreateFromIssue (W\<lparr>w_adapter := ad, w_provider := pv\<rparr>) bt E issue actor db = (res, db') \<Longrightarrow> repair_step W db db'"
| rs_automation: "(\<And>n d. (repair_step W)\<^sup>*\<^sup>* d (bt n d)) \<Longrightarrow>
    BindAutomationTask (W\<lparr>w_adapter := ad, w_provider := pv\<rparr>) bt E task issue actor db = (res, db') \<Longrightarrow> repair_step W db db'"
| rs_diagnosis: "(\<And>n d. (repair_step W)\<^sup>*\<^sup>* d (bt n d)) \<Longrightarrow>
    CreateFromDiagnosis (W\<lparr>w_adapter := ad, w_provider := pv\<rparr>) bt E task actor db = (res, db') \<Longrightarrow> repair_step W db db'"
| rs_consume: "(\<And>n d. (repair_step W)\<^sup>*\<^sup>* d (bt n d)) \<Longrightarrow>
    ConsumeApproval (W\<lparr>w_adapter := ad, w_provider := pv\<rparr>) bt E i phase dg key actor db = (res, db') \<Longrightarrow> repair_step W db db'"
| rs_process: "(\<And>n d. (repair_step W)\<^sup>*\<^sup>* d (bt n d)) \<Longrightarrow>
    Process (W\<lparr>w_adapter := ad, w_provider := pv\<rparr>) bt E task run db = (out, db') \<Longrightarrow> repair_step W db db'"

definition repairs_empty :: "'z repairs_db_scheme \<Rightarrow> bool" where
  "repairs_empty db \<longleftrightarrow> approvals_empty db \<and> issue_repairs db = [] \<and> publications db = []"

lemma world_parts [simp]:
  "rep_ok (W\<lparr>w_adapter := ad, w_provider := pv\<rparr>) = rep_ok W"
  "pub_ok (W\<lparr>w_adapter := ad, w_provider := pv\<rparr>) = pub_ok W"
  "json_ok (W\<lparr>w_adapter := ad, w_provider := pv\<rparr>) = json_ok W"
  by (simp_all add: fun_eq_iff rep_ok_def patch_bound_def pub_ok_def json_ok_def normalizeJSON_def)

lemma world_inv [simp]: "repairs_inv (W\<lparr>w_adapter := ad, w_provider := pv\<rparr>) = repairs_inv W"
  by (simp add: fun_eq_iff repairs_inv_def)

lemma world_ext [simp]:
  "ext (W\<lparr>w_adapter := ad, w_provider := pv\<rparr>) = ext W" "guar (W\<lparr>w_adapter := ad, w_provider := pv\<rparr>) = guar W"
  by (simp_all add: fun_eq_iff ext_def guar_def)

lemma world_rely [simp]: "rely (W\<lparr>w_adapter := ad, w_provider := pv\<rparr>) = rely W"
  by (simp add: fun_eq_iff rely_def)

lemma steps_rely:
  assumes "\<And>n d. (\<lambda>x y. repair_step W x y \<and> guar W x y)\<^sup>*\<^sup>* d (bt n d)"
  shows "rely W bt"
proof -
  have "guar W d d'" if "(\<lambda>x y. repair_step W x y \<and> guar W x y)\<^sup>*\<^sup>* d d'" for d d'
    using that by (induction rule: rtranclp_induct) (auto simp: guar_def ext_refl dest: ext_inv intro: ext_trans)
  then show ?thesis using assms by (auto simp: rely_def)
qed

lemma repair_step_guar:
  assumes json: "json_ok W"
  shows "repair_step W db db' \<Longrightarrow> guar W db db'"
proof (induction rule: repair_step.induct)
  case (rs_approvals db db')
  then show ?case by (simp add: guar_def approvals_ext)
next
  case (rs_issue bt pv ad E issue actor db res db')
  from CreateFromIssue_ext [of W bt db "W\<lparr>w_adapter := ad, w_provider := pv\<rparr>" E issue actor]
    steps_rely [OF rs_issue(1)] rs_issue(2) show ?case by (simp add: guar_def)
next
  case (rs_automation bt pv ad E task issue actor db res db')
  from BindAutomationTask_ext [of W bt db "W\<lparr>w_adapter := ad, w_provider := pv\<rparr>" E task issue actor]
    steps_rely [OF rs_automation(1)] rs_automation(2) show ?case by (simp add: guar_def)
next
  case (rs_diagnosis bt pv ad E task actor db res db')
  from CreateFromDiagnosis_ext [of W bt db "W\<lparr>w_adapter := ad, w_provider := pv\<rparr>" E task actor]
    steps_rely [OF rs_diagnosis(1)] rs_diagnosis(2) show ?case by (simp add: guar_def)
next
  case (rs_consume bt pv ad E i phase dg key actor db res db')
  from ConsumeApproval_ext [of "W\<lparr>w_adapter := ad, w_provider := pv\<rparr>" bt db E i phase dg key actor] json
    steps_rely [OF rs_consume(1)] rs_consume(2) show ?case by (simp add: guar_def)
next
  case (rs_process bt pv ad E task run db out db')
  from Process_ext [of "W\<lparr>w_adapter := ad, w_provider := pv\<rparr>" bt db E task run] json
    steps_rely [OF rs_process(1)] rs_process(2) show ?case by (simp add: guar_def)
qed

interpretation repair_service: transition_system repairs_empty "repair_step W" "\<lambda>db. json_ok W \<longrightarrow> repairs_inv W db"
proof (unfold_locales, goal_cases)
  case (1 db)
  then show ?case by (simp add: repairs_empty_def repairs_inv_def approvals_empty_def approvals_inv_def)
next
  case (2 db db')
  then show ?case using repair_step_guar [of W db db'] by (auto simp: guar_def ext_def)
qed

section \<open>A sample history\<close>

definition sample_plan :: Plan where
  "sample_plan = \<lparr>plan_SchemaVersion = ''v1'', plan_Summary = ''fix a'',
     plan_Steps = [\<lparr>ps_ID = ''1'', ps_Description = ''edit'', ps_Paths = [''src/a.go'']\<rparr>], plan_Tests = [''go test ./...'']\<rparr>"

definition sample_adapter :: adapter where
  "sample_adapter = \<lparr>ad_Start = (\<lambda>r. Inr (if take 6 (xr_Prompt r) = ''Create'' then ''plan'' else ''patch'')),
     ad_Events = (\<lambda>_. ([\<lparr>ex_Kind = ''log'', ex_Stream = ''stdout'', ex_Message = ''working'', ex_Terminal = False\<rparr>], None)),
     ad_Result = (\<lambda>i. Inr i)\<rparr>"

definition sample_provider :: provider where
  "sample_provider = \<lparr>pv_ResolveIssue = (\<lambda>_ _ _. Inl []), pv_ResolveBaseSHA = (\<lambda>_ _ _. Inl []),
     pv_PublishDraft = (\<lambda>_. Inr \<lparr>pr_Number = 7, pr_URL = ''https://example.test/7''\<rparr>)\<rparr>"

definition sample_world :: world where
  "sample_world = \<lparr>w_uni = (\<lambda>s. s), w_sha = (\<lambda>s. replicate 32 (word_of_nat (length s))), w_valid = (\<lambda>_. True), w_jsonb = (\<lambda>s. s),
     w_decode_plan = (\<lambda>s. if s = ''plan'' then Some sample_plan else None),
     w_decode_patch = (\<lambda>s. if s = ''patch'' then Some sample_patch else None),
     w_unmarshal_plan = (\<lambda>s. if s = ''plan'' then Some sample_plan else None),
     w_unmarshal_patch = (\<lambda>s. if s = ''patch'' then Some sample_patch else None),
     w_unmarshal_diagnosis = (\<lambda>_. None), w_marshal_plan = (\<lambda>_. ''plan''), w_marshal_patch = (\<lambda>_. ''patch''),
     w_marshal_event = (\<lambda>_. ''{}''), w_marshal_meta = (\<lambda>_. ''{}''), w_quote = (\<lambda>s. s), w_text = (\<lambda>_. ''error''),
     w_approvals = sample_sv, w_adapter = Some sample_adapter, w_provider = Some sample_provider,
     w_projectID = [], w_agentName = [], w_timeout = 0\<rparr>"

lemma sample_world_json: "json_ok sample_world"
  by (auto simp: json_ok_def sample_world_def normalizeJSON_def)

definition stage_env :: "nat \<Rightarrow> env" where
  "stage_env k = quiet_env (int (100 * k)) (\<lambda>n. Some (\<lambda>i. if i = 0 then word_of_nat k else if i = 1 then word_of_nat n else 0))"

text \<open>One turn of the worker: claim a task, run its phase, complete it.\<close>

definition worker_turn :: "world \<Rightarrow> nat \<Rightarrow> repairs_db \<Rightarrow> repairs_db" where
  "worker_turn W k db =
    (case ClaimTask (\<lambda>_. False) (stage_env k) ''w1'' 30 db of
       (Inl _, db1) \<Rightarrow> db1
     | (Inr (task, run), db1) \<Rightarrow>
         (case Process W (\<lambda>_ d. d) (stage_env (Suc k)) task run db1 of
            ((status, code, message), db2) \<Rightarrow>
              if run_ID run = [] then db2
              else snd (CompleteTask (stage_env (k + 2)) (task_ID task) (run_ID run) status code message db2)))"

definition decide_first :: "world \<Rightarrow> nat \<Rightarrow> string \<Rightarrow> repairs_db \<Rightarrow> repairs_db" where
  "decide_first W k phase db =
    (let repair = hd (issue_repairs db);
       i = (if phase = ''plan'' then rep_PlanApprovalID repair else rep_PatchApprovalID repair)
     in snd (Decide (w_approvals W) (stage_env k) \<lparr>di_ApprovalID = i, di_Actor = sample_admin, di_Decision = StateApproved,
          di_Reason = ''ok'', di_IdempotencyKey = ''decide-'' @ phase, di_Now = 0\<rparr> db))"

definition consume_first :: "world \<Rightarrow> nat \<Rightarrow> string \<Rightarrow> repairs_db \<Rightarrow> (repair_error, Repair, repairs_db) outcome" where
  "consume_first W k phase db =
    (let repair = hd (issue_repairs db);
       d = (if phase = ''plan'' then rep_PlanDigest repair else rep_PatchDigest repair)
     in ConsumeApproval W (\<lambda>_ d. d) (stage_env k) (rep_ID repair) phase d (''consume-'' @ phase) ''w'' db)"

definition approve :: "world \<Rightarrow> nat \<Rightarrow> string \<Rightarrow> repairs_db \<Rightarrow> repairs_db" where
  "approve W k phase db = snd (consume_first W (Suc k) phase (decide_first W k phase db))"

definition sample_issue :: Issue where
  "sample_issue = \<lparr>iss_Provider = ''github'', iss_RepositoryID = ''r1'', iss_Repository = ''o/r'', iss_CloneURL = ''https://x/o/r'',
     iss_WebURL = [], iss_InstallationID = ''9'', iss_Number = 3, iss_Title = ''bug'', iss_Body = ''b'', iss_State = ''open'',
     iss_IsPullRequest = False, iss_BaseBranch = ''main'', iss_BaseSHA = replicate 40 (CHR ''a'')\<rparr>"

definition rdb0 :: repairs_db where
  "rdb0 = \<lparr>tasks = [], runs = [], run_events = [], findings = [], evidence = [], audit_events = [],
     approval_requests = [], issue_repairs = [], publications = []\<rparr>"

definition rdb1 :: repairs_db where "rdb1 = snd (CreateFromIssue sample_world (\<lambda>_ d. d) (stage_env 1) sample_issue ''u2'' rdb0)"
definition rdb2 :: repairs_db where "rdb2 = worker_turn sample_world 2 rdb1"
definition rdb3 :: repairs_db where "rdb3 = approve sample_world 5 ''plan'' rdb2"
definition rdb4 :: repairs_db where "rdb4 = worker_turn sample_world 7 rdb3"
definition rdb5 :: repairs_db where "rdb5 = approve sample_world 10 ''patch'' rdb4"
definition rdb6 :: repairs_db where "rdb6 = worker_turn sample_world 12 rdb5"

lemma quiet_steps:
  "repair_step W d (snd (CreateFromIssue W (\<lambda>_ d. d) E issue actor d))"
  "repair_step W d (snd (ConsumeApproval W (\<lambda>_ d. d) E i phase dg key actor d))"
  "repair_step W d (snd (Process W (\<lambda>_ d. d) E task run d))"
  using rs_issue [of W "\<lambda>_ d. d" "w_provider W" "w_adapter W", OF _ prod.collapse [symmetric]]
    rs_consume [of W "\<lambda>_ d. d" "w_provider W" "w_adapter W", OF _ prod.collapse [symmetric]]
    rs_process [of W "\<lambda>_ d. d" "w_provider W" "w_adapter W", OF _ prod.collapse [symmetric]]
  by simp_all

lemma worker_turn_steps: "(repair_step W)\<^sup>*\<^sup>* db (worker_turn W k db)"
proof -
  obtain r1 db1 where c: "ClaimTask (\<lambda>_. False) (stage_env k) ''w1'' 30 db = (r1, db1)" by fastforce
  then have 1: "repair_step W db db1" by (intro rs_approvals ap_task st_claim)
  show ?thesis
  proof (cases r1)
    case (Inl e)
    then show ?thesis using c 1 by (simp add: worker_turn_def)
  next
    case (Inr tr)
    obtain task run where tr: "tr = (task, run)" by fastforce
    obtain status code message db2 where p: "Process W (\<lambda>_ d. d) (stage_env (Suc k)) task run db1 = ((status, code, message), db2)"
      by (metis prod.exhaust)
    then have 2: "repair_step W db1 db2" using quiet_steps(3) [of W db1 "stage_env (Suc k)" task run] by simp
    have "repair_step W db2 (snd (CompleteTask (stage_env (k + 2)) (task_ID task) (run_ID run) status code message db2))"
      if "run_ID run \<noteq> []"
      by (rule rs_approvals, rule ap_task, rule st_complete [OF prod.collapse [symmetric] that])
    with 1 2 show ?thesis using c p Inr tr by (auto simp: worker_turn_def)
  qed
qed

lemma decide_first_step: "repair_step W db (decide_first W k phase db)"
  unfolding decide_first_def Let_def by (rule rs_approvals, rule ap_decide) (rule prod.collapse [symmetric])

lemma approve_steps: "(repair_step W)\<^sup>*\<^sup>* db (approve W k phase db)"
  unfolding approve_def consume_first_def Let_def
  by (rule converse_rtranclp_into_rtranclp, rule decide_first_step, rule r_into_rtranclp, rule quiet_steps)

lemma sample_reachable:
  "reachable repairs_empty (repair_step sample_world) rdb1" "reachable repairs_empty (repair_step sample_world) rdb4"
  "reachable repairs_empty (repair_step sample_world) rdb5" "reachable repairs_empty (repair_step sample_world) rdb6"
proof -
  have 0: "reachable repairs_empty (repair_step sample_world) rdb0"
    by (rule reach_start) (simp add: repairs_empty_def approvals_empty_def rdb0_def)
  have "repair_step sample_world rdb0 rdb1" unfolding rdb1_def by (rule quiet_steps)
  with 0 show 1: "reachable repairs_empty (repair_step sample_world) rdb1" by (rule reach_step)
  note star = repair_service.reachable_star
  have 3: "reachable repairs_empty (repair_step sample_world) rdb3"
    unfolding rdb3_def rdb2_def by (intro star [OF approve_steps] star [OF worker_turn_steps] 1)
  then show 4: "reachable repairs_empty (repair_step sample_world) rdb4"
    unfolding rdb4_def by (intro star [OF worker_turn_steps])
  then show 5: "reachable repairs_empty (repair_step sample_world) rdb5"
    unfolding rdb5_def by (intro star [OF approve_steps])
  then show "reachable repairs_empty (repair_step sample_world) rdb6"
    unfolding rdb6_def by (intro star [OF worker_turn_steps])
qed


definition progress :: "repairs_db \<Rightarrow> State list \<times> Status list \<times> nat" where
  "progress db = (map rep_State (issue_repairs db), map task_Status (tasks db), length (publications db))"

lemma sample_waiting: "progress rdb4 = ([StateAwaitingPatchApproval], [StatusAwaitingApproval], 0)"
  by code_simp

lemma sample_published: "progress rdb6 = ([StatePublished], [StatusSucceeded], 1)"
  by code_simp

lemma sample_row: "hd (issue_repairs rdb6) \<in> set (issue_repairs rdb6)" "rep_State (hd (issue_repairs rdb6)) = StatePublished"
  "hd (publications rdb6) \<in> set (publications rdb6)"
  using sample_published by (cases "issue_repairs rdb6"; cases "publications rdb6"; simp add: progress_def)+

lemma map_sum_Inr: "map_sum f g x = Inr y \<Longrightarrow> \<exists>z. x = Inr z \<and> g z = y"
  by (cases x) auto

section \<open>Properties\<close>

text \<open>A released action was approved before its request expired.\<close>

lemma released_row:
  assumes "repairs_inv W db" "released db a i d"
  obtains q t where "q \<in> set (approval_requests db)" "req_ID q = i" "req_Action q = a" "req_ActionDigest q = d"
    "req_State q = StateConsumed" "req_DecidedAt q = Some t" "t < req_ExpiresAt q"
  using assms unfolding repairs_inv_def approvals_inv_def released_def req_ok_def by blast

text \<open>
  C1. Two human approvals stand behind every published repair. In every reachable state, a repair that is published has a plan approval and a
  patch approval, each for exactly the digest stored in the repair, each decided before its request expired and consumed; and
  the stored patch is the one whose digest was approved, and it passed the patch policy against the repair's base commit.
\<close>

theorem published_needs_both_approvals:
  assumes "json_ok W" "reachable repairs_empty (repair_step W) db"
    and "r \<in> set (issue_repairs db)" "rep_State r = StatePublished"
  shows "\<exists>plan patch tp tq p. plan \<in> set (approval_requests db) \<and> patch \<in> set (approval_requests db) \<and>
    req_ID plan = rep_PlanApprovalID r \<and> req_Action plan = ActionRepairPlan \<and> req_ActionDigest plan = rep_PlanDigest r \<and>
    req_State plan = StateConsumed \<and> req_DecidedAt plan = Some tp \<and> tp < req_ExpiresAt plan \<and>
    req_ID patch = rep_PatchApprovalID r \<and> req_Action patch = ActionPublishPatch \<and> req_ActionDigest patch = rep_PatchDigest r \<and>
    req_State patch = StateConsumed \<and> req_DecidedAt patch = Some tq \<and> tq < req_ExpiresAt patch \<and>
    w_unmarshal_patch W (rep_Patch r) = Some p \<and> Digest (w_sha W) (w_marshal_patch W) p = rep_PatchDigest r \<and>
    ValidatePatch (w_uni W) p (rep_BaseSHA r) = None"
proof -
  have inv: "repairs_inv W db" using repair_service.reachable_inv [OF assms(2)] assms(1) by blast
  then have ok: "rep_ok W db r" using assms(3) by (simp add: repairs_inv_def)
  then have "plan_released db r" "patch_released db r" "patch_bound W r" using assms(4) by (auto simp: rep_ok_def)
  then obtain plan tp patch tq where
    "plan \<in> set (approval_requests db)" "req_ID plan = rep_PlanApprovalID r" "req_Action plan = ActionRepairPlan"
    "req_ActionDigest plan = rep_PlanDigest r" "req_State plan = StateConsumed" "req_DecidedAt plan = Some tp" "tp < req_ExpiresAt plan"
    "patch \<in> set (approval_requests db)" "req_ID patch = rep_PatchApprovalID r" "req_Action patch = ActionPublishPatch"
    "req_ActionDigest patch = rep_PatchDigest r" "req_State patch = StateConsumed" "req_DecidedAt patch = Some tq" "tq < req_ExpiresAt patch"
    unfolding plan_released_def patch_released_def by (elim released_row [OF inv]) blast
  with \<open>patch_bound W r\<close> show ?thesis unfolding patch_bound_def by blast
qed

theorem published_needs_both_approvals_witness:
  "\<exists>patch \<in> set (approval_requests rdb6). req_Action patch = ActionPublishPatch \<and> req_State patch = StateConsumed \<and>
     req_ActionDigest patch = rep_PatchDigest (hd (issue_repairs rdb6))"
  using published_needs_both_approvals [OF sample_world_json sample_reachable(4) sample_row(1,2)] by blast

text \<open>
  C2. Nothing is published without authority. In every reachable state, each \<open>PublishDraft\<close> call the service ever made carries exactly
  the files of a patch that passed the patch policy against the base commit of the call, and whose digest is that of a \<open>publish_patch\<close>
  approval that was decided before it expired and was consumed; and a plan approval had been consumed too.
\<close>

theorem publications_authorised:
  assumes "json_ok W" "reachable repairs_empty (repair_step W) db" "input \<in> set (publications db)"
  shows "\<exists>p plan patch t. pub_Files input = patch_Files p \<and> ValidatePatch (w_uni W) p (pub_BaseSHA input) = None \<and>
    plan \<in> set (approval_requests db) \<and> req_Action plan = ActionRepairPlan \<and> req_State plan = StateConsumed \<and>
    patch \<in> set (approval_requests db) \<and> req_Action patch = ActionPublishPatch \<and> req_State patch = StateConsumed \<and>
    req_ActionDigest patch = Digest (w_sha W) (w_marshal_patch W) p \<and> req_DecidedAt patch = Some t \<and> t < req_ExpiresAt patch"
proof -
  have inv: "repairs_inv W db" using repair_service.reachable_inv [OF assms(2)] assms(1) by blast
  then have "pub_ok W db input" using assms(3) by (simp add: repairs_inv_def)
  then obtain p planID planDigest patchID where p: "pub_Files input = patch_Files p" "ValidatePatch (w_uni W) p (pub_BaseSHA input) = None"
      "released db ActionRepairPlan planID planDigest" "released db ActionPublishPatch patchID (Digest (w_sha W) (w_marshal_patch W) p)"
    unfolding pub_ok_def by blast
  from p(3,4) show ?thesis by (elim released_row [OF inv]) (use p(1,2) in blast)
qed

theorem publications_authorised_witness:
  "\<exists>patch \<in> set (approval_requests rdb6). req_Action patch = ActionPublishPatch \<and> req_State patch = StateConsumed"
  using publications_authorised [OF sample_world_json sample_reachable(4) sample_row(3)] by blast

text \<open>
  C27. There is one repair per source and one per task: in every reachable state two repairs with the same source key, or with the same
  task, are the same repair, whatever issue, automation and diagnosis calls raced to create them.
\<close>

theorem one_repair_per_source:
  assumes "json_ok W" "reachable repairs_empty (repair_step W) db"
    and "r1 \<in> set (issue_repairs db)" "r2 \<in> set (issue_repairs db)"
    and "rep_SourceKey r1 = rep_SourceKey r2 \<or> rep_TaskID r1 = rep_TaskID r2"
  shows "r1 = r2"
proof -
  have "repairs_inv W db" using repair_service.reachable_inv [OF assms(2)] assms(1) by blast
  with assms(3-5) show ?thesis by (auto simp: repairs_inv_def distinct_map dest: inj_onD)
qed

theorem one_repair_per_source_witness:
  "set (issue_repairs rdb6) = {hd (issue_repairs rdb6)}"
proof -
  have "rep_SourceKey r1 = rep_SourceKey r2" if "r1 \<in> set (issue_repairs rdb6)" "r2 \<in> set (issue_repairs rdb6)" for r1 r2
    using that sample_published by (cases "issue_repairs rdb6") (auto simp: progress_def)
  then show ?thesis
    using one_repair_per_source [OF sample_world_json sample_reachable(4)] sample_row(1) by blast
qed

lemma gaps_rely:
  assumes "json_ok W" "\<And>n d. (repair_step W)\<^sup>*\<^sup>* d (bt n d)"
  shows "rely W bt"
proof -
  have "repair_step W \<le> (\<lambda>x y. repair_step W x y \<and> guar W x y)" using repair_step_guar [OF assms(1)] by auto
  from rtranclp_mono [OF this] assms(2) show ?thesis by (intro steps_rely) blast
qed

text \<open>
  C11. The worker is told the truth. Whatever other operations run in the gaps of a phase, when \<open>Process\<close> reports that the task awaits
  approval, the task's repair is then awaiting plan or patch approval in the database; when it reports success, the repair is published; and
  it reports nothing else but failure (in particular it never reaches the missing adapter).
\<close>

theorem process_reports_truth:
  assumes "json_ok W" "reachable repairs_empty (repair_step W) db" "\<And>n d. (repair_step W)\<^sup>*\<^sup>* d (bt n d)"
    and "Process W bt E task run db = ((st, c, m), db')" "st \<noteq> StatusFailed"
  shows "\<exists>r \<in> set (issue_repairs db'). rep_TaskID r = TrimSpace (task_ID task) \<and>
    (st = StatusAwaitingApproval \<and> rep_State r \<in> {StateAwaitingPlanApproval, StateAwaitingPatchApproval} \<or>
     st = StatusSucceeded \<and> rep_State r = StatePublished)"
proof -
  have inv: "repairs_inv W db" using repair_service.reachable_inv [OF assms(2)] assms(1) by blast
  from assms(4,5) obtain r0 where r0: "GetByTask (call E 0) (task_ID task) db = Inr r0"
    by (cases "GetByTask (call E 0) (task_ID task) db") (auto simp: Process_def)
  have mem: "mem_ok W db r0" "rep_TaskID r0 = TrimSpace (task_ID task)"
    using GetByTask_row [OF r0] mem_ok_row [OF inv] by auto
  have "rely W bt" by (rule gaps_rely [OF assms(1)]) (rule assms(3))
  then have "ext W db db'" using Process_ext [OF assms(1) _ inv, of bt E task run] assms(4) by simp
  from ext_mem [OF this mem(1)] obtain r where r: "r \<in> set (issue_repairs db')" "rep_ID r = rep_ID r0" "rep_TaskID r = rep_TaskID r0"
    by (auto simp: mem_ok_def known_def)
  from Process_report [OF r0 _ assms(4,5)] mem(1) wrote_state [OF _ r(1,2)] have
    "st = StatusAwaitingApproval \<and> rep_State r \<in> {StateAwaitingPlanApproval, StateAwaitingPatchApproval} \<or>
     st = StatusSucceeded \<and> rep_State r = StatePublished"
    by (auto simp: mem_ok_def)
  with r mem(2) show ?thesis by auto
qed

definition sample_publish :: "(Status \<times> string \<times> string) \<times> repairs_db" where
  "sample_publish = Process sample_world (\<lambda>_ d. d) (stage_env 13) (hd (tasks rdb5)) (hd (runs rdb5)) rdb5"

lemma sample_publish_status: "fst (fst sample_publish) = StatusSucceeded"
  by code_simp

theorem process_reports_truth_witness:
  "\<exists>r \<in> set (issue_repairs (snd sample_publish)). rep_TaskID r = TrimSpace (task_ID (hd (tasks rdb5))) \<and> rep_State r = StatePublished"
proof -
  obtain c m db' where p: "sample_publish = ((StatusSucceeded, c, m), db')"
    using sample_publish_status by (metis prod.collapse)
  from process_reports_truth [OF sample_world_json sample_reachable(3) rtranclp.rtrancl_refl p [unfolded sample_publish_def]]
  show ?thesis by (simp add: p)
qed

text \<open>
  An approval is consumed for the exact proposal. When \<open>ConsumeApproval\<close> takes a waiting repair on, with any interference, the digest
  the caller confirmed is the digest the repair had stored when it was read: confirming any other digest fails.
\<close>

theorem consume_confirms_digest:
  assumes "json_ok W" "reachable repairs_empty (repair_step W) db" "\<And>n d. (repair_step W)\<^sup>*\<^sup>* d (bt n d)"
    and "store_Get (call E 0) i db = Inr r" "rep_State r \<noteq> nextApprovedState phase"
    and "ConsumeApproval W bt E i phase dg key actor db = (Inr r', db')"
  shows "dg = (if phase = ''plan'' then rep_PlanDigest r else rep_PatchDigest r)"
proof -
  have inv: "repairs_inv W db" using repair_service.reachable_inv [OF assms(2)] assms(1) by blast
  have "rely W bt" by (rule gaps_rely [OF assms(1)]) (rule assms(3))
  from bt_ext [OF this ext_refl [OF inv]] have d0: "ext W db (bt 0 db)" .
  have ok: "rep_ok W db r" using mem_ok_row [OF inv store_Get_row [OF assms(4)]] by (simp add: mem_ok_def)
  let ?ai = "if phase = ''plan'' then rep_PlanApprovalID r else rep_PatchApprovalID r"
  let ?dg = "if phase = ''plan'' then rep_PlanDigest r else rep_PatchDigest r"
  from assms(4-6) obtain q db1 where ai: "?ai \<noteq> []" and
    c: "Consume (w_approvals W) (call E 1) \<lparr>coi_ApprovalID = ?ai, coi_ActorID = actor, coi_ActionDigest = dg, coi_IdempotencyKey = key,
      coi_Now = clock E\<rparr> (bt 0 db) = (Inr q, db1)"
    by (auto simp: ConsumeApproval_def split: if_splits prod.splits sum.splits)
  have inv0: "approvals_inv (bt 0 db)" using d0 by (simp add: ext_def repairs_inv_def)
  have inv1: "approvals_inv db1" by (rule approvals_step_inv [OF ap_consume [OF c] inv0])
  have q: "q \<in> set (approval_requests db1)" "req_ID q = ?ai" "req_ActionDigest q = dg"
    using Consume_grants [OF inv0 c] by auto
  have "\<exists>x. requested db x ?ai ?dg" using ok ai by (auto simp: rep_ok_def split: if_splits)
  then obtain x where "requested db1 x ?ai ?dg"
    using requested_ext [OF d0] approvals_keep [OF ap_consume [OF c] inv0] by blast
  then obtain q' where "q' \<in> set (approval_requests db1)" "req_ID q' = ?ai" "req_ActionDigest q' = ?dg"
    by (auto simp: requested_def)
  with q request_unique [OF inv1, of q q'] show ?thesis by simp
qed

definition first_state :: "nat \<Rightarrow> repairs_db \<Rightarrow> (unit + State) \<times> bool" where
  "first_state k db = (map_sum (\<lambda>_. ()) rep_State (store_Get (call (stage_env k) 0) (rep_ID (hd (issue_repairs db))) db),
     isl (fst (consume_first sample_world k ''plan'' db)))"

lemma sample_consume: "first_state 6 (decide_first sample_world 5 ''plan'' rdb2) = (Inr StateAwaitingPlanApproval, False)"
  by code_simp

theorem consume_confirms_digest_witness:
  "\<exists>r. store_Get (call (stage_env 6) 0) (rep_ID (hd (issue_repairs (decide_first sample_world 5 ''plan'' rdb2))))
     (decide_first sample_world 5 ''plan'' rdb2) = Inr r \<and>
   rep_PlanDigest (hd (issue_repairs (decide_first sample_world 5 ''plan'' rdb2))) = rep_PlanDigest r"
proof -
  let ?db = "decide_first sample_world 5 ''plan'' rdb2"
  have "map_sum (\<lambda>_. ()) rep_State (store_Get (call (stage_env 6) 0) (rep_ID (hd (issue_repairs ?db))) ?db) =
      Inr StateAwaitingPlanApproval" using sample_consume by (simp add: first_state_def)
  from map_sum_Inr [OF this] obtain r where r:
      "store_Get (call (stage_env 6) 0) (rep_ID (hd (issue_repairs ?db))) ?db = Inr r"
      "rep_State r = StateAwaitingPlanApproval" by blast
  have reach: "reachable repairs_empty (repair_step sample_world) ?db"
    using repair_service.reachable_star [OF worker_turn_steps sample_reachable(1)] decide_first_step
    unfolding rdb2_def by (rule reach_step)
  have "\<not> isl (fst (consume_first sample_world 6 ''plan'' ?db))" using sample_consume by (simp add: first_state_def)
  note ok = outcome_Inr [OF this, unfolded consume_first_def Let_def]
  have "rep_State r \<noteq> nextApprovedState ''plan''" by (simp add: r(2) nextApprovedState_def)
  from consume_confirms_digest [OF sample_world_json reach rtranclp.rtrancl_refl r(1) this ok]
  have "rep_PlanDigest (hd (issue_repairs ?db)) = rep_PlanDigest r" by simp
  with r(1) show ?thesis by blast
qed

text \<open>
  A repair left in \<open>patching\<close> cannot make progress. Once the row holds \<open>patching\<close> (the worker stopped, or could not store
  the failure, after the first write of \<open>generatePatch\<close>), every later \<open>Process\<close> of its task reports \<open>m8_invalid_state\<close>
  and leaves the repair as it is.
\<close>

theorem patching_is_stuck:
  assumes "GetByTask (call E 0) (task_ID task) db = Inr r" "rep_State r = StatePatching" "w_adapter W \<noteq> None"
  shows "Process W bt E task run db = ((StatusFailed, ''m8_invalid_state'', ''patching''), bt 0 db)"
  using assms by (auto simp: Process_def)

definition sample_task3 :: Task where
  "sample_task3 = hd (tasks rdb3)"

definition down_world :: world where
  "down_world = sample_world\<lparr>w_adapter := Some (sample_adapter\<lparr>ad_Start := (\<lambda>_. Inl ''down'')\<rparr>),
     w_provider := Some (sample_provider\<lparr>pv_PublishDraft := (\<lambda>_. Inl ''down'')\<rparr>)\<rparr>"

definition stuck_db :: repairs_db where
  "stuck_db = snd (Process down_world (\<lambda>_ d. d) ((stage_env 7)\<lparr>fails := (\<lambda>n. 32 \<le> n \<and> n < 48)\<rparr>) sample_task3 (hd (runs rdb3)) rdb3)"

definition stuck_repair :: "repair_error + Repair" where
  "stuck_repair = GetByTask (call (stage_env 8) 0) (task_ID sample_task3) stuck_db"

lemma stuck_repair_state: "map_sum (\<lambda>_. ()) rep_State stuck_repair = Inr StatePatching"
  by code_simp

theorem patching_is_stuck_witness:
  "Process sample_world (\<lambda>_ d. d) (stage_env 8) sample_task3 (hd (runs rdb3)) stuck_db =
     ((StatusFailed, ''m8_invalid_state'', ''patching''), stuck_db)"
proof -
  obtain r where r: "stuck_repair = Inr r" "rep_State r = StatePatching"
    using map_sum_Inr [OF stuck_repair_state] by blast
  have "w_adapter sample_world \<noteq> None" by (simp add: sample_world_def)
  from patching_is_stuck [OF r(1) [unfolded stuck_repair_def] r(2) this] show ?thesis .
qed

definition process_first :: "world \<Rightarrow> (nat \<Rightarrow> repairs_db \<Rightarrow> repairs_db) \<Rightarrow> nat \<Rightarrow> repairs_db \<Rightarrow> (Status \<times> string \<times> string) \<times> repairs_db" where
  "process_first W bt k db = Process W bt (stage_env k) (hd (tasks db)) (hd (runs db)) db"

definition second_worker :: "nat \<Rightarrow> repairs_db \<Rightarrow> repairs_db" where
  "second_worker n d = (if n = 1 then snd (process_first sample_world (\<lambda>_ d. d) 13 d) else d)"

definition overwritten :: "(Status \<times> string \<times> string) \<times> repairs_db" where
  "overwritten = process_first (sample_world\<lparr>w_adapter := None,
     w_provider := Some (sample_provider\<lparr>pv_PublishDraft := (\<lambda>_. Inl ''down'')\<rparr>)\<rparr>) second_worker 14 rdb5"

lemma second_worker_published: "progress (second_worker 1 (second_worker 0 rdb5)) = ([StatePublished], [StatusQueued], 1)"
  by code_simp

lemma overwritten_failed: "progress (snd overwritten) = ([StateFailed], [StatusQueued], 2)"
  by code_simp

text \<open>
  A published repair can be overwritten: \<open>Update\<close> writes whatever state the caller holds in memory, so a second worker on the same
  repair (the lease of the first ran out while it was publishing) whose own publication fails turns the published repair into a failed one.
  There is a reachable state and a \<open>Process\<close> call, with one other \<open>Process\<close> call in a gap, for which this happens.
\<close>

theorem published_can_be_overwritten:
  "\<exists>W ad pv bt E task run (db :: repairs_db) out db'. json_ok W \<and> reachable repairs_empty (repair_step W) db \<and>
     (\<forall>n d. (repair_step W)\<^sup>*\<^sup>* d (bt n d)) \<and> Process (W\<lparr>w_adapter := ad, w_provider := pv\<rparr>) bt E task run db = (out, db') \<and>
     map rep_State (issue_repairs (bt 1 (bt 0 db))) = [StatePublished] \<and> map rep_State (issue_repairs db') = [StateFailed]"
proof -
  have "(repair_step sample_world)\<^sup>*\<^sup>* d (second_worker n d)" for n d
    unfolding second_worker_def process_first_def by (cases "n = 1"; simp; rule r_into_rtranclp, rule quiet_steps)
  moreover have "map rep_State (issue_repairs (second_worker 1 (second_worker 0 rdb5))) = [StatePublished]"
    using second_worker_published by (simp add: progress_def)
  moreover have "map rep_State (issue_repairs (snd overwritten)) = [StateFailed]"
    using overwritten_failed by (simp add: progress_def)
  ultimately show ?thesis
    using sample_world_json sample_reachable(3) unfolding overwritten_def process_first_def by (metis prod.collapse)
qed

end
