(* ===== verification/Worker.thy ===== *)
theory Worker
  imports Repair_Safety Diagnosis
begin

text \<open>
  The worker process (\<open>src/server/internal/worker\<close>): the queue contract, the processors and the loop that claims, processes
  and completes one task per poll (queue.go), and the health loop (worker.go).

  \<^item> The loop is driven by the list of signals its \<open>select\<close> receives: a tick of the poll timer, with the environment of the calls made
    in it and what other processes do in its gaps, or the cancelled context. Having used up the signals, the loop waits.
  \<^item> \<open>worker_env\<close> is what may happen in the gaps: steps of the repair system by other processes, and ticks of the retention loop that the process
    itself starts with M10.
  \<^item> A processor is a function on the database; \<open>Worker.task_queue\<close> is the interface \<open>TaskQueue\<close>, and the locale
    \<open>durable_queue\<close> states what the loop relies on.
\<close>

section \<open>Processors (queue.go)\<close>

type_synonym 'd processor = "env \<Rightarrow> Task \<Rightarrow> Run \<Rightarrow> 'd \<Rightarrow> (Status \<times> string \<times> string) \<times> 'd"

record 'd task_queue =
  q_Claim :: "env \<Rightarrow> string \<Rightarrow> duration \<Rightarrow> 'd \<Rightarrow> (task_error + Task \<times> Run) \<times> 'd"
  q_Heartbeat :: "env \<Rightarrow> string \<Rightarrow> string \<Rightarrow> duration \<Rightarrow> 'd \<Rightarrow> (task_error + unit) \<times> 'd"
  q_Complete :: "env \<Rightarrow> string \<Rightarrow> string \<Rightarrow> Status \<Rightarrow> string \<Rightarrow> string \<Rightarrow> 'd \<Rightarrow> (task_error + unit) \<times> 'd"

record 'd MultiplexProcessor =
  mx_default :: "'d processor option"
  mx_processors :: "Kind \<Rightarrow> 'd processor option"

text \<open>A nil pointer or interface is None.\<close>

definition NewMultiplexProcessor :: "'d processor option \<Rightarrow> 'd MultiplexProcessor option" where
  "NewMultiplexProcessor p = Some \<lparr>mx_default = p, mx_processors = (\<lambda>_. None)\<rparr>"

definition Register :: "Kind \<Rightarrow> 'd processor option \<Rightarrow> 'd MultiplexProcessor option \<Rightarrow> 'd MultiplexProcessor option" where
  "Register kind p m =
    (case (m, p) of
       (Some m, Some p) \<Rightarrow> Some (m\<lparr>mx_processors := (mx_processors m)(kind \<mapsto> p)\<rparr>)
     | _ \<Rightarrow> m)"

definition Multiplex_Process :: "'d MultiplexProcessor option \<Rightarrow> 'd processor" where
  "Multiplex_Process mo E task run db =
    (case mo of
       None \<Rightarrow> ((StatusFailed, ''processor_unavailable'', ''task processor is unavailable''), db)
     | Some m \<Rightarrow>
         (case mx_processors m (task_Kind task) of
            Some p \<Rightarrow> p E task run db
          | None \<Rightarrow>
              (case mx_default m of
                 None \<Rightarrow> ((StatusFailed, ''processor_unavailable'', ''task processor is unavailable''), db)
               | Some p \<Rightarrow> p E task run db)))"

definition Core_Process :: "(task_error \<Rightarrow> string) \<Rightarrow> bool \<Rightarrow> 'z tasks_db_scheme processor" where
  "Core_Process text available E task run db =
    (if \<not> available then ((StatusFailed, ''m4_processor_unavailable'', ''M4 task processor is unavailable''), db)
     else case service_AppendEvent E (run_ID run) \<lparr>rei_Kind = ''status'', rei_Stream = [],
         rei_Message = ''M4 worker claimed task; business processor pending'', rei_Payload = None, rei_Terminal = False\<rparr> db of
       (Inl e, db1) \<Rightarrow> ((StatusFailed, ''m4_event_persist_failed'', text e), db1)
     | (Inr _, db1) \<Rightarrow> ((StatusAwaitingApproval, [], ''business processor pending''), db1))"

section \<open>The loop (queue.go)\<close>

datatype 'd signal = Done | Tick env "nat \<Rightarrow> 'd \<Rightarrow> 'd"

datatype queue_error = QueueConfiguration | QueueError task_error

datatype queue_result = Waiting | Returned "queue_error option"

fun queue_loop ::
  "duration \<Rightarrow> string \<Rightarrow> 'd task_queue \<Rightarrow> 'd processor \<Rightarrow> 'd signal list \<Rightarrow> 'd \<Rightarrow> queue_result \<times> 'd" where
  "queue_loop lease owner q p [] db = (Waiting, db)"
| "queue_loop lease owner q p (Done # signals) db = (Returned None, db)"
| "queue_loop lease owner q p (Tick E bt # signals) db =
    (case q_Claim q (call E 0) owner lease (bt 0 db) of
       (Inl e, db1) \<Rightarrow>
         if e = ErrTaskNotFound then queue_loop lease owner q p signals db1 else (Returned (Some (QueueError e)), db1)
     | (Inr (task, run), db1) \<Rightarrow>
         (case p (call E 2) task run (bt 1 db1) of
            ((status, code, message), db2) \<Rightarrow>
              (case q_Complete q (call E 1) (task_ID task) (run_ID run) status code message (bt 2 db2) of
                 (Inl e, db3) \<Rightarrow> (Returned (Some (QueueError e)), db3)
               | (Inr _, db3) \<Rightarrow> queue_loop lease owner q p signals db3)))"

definition RunQueue ::
  "duration \<Rightarrow> duration \<Rightarrow> string \<Rightarrow> 'd task_queue option \<Rightarrow> 'd processor option \<Rightarrow> 'd signal list \<Rightarrow> 'd \<Rightarrow> queue_result \<times> 'd" where
  "RunQueue poll lease owner queue processor signals db =
    (case (queue, processor) of
       (Some q, Some p) \<Rightarrow>
         if poll \<le> 0 \<or> lease \<le> 0 \<or> blank owner then (Returned (Some QueueConfiguration), db)
         else queue_loop lease owner q p signals db
     | _ \<Rightarrow> (Returned (Some QueueConfiguration), db))"

text \<open>The queue of the database: the task service.\<close>

definition database_queue :: "(string \<Rightarrow> bool) \<Rightarrow> 'z tasks_db_scheme task_queue" where
  "database_queue locked = \<lparr>q_Claim = service_Claim locked, q_Heartbeat = service_Heartbeat, q_Complete = service_Complete\<rparr>"

section \<open>The health loop (worker.go)\<close>

datatype health_signal = HealthDone | HealthTick "string option"

fun health_loop :: "health_signal list \<Rightarrow> (string option) option" where
  "health_loop [] = None"
| "health_loop (HealthDone # signals) = Some None"
| "health_loop (HealthTick ping # signals) =
    (case ping of Some e \<Rightarrow> Some (Some (''worker database health check: '' @ e)) | None \<Rightarrow> health_loop signals)"

section \<open>What the loop relies on\<close>

text \<open>
  The contract of a durable queue, as the loop uses it: claims and completions are steps of the system the queue belongs to, and the run of
  a claim has an identifier.
\<close>

locale durable_queue =
  fixes q :: "'d task_queue"
    and step :: "'d \<Rightarrow> 'd \<Rightarrow> bool"
  assumes claim_step: "q_Claim q E owner lease db = (res, db') \<Longrightarrow> step\<^sup>*\<^sup>* db db'"
    and claim_run: "q_Claim q E owner lease db = (Inr (task, run), db') \<Longrightarrow> run_ID run \<noteq> []"
    and complete_step: "i \<noteq> [] \<Longrightarrow> q_Complete q E t i status code message db = (ru, db') \<Longrightarrow> step\<^sup>*\<^sup>* db db'"
begin

lemma loop_steps:
  assumes "\<And>E task run db. step\<^sup>*\<^sup>* db (snd (p E task run db))" "\<forall>E bt. Tick E bt \<in> set signals \<longrightarrow> (\<forall>n d. step\<^sup>*\<^sup>* d (bt n d))"
  shows "step\<^sup>*\<^sup>* db (snd (queue_loop lease owner q p signals db))"
  using assms(2)
proof (induction signals arbitrary: db)
  case (Cons s signals)
  have IH: "step\<^sup>*\<^sup>* d (snd (queue_loop lease owner q p signals d))" for d using Cons by auto
  show ?case
  proof (cases s)
    case (Tick E bt)
    have gap: "step\<^sup>*\<^sup>* d (bt n d)" for n d using Cons.prems Tick by auto
    obtain r db1 where c: "q_Claim q (call E 0) owner lease (bt 0 db) = (r, db1)" by fastforce
    have 1: "step\<^sup>*\<^sup>* db db1" using gap claim_step [OF c] by (rule rtranclp_trans)
    show ?thesis
    proof (cases r)
      case (Inl e)
      then show ?thesis using Tick c 1 rtranclp_trans [OF 1 IH [of db1]] by simp
    next
      case (Inr tr)
      obtain task run where tr: "tr = (task, run)" by fastforce
      obtain status code message db2 where pr: "p (call E 2) task run (bt 1 db1) = ((status, code, message), db2)"
        by (metis prod.exhaust)
      obtain u db3 where d: "q_Complete q (call E 1) (task_ID task) (run_ID run) status code message (bt 2 db2) = (u, db3)" by fastforce
      have "step\<^sup>*\<^sup>* (bt 1 db1) db2" using assms(1) [of "bt 1 db1" "call E 2" task run] pr by simp
      moreover have "step\<^sup>*\<^sup>* (bt 2 db2) db3"
        using complete_step [OF _ d] claim_run [of "call E 0" owner lease "bt 0 db" task run db1] c Inr tr by simp
      ultimately have 3: "step\<^sup>*\<^sup>* db db3" using 1 gap rtranclp_trans by metis
      then show ?thesis
        using Tick c Inr tr pr d rtranclp_trans [OF 3 IH [of db3]] by (cases u) auto
    qed
  qed simp
qed simp

end

text \<open>A queue that ends runs: a completion that succeeds in a good state leaves no run of that identifier running.\<close>

locale finishing_queue = durable_queue +
  fixes good :: "'d \<Rightarrow> bool"
    and running :: "string \<Rightarrow> 'd \<Rightarrow> bool"
  assumes good_step: "step db db' \<Longrightarrow> good db \<Longrightarrow> good db'"
    and complete_ends: "good db \<Longrightarrow> i \<noteq> [] \<Longrightarrow> q_Complete q E t i status code message db = (Inr u, db') \<Longrightarrow> \<not> running i db'"
begin

lemma good_star: "step\<^sup>*\<^sup>* db db' \<Longrightarrow> good db \<Longrightarrow> good db'"
  by (induction rule: rtranclp_induct) (auto intro: good_step)

lemma tick_ends:
  assumes "\<And>E task run db. step\<^sup>*\<^sup>* db (snd (p E task run db))" "\<And>n d. step\<^sup>*\<^sup>* d (bt n d)" "good db"
    and "queue_loop lease owner q p [Tick E bt] db = (Waiting, db')"
    and "q_Claim q (call E 0) owner lease (bt 0 db) = (Inr (task, run), db1)"
  shows "\<not> running (run_ID run) db'"
proof -
  obtain status code message db2 where pr: "p (call E 2) task run (bt 1 db1) = ((status, code, message), db2)" by (metis prod.exhaust)
  have "step\<^sup>*\<^sup>* (bt 1 db1) db2" using assms(1) [of "bt 1 db1" "call E 2" task run] pr by simp
  then have "step\<^sup>*\<^sup>* db (bt 2 db2)"
    using assms(2) claim_step [OF assms(5)] by (metis rtranclp_trans)
  then have "good (bt 2 db2)" using good_star assms(3) by blast
  with assms(4,5) pr show ?thesis
    using complete_ends [OF _ claim_run [OF assms(5)]] by (auto split: prod.splits sum.splits)
qed

end

section \<open>The database queue\<close>

definition run_running :: "string \<Rightarrow> 'z tasks_db_scheme \<Rightarrow> bool" where
  "run_running i db \<longleftrightarrow> (\<exists>r \<in> set (runs db). run_ID r = i \<and> run_Status r = StatusRunning)"

lemma Claim_run_ID: "ClaimTask locked E owner lease db = (Inr (task, run), db') \<Longrightarrow> run_ID run \<noteq> []"
  by (erule ClaimTask_effect) (simp add: started_run_def)

lemma CompleteTask_ends:
  assumes "tasks_inv db" "i \<noteq> []" "CompleteTask E t i status code message db = (Inr u, db')"
  shows "\<not> run_running i db'"
proof -
  have uniq: "r = r'" if "r \<in> set (runs db)" "r' \<in> set (runs db)" "run_ID r = run_ID r'" for r r'
    using assms(1) that by (auto simp: tasks_inv_def runs_wf_def distinct_map dest: inj_onD)
  from assms(2,3) obtain r task where r: "find (\<lambda>r. run_ID r = i \<and> run_TaskID r = t) (runs db) = Some r"
    and task: "select_by task_ID t (tasks db) = Some task"
    by (auto simp: CompleteTask_def Let_def split: if_splits option.splits)
  then have row: "r \<in> set (runs db)" "run_ID r = i" "run_TaskID r = t" by (auto simp: find_Some_iff)
  have st: "status \<in> {StatusSucceeded, StatusFailed, StatusCancelled, StatusAwaitingApproval}"
    using assms(3) by (auto simp: CompleteTask_def split: if_splits)
  show ?thesis
  proof (cases "run_Status r = StatusRunning")
    case True
    have "task_Status task = StatusRunning"
      using assms(1) select_by_SomeD [OF task] row True by (auto simp: tasks_inv_def runs_wf_def run_link_def)
    with assms(2,3) r task True st have runs': "runs db' = update_where (\<lambda>r. run_ID r = i \<and> run_TaskID r = t)
        (complete_run (clock E) (terminal_status status) status code message) (runs db)"
      by (auto simp: CompleteTask_def Let_def split: if_splits)
    show ?thesis
    proof
      assume "run_running i db'"
      then obtain r2 where r2: "r2 \<in> set (runs db')" "run_ID r2 = i" "run_Status r2 = StatusRunning"
        unfolding run_running_def by blast
      from r2(1) obtain r0 where r0: "r0 \<in> set (runs db)" "r2 = (if run_ID r0 = i \<and> run_TaskID r0 = t
          then complete_run (clock E) (terminal_status status) status code message r0 else r0)"
        unfolding runs' set_update_where by blast
      then have "run_ID r0 = i" using r2(2) by (simp add: complete_run_def split: if_splits)
      with uniq [OF r0(1) row(1)] row(2) have "r0 = r" by simp
      with r0(2) r2(3) row st show False by (auto simp: complete_run_def)
    qed
  next
    case False
    with assms(2,3) r task have "db' = db" by (auto simp: CompleteTask_def Let_def split: if_splits)
    with False row uniq show ?thesis by (auto simp: run_running_def)
  qed
qed

interpretation repair_worker: durable_queue "database_queue locked" "repair_step W"
proof (unfold_locales, goal_cases)
  case (1 E owner lease db res db')
  then show ?case
    by (auto simp: database_queue_def service_Claim_def intro!: r_into_rtranclp rs_approvals ap_task st_claim)
next
  case (2 E owner lease db task run db')
  then show ?case using Claim_run_ID by (fastforce simp: database_queue_def service_Claim_def)
next
  case (3 i E t status code message db ru db')
  then show ?case
    by (auto simp: database_queue_def service_Complete_def intro!: r_into_rtranclp rs_approvals ap_task st_complete)
qed

text \<open>With both invariants a good state, the same queue ends its runs under the steps of the whole repair system.\<close>

definition worker_inv :: "world \<Rightarrow> 'z repairs_db_scheme \<Rightarrow> bool" where
  "worker_inv W db \<longleftrightarrow> json_ok W \<and> repairs_inv W db \<and> tasks_inv db"

lemma worker_inv_step: "repair_step W db db' \<Longrightarrow> worker_inv W db \<Longrightarrow> worker_inv W db'"
  using repair_step_guar [of W db db'] by (auto simp: worker_inv_def guar_def ext_def keep_def)

interpretation worker_system: transition_system "\<lambda>db. repairs_empty db \<and> tasks_empty db" "repair_step W"
  "\<lambda>db. json_ok W \<longrightarrow> worker_inv W db"
proof (unfold_locales, goal_cases)
  case (1 db)
  then show ?case
    using tasks_empty_inv [of db]
    by (simp add: worker_inv_def repairs_empty_def repairs_inv_def approvals_empty_def approvals_inv_def)
next
  case (2 db db')
  then show ?case using worker_inv_step by blast
qed

interpretation worker_queue: finishing_queue "database_queue locked" "repair_step W" "worker_inv W" run_running
proof (unfold_locales, goal_cases)
  case (1 db db')
  then show ?case by (rule worker_inv_step)
next
  case (2 db i E t status code message u db')
  from CompleteTask_ends [of db] 2 show ?case by (auto simp: database_queue_def service_Complete_def worker_inv_def)
qed

section \<open>The worker process (cmd/repomender/main.go)\<close>

text \<open>
  The processors the worker registers for the features that are switched on; kinds without one go to the core processor. Each runs with other
  processes acting in its gaps.
\<close>

record worker_config =
  FeatureM5CodeReview :: bool
  FeatureM6CIDiagnosis :: bool
  FeatureM8IssueRepair :: bool
  FeatureM10Hardening :: bool
  RetentionDays :: int
  WorkerPoll :: duration

definition worker_processors ::
  "worker_config \<Rightarrow> world \<Rightarrow> review_world \<Rightarrow> diagnosis_world \<Rightarrow> (nat \<Rightarrow> 'z repairs_db_scheme \<Rightarrow> 'z repairs_db_scheme) \<Rightarrow>
   (task_error \<Rightarrow> string) \<Rightarrow> 'z repairs_db_scheme MultiplexProcessor option" where
  "worker_processors cfg W V D bt text =
    (let p0 = NewMultiplexProcessor (Some (Core_Process text True));
       p1 = (if FeatureM5CodeReview cfg then Register KindCodeReview (Some (review_Process V bt)) p0 else p0);
       p2 = (if FeatureM6CIDiagnosis cfg then Register KindCIDiagnosis (Some (diagnosis_Process D bt)) p1 else p1)
     in if FeatureM8IssueRepair cfg then Register KindIssueRepair (Some (Process W bt)) p2 else p2)"

text \<open>A duration is a 64-bit count of nanoseconds, so that the multiplication wraps; a lease that is too short becomes five seconds.\<close>

definition worker_lease :: "worker_config \<Rightarrow> duration" where
  "worker_lease cfg =
    (let lease = signed_take_bit 63 (WorkerPoll cfg * 3) in if lease < 5 * second then 5 * second else lease)"

definition run_worker ::
  "worker_config \<Rightarrow> world \<Rightarrow> review_world \<Rightarrow> diagnosis_world \<Rightarrow> (nat \<Rightarrow> 'z repairs_db_scheme \<Rightarrow> 'z repairs_db_scheme) \<Rightarrow>
   (task_error \<Rightarrow> string) \<Rightarrow> string \<Rightarrow> (string \<Rightarrow> bool) \<Rightarrow> 'z repairs_db_scheme signal list \<Rightarrow> 'z repairs_db_scheme \<Rightarrow>
   queue_result \<times> 'z repairs_db_scheme" where
  "run_worker cfg W V D bt text owner locked signals db =
    RunQueue (WorkerPoll cfg) (worker_lease cfg) owner (Some (database_queue locked))
      (Some (Multiplex_Process (worker_processors cfg W V D bt text))) signals db"

text \<open>
  With M10 the process also starts the retention loop, which runs beside the queue loop. One tick of it, on the tables of this system: the cutoff, and the transaction
  unless it fails. Its effect on the other tables is in Retention.
\<close>

definition retention_tick :: "worker_config \<Rightarrow> env \<Rightarrow> time \<Rightarrow> 'z tasks_db_scheme \<Rightarrow> 'z tasks_db_scheme" where
  "retention_tick cfg E now db =
    (if \<not> FeatureM10Hardening cfg then db
     else case Cutoff now (RetentionDays cfg) of
       Inl _ \<Rightarrow> db
     | Inr cutoff \<Rightarrow>
         if IsZero cutoff \<or> fails E 0 \<or> fails E 1 \<or> fails E 2 \<or> fails E 3 \<or> fails E 4 \<or> fails E 5 then db
         else prune_history cutoff db)"

text \<open>What may happen beside the queue loop: a step of another process, or a tick of the retention loop.\<close>

inductive worker_env :: "worker_config \<Rightarrow> world \<Rightarrow> 'z repairs_db_scheme \<Rightarrow> 'z repairs_db_scheme \<Rightarrow> bool" for cfg W where
  we_step: "repair_step W db db' \<Longrightarrow> worker_env cfg W db db'"
| we_retention: "worker_env cfg W db (retention_tick cfg E now db)"

lemma retention_tick_step: "(repair_step W)\<^sup>*\<^sup>* db (retention_tick cfg E now db)"
  by (auto simp: retention_tick_def intro!: r_into_rtranclp rs_approvals ap_task st_prune split: sum.split)

lemma worker_env_steps: "(worker_env cfg W)\<^sup>*\<^sup>* db db' \<Longrightarrow> (repair_step W)\<^sup>*\<^sup>* db db'"
proof (induction rule: rtranclp_induct)
  case (step y z)
  from step(2) have "(repair_step W)\<^sup>*\<^sup>* y z" by cases (auto intro: retention_tick_step)
  with step(3) show ?case by (rule rtranclp_trans)
qed simp

interpretation repair_tasks: task_client "repair_step W"
  by unfold_locales (intro rs_approvals ap_task)

lemma Core_Process_step: "task_step\<^sup>*\<^sup>* db (snd (Core_Process text available E task run db))"
proof -
  have "task_step db (snd (service_AppendEvent E i ei db))" for i ei
    unfolding service_AppendEvent_def by (rule st_event) (rule prod.collapse [symmetric])
  then show ?thesis
    by (auto simp: Core_Process_def split: prod.splits sum.splits intro!: r_into_rtranclp) (metis snd_conv)+
qed

lemma task_steps_repair: "task_step\<^sup>*\<^sup>* db db' \<Longrightarrow> (repair_step W)\<^sup>*\<^sup>* db db'"
  by (induction rule: rtranclp_induct) (auto intro: rtranclp.rtrancl_into_rtrancl rs_approvals ap_task)

lemma worker_processors_steps:
  assumes "\<And>n d. (repair_step W)\<^sup>*\<^sup>* d (bt n d)"
  shows "(repair_step W)\<^sup>*\<^sup>* db (snd (Multiplex_Process (worker_processors cfg W V D bt text) E task run db))"
proof -
  have "(repair_step W)\<^sup>*\<^sup>* db (snd (Process W bt E task run db))"
    by (rule r_into_rtranclp) (use rs_process [of W bt "w_provider W" "w_adapter W", OF assms prod.collapse [symmetric]] in simp)
  moreover have "(repair_step W)\<^sup>*\<^sup>* db (snd (Core_Process text True E task run db))"
    by (rule task_steps_repair [OF Core_Process_step])
  moreover have "(repair_step W)\<^sup>*\<^sup>* db (snd (review_Process V bt E task run db))"
    by (rule repair_tasks.review_Process_steps [OF assms prod.collapse [symmetric]])
  moreover have "(repair_step W)\<^sup>*\<^sup>* db (snd (diagnosis_Process D bt E task run db))"
    by (rule repair_tasks.diagnosis_Process_steps [OF assms prod.collapse [symmetric]])
  ultimately show ?thesis
    by (auto simp: Multiplex_Process_def worker_processors_def Register_def NewMultiplexProcessor_def Let_def split: option.splits if_splits)
qed

lemma run_worker_eq:
  "run_worker cfg W V D bt text owner locked signals db =
    (if WorkerPoll cfg \<le> 0 \<or> blank owner then (Returned (Some QueueConfiguration), db)
     else queue_loop (worker_lease cfg) owner (database_queue locked) (Multiplex_Process (worker_processors cfg W V D bt text)) signals db)"
  by (simp add: run_worker_def RunQueue_def worker_lease_def Let_def)

section \<open>Properties\<close>

definition sample_config :: worker_config where
  "sample_config = \<lparr>FeatureM5CodeReview = True, FeatureM6CIDiagnosis = True, FeatureM8IssueRepair = True, FeatureM10Hardening = True,
     RetentionDays = 30, WorkerPoll = 5\<rparr>"

text \<open>
  C10. The worker process refines the system. However long the worker runs, with whichever features switched on, whatever the agent runtime and the
  SCM provider answer, the database it leaves behind is a reachable state of the repair system. Between its calls and inside its phases other
  processes act by operations of the task queue, the approval service and the repair service, and with M10 the retention loop that the process starts
  removes old run events and audit events. Everything proved of reachable states, such as that only approved patches are published, therefore holds of what the worker
  does.
\<close>

theorem worker_refines_system:
  assumes "reachable repairs_empty (repair_step W) db" "\<And>n d. (worker_env cfg W)\<^sup>*\<^sup>* d (bt n d)"
    and "\<And>E gap n d. Tick E gap \<in> set signals \<Longrightarrow> (worker_env cfg W)\<^sup>*\<^sup>* d (gap n d)"
  shows "reachable repairs_empty (repair_step W) (snd (run_worker cfg W V D bt text owner locked signals db))"
proof -
  have "(repair_step W)\<^sup>*\<^sup>* db (snd (queue_loop (worker_lease cfg) owner (database_queue locked)
      (Multiplex_Process (worker_processors cfg W V D bt text)) signals db))"
  proof (rule repair_worker.loop_steps)
    show "(repair_step W)\<^sup>*\<^sup>* d (snd (Multiplex_Process (worker_processors cfg W V D bt text) E task run d))" for E task run d
      by (rule worker_processors_steps [OF worker_env_steps [OF assms(2)]])
    show "\<forall>E gap. Tick E gap \<in> set signals \<longrightarrow> (\<forall>n d. (repair_step W)\<^sup>*\<^sup>* d (gap n d))"
      using worker_env_steps [OF assms(3)] by blast
  qed
  then have "(repair_step W)\<^sup>*\<^sup>* db (snd (run_worker cfg W V D bt text owner locked signals db))"
    by (simp add: run_worker_eq)
  then show ?thesis using assms(1) by (rule repair_service.reachable_star)
qed

theorem worker_refines_system_witness:
  "reachable repairs_empty (repair_step sample_world) (snd (run_worker sample_config sample_world sample_review sample_diagnosis (\<lambda>_ d. d)
     (\<lambda>_. []) ''w1'' (\<lambda>_. False) [Tick (stage_env 2) (\<lambda>_. retention_tick sample_config (stage_env 3) (31 * 24 * hour)), Done] rdb1))"
  by (rule worker_refines_system [OF sample_reachable(1)]) (auto intro: we_retention)

text \<open>
  C36. A worker never leaves a run behind: on every poll on which its loop goes on, the run it claimed is no longer running afterwards, whichever processor handled the task and
  whatever it reported, and whatever happened to the task meanwhile by operations of the task queue, the approval service and the repair service and by the
  retention loop. The database starts with no tasks and no repairs, and a patch that JSON encodes is read back unchanged.
\<close>

theorem worker_finishes_run:
  assumes "json_ok W" "reachable (\<lambda>db. repairs_empty db \<and> tasks_empty db) (repair_step W) db"
    and "\<And>n d. (worker_env cfg W)\<^sup>*\<^sup>* d (bt n d)" "\<And>n d. (worker_env cfg W)\<^sup>*\<^sup>* d (gap n d)"
    and "run_worker cfg W V D bt text owner locked [Tick E gap] db = (Waiting, db')"
    and "service_Claim locked (call E 0) owner (worker_lease cfg) (gap 0 db) = (Inr (task, run), db1)"
  shows "\<not> run_running (run_ID run) db'"
proof (rule worker_queue.tick_ends)
  show "queue_loop (worker_lease cfg) owner (database_queue locked) (Multiplex_Process (worker_processors cfg W V D bt text)) [Tick E gap] db = (Waiting, db')"
    using assms(5) by (auto simp: run_worker_eq split: if_splits)
  show "q_Claim (database_queue locked) (call E 0) owner (worker_lease cfg) (gap 0 db) = (Inr (task, run), db1)"
    using assms(6) by (simp add: database_queue_def)
  show "worker_inv W db" using worker_system.reachable_inv [OF assms(2)] assms(1) by simp
  show "(repair_step W)\<^sup>*\<^sup>* d (gap n d)" for n d by (rule worker_env_steps [OF assms(4)])
  show "(repair_step W)\<^sup>*\<^sup>* d (snd (Multiplex_Process (worker_processors cfg W V D bt text) E task run d))" for E task run d
    by (rule worker_processors_steps [OF worker_env_steps [OF assms(3)]])
qed

definition sample_poll :: "queue_result \<times> repairs_db" where
  "sample_poll = run_worker sample_config sample_world sample_review sample_diagnosis (\<lambda>_ d. d) (\<lambda>_. []) ''w1'' (\<lambda>_. False)
     [Tick (stage_env 2) (\<lambda>_ d. d)] rdb1"

definition sample_claim :: "(task_error, Task \<times> Run, repairs_db) outcome" where
  "sample_claim = service_Claim (\<lambda>_. False) (call (stage_env 2) 0) ''w1'' (worker_lease sample_config) rdb1"

lemma sample_poll_waits: "fst sample_poll = Waiting" "\<not> isl (fst sample_claim)"
  by code_simp+

theorem worker_finishes_run_witness: "\<not> run_running (run_ID (snd (projr (fst sample_claim)))) (snd sample_poll)"
proof -
  obtain task run where c: "fst sample_claim = Inr (task, run)"
    using sample_poll_waits(2) by (cases "fst sample_claim") auto
  have start: "reachable (\<lambda>db. repairs_empty db \<and> tasks_empty db) (repair_step sample_world) rdb0"
    by (rule reach_start) (simp add: repairs_empty_def approvals_empty_def tasks_empty_def rdb0_def)
  have "repair_step sample_world rdb0 rdb1" unfolding rdb1_def by (rule quiet_steps)
  with start have reach: "reachable (\<lambda>db. repairs_empty db \<and> tasks_empty db) (repair_step sample_world) rdb1" by (rule reach_step)
  have poll: "run_worker sample_config sample_world sample_review sample_diagnosis (\<lambda>_ d. d) (\<lambda>_. []) ''w1'' (\<lambda>_. False)
      [Tick (stage_env 2) (\<lambda>_ d. d)] rdb1 = (Waiting, snd sample_poll)"
    using sample_poll_waits(1) by (simp add: prod_eq_iff flip: sample_poll_def)
  have claim: "service_Claim (\<lambda>_. False) (call (stage_env 2) 0) ''w1'' (worker_lease sample_config) rdb1 = (Inr (task, run), snd sample_claim)"
    using c by (simp add: prod_eq_iff flip: sample_claim_def)
  have "\<not> run_running (run_ID run) (snd sample_poll)"
    by (rule worker_finishes_run [OF sample_world_json reach _ _ poll claim]) simp_all
  with c show ?thesis by simp
qed

end
