(* ===== verification/Retention.thy ===== *)
theory Retention
  imports Webhooks Worker
begin

text \<open>
  Retention (\<open>src/server/internal/retention/retention.go\<close>): one transaction that removes history older than a cutoff from the run events, the audit log, the webhook
  deliveries and the completed outbox events. Its cutoff and what it does to the tables of the queue are in Tasks, where
  pruning is one of the steps of the system.
\<close>

record retention_result =
  rt_RunEvents :: int
  rt_AuditEvents :: int
  rt_WebhookDeliveries :: int
  rt_CompletedOutbox :: int

definition rows_affected :: "('r \<Rightarrow> bool) \<Rightarrow> 'r list \<Rightarrow> int" where
  "rows_affected P rows = int (length (filter P rows))"

definition old_delivery :: "time \<Rightarrow> DeliveryRow \<Rightarrow> bool" where
  "old_delivery cutoff d \<longleftrightarrow> dlv_ReceivedAt d < cutoff"

definition old_outbox :: "time \<Rightarrow> OutboxRow \<Rightarrow> bool" where
  "old_outbox cutoff ob \<longleftrightarrow> obx_State ob = ''completed'' \<and> obx_CreatedAt ob < cutoff"

definition Prune :: "env \<Rightarrow> time \<Rightarrow> server_db \<Rightarrow> (retention_error, retention_result, server_db) outcome" where
  "Prune E cutoff s =
    (if IsZero cutoff then (Inl (RetentionMessage ''retention requires a database and cutoff''), s)
     else if fails E 0 \<or> fails E 1 \<or> fails E 2 \<or> fails E 3 \<or> fails E 4 \<or> fails E 5 then (Inl (RetentionExternal ErrDatabase), s)
     else
       let core = srv_core s; d = srv_scm s
       in (Inr \<lparr>rt_RunEvents = rows_affected (old_event cutoff) (run_events core),
             rt_AuditEvents = rows_affected (old_audit cutoff) (audit_events core),
             rt_WebhookDeliveries = rows_affected (old_delivery cutoff) (webhook_deliveries d),
             rt_CompletedOutbox = rows_affected (old_outbox cutoff) (outbox_events d)\<rparr>,
           s\<lparr>srv_core := prune_history cutoff core,
             srv_scm := d\<lparr>webhook_deliveries := delete_where (old_delivery cutoff) (webhook_deliveries d),
               outbox_events := delete_where (old_outbox cutoff) (outbox_events d)\<rparr>\<rparr>))"

text \<open>
  The loop of the worker process (\<open>startRetentionLoop\<close> of main.go), which ticks once a day, or with the poll interval if that is longer. A tick is the environment of the
  transaction, the time it fires and what other processes did since the tick before; an error is logged, and the loop goes on.
\<close>

definition retention_interval :: "duration \<Rightarrow> duration" where
  "retention_interval poll = (if poll > 24 * hour then poll else 24 * hour)"

fun retention_loop :: "int \<Rightarrow> (env \<times> time \<times> (server_db \<Rightarrow> server_db)) list \<Rightarrow> server_db \<Rightarrow> server_db" where
  "retention_loop days [] s = s"
| "retention_loop days ((E, now, others) # ticks) s =
    (case Cutoff now days of
       Inl _ \<Rightarrow> retention_loop days ticks (others s)
     | Inr cutoff \<Rightarrow> retention_loop days ticks (snd (Prune E cutoff (others s))))"

text \<open>On the tables of the core, a tick of the loop is the tick of the worker process, a step of its environment.\<close>

lemma retention_loop_core:
  "srv_core (retention_loop days [(E, now, others)] s) = retention_tick (cfg\<lparr>FeatureM10Hardening := True, RetentionDays := days\<rparr>) E now (srv_core (others s))"
  by (auto simp: retention_tick_def Prune_def Let_def split: sum.split)

section \<open>Properties\<close>

lemma list_all2_filter_subseq: "list_all2 R xs ys \<Longrightarrow> \<exists>zs. subseq zs ys \<and> list_all2 R (filter P xs) zs"
proof (induction rule: list_all2_induct)
  case (Cons x xs y ys)
  then obtain zs where zs: "subseq zs ys" "list_all2 R (filter P xs) zs" by blast
  show ?case
  proof (cases "P x")
    case True
    with zs Cons.hyps show ?thesis by (intro exI [of _ "y # zs"]) auto
  next
    case False
    with zs show ?thesis by (intro exI [of _ zs]) auto
  qed
qed simp

lemma delete_none: "(\<And>r. r \<in> set rows \<Longrightarrow> \<not> P r) \<Longrightarrow> delete_where P rows = rows"
  by (simp add: delete_where_def)

text \<open>
  Pruning removes history only. A successful \<open>Prune\<close> removes exactly the run events, audit events and deliveries older than the cutoff and counts each of them; tasks, runs,
  findings, approvals, repairs, automations, connections and users are untouched, and an error changes nothing. Every delivery that is left still has its outbox event, so
  within the retention period a repeated delivery is still recognised; and since no part of the program completes an outbox event, none is ever removed.
\<close>

theorem prune_removes_history_only:
  assumes "scm_wf J (srv_scm s)" and "Prune E cutoff s = (r, s')"
  shows "scm_wf J (srv_scm s') \<and> outbox_events (srv_scm s') = outbox_events (srv_scm s) \<and>
    tasks (srv_core s') = tasks (srv_core s) \<and> runs (srv_core s') = runs (srv_core s) \<and> findings (srv_core s') = findings (srv_core s) \<and>
    tasks_db.more (srv_core s') = tasks_db.more (srv_core s) \<and> srv_runs s' = srv_runs s \<and> srv_templates s' = srv_templates s \<and> srv_auth s' = srv_auth s \<and>
    scm_connections (srv_scm s') = scm_connections (srv_scm s) \<and> repositories (srv_scm s') = repositories (srv_scm s) \<and>
    (case r of
       Inl _ \<Rightarrow> s' = s
     | Inr result \<Rightarrow>
         set (webhook_deliveries (srv_scm s')) = {d \<in> set (webhook_deliveries (srv_scm s)). cutoff \<le> dlv_ReceivedAt d} \<and>
         int (length (webhook_deliveries (srv_scm s))) = rt_WebhookDeliveries result + int (length (webhook_deliveries (srv_scm s'))) \<and>
         set (run_events (srv_core s')) = {e \<in> set (run_events (srv_core s)). cutoff \<le> ev_CreatedAt e} \<and>
         set (audit_events (srv_core s')) = {e \<in> set (audit_events (srv_core s)). cutoff \<le> aud_CreatedAt e} \<and>
         rt_CompletedOutbox result = 0)"
proof (cases r)
  case (Inl e)
  with assms show ?thesis by (auto simp: Prune_def Let_def split: if_splits)
next
  case (Inr result)
  let ?d = "srv_scm s"
  have pending: "\<not> old_outbox cutoff ob" if "ob \<in> set (outbox_events ?d)" for ob
    using assms(1) that by (auto simp: scm_wf_def old_outbox_def)
  then have outbox: "delete_where (old_outbox cutoff) (outbox_events ?d) = outbox_events ?d" by (rule delete_none)
  have "scm_wf J (?d\<lparr>webhook_deliveries := delete_where (old_delivery cutoff) (webhook_deliveries ?d)\<rparr>)"
  proof -
    obtain obs where "subseq obs (outbox_events ?d)" "list_all2 (announces J) (webhook_deliveries ?d) obs"
      using assms(1) by (auto simp: scm_wf_def)
    then obtain zs where "subseq zs (outbox_events ?d)" "list_all2 (announces J) (delete_where (old_delivery cutoff) (webhook_deliveries ?d)) zs"
      unfolding delete_where_def using list_all2_filter_subseq subseq_order.trans by blast
    then show ?thesis using assms(1) by (auto simp: scm_wf_def distinct_delete_where)
  qed
  moreover have "rows_affected (old_outbox cutoff) (outbox_events ?d) = 0"
    using pending by (simp add: rows_affected_def filter_empty_conv)
  moreover have "int (length (webhook_deliveries ?d)) = rows_affected (old_delivery cutoff) (webhook_deliveries ?d) +
      int (length (delete_where (old_delivery cutoff) (webhook_deliveries ?d)))"
    using sum_length_filter_compl [of "old_delivery cutoff" "webhook_deliveries ?d"] by (simp add: rows_affected_def delete_where_def flip: of_nat_add)
  ultimately show ?thesis
    using assms(2) Inr outbox
    by (auto simp: Prune_def Let_def table_simps prune_history_def old_delivery_def old_event_def old_audit_def split: if_splits)
qed

text \<open>
  The loop keeps what is recent: however often it ticks and whatever fails, a delivery and an event of the audit log that are younger than the retention period at every tick, and that the other
  processes keep, are still there, so that a repeated delivery is recognised as long as the period says.
\<close>

theorem retention_keeps_recent:
  assumes "list_all (\<lambda>(E, now, others). now - days * 24 * hour \<le> dlv_ReceivedAt d \<and> now - days * 24 * hour \<le> aud_CreatedAt a) ticks"
    and "list_all (\<lambda>(E, now, others). \<forall>s. d \<in> set (webhook_deliveries (srv_scm s)) \<and> a \<in> set (audit_events (srv_core s)) \<longrightarrow>
      d \<in> set (webhook_deliveries (srv_scm (others s))) \<and> a \<in> set (audit_events (srv_core (others s)))) ticks"
    and "d \<in> set (webhook_deliveries (srv_scm s))" "a \<in> set (audit_events (srv_core s))"
  shows "d \<in> set (webhook_deliveries (srv_scm (retention_loop days ticks s))) \<and> a \<in> set (audit_events (srv_core (retention_loop days ticks s)))"
  using assms
proof (induction days ticks s rule: retention_loop.induct)
  case (2 days E now others ticks s)
  let ?kept = "\<lambda>s. d \<in> set (webhook_deliveries (srv_scm s)) \<and> a \<in> set (audit_events (srv_core s))"
  have "?kept (others s)" using "2.prems"(2-4) by simp
  moreover have "?kept (snd (Prune E cutoff s'))" if "Cutoff now days = Inr cutoff" "?kept s'" for cutoff s'
    using that "2.prems"(1) by (auto simp: Cutoff_def Prune_def prune_history_def Let_def table_simps old_delivery_def old_audit_def split: if_splits)
  ultimately show ?case
    using "2.IH" "2.prems"(1,2) by (simp split: sum.split)
qed simp

definition sample_retained :: server_db where
  "sample_retained = sample_server_db\<lparr>srv_scm := snd (RecordWebhook sample_codec (sample_scm_env 3) ProviderGitHub (sample_event ''d1'') [1] 3 empty_scm)\<rparr>"

theorem prune_removes_history_only_witness:
  "\<exists>result s'. Prune (sample_scm_env 20) 10 sample_retained = (Inr result, s') \<and> webhook_deliveries (srv_scm s') = [] \<and>
    length (outbox_events (srv_scm s')) = 1 \<and> scm_wf sample_codec (srv_scm s')"
proof -
  let ?run = "Prune (sample_scm_env 20) 10 sample_retained"
  have "\<not> isl (fst ?run)" "webhook_deliveries (srv_scm (snd ?run)) = []" "length (outbox_events (srv_scm sample_retained)) = 1" by code_simp+
  then obtain result s' where run: "?run = (Inr result, s')" and left: "webhook_deliveries (srv_scm s') = []"
    using outcome_Inr [of ?run] by (metis snd_conv)
  have "scm_wf sample_codec (srv_scm sample_retained)"
    unfolding sample_retained_def using RecordWebhook_wf [OF empty_scm_wf] by simp
  from prune_removes_history_only [OF this run] run left \<open>length (outbox_events (srv_scm sample_retained)) = 1\<close> show ?thesis by auto
qed

end
