(* ===== verification/AgentCompose.thy ===== *)
theory AgentCompose
  imports GitHub
begin

text \<open>
  The client of the execution daemon (\<open>src/server/internal/execution/agentcompose\<close>: client.go and execution.go, with the interface of
  \<open>execution/execution.go\<close>): health, starting a run, following its log stream, cancelling it and reading its result.

  \<^item> The daemon and the network are \<open>ac_Do\<close>, which answers a request with a response or a transport error; a transport error says whether the context was
    cancelled or a deadline passed. JSON encoders and decoders, \<open>time.Parse\<close> and the Unicode tables are the other fields of \<open>ac_world\<close>.
  \<^item> A response body is the bytes that arrive; \<open>ars_Broken\<close> is the read error after them (\<open>None\<close> is the end of the stream).
  \<^item> An error is the sentinel it wraps and its message; an error that wraps none is \<open>Plain\<close>.
  \<^item> The map of run deadlines (\<open>sync.Map\<close>) is state that \<open>Start\<close> and \<open>Events\<close> return updated.
\<close>

section \<open>Data\<close>

datatype ac_kind = ErrUnavailable | ErrRejected | ErrIncompatible | ErrTimeout | ErrCancelled | ErrSandboxFailed | ErrAgentFailed
  | ErrMalformedResponse | ErrStreamDropped

datatype ac_error = AC ac_kind string | Plain string

record ac_config =
  acc_BaseURL :: string
  acc_AuthToken :: string
  acc_RequiredVersion :: string
  acc_RequiredDriver :: string
  acc_RequestTimeout :: duration
  acc_SensitivePatterns :: "string list"

record Client =
  cl_baseURL :: string
  cl_authToken :: string
  cl_requiredVersion :: string
  cl_requiredDriver :: string
  cl_requestTimeout :: duration
  cl_redactor :: "string list"

type_synonym deadlines = "string \<rightharpoonup> time"

record transport_error =
  te_canceled :: bool
  te_deadline :: bool
  te_text :: string

record ac_request =
  aq_Method :: string
  aq_URL :: string
  aq_Headers :: "(string \<times> string) list"
  aq_Body :: string

record ac_response =
  ars_StatusCode :: int
  ars_ContentType :: string
  ars_Body :: string
  ars_Broken :: "string option"

record VersionInfo =
  vi_Version :: string
  vi_OS :: string
  vi_Arch :: string
  vi_CompiledDrivers :: "string list"

record versionEnvelope =
  ve_Error :: string
  ve_Data :: VersionInfo

record runSummary =
  sum_RunID :: string
  sum_Status :: string
  sum_Error :: string
  sum_StartedAt :: string
  sum_CompletedAt :: string

record runDetail =
  rd_Summary :: runSummary
  rd_Output :: string
  rd_ResultJSON :: string

record runAgentRequest =
  ra_ProjectID :: string
  ra_AgentName :: string
  ra_Prompt :: string
  ra_Source :: string
  ra_CleanupPolicy :: string
  ra_OutputSchemaJSON :: string
  ra_ClientRequestID :: string
  ra_Driver :: string
  ra_PayloadJSON :: string

record executionPayload =
  ep_SchemaVersion :: string
  ep_CorrelationID :: string
  ep_Repository :: string
  ep_Commit :: string
  ep_TimeoutSeconds :: int
  ep_NetworkEnabled :: bool

record logChunk =
  lc_Data :: string
  lc_Offset :: "string option"
  lc_IsFinal :: bool
  lc_RunStatus :: string
  lc_CreatedAt :: string
  lc_Run :: runSummary

record Event = exec_event +
  evt_Sequence :: int
  evt_RunID :: string
  evt_CreatedAt :: time

record execution_run =
  xrun_ID :: string
  xrun_CorrelationID :: string
  xrun_StartedAt :: time

record execution_result =
  res_SchemaVersion :: string
  res_RunID :: string
  res_Status :: string
  res_Output :: json
  res_FinishedAt :: time

text \<open>
  \<open>ac_unquote\<close> decodes a JSON string, \<open>ac_quote\<close> is \<open>%q\<close>. \<open>lc_Offset\<close> is the raw JSON of the field, \<open>None\<close> when it is absent: its decoder is part of the source. \<open>ac_decode_value\<close> is a decoder reading one
  \<open>json.RawMessage\<close>, \<open>ac_end_error\<close> the end-stream envelope with its error (code and message), if any.
\<close>

record ac_world =
  ac_NewRequest :: "string \<Rightarrow> string option"
  ac_Do :: "ac_request \<Rightarrow> transport_error + ac_response"
  ac_uni :: "string \<Rightarrow> string"
  ac_parse_time :: "string \<Rightarrow> time"
  ac_unquote :: "string \<Rightarrow> string option"
  ac_quote :: "string \<Rightarrow> string"
  ac_marshal_payload :: "executionPayload \<Rightarrow> json"
  ac_marshal_run :: "runAgentRequest \<Rightarrow> json"
  ac_marshal_follow :: "string \<Rightarrow> string \<Rightarrow> json"
  ac_marshal_strings :: "(string \<times> string) list \<Rightarrow> json"
  ac_unmarshal_version :: "string \<Rightarrow> string + versionEnvelope"
  ac_decode_start :: "string \<Rightarrow> string + runSummary \<times> bool"
  ac_decode_get :: "string \<Rightarrow> string + runDetail"
  ac_decode_stop :: "string \<Rightarrow> string + runDetail \<times> bool"
  ac_unmarshal_error :: "string \<Rightarrow> (string \<times> string) option"
  ac_end_error :: "string \<Rightarrow> (string \<times> string) option option"
  ac_unmarshal_chunk :: "string \<Rightarrow> string + logChunk"
  ac_decode_value :: "string \<Rightarrow> string option"
  ac_unmarshal_envelope :: "string \<Rightarrow> (string \<times> string) option"

section \<open>The redactor\<close>

definition newRedactor :: "string list \<Rightarrow> string list" where
  "newRedactor vals = filter (\<lambda>v. 4 \<le> length v) (map TrimSpace vals)"

definition Redact :: "string list \<Rightarrow> string \<Rightarrow> string" where
  "Redact vals text = foldl (\<lambda>t sensitive. ReplaceAll t sensitive ''[REDACTED]'') text vals"

definition ac_New :: "ac_config \<Rightarrow> string + Client" where
  "ac_New cfg =
    (if blank (acc_BaseURL cfg) then Inl ''Agent Compose base URL is required''
     else if acc_RequestTimeout cfg \<le> 0 then Inl ''Agent Compose request timeout must be positive''
     else Inr \<lparr>cl_baseURL = TrimRight (acc_BaseURL cfg) (CHR ''/''), cl_authToken = acc_AuthToken cfg,
       cl_requiredVersion = TrimSpace (acc_RequiredVersion cfg), cl_requiredDriver = TrimSpace (acc_RequiredDriver cfg),
       cl_requestTimeout = acc_RequestTimeout cfg, cl_redactor = newRedactor (acc_AuthToken cfg # acc_SensitivePatterns cfg)\<rparr>)"

section \<open>Transport\<close>

definition mapTransportError :: "transport_error \<Rightarrow> ac_error" where
  "mapTransportError e =
    (if te_canceled e then AC ErrCancelled (te_text e)
     else if te_deadline e \<or> Contains (te_text e) ''Client.Timeout'' then AC ErrTimeout (te_text e)
     else AC ErrUnavailable (te_text e))"

definition mapConnectCode :: "ac_world \<Rightarrow> string \<Rightarrow> string \<Rightarrow> ac_error" where
  "mapConnectCode W code message =
    (let c = ToLower (ac_uni W) (TrimSpace code)
     in AC (if c = ''canceled'' then ErrCancelled
        else if c = ''deadline_exceeded'' then ErrTimeout
        else if c = ''unavailable'' \<or> c = ''resource_exhausted'' then ErrUnavailable
        else if c \<in> {''unauthenticated'', ''permission_denied'', ''invalid_argument'', ''not_found'', ''already_exists''} then ErrRejected
        else if c = ''failed_precondition'' \<or> c = ''unimplemented'' then ErrIncompatible
        else ErrAgentFailed) message)"

definition http_text :: "int \<Rightarrow> string" where
  "http_text status = ''HTTP '' @ itoa status"

definition decodeHTTPError :: "ac_world \<Rightarrow> ac_response \<Rightarrow> ac_error" where
  "decodeHTTPError W rs =
    (case ac_unmarshal_error W (LimitReader 65536 (ars_Body rs)) of
       Some (code, message) \<Rightarrow> if code \<noteq> [] then mapConnectCode W code message
         else if ars_StatusCode rs = 401 \<or> ars_StatusCode rs = 403 then AC ErrRejected (http_text (ars_StatusCode rs))
         else if ars_StatusCode rs = 504 then AC ErrTimeout (http_text (ars_StatusCode rs))
         else AC ErrUnavailable (http_text (ars_StatusCode rs))
     | None \<Rightarrow>
         if ars_StatusCode rs = 401 \<or> ars_StatusCode rs = 403 then AC ErrRejected (http_text (ars_StatusCode rs))
         else if ars_StatusCode rs = 504 then AC ErrTimeout (http_text (ars_StatusCode rs))
         else AC ErrUnavailable (http_text (ars_StatusCode rs)))"

definition authorization :: "Client \<Rightarrow> (string \<times> string) list" where
  "authorization C = (if cl_authToken C = [] then [] else [(''Authorization'', ''Bearer '' @ cl_authToken C)])"

definition setHeaders :: "Client \<Rightarrow> string \<Rightarrow> (string \<times> string) list" where
  "setHeaders C contentType =
    [(''Content-Type'', contentType), (''Accept'', contentType), (''Connect-Protocol-Version'', ''1'')] @ authorization C"

text \<open>\<open>NewRequest\<close> fails on an address it cannot parse.\<close>

definition post :: "ac_world \<Rightarrow> Client \<Rightarrow> string \<Rightarrow> string \<Rightarrow> string \<Rightarrow> ac_error + ac_response" where
  "post W C procedure contentType content =
    (case ac_NewRequest W (cl_baseURL C @ procedure) of
       Some msg \<Rightarrow> Inl (AC ErrUnavailable msg)
     | None \<Rightarrow>
         (case ac_Do W \<lparr>aq_Method = ''POST'', aq_URL = cl_baseURL C @ procedure, aq_Headers = setHeaders C contentType, aq_Body = content\<rparr> of
            Inl e \<Rightarrow> Inl (mapTransportError e)
          | Inr rs \<Rightarrow> if ars_StatusCode rs < 200 \<or> ars_StatusCode rs \<ge> 300 then Inl (decodeHTTPError W rs) else Inr rs))"

definition doUnary :: "ac_world \<Rightarrow> Client \<Rightarrow> string \<Rightarrow> string \<Rightarrow> (string \<Rightarrow> string + 'a) \<Rightarrow> ac_error + 'a" where
  "doUnary W C procedure content decode =
    (case post W C procedure ''application/json'' content of
       Inl e \<Rightarrow> Inl e
     | Inr rs \<Rightarrow> (case decode (LimitReader 4194304 (ars_Body rs)) of Inl msg \<Rightarrow> Inl (AC ErrMalformedResponse msg) | Inr v \<Rightarrow> Inr v))"

section \<open>Health (client.go)\<close>

definition isNullJSON :: "string \<Rightarrow> bool" where
  "isNullJSON raw \<longleftrightarrow> TrimSpace raw = [] \<or> TrimSpace raw = ''null''"

definition Health :: "ac_world \<Rightarrow> Client \<Rightarrow> ac_error + VersionInfo" where
  "Health W C =
    (case ac_NewRequest W (cl_baseURL C @ ''/api/version'') of
       Some msg \<Rightarrow> Inl (AC ErrUnavailable msg)
     | None \<Rightarrow>
         (case ac_Do W \<lparr>aq_Method = ''GET'', aq_URL = cl_baseURL C @ ''/api/version'', aq_Headers = authorization C, aq_Body = []\<rparr> of
            Inl e \<Rightarrow> Inl (mapTransportError e)
          | Inr rs \<Rightarrow>
              if ars_StatusCode rs = 401 \<or> ars_StatusCode rs = 403 then Inl (AC ErrRejected (http_text (ars_StatusCode rs)))
              else if ars_StatusCode rs < 200 \<or> ars_StatusCode rs \<ge> 300 then Inl (AC ErrUnavailable (http_text (ars_StatusCode rs)))
              else if int (length (ars_Body rs)) < 1048576 \<and> ars_Broken rs \<noteq> None then Inl (AC ErrMalformedResponse (the (ars_Broken rs)))
              else (case ac_unmarshal_version W (LimitReader 1048576 (ars_Body rs)) of
                Inl msg \<Rightarrow> Inl (AC ErrMalformedResponse msg)
              | Inr envelope \<Rightarrow>
                  if \<not> isNullJSON (ve_Error envelope) then Inl (AC ErrRejected (''daemon returned '' @ TrimSpace (ve_Error envelope)))
                  else if blank (vi_Version (ve_Data envelope)) then Inl (AC ErrMalformedResponse ''version is missing'')
                  else if cl_requiredVersion C \<noteq> [] \<and> vi_Version (ve_Data envelope) \<noteq> cl_requiredVersion C
                  then Inl (AC ErrIncompatible (''version '' @ ac_quote W (vi_Version (ve_Data envelope)) @ '' does not match '' @ ac_quote W (cl_requiredVersion C)))
                  else if cl_requiredDriver C \<noteq> [] \<and> cl_requiredDriver C \<notin> set (vi_CompiledDrivers (ve_Data envelope))
                  then Inl (AC ErrIncompatible (''required driver '' @ ac_quote W (cl_requiredDriver C) @ '' is unavailable''))
                  else Inr (ve_Data envelope))))"

definition Check :: "ac_world \<Rightarrow> Client \<Rightarrow> ac_error option" where
  "Check W C = (case Health W C of Inl e \<Rightarrow> Some e | Inr _ \<Rightarrow> None)"

section \<open>Runs (execution.go)\<close>

definition TrimPrefix :: "string \<Rightarrow> string \<Rightarrow> string" where
  "TrimPrefix s p = (if HasPrefix s p then drop (length p) s else s)"

definition normalizeStatus :: "ac_world \<Rightarrow> string \<Rightarrow> string" where
  "normalizeStatus W status = ToLower (ac_uni W) (TrimPrefix status ''RUN_STATUS_'')"

definition isTerminalStatus :: "ac_world \<Rightarrow> string \<Rightarrow> bool" where
  "isTerminalStatus W status \<longleftrightarrow> normalizeStatus W status \<in> {''succeeded'', ''failed'', ''canceled''}"

definition validateExecutionRequest :: "exec_request \<Rightarrow> ac_error option" where
  "validateExecutionRequest request =
    (if blank (xr_CorrelationID request) \<or> blank (xr_ProjectID request) \<or> blank (xr_AgentName request) \<or> blank (xr_Repository request) \<or>
        blank (xr_Prompt request) \<or> xr_Timeout request \<le> 0
     then Some (AC ErrRejected ''correlation, project, agent, repository, prompt, and timeout are required'')
     else let commit = TrimSpace (xr_CommitSHA request)
       in if (length commit \<noteq> 40 \<and> length commit \<noteq> 64) \<or> \<not> is_hex commit
          then Some (AC ErrRejected ''commit must be an immutable full Git object ID'')
          else if xr_Timeout request > 2 * hour then Some (AC ErrRejected ''timeout exceeds two-hour limit'')
          else None)"

definition immutablePrompt :: "exec_request \<Rightarrow> string" where
  "immutablePrompt request =
    ''RepoMender immutable execution context:'' @ newline @ ''Repository: '' @ xr_Repository request @ newline @
    ''Commit: '' @ xr_CommitSHA request @ newline @ ''Do not change, merge, or push any branch.'' @ newline @ newline @
    ''Task:'' @ newline @ xr_Prompt request"

definition diagnosticOutputSchema :: string where
  "diagnosticOutputSchema =
    ''{\"type\":\"object\",\"required\":[\"schemaVersion\",\"summary\"],\"properties\":{\"schemaVersion\":{\"type\":\"string\",\"const\":\"v1\"},'' @
    ''\"summary\":{\"type\":\"string\"}},\"additionalProperties\":false}''"

definition wire_request :: "ac_world \<Rightarrow> exec_request \<Rightarrow> runAgentRequest" where
  "wire_request W request =
    \<lparr>ra_ProjectID = xr_ProjectID request, ra_AgentName = xr_AgentName request, ra_Prompt = immutablePrompt request,
     ra_Source = ''RUN_SOURCE_API'',
     ra_CleanupPolicy = (if xr_Cleanup request = ''remove'' then ''RUN_SANDBOX_CLEANUP_POLICY_REMOVE_ON_COMPLETION''
       else ''RUN_SANDBOX_CLEANUP_POLICY_STOP_ON_COMPLETION''),
     ra_OutputSchemaJSON = (if blank (xr_OutputSchemaJSON request) then diagnosticOutputSchema else TrimSpace (xr_OutputSchemaJSON request)),
     ra_ClientRequestID = xr_CorrelationID request, ra_Driver = xr_Driver request,
     ra_PayloadJSON = ac_marshal_payload W \<lparr>ep_SchemaVersion = ''v1'', ep_CorrelationID = xr_CorrelationID request,
       ep_Repository = xr_Repository request, ep_Commit = xr_CommitSHA request, ep_TimeoutSeconds = xr_Timeout request div second,
       ep_NetworkEnabled = xr_NetworkEnabled request\<rparr>\<rparr>"

definition Start :: "ac_world \<Rightarrow> Client \<Rightarrow> time \<Rightarrow> exec_request \<Rightarrow> deadlines \<Rightarrow> (ac_error, execution_run, deadlines) outcome" where
  "Start W C now request dl =
    (case validateExecutionRequest request of
       Some e \<Rightarrow> (Inl e, dl)
     | None \<Rightarrow>
         (case doUnary W C ''/agentcompose.v2.RunService/StartRun'' (ac_marshal_run W (wire_request W request)) (ac_decode_start W) of
            Inl e \<Rightarrow> (Inl e, dl)
          | Inr (run, started) \<Rightarrow>
              if blank (sum_RunID run) then (Inl (AC ErrMalformedResponse ''StartRun response omitted runId''), dl)
              else if \<not> started \<and> \<not> isTerminalStatus W (sum_Status run) then (Inl (AC ErrRejected ''AC did not start run''), dl)
              else (Inr \<lparr>xrun_ID = sum_RunID run, xrun_CorrelationID = xr_CorrelationID request, xrun_StartedAt = ac_parse_time W (sum_StartedAt run)\<rparr>,
                dl(sum_RunID run \<mapsto> now + xr_Timeout request))))"

definition ac_Cancel :: "ac_world \<Rightarrow> Client \<Rightarrow> string \<Rightarrow> string \<Rightarrow> ac_error + unit" where
  "ac_Cancel W C runID0 reason0 =
    (let runID = TrimSpace runID0; reason = TrimSpace reason0
     in if runID = [] \<or> reason = [] \<or> length reason > 512 then Inl (AC ErrRejected ''run ID and bounded reason are required'')
        else (case doUnary W C ''/agentcompose.v2.RunService/StopRun'' (ac_marshal_strings W [(''runId'', runID), (''reason'', reason)]) (ac_decode_stop W) of
          Inl e \<Rightarrow> Inl e
        | Inr (run, stopRequested) \<Rightarrow>
            if \<not> stopRequested \<and> normalizeStatus W (sum_Status (rd_Summary run)) \<noteq> ''cancelled''
            then Inl (AC ErrRejected ''AC did not accept cancellation'') else Inr ()))"

text \<open>The loop over the opening braces of the output, as recursion over its suffixes.\<close>

fun extractResultEnvelope :: "ac_world \<Rightarrow> string \<Rightarrow> (json \<times> string) option" where
  "extractResultEnvelope W [] = None"
| "extractResultEnvelope W (c # rest) =
    (case (if c = CHR ''{'' then ac_decode_value W (c # rest) else None) of
       None \<Rightarrow> extractResultEnvelope W rest
     | Some raw \<Rightarrow>
         (case ac_unmarshal_envelope W raw of
            None \<Rightarrow> extractResultEnvelope W rest
          | Some (schemaVersion, summary) \<Rightarrow>
              if schemaVersion \<noteq> [] \<and> summary \<noteq> [] then Some (raw, schemaVersion) else extractResultEnvelope W rest))"

definition Result :: "ac_world \<Rightarrow> Client \<Rightarrow> string \<Rightarrow> ac_error + execution_result" where
  "Result W C runID0 =
    (let runID = TrimSpace runID0
     in if runID = [] then Inl (AC ErrRejected ''run ID is required'')
        else (case doUnary W C ''/agentcompose.v2.RunService/GetRun'' (ac_marshal_strings W [(''runId'', runID)]) (ac_decode_get W) of
          Inl e \<Rightarrow> Inl e
        | Inr run \<Rightarrow>
            let status = normalizeStatus W (sum_Status (rd_Summary run))
            in if sum_RunID (rd_Summary run) = [] then Inl (AC ErrMalformedResponse ''GetRun response omitted run'')
               else if \<not> isTerminalStatus W (sum_Status (rd_Summary run)) then Inl (AC ErrRejected ''run is not terminal'')
               else if status = ''canceled'' then Inl (AC ErrCancelled ''run was cancelled'')
               else if status = ''failed'' then
                 Inl (AC (if Contains (ToLower (ac_uni W) (sum_Error (rd_Summary run))) ''sandbox'' then ErrSandboxFailed else ErrAgentFailed)
                   ''terminal run failed'')
               else (case extractResultEnvelope W (if blank (rd_Output run) then rd_ResultJSON run else rd_Output run) of
                 None \<Rightarrow> Inl (AC ErrMalformedResponse ''terminal result does not match schema envelope'')
               | Some (envelope, schemaVersion) \<Rightarrow>
                   Inr \<lparr>res_SchemaVersion = schemaVersion, res_RunID = runID, res_Status = status, res_Output = Redact (cl_redactor C) envelope,
                     res_FinishedAt = ac_parse_time W (sum_CompletedAt (rd_Summary run))\<rparr>)))"

section \<open>The log stream\<close>

text \<open>A frame of the Connect protocol: a flag byte, the length of the payload as four bytes, the most significant first, and the payload.\<close>

definition put_uint32 :: "int \<Rightarrow> string" where
  "put_uint32 n = map (\<lambda>k. char_of (nat (n div 2 ^ (8 * k) mod 256))) [3, 2, 1, 0]"

definition get_uint32 :: "string \<Rightarrow> int" where
  "get_uint32 bs = foldl (\<lambda>v c. 256 * v + int (byte c)) 0 bs"

definition encodeConnectFrame :: "char \<Rightarrow> string \<Rightarrow> string" where
  "encodeConnectFrame flag payload = flag # put_uint32 (int (length payload) mod 2 ^ 32) @ payload"

definition maxConnectFrameBytes :: int where
  "maxConnectFrameBytes = 4194304"

datatype frame = EOF | FrameFailure ac_error | Frame char string string

text \<open>\<open>io.ReadFull\<close> reports \<open>io.EOF\<close> only when nothing was read, and a stream that breaks off with the error it broke with.\<close>

definition readConnectFrame :: "string option \<Rightarrow> string \<Rightarrow> frame" where
  "readConnectFrame broken s =
    (if length s < 5 then
       (case broken of Some msg \<Rightarrow> FrameFailure (Plain msg) | None \<Rightarrow> if s = [] then EOF else FrameFailure (Plain ''unexpected EOF''))
     else
       let size = get_uint32 (take 4 (tl s)); rest = drop 5 s
       in if size > maxConnectFrameBytes then FrameFailure (AC ErrMalformedResponse ''Connect frame exceeds limit'')
          else if int (length rest) < size then FrameFailure (AC ErrStreamDropped ''incomplete Connect frame'')
          else Frame (hd s) (take (nat size) rest) (drop (nat size) rest))"

lemma readConnectFrame_shorter: "readConnectFrame broken s = Frame flag payload rest \<Longrightarrow> length rest < length s"
  by (auto simp: readConnectFrame_def Let_def split: if_splits option.splits)

definition ParseUint :: "string \<Rightarrow> int option" where
  "ParseUint s =
    (let v = foldl (\<lambda>v c. 10 * v + (int (byte c) - 48)) 0 s
     in if s = [] \<or> \<not> list_all is_digit s \<or> v \<ge> 2 ^ 64 then None else Some v)"

definition MarshalJSON :: "int \<Rightarrow> json" where
  "MarshalJSON n = CHR 0x22 # itoa n @ [CHR 0x22]"

definition UnmarshalJSON :: "ac_world \<Rightarrow> json \<Rightarrow> int option" where
  "UnmarshalJSON W raw =
    (case (if raw \<noteq> [] \<and> hd raw = CHR 0x22 then ac_unquote W raw else Some raw) of None \<Rightarrow> None | Some digits \<Rightarrow> ParseUint digits)"

definition chunk_of :: "ac_world \<Rightarrow> string \<Rightarrow> string + logChunk \<times> int" where
  "chunk_of W payload =
    (case ac_unmarshal_chunk W payload of
       Inl msg \<Rightarrow> Inl msg
     | Inr chunk \<Rightarrow>
         (case lc_Offset chunk of
            None \<Rightarrow> Inr (chunk, 0)
          | Some raw \<Rightarrow> (case UnmarshalJSON W raw of None \<Rightarrow> Inl ''invalid offset'' | Some n \<Rightarrow> Inr (chunk, n))))"

definition normalizeLogChunk :: "ac_world \<Rightarrow> string list \<Rightarrow> string \<Rightarrow> logChunk \<Rightarrow> int \<Rightarrow> Event" where
  "normalizeLogChunk W vals runID chunk offset =
    (let status = (if sum_Status (lc_Run chunk) \<noteq> [] then sum_Status (lc_Run chunk) else lc_RunStatus chunk)
     in \<lparr>ex_Kind = (if lc_IsFinal chunk then ''completed'' else if lc_Data chunk = [] then ''status'' else ''log''),
         ex_Stream = ''stdout'',
         ex_Message = (if lc_IsFinal chunk \<or> lc_Data chunk = [] then normalizeStatus W status else Redact vals (lc_Data chunk)),
         ex_Terminal = lc_IsFinal chunk, evt_Sequence = offset, evt_RunID = runID, evt_CreatedAt = ac_parse_time W (lc_CreatedAt chunk)\<rparr>)"

text \<open>
  The context of the stream: \<open>sc_read\<close> is its error at the time a read fails, \<open>sc_send k\<close> its error when it ends before the receiver takes the
  \<open>k\<close>-th event. \<open>follow_frames\<close> is the loop of \<open>followEvents\<close>, with the events sent so far.
\<close>

record stream_context =
  sc_read :: "transport_error option"
  sc_send :: "nat \<Rightarrow> transport_error option"

definition end_stream :: "char \<Rightarrow> bool" where
  "end_stream flag \<longleftrightarrow> byte flag div 2 mod 2 = 1"

function follow_frames ::
  "ac_world \<Rightarrow> string list \<Rightarrow> string \<Rightarrow> stream_context \<Rightarrow> string option \<Rightarrow> bool \<Rightarrow> string \<Rightarrow> Event list \<Rightarrow> Event list \<times> ac_error option" where
  "follow_frames W vals runID ctx broken terminal s sent =
    (case readConnectFrame broken s of
       EOF \<Rightarrow>
         (case sc_read ctx of
            Some e \<Rightarrow> (sent, Some (mapTransportError e))
          | None \<Rightarrow> (sent, if terminal then None else Some (AC ErrStreamDropped ''stream ended before terminal event'')))
     | FrameFailure e \<Rightarrow> (sent, Some (case sc_read ctx of Some ce \<Rightarrow> mapTransportError ce | None \<Rightarrow> e))
     | Frame flag payload rest \<Rightarrow>
         if end_stream flag then
           (case (if payload = [] then Some None else ac_end_error W payload) of
              None \<Rightarrow> (sent, Some (AC ErrMalformedResponse ''invalid end-stream envelope''))
            | Some (Some (code, message)) \<Rightarrow> (sent, Some (mapConnectCode W code message))
            | Some None \<Rightarrow> (sent, if terminal then None else Some (AC ErrStreamDropped ''end-stream arrived before terminal event'')))
         else if byte flag \<noteq> 0 then (sent, Some (AC ErrMalformedResponse (''unsupported Connect frame flag '' @ itoa (int (byte flag)))))
         else (case chunk_of W payload of
           Inl msg \<Rightarrow> (sent, Some (AC ErrMalformedResponse (''decode log chunk: '' @ msg)))
         | Inr (chunk, offset) \<Rightarrow>
             if lc_Data chunk = [] \<and> \<not> lc_IsFinal chunk \<and> sum_Status (lc_Run chunk) = []
             then follow_frames W vals runID ctx broken terminal rest sent
             else (case sc_send ctx (length sent) of
               Some e \<Rightarrow> (sent, Some (mapTransportError e))
             | None \<Rightarrow> follow_frames W vals runID ctx broken (terminal \<or> lc_IsFinal chunk) rest
                 (sent @ [normalizeLogChunk W vals runID chunk offset]))))"
  by pat_completeness auto
termination
  by (relation "measure (\<lambda>(W, vals, runID, ctx, broken, terminal, s, sent). length s)") (auto dest: readConnectFrame_shorter)

declare follow_frames.simps [simp del]

definition followEvents :: "ac_world \<Rightarrow> Client \<Rightarrow> stream_context \<Rightarrow> string \<Rightarrow> int \<Rightarrow> Event list \<times> ac_error option" where
  "followEvents W C ctx runID after =
    (if runID = [] then ([], Some (AC ErrRejected ''run ID is required''))
     else case post W C ''/agentcompose.v2.RunService/FollowRunLogs'' ''application/connect+json''
         (encodeConnectFrame (CHR 0x00) (ac_marshal_follow W runID (MarshalJSON after))) of
       Inl e \<Rightarrow> ([], Some e)
     | Inr rs \<Rightarrow>
         if \<not> HasPrefix (ars_ContentType rs) ''application/connect+json''
         then ([], Some (AC ErrMalformedResponse (''unexpected stream content type '' @ ac_quote W (ars_ContentType rs))))
         else follow_frames W (cl_redactor C) runID ctx (ars_Broken rs) False (ars_Body rs) [])"

text \<open>
  \<open>Events\<close>: the goroutine of the stream, run to its end. The deadline that \<open>Start\<close> stored bounds its context, so \<open>ctx\<close> is the context under
  that deadline. A timed out run is cancelled by a request of its own, whose error is dropped.
\<close>

definition Events ::
  "ac_world \<Rightarrow> Client \<Rightarrow> (time option \<Rightarrow> stream_context) \<Rightarrow> string \<Rightarrow> int \<Rightarrow> deadlines \<Rightarrow>
   Event list \<times> ac_error option \<times> (ac_error + unit) option \<times> deadlines" where
  "Events W C context runID0 after dl =
    (let runID = TrimSpace runID0
     in case followEvents W C (context (dl runID)) runID after of
       (sent, err) \<Rightarrow>
         let timedOut = (case err of Some (AC ErrTimeout _) \<Rightarrow> True | _ \<Rightarrow> False);
           over = timedOut \<or> err = None \<or> (case err of Some (AC ErrCancelled _) \<Rightarrow> True | _ \<Rightarrow> False)
         in (sent, err, if timedOut then Some (ac_Cancel W C runID ''RepoMender execution deadline expired'') else None,
             if over then dl(runID := None) else dl))"

text \<open>The text of an error, and the interface \<open>execution.Adapter\<close> as the client implements it: the health check needs no state, the others share the deadlines.\<close>

fun ac_kind_text :: "ac_kind \<Rightarrow> string" where
  "ac_kind_text ErrUnavailable = ''ac_unavailable''"
| "ac_kind_text ErrRejected = ''ac_rejected''"
| "ac_kind_text ErrIncompatible = ''ac_incompatible''"
| "ac_kind_text ErrTimeout = ''ac_timeout''"
| "ac_kind_text ErrCancelled = ''ac_cancelled''"
| "ac_kind_text ErrSandboxFailed = ''ac_sandbox_failed''"
| "ac_kind_text ErrAgentFailed = ''ac_agent_failed''"
| "ac_kind_text ErrMalformedResponse = ''ac_malformed_response''"
| "ac_kind_text ErrStreamDropped = ''ac_stream_dropped''"

fun ac_text :: "ac_error \<Rightarrow> string" where
  "ac_text (AC kind message) = ac_kind_text kind @ '': '' @ message"
| "ac_text (Plain message) = message"

record execution_adapter =
  xa_Health :: "ac_error + VersionInfo"
  xa_Start :: "time \<Rightarrow> exec_request \<Rightarrow> deadlines \<Rightarrow> (ac_error, execution_run, deadlines) outcome"
  xa_Events :: "string \<Rightarrow> int \<Rightarrow> deadlines \<Rightarrow> Event list \<times> ac_error option \<times> deadlines"
  xa_Cancel :: "string \<Rightarrow> string \<Rightarrow> ac_error + unit"
  xa_Result :: "string \<Rightarrow> ac_error + execution_result"

definition client_adapter :: "ac_world \<Rightarrow> Client \<Rightarrow> (time option \<Rightarrow> stream_context) \<Rightarrow> execution_adapter" where
  "client_adapter W C ctx = \<lparr>xa_Health = Health W C, xa_Start = Start W C,
     xa_Events = (\<lambda>runID after dl. case Events W C ctx runID after dl of (sent, err, _, dl') \<Rightarrow> (sent, err, dl')),
     xa_Cancel = ac_Cancel W C, xa_Result = Result W C\<rparr>"

section \<open>Frames\<close>

lemma byte_char_of: "byte (char_of n) = n mod 256"
  by (simp add: byte_def)

lemma get_put_uint32:
  assumes "0 \<le> n" "n < 2 ^ 32"
  shows "get_uint32 (put_uint32 n) = n"
proof -
  have div: "n div 65536 = n div 256 div 256" "n div 16777216 = n div 256 div 256 div 256"
    by (simp_all add: zdiv_zmult2_eq [symmetric])
  have "n div 256 div 256 div 256 < 256" "0 \<le> n div 256 div 256 div 256"
    unfolding div(2) [symmetric] using assms by simp_all
  then have top: "n div 256 div 256 div 256 mod 256 = n div 256 div 256 div 256" by (rule mod_pos_pos_trivial [rotated])
  have "get_uint32 (put_uint32 n) =
      256 * (256 * (256 * (n div 256 div 256 div 256 mod 256) + n div 256 div 256 mod 256) + n div 256 mod 256) + n mod 256"
    by (simp add: get_uint32_def put_uint32_def byte_char_of div)
  also have "\<dots> = n"
    unfolding top by (simp only: mult_div_mod_eq)
  finally show ?thesis .
qed

lemma length_put_uint32 [simp]: "length (put_uint32 n) = 4"
  by (simp add: put_uint32_def)

text \<open>
  Frames round-trip: a frame that the client encodes, followed by anything, is read back with its flag, its payload and the rest of the stream, as
  long as the payload respects the limit of 4 MiB that the reader enforces.
\<close>

theorem frame_roundtrip:
  assumes "int (length payload) \<le> maxConnectFrameBytes"
  shows "readConnectFrame broken (encodeConnectFrame flag payload @ rest) = Frame flag payload rest"
proof -
  have "get_uint32 (put_uint32 (int (length payload))) = int (length payload)"
    using assms by (intro get_put_uint32) (simp_all add: maxConnectFrameBytes_def)
  then show ?thesis
    using assms by (simp add: readConnectFrame_def encodeConnectFrame_def maxConnectFrameBytes_def Let_def)
qed

theorem frame_roundtrip_witness:
  "readConnectFrame None (encodeConnectFrame (CHR 0x00) ''{}'' @ encodeConnectFrame (CHR 0x02) []) =
     Frame (CHR 0x00) ''{}'' (encodeConnectFrame (CHR 0x02) [])"
  by (rule frame_roundtrip) (simp add: maxConnectFrameBytes_def)

section \<open>Redaction\<close>

definition plain_secret :: "string \<Rightarrow> bool" where
  "plain_secret v \<longleftrightarrow> v \<noteq> [] \<and> CHR ''['' \<notin> set v \<and> CHR '']'' \<notin> set v \<and> \<not> Contains ''REDACTED'' v"

lemma ReplaceAll_split:
  "ReplaceAll s old ''[REDACTED]'' = s \<or> (\<exists>u v w. s = u @ w \<and> ReplaceAll s old ''[REDACTED]'' = u @ CHR ''['' # v)"
proof (induction s old "''[REDACTED]''" rule: ReplaceAll.induct)
  case (1 s old)
  show ?case
  proof (cases "old = []")
    case True
    then show ?thesis by (simp add: ReplaceAll.simps)
  next
    case old: False
    show ?thesis
    proof (cases "prefix old s")
      case True
      with old have "ReplaceAll s old ''[REDACTED]'' = [] @ CHR ''['' # (''REDACTED]'' @ ReplaceAll (drop (length old) s) old ''[REDACTED]'')"
        by (simp add: ReplaceAll.simps [of s])
      then show ?thesis by blast
    next
      case nop: False
      show ?thesis
      proof (cases s)
        case Nil
        with nop old show ?thesis by (simp add: ReplaceAll.simps)
      next
        case (Cons c t)
        have eq: "ReplaceAll s old ''[REDACTED]'' = c # ReplaceAll t old ''[REDACTED]''"
          unfolding Cons using nop old Cons by (simp add: ReplaceAll.simps [of "c # t"])
        from "1.hyps"(2) [OF old nop Cons] show ?thesis
        proof
          assume "ReplaceAll t old ''[REDACTED]'' = t"
          then show ?thesis using eq Cons by simp
        next
          assume "\<exists>u v w. t = u @ w \<and> ReplaceAll t old ''[REDACTED]'' = u @ CHR ''['' # v"
          then obtain u v w where "t = u @ w" "ReplaceAll t old ''[REDACTED]'' = u @ CHR ''['' # v" by blast
          then have "s = (c # u) @ w \<and> ReplaceAll s old ''[REDACTED]'' = (c # u) @ CHR ''['' # v" using eq Cons by simp
          then show ?thesis by blast
        qed
      qed
    qed
  qed
qed

lemma prefix_before: "prefix p (u @ c # v) \<Longrightarrow> c \<notin> set p \<Longrightarrow> prefix p u"
proof (induction u arbitrary: p)
  case Nil
  then show ?case by (cases p) auto
next
  case (Cons d u)
  then show ?case by (cases p) auto
qed

lemma ReplaceAll_prefix:
  assumes "prefix p (ReplaceAll s old ''[REDACTED]'')" "CHR ''['' \<notin> set p"
  shows "prefix p s"
  using ReplaceAll_split [of s old]
proof
  assume "ReplaceAll s old ''[REDACTED]'' = s"
  with assms show ?thesis by simp
next
  assume "\<exists>u v w. s = u @ w \<and> ReplaceAll s old ''[REDACTED]'' = u @ CHR ''['' # v"
  then obtain u v w where "s = u @ w" "ReplaceAll s old ''[REDACTED]'' = u @ CHR ''['' # v" by blast
  with assms prefix_before [of p u "CHR ''[''" v] show ?thesis by (auto intro: prefix_order.trans)
qed

lemma sublist_mark:
  assumes "plain_secret v" "sublist v (''[REDACTED]'' @ t)"
  shows "sublist v t"
proof -
  have v: "v \<noteq> []" "CHR ''['' \<notin> set v" "CHR '']'' \<notin> set v" "\<not> sublist v ''REDACTED''"
    using assms(1) by (auto simp: plain_secret_def Contains_iff)
  have "sublist v (''[REDACTED'' @ (CHR '']'' # t))" using assms(2) by simp
  then consider (left) "sublist v ''[REDACTED''" | (right) "sublist v (CHR '']'' # t)"
    | (across) a b where "v = a @ b" "suffix a ''[REDACTED''" "prefix b (CHR '']'' # t)"
    using sublist_append [of v "''[REDACTED''" "CHR '']'' # t"] by blast
  then show ?thesis
  proof cases
    case left
    then have "prefix v ''[REDACTED'' \<or> sublist v ''REDACTED''" using sublist_Cons_right [of v "CHR ''[''" "''REDACTED''"] by simp
    with v show ?thesis by (cases v) auto
  next
    case right
    then have "prefix v (CHR '']'' # t) \<or> sublist v t" by (simp add: sublist_Cons_right)
    with v show ?thesis by (cases v) auto
  next
    case across
    then have "b = []" using v(3) by (cases b) auto
    with across have "sublist v ''[REDACTED''" by auto
    then have "prefix v ''[REDACTED'' \<or> sublist v ''REDACTED''" using sublist_Cons_right [of v "CHR ''[''" "''REDACTED''"] by simp
    with v show ?thesis by (cases v) auto
  qed
qed

lemma ReplaceAll_hides:
  assumes "plain_secret v" "v = old \<or> \<not> sublist v s"
  shows "\<not> sublist v (ReplaceAll s old ''[REDACTED]'')"
  using assms(2)
proof (induction s old "''[REDACTED]''" rule: ReplaceAll.induct)
  case (1 s old)
  have v: "v \<noteq> []" "CHR ''['' \<notin> set v" using assms(1) by (auto simp: plain_secret_def)
  show ?case
  proof (cases "old = [] \<or> (s = [] \<and> \<not> prefix old s)")
    case True
    then have "ReplaceAll s old ''[REDACTED]'' = s" by (auto simp: ReplaceAll.simps [of s])
    with True 1(3) v show ?thesis by auto
  next
    case other: False
    show ?thesis
    proof (cases "prefix old s")
      case True
      have "v = old \<or> \<not> sublist v (drop (length old) s)"
        using 1(3) by (meson sublist_drop subseq_order.order_trans sublist_order.order_trans)
      then have "\<not> sublist v (ReplaceAll (drop (length old) s) old ''[REDACTED]'')"
        using 1(1) other True by blast
      moreover have "ReplaceAll s old ''[REDACTED]'' = ''[REDACTED]'' @ ReplaceAll (drop (length old) s) old ''[REDACTED]''"
        using other True by (simp add: ReplaceAll.simps [of s])
      ultimately show ?thesis using sublist_mark [OF assms(1)] by metis
    next
      case nop: False
      then obtain c t where s: "s = c # t" using other by (cases s) auto
      have "v = old \<or> \<not> sublist v t" using 1(3) s by (auto simp: sublist_Cons_right)
      then have ih: "\<not> sublist v (ReplaceAll t old ''[REDACTED]'')" using 1(2) other nop s by blast
      have eq: "ReplaceAll s old ''[REDACTED]'' = c # ReplaceAll t old ''[REDACTED]''"
        unfolding s using other nop s by (simp add: ReplaceAll.simps [of "c # t"])
      have "\<not> prefix v s" using 1(3) nop by auto
      then have "\<not> prefix v (c # ReplaceAll t old ''[REDACTED]'')"
        using ReplaceAll_prefix [of v s old] v eq by auto
      with ih eq show ?thesis by (simp add: sublist_Cons_right)
    qed
  qed
qed

lemma Redact_keeps:
  "plain_secret v \<Longrightarrow> \<not> sublist v t \<Longrightarrow> \<not> sublist v (Redact vals t)"
  unfolding Redact_def
proof (induction vals arbitrary: t)
  case (Cons w vals)
  then show ?case using ReplaceAll_hides [of v w t] by simp
qed simp

lemma Redact_hides:
  assumes "plain_secret v" "v \<in> set vals"
  shows "\<not> Contains (Redact vals t) v"
proof -
  obtain xs ys where vals: "vals = xs @ v # ys" using split_list [OF assms(2)] by blast
  let ?mid = "ReplaceAll (Redact xs t) v ''[REDACTED]''"
  have "Redact vals t = Redact ys ?mid" by (simp add: Redact_def vals)
  moreover have "\<not> sublist v ?mid" by (rule ReplaceAll_hides [OF assms(1)]) simp
  ultimately show ?thesis using Redact_keeps [OF assms(1)] by (simp add: Contains_iff)
qed

lemma ReplaceAll_id: "\<not> sublist old s \<Longrightarrow> ReplaceAll s old new = s"
proof (induction s)
  case Nil
  then show ?case by (simp add: ReplaceAll.simps)
next
  case (Cons c s)
  then have "\<not> prefix old (c # s)" "\<not> sublist old s" by (auto simp: sublist_Cons_right)
  with Cons show ?case by (simp add: ReplaceAll.simps [of "c # s"])
qed

text \<open>
  Redaction works chunk by chunk: a secret that the daemon's stream cuts in two is in neither chunk, so both are passed on as they are and the receiver,
  who joins the messages, reads it.
\<close>

theorem split_secret_passes:
  assumes "a \<noteq> []" "b \<noteq> []" "4 \<le> length (a @ b)" "TrimSpace (a @ b) = a @ b"
  shows "Redact (newRedactor [a @ b]) a @ Redact (newRedactor [a @ b]) b = a @ b"
proof -
  have "\<not> sublist (a @ b) a" "\<not> sublist (a @ b) b"
    using assms(1,2) sublist_length_le [of "a @ b" a] sublist_length_le [of "a @ b" b] by auto
  with assms show ?thesis by (simp add: newRedactor_def Redact_def ReplaceAll_id)
qed

theorem split_secret_passes_witness:
  "Redact (newRedactor [''token-'' @ ''1234'']) ''token-'' @ Redact (newRedactor [''token-'' @ ''1234'']) ''1234'' = ''token-'' @ ''1234''"
proof (rule split_secret_passes)
  show "TrimSpace (''token-'' @ ''1234'') = ''token-'' @ ''1234''" by code_simp
qed simp_all

section \<open>What the stream delivers\<close>

text \<open>
  The loop as a whole: what holds of the flag and the events sent so far, and is kept by sending one more, holds at the end; the loop ends without an error
  only when the flag is set.
\<close>

lemma follow_frames_inv:
  assumes "follow_frames W vals runID ctx broken terminal s sent = (out, err)" "Q terminal sent"
    and keep: "\<And>t xs chunk offset. Q t xs \<Longrightarrow> Q (t \<or> lc_IsFinal chunk) (xs @ [normalizeLogChunk W vals runID chunk offset])"
  shows "\<exists>t. Q t out \<and> (err = None \<longrightarrow> t)"
  using assms(1,2)
proof (induction "length s" arbitrary: terminal s sent rule: less_induct)
  case less
  note run = less.prems(1) [unfolded follow_frames.simps [of W vals runID ctx broken terminal s sent]]
  show ?case
  proof (cases "readConnectFrame broken s")
    case EOF
    with run less.prems(2) show ?thesis by (auto split: option.splits if_splits)
  next
    case (FrameFailure e)
    with run less.prems(2) show ?thesis by auto
  next
    case (Frame flag payload rest)
    note shorter = readConnectFrame_shorter [OF Frame]
    show ?thesis
    proof (cases "end_stream flag")
      case True
      with run Frame less.prems(2) show ?thesis by (auto split: option.splits if_splits)
    next
      case flag: False
      show ?thesis
      proof (cases "chunk_of W payload")
        case (Inl msg)
        with run Frame flag less.prems(2) show ?thesis by (auto split: if_splits)
      next
        case (Inr r)
        obtain chunk offset where r: "r = (chunk, offset)" by fastforce
        consider "byte flag \<noteq> 0"
          | (skip) "follow_frames W vals runID ctx broken terminal rest sent = (out, err)"
          | (over) "\<exists>e. out = sent \<and> err = Some e"
          | (sent) "follow_frames W vals runID ctx broken (terminal \<or> lc_IsFinal chunk) rest
              (sent @ [normalizeLogChunk W vals runID chunk offset]) = (out, err)"
          using run Frame flag Inr r by (auto split: if_splits option.splits)
        then show ?thesis
        proof cases
          case 1
          with run Frame flag less.prems(2) show ?thesis by auto
        next
          case skip
          then show ?thesis using less.hyps [OF shorter] less.prems(2) by blast
        next
          case over
          then show ?thesis using less.prems(2) by blast
        next
          case sent
          then show ?thesis using less.hyps [OF shorter] keep [OF less.prems(2)] by blast
        qed
      qed
    qed
  qed
qed

lemma followEvents_inv:
  assumes "followEvents W C ctx runID after = (out, err)" "Q False []"
    and "\<And>t xs chunk offset. Q t xs \<Longrightarrow> Q (t \<or> lc_IsFinal chunk) (xs @ [normalizeLogChunk W (cl_redactor C) runID chunk offset])"
  shows "\<exists>t. Q t out \<and> (err = None \<longrightarrow> t)"
proof -
  consider "out = [] \<and> err \<noteq> None" | rs :: ac_response where
    "follow_frames W (cl_redactor C) runID ctx (ars_Broken rs) False (ars_Body rs) [] = (out, err)"
    using assms(1) unfolding followEvents_def by (auto split: if_splits sum.splits)
  then show ?thesis
  proof cases
    case 1
    then show ?thesis using assms(2) by blast
  next
    case 2
    show ?thesis by (rule follow_frames_inv [OF 2 assms(2,3)])
  qed
qed

text \<open>
  A stream that ends without an error has told how the run ended: among the events it delivered is a terminal one. A stream that breaks off, or that the
  daemon ends early, is an error, so no caller takes a lost connection for the end of a run.
\<close>

theorem stream_success_is_terminal:
  assumes "followEvents W C ctx runID after = (out, None)"
  shows "list_ex ex_Terminal out"
proof -
  obtain t where "t \<longrightarrow> list_ex ex_Terminal out" "t"
    using followEvents_inv [OF assms, of "\<lambda>t xs. t \<longrightarrow> list_ex ex_Terminal xs"]
    by (auto simp: normalizeLogChunk_def Let_def)
  then show ?thesis by blast
qed

text \<open>
  C37. Configured secrets of at least four bytes do not leave the daemon's output: no log line of a followed run and no result contains the authorization token or a configured
  pattern, without its surrounding spaces, whatever the daemon sends. The value must be one that the mark \<open>[REDACTED]\<close> itself cannot show: without brackets and not a part of the word. A
  shorter token or pattern is not redacted at all: the client does not keep it, although the configuration admits it.
\<close>

theorem secrets_redacted:
  assumes "ac_New cfg = Inr C" "v = TrimSpace (acc_AuthToken cfg) \<or> v \<in> TrimSpace ` set (acc_SensitivePatterns cfg)" "plain_secret v"
    and "followEvents W C ctx runID after = (out, err)"
  shows "if 4 \<le> length v
    then list_all (\<lambda>ev. ex_Kind ev = ''log'' \<longrightarrow> \<not> Contains (ex_Message ev) v) out \<and>
      (case Result W C runID of Inl _ \<Rightarrow> True | Inr r \<Rightarrow> \<not> Contains (res_Output r) v)
    else v \<notin> set (cl_redactor C)"
proof (cases "4 \<le> length v")
  case True
  have mem: "v \<in> set (cl_redactor C)"
    using assms(1,2) True by (auto simp: ac_New_def newRedactor_def split: if_splits)
  let ?hidden = "\<lambda>ev. ex_Kind ev = ''log'' \<longrightarrow> \<not> Contains (ex_Message ev) v"
  have "?hidden (normalizeLogChunk W (cl_redactor C) runID chunk offset)" for chunk offset
    using Redact_hides [OF assms(3) mem] by (simp add: normalizeLogChunk_def Let_def)
  then have "\<exists>t. list_all ?hidden out \<and> (err = None \<longrightarrow> t)"
    by (intro followEvents_inv [OF assms(4), of "\<lambda>t xs. list_all ?hidden xs"]) simp_all
  then have "list_all ?hidden out" by blast
  moreover have "case Result W C runID of Inl _ \<Rightarrow> True | Inr r \<Rightarrow> \<not> Contains (res_Output r) v"
    using Redact_hides [OF assms(3) mem] by (simp add: Result_def Let_def split: sum.splits option.splits prod.splits)
  ultimately show ?thesis using True by simp
next
  case False
  then show ?thesis using assms(1) by (auto simp: ac_New_def newRedactor_def split: if_splits)
qed

section \<open>Starting, stopping and results\<close>

text \<open>
  What \<open>Start\<close> admits: a run exists only for a full Git object name and a time limit of at most two hours; its deadline is recorded under the identifier
  the daemon gave it, and a refused request leaves the deadlines as they were.
\<close>

theorem start_bounded:
  assumes "Start W C now request dl = (r, dl')"
  shows "(case r of
      Inl _ \<Rightarrow> dl' = dl
    | Inr run \<Rightarrow> is_hex (TrimSpace (xr_CommitSHA request)) \<and> length (TrimSpace (xr_CommitSHA request)) \<in> {40, 64} \<and>
        0 < xr_Timeout request \<and> xr_Timeout request \<le> 2 * hour \<and> \<not> blank (xrun_ID run) \<and> xrun_CorrelationID run = xr_CorrelationID request \<and>
        dl' = dl(xrun_ID run \<mapsto> now + xr_Timeout request))"
proof (cases "validateExecutionRequest request")
  case None
  then have valid: "is_hex (TrimSpace (xr_CommitSHA request))" "length (TrimSpace (xr_CommitSHA request)) \<in> {40, 64}"
    "0 < xr_Timeout request" "xr_Timeout request \<le> 2 * hour"
    by (auto simp: validateExecutionRequest_def Let_def split: if_splits)
  show ?thesis
  proof (cases "doUnary W C ''/agentcompose.v2.RunService/StartRun'' (ac_marshal_run W (wire_request W request)) (ac_decode_start W)")
    case (Inl e)
    with assms None show ?thesis by (auto simp: Start_def)
  next
    case (Inr a)
    with assms None valid show ?thesis by (auto simp: Start_def split: prod.splits if_splits)
  qed
next
  case (Some e)
  with assms show ?thesis by (auto simp: Start_def)
qed

lemma extractResultEnvelope_version:
  "extractResultEnvelope W s = Some (raw, schemaVersion) \<Longrightarrow> schemaVersion \<noteq> []"
  by (induction s) (auto split: option.splits if_splits prod.splits)

text \<open>
  A result is the result of a run that succeeded: whatever the daemon answers, \<open>Result\<close> returns an output only when the run's status is \<open>succeeded\<close> and
  the output carries a schema version; a failed, cancelled or unfinished run is an error.
\<close>

theorem result_succeeded:
  assumes "Result W C runID = Inr r"
  shows "res_Status r = ''succeeded'' \<and> res_SchemaVersion r \<noteq> [] \<and> res_RunID r = TrimSpace runID"
proof -
  obtain run where call: "doUnary W C ''/agentcompose.v2.RunService/GetRun'' (ac_marshal_strings W [(''runId'', TrimSpace runID)]) (ac_decode_get W) = Inr run"
    using assms by (auto simp: Result_def Let_def split: if_splits sum.splits)
  have terminal: "isTerminalStatus W (sum_Status (rd_Summary run))" "normalizeStatus W (sum_Status (rd_Summary run)) \<noteq> ''canceled''"
    "normalizeStatus W (sum_Status (rd_Summary run)) \<noteq> ''failed''"
    using assms call by (auto simp: Result_def Let_def split: if_splits)
  moreover obtain envelope where "extractResultEnvelope W (if blank (rd_Output run) then rd_ResultJSON run else rd_Output run) =
      Some (envelope, res_SchemaVersion r)" "res_Status r = normalizeStatus W (sum_Status (rd_Summary run))" "res_RunID r = TrimSpace runID"
    using assms call terminal unfolding Result_def Let_def by (auto split: if_splits option.splits prod.splits)
  ultimately show ?thesis using extractResultEnvelope_version by (auto simp: isTerminalStatus_def)
qed

text \<open>
  Cancelling a run that is already cancelled fails: the daemon's word for the status is \<open>canceled\<close>, as \<open>isTerminalStatus\<close> and \<open>Result\<close> spell it, and
  \<open>Cancel\<close> compares with \<open>cancelled\<close>, so its second condition never holds and the call reports that the cancellation was not accepted.
\<close>

theorem cancel_of_canceled_rejected:
  assumes "doUnary W C ''/agentcompose.v2.RunService/StopRun'' (ac_marshal_strings W [(''runId'', TrimSpace runID), (''reason'', TrimSpace reason)])
      (ac_decode_stop W) = Inr (run, False)"
    and "isTerminalStatus W (sum_Status (rd_Summary run))"
  shows "\<exists>msg. ac_Cancel W C runID reason = Inl (AC ErrRejected msg)"
  using assms by (auto simp: ac_Cancel_def Let_def isTerminalStatus_def)

section \<open>A daemon\<close>

definition sample_summary :: "string \<Rightarrow> runSummary" where
  "sample_summary status = \<lparr>sum_RunID = ''run-1'', sum_Status = status, sum_Error = [], sum_StartedAt = [], sum_CompletedAt = []\<rparr>"

definition sample_chunk :: "string \<Rightarrow> bool \<Rightarrow> logChunk" where
  "sample_chunk content final = \<lparr>lc_Data = content, lc_Offset = Some ''7'', lc_IsFinal = final, lc_RunStatus = ''RUN_STATUS_SUCCEEDED'',
     lc_CreatedAt = [], lc_Run = sample_summary []\<rparr>"

definition sample_detail :: "string \<Rightarrow> runDetail" where
  "sample_detail status = \<lparr>rd_Summary = sample_summary status, rd_Output = ''warning {token-1234}'', rd_ResultJSON = []\<rparr>"

text \<open>A daemon that streams one log line with the token and ends the run, and whose finished run has the output of \<open>sample_detail\<close>.\<close>

definition sample_daemon :: ac_world where
  "sample_daemon = \<lparr>ac_NewRequest = (\<lambda>_. None),
     ac_Do = (\<lambda>rq. Inr \<lparr>ars_StatusCode = 200, ars_ContentType = ''application/connect+json'',
       ars_Body = (if Contains (aq_URL rq) ''FollowRunLogs''
         then encodeConnectFrame (CHR 0x00) ''log'' @ encodeConnectFrame (CHR 0x00) ''end'' @ encodeConnectFrame (CHR 0x02) [] else []), ars_Broken = None\<rparr>),
     ac_uni = id, ac_parse_time = (\<lambda>_. 0), ac_unquote = (\<lambda>_. None), ac_quote = id, ac_marshal_payload = (\<lambda>_. []), ac_marshal_run = (\<lambda>_. []),
     ac_marshal_follow = (\<lambda>_ _. []), ac_marshal_strings = (\<lambda>_. []), ac_unmarshal_version = (\<lambda>_. Inl []),
     ac_decode_start = (\<lambda>_. Inr (sample_summary ''RUN_STATUS_RUNNING'', True)), ac_decode_get = (\<lambda>_. Inr (sample_detail ''RUN_STATUS_SUCCEEDED'')),
     ac_decode_stop = (\<lambda>_. Inr (sample_detail ''RUN_STATUS_CANCELED'', False)), ac_unmarshal_error = (\<lambda>_. None), ac_end_error = (\<lambda>_. None),
     ac_unmarshal_chunk = (\<lambda>p. if p = ''log'' then Inr (sample_chunk ''using token-1234 here'' False) else Inr (sample_chunk [] True)),
     ac_decode_value = (\<lambda>s. Some s), ac_unmarshal_envelope = (\<lambda>_. Some (''v1'', ''done''))\<rparr>"

definition sample_ac_config :: ac_config where
  "sample_ac_config = \<lparr>acc_BaseURL = ''http://ac/'', acc_AuthToken = ''token-1234'', acc_RequiredVersion = [], acc_RequiredDriver = [],
     acc_RequestTimeout = second, acc_SensitivePatterns = []\<rparr>"

definition sample_client :: Client where
  "sample_client = projr (ac_New sample_ac_config)"

definition sample_exec_request :: exec_request where
  "sample_exec_request = \<lparr>xr_CorrelationID = ''c'', xr_ProjectID = ''p'', xr_AgentName = ''a'', xr_Repository = ''r'',
     xr_CommitSHA = replicate 40 (CHR ''a''), xr_Prompt = ''do'', xr_Timeout = hour, xr_OutputSchemaJSON = [], xr_Driver = [], xr_Cleanup = ''remove'',
     xr_NetworkEnabled = False\<rparr>"

definition sample_context :: stream_context where
  "sample_context = \<lparr>sc_read = None, sc_send = (\<lambda>_. None)\<rparr>"

lemma sample_stream:
  "followEvents sample_daemon sample_client sample_context ''run-1'' 0 =
     ([normalizeLogChunk sample_daemon [''token-1234''] ''run-1'' (sample_chunk ''using token-1234 here'' False) 7,
       normalizeLogChunk sample_daemon [''token-1234''] ''run-1'' (sample_chunk [] True) 7], None)"
  by code_simp

theorem stream_success_is_terminal_witness:
  "snd (followEvents sample_daemon sample_client sample_context ''run-1'' 0) = None \<and>
   list_ex ex_Terminal (fst (followEvents sample_daemon sample_client sample_context ''run-1'' 0))"
  using stream_success_is_terminal [of sample_daemon sample_client sample_context "''run-1''" 0] sample_stream by simp

theorem secrets_redacted_witness:
  "map ex_Message (fst (followEvents sample_daemon sample_client sample_context ''run-1'' 0)) = [''using [REDACTED] here'', ''succeeded''] \<and>
   (case Result sample_daemon sample_client ''run-1'' of Inl _ \<Rightarrow> True | Inr r \<Rightarrow> \<not> Contains (res_Output r) ''token-1234'')"
proof
  show "map ex_Message (fst (followEvents sample_daemon sample_client sample_context ''run-1'' 0)) = [''using [REDACTED] here'', ''succeeded'']"
    by code_simp
  have token: "ac_New sample_ac_config = Inr sample_client" "''token-1234'' = TrimSpace (acc_AuthToken sample_ac_config)"
    "plain_secret ''token-1234''" by code_simp+
  show "case Result sample_daemon sample_client ''run-1'' of Inl _ \<Rightarrow> True | Inr r \<Rightarrow> \<not> Contains (res_Output r) ''token-1234''"
    using secrets_redacted [OF token(1) disjI1 [OF token(2)] token(3) sample_stream] by simp
qed

theorem start_bounded_witness:
  "fst (Start sample_daemon sample_client 5 sample_exec_request Map.empty) =
     Inr \<lparr>xrun_ID = ''run-1'', xrun_CorrelationID = ''c'', xrun_StartedAt = 0\<rparr> \<and>
   snd (Start sample_daemon sample_client 5 sample_exec_request Map.empty) = [''run-1'' \<mapsto> 5 + hour]"
proof -
  have ok: "fst (Start sample_daemon sample_client 5 sample_exec_request Map.empty) =
      Inr \<lparr>xrun_ID = ''run-1'', xrun_CorrelationID = ''c'', xrun_StartedAt = 0\<rparr>" by code_simp
  then show ?thesis
    using start_bounded [of sample_daemon sample_client 5 sample_exec_request Map.empty] by (auto simp: sample_exec_request_def prod_eq_iff)
qed

theorem result_succeeded_witness:
  "res_Status (projr (Result sample_daemon sample_client '' run-1'')) = ''succeeded'' \<and>
   res_RunID (projr (Result sample_daemon sample_client '' run-1'')) = ''run-1''"
proof -
  have "\<not> isl (Result sample_daemon sample_client '' run-1'')" "TrimSpace '' run-1'' = ''run-1''" by code_simp+
  then show ?thesis using result_succeeded [OF sum.collapse(2) [symmetric]] by metis
qed

theorem cancel_of_canceled_rejected_witness:
  "normalizeStatus sample_daemon (sum_Status (rd_Summary (sample_detail ''RUN_STATUS_CANCELED''))) = ''canceled'' \<and>
   (\<exists>msg. ac_Cancel sample_daemon sample_client ''run-1'' ''stop'' = Inl (AC ErrRejected msg))"
proof
  show "normalizeStatus sample_daemon (sum_Status (rd_Summary (sample_detail ''RUN_STATUS_CANCELED''))) = ''canceled''" by code_simp
  have "doUnary sample_daemon sample_client ''/agentcompose.v2.RunService/StopRun''
      (ac_marshal_strings sample_daemon [(''runId'', TrimSpace ''run-1''), (''reason'', TrimSpace ''stop'')]) (ac_decode_stop sample_daemon) =
      Inr (sample_detail ''RUN_STATUS_CANCELED'', False)"
    "isTerminalStatus sample_daemon (sum_Status (rd_Summary (sample_detail ''RUN_STATUS_CANCELED'')))" by code_simp+
  then show "\<exists>msg. ac_Cancel sample_daemon sample_client ''run-1'' ''stop'' = Inl (AC ErrRejected msg)"
    by (rule cancel_of_canceled_rejected)
qed

end
