(* ===== verification/HTTP_Auth.thy ===== *)
theory HTTP_Auth
  imports Webhooks AgentCompose
begin

text \<open>
  The edge of the API server (\<open>src/server/internal/httpserver/server.go\<close>): requests and replies, the session guard, and the handlers of identity and
  health.

  \<^item> A handler takes the server, the environment, the request and the database, and returns the reply with the database it leaves. \<open>bt n\<close> is what other requests
    and workers do to the database before the handler's \<open>n\<close>-th call.
  \<^item> A reply is what the handler writes: status, cookies, the target of a redirect, and the body with its typed contents. A panic, which \<open>net/http\<close>
    answers by closing the connection, is the reply \<open>Aborted\<close>; a handler whose calls never return leaves the request \<open>Unanswered\<close>.
  \<^item> \<open>decoders\<close> are the decoders of \<open>encoding/json\<close> at the request types, unknown fields disallowed; \<open>None\<close> is a decoding error.
\<close>

section \<open>Requests\<close>

record http_request =
  rq_Method :: string
  rq_PathValue :: "string \<Rightarrow> string"
  rq_Cookie :: "string \<rightharpoonup> string"
  rq_Header :: "string \<Rightarrow> string"
  rq_Query :: "string \<Rightarrow> string"
  rq_Body :: string

record credentials =
  cr_Email :: string
  cr_Password :: string

record createTaskRequest =
  ctr_Kind :: Kind
  ctr_Title :: string
  ctr_RepositoryID :: string
  ctr_RepositoryName :: string
  ctr_SourceKey :: string
  ctr_IdempotencyKey :: string
  ctr_Payload :: "json option"
  ctr_Priority :: int
  ctr_MaxAttempts :: int

record createApprovalRequest =
  car_Action :: Action
  car_Risk :: Risk
  car_ActionDigest :: string
  car_EligibleRoles :: "Role list"
  car_ExpiresAt :: time
  car_Metadata :: "json option"

record decisionApprovalRequest =
  dar_Decision :: Approvals.State
  dar_Reason :: string
  dar_IdempotencyKey :: string

record consumeApprovalRequest =
  cor_ActionDigest :: string
  cor_IdempotencyKey :: string

record createRepairRequest =
  crr_RepositoryID :: string
  crr_Repository :: string
  crr_CloneURL :: string
  crr_WebURL :: string
  crr_InstallationID :: string
  crr_IssueNumber :: int
  crr_Title :: string
  crr_Body :: string
  crr_State :: string
  crr_BaseBranch :: string
  crr_BaseSHA :: string

record automationTriggerRequest =
  atr_TriggerKey :: string
  atr_Provider :: string
  atr_Event :: string
  atr_Action :: string
  atr_Branch :: string
  atr_Repository :: string
  atr_RepositoryID :: string
  atr_Title :: string
  atr_TaskPayload :: json
  atr_SourcePayload :: json

record startExecutionRequest =
  ser_CorrelationID :: string
  ser_ProjectID :: string
  ser_AgentName :: string
  ser_Repository :: string
  ser_CommitSHA :: string
  ser_Prompt :: string
  ser_TimeoutSeconds :: int
  ser_Driver :: string
  ser_NetworkEnabled :: bool

record decoders =
  js_credentials :: "string \<Rightarrow> credentials option"
  js_createTask :: "string \<Rightarrow> createTaskRequest option"
  js_reason :: "string \<Rightarrow> string option"
  js_createApproval :: "string \<Rightarrow> createApprovalRequest option"
  js_decision :: "string \<Rightarrow> decisionApprovalRequest option"
  js_consume :: "string \<Rightarrow> consumeApprovalRequest option"
  js_createRepair :: "string \<Rightarrow> createRepairRequest option"
  js_taskId :: "string \<Rightarrow> string option"
  js_automation :: "string \<Rightarrow> (Input \<times> int) option"
  js_revision :: "string \<Rightarrow> int option"
  js_trigger :: "string \<Rightarrow> automationTriggerRequest option"
  js_execution :: "string \<Rightarrow> startExecutionRequest option"

section \<open>Replies\<close>

record Cookie =
  ck_Name :: string
  ck_Value :: string
  ck_Path :: string
  ck_MaxAge :: int
  ck_HttpOnly :: bool
  ck_Secure :: bool
  ck_SameSite :: string

record overview =
  ov_scm :: "(Provider \<rightharpoonup> bool) option"
  ov_agentCompose :: "(string \<times> string \<times> string) option"
  ov_agentTemplates :: "string list"
  ov_configured :: int
  ov_activeRuns :: int
  ov_total :: int
  ov_enabled :: int

text \<open>The frames of an event stream: the sequence number, the kind and the encoded event, or the code of an error.\<close>

datatype sse = SseEvent int string json | SseError string

datatype body = NoBody | Aborted | Unanswered | ErrorCode string | HealthBody string | VersionBody string
  | UserBody User | LoginBody User string | MeBody User time | UsersBody "User list"
  | TasksBody "Task list" | TaskBody Task | TaskDetail Task "Run list" "Finding list" "Evidence list" "AuditEvent list" string
  | RunsBody "Run list" | RunBody Run "RunEvent list" | AuditBody "AuditEvent list"
  | ApprovalsBody "Request list" | ApprovalBody Request | ApprovalDetail Request bool
  | RepairsBody "Repair list" | RepairBody Repair
  | OverviewBody overview | AutomationsBody "Template list" | AutomationBody Template
  | AutomationDetail Template "Version list" "automation_run list" | TriggerBody automation_run Task bool
  | VersionsBody "Version list" | AutomationRunsBody "automation_run list"
  | ProvidersBody "Provider \<rightharpoonup> bool" | ConnectionsBody "Connection list" | ConnectionBody Connection
  | RepositoriesBody "Repository list" | RepositoryBody Repository | WebhookBody string "Task list"
  | ExecutionBody execution_run string | ResultBody execution_result | StreamBody "sse list" | TextBody string

record http_reply =
  rp_Status :: int
  rp_Cookies :: "Cookie list"
  rp_Location :: "string option"
  rp_Body :: body

definition writeJSON :: "int \<Rightarrow> body \<Rightarrow> http_reply" where
  "writeJSON status content = \<lparr>rp_Status = status, rp_Cookies = [], rp_Location = None, rp_Body = content\<rparr>"

definition writeError :: "int \<Rightarrow> string \<Rightarrow> http_reply" where
  "writeError status code = writeJSON status (ErrorCode code)"

definition redirect :: "string \<Rightarrow> http_reply" where
  "redirect location = \<lparr>rp_Status = 302, rp_Cookies = [], rp_Location = Some location, rp_Body = NoBody\<rparr>"

definition aborted :: http_reply where
  "aborted = writeJSON 0 Aborted"

definition unanswered :: http_reply where
  "unanswered = writeJSON 0 Unanswered"

section \<open>The server\<close>

text \<open>
  \<open>OIDCProvider\<close> is the interface of auth/oidc.go. \<open>ready_checks\<close> are the readiness dependencies: the error each reports in an environment, if any.
  The services whose presence alone matters
  here are flags. \<open>api_connectedURL\<close> is \<open>net/url\<close>'s part of the source-control callback: the address with the query value \<open>connected\<close> set, \<open>None\<close> when
  \<open>url.Parse\<close> rejects it.
\<close>

record OIDCProvider =
  oidc_AuthCodeURL :: "string \<Rightarrow> string \<Rightarrow> string"
  oidc_Exchange :: "env \<Rightarrow> string \<Rightarrow> string \<Rightarrow> string + Identity"

record api = server +
  api_crypto :: crypto
  api_sessionTTL :: duration
  api_oidc :: "OIDCProvider option"
  api_auth :: bool
  api_scm :: bool
  api_tasks :: bool
  api_approvals :: "approval_service option"
  api_execution :: "execution_adapter option"
  api_cookieSecure :: bool
  api_serviceVersion :: string
  ready_checks :: "(env \<Rightarrow> string option) list"
  api_json :: decoders
  api_marshal :: "(string \<times> string) list \<Rightarrow> json"
  api_marshal_event :: "Event \<Rightarrow> json"
  api_marshal_run_event :: "RunEvent \<Rightarrow> json"
  api_connectedURL :: "string \<Rightarrow> Provider \<Rightarrow> string option"

type_synonym handler = "api \<Rightarrow> (nat \<Rightarrow> server_db \<Rightarrow> server_db) \<Rightarrow> env \<Rightarrow> http_request \<Rightarrow> server_db \<Rightarrow> http_reply \<times> server_db"

definition on_auth :: "(auth_db \<Rightarrow> 'r \<times> auth_db) \<Rightarrow> server_db \<Rightarrow> 'r \<times> server_db" where
  "on_auth f s = (case f (srv_auth s) of (r, d) \<Rightarrow> (r, s\<lparr>srv_auth := d\<rparr>))"

definition on_core :: "(repairs_db \<Rightarrow> 'r \<times> repairs_db) \<Rightarrow> server_db \<Rightarrow> 'r \<times> server_db" where
  "on_core f s = (case f (srv_core s) of (r, d) \<Rightarrow> (r, s\<lparr>srv_core := d\<rparr>))"

definition on_scm :: "(scm_db \<Rightarrow> 'r \<times> scm_db) \<Rightarrow> server_db \<Rightarrow> 'r \<times> server_db" where
  "on_scm f s = (case f (srv_scm s) of (r, d) \<Rightarrow> (r, s\<lparr>srv_scm := d\<rparr>))"

text \<open>\<open>MaxBytesReader\<close> cuts the body at 64 KiB; the decoder takes the first JSON value of it.\<close>

definition decodeJSON :: "(string \<Rightarrow> 'a option) \<Rightarrow> http_request \<Rightarrow> http_reply + 'a" where
  "decodeJSON decode r =
    (case decode (LimitReader 65536 (rq_Body r)) of None \<Rightarrow> Inl (writeError 400 ''invalid_request'') | Some v \<Rightarrow> Inr v)"

definition sessionCookie :: string where "sessionCookie = ''repomender_session''"
definition csrfCookie :: string where "csrfCookie = ''repomender_csrf''"

definition requireSession :: "api \<Rightarrow> env \<Rightarrow> http_request \<Rightarrow> server_db \<Rightarrow> http_reply + Session \<times> string" where
  "requireSession S E r s =
    (case rq_Cookie r sessionCookie of
       None \<Rightarrow> Inl (writeError 401 ''authentication_required'')
     | Some token \<Rightarrow>
         (case Authenticate (api_crypto S) E token (srv_auth s) of
            Inl _ \<Rightarrow> Inl (writeError 401 ''authentication_required'')
          | Inr session \<Rightarrow> Inr (session, token)))"

definition csrf_ok :: "api \<Rightarrow> Session \<Rightarrow> http_request \<Rightarrow> bool" where
  "csrf_ok S session r = VerifyCSRF (api_crypto S) session (rq_Header r ''X-CSRF-Token'')"

definition setSessionCookies :: "api \<Rightarrow> string \<Rightarrow> string \<Rightarrow> http_reply \<Rightarrow> http_reply" where
  "setSessionCookies S sessionToken csrfToken rp = rp\<lparr>rp_Cookies := rp_Cookies rp @
    [\<lparr>ck_Name = sessionCookie, ck_Value = sessionToken, ck_Path = ''/'', ck_MaxAge = 0, ck_HttpOnly = True,
      ck_Secure = api_cookieSecure S, ck_SameSite = ''Lax''\<rparr>,
     \<lparr>ck_Name = csrfCookie, ck_Value = csrfToken, ck_Path = ''/'', ck_MaxAge = 0, ck_HttpOnly = False,
      ck_Secure = api_cookieSecure S, ck_SameSite = ''Lax''\<rparr>]\<rparr>"

definition clearSessionCookies :: "api \<Rightarrow> http_reply \<Rightarrow> http_reply" where
  "clearSessionCookies S rp = rp\<lparr>rp_Cookies := rp_Cookies rp @
    map (\<lambda>name. \<lparr>ck_Name = name, ck_Value = [], ck_Path = ''/'', ck_MaxAge = - 1, ck_HttpOnly = (name = sessionCookie),
      ck_Secure = api_cookieSecure S, ck_SameSite = ''Lax''\<rparr>) [sessionCookie, csrfCookie]\<rparr>"

section \<open>Identity\<close>

definition bootstrap :: handler where
  "bootstrap S bt E r s =
    (case decodeJSON (js_credentials (api_json S)) r of
       Inl rp \<Rightarrow> (rp, s)
     | Inr request \<Rightarrow>
         (case on_auth (Bootstrap (api_crypto S) (call E 1) (cr_Email request) (cr_Password request)) s of
            (Inl e, s1) \<Rightarrow>
              (if e = AuthPanic then aborted
               else writeError (if e = ErrBootstrapClosed then 409 else 400) ''bootstrap_unavailable'', s1)
          | (Inr user, s1) \<Rightarrow> (writeJSON 201 (UserBody user), s1)))"

definition login :: handler where
  "login S bt E r s =
    (case decodeJSON (js_credentials (api_json S)) r of
       Inl rp \<Rightarrow> (rp, s)
     | Inr request \<Rightarrow>
         (case on_auth (LoginLocal (api_crypto S) (call E 1) (api_sessionTTL S) (cr_Email request) (cr_Password request)) s of
            (Inl _, s1) \<Rightarrow> (writeError 401 ''invalid_credentials'', s1)
          | (Inr (user, sessionToken, csrfToken), s1) \<Rightarrow>
              (setSessionCookies S sessionToken csrfToken (writeJSON 200 (LoginBody user csrfToken)), s1)))"

definition logout :: handler where
  "logout S bt E r s =
    (case requireSession S (call E 0) r s of
       Inl rp \<Rightarrow> (rp, s)
     | Inr (session, token) \<Rightarrow>
         if \<not> csrf_ok S session r then (writeError 403 ''csrf_failed'', s)
         else (case on_auth (Logout (api_crypto S) (call E 1) token) (bt 1 s) of
           (Inl _, s1) \<Rightarrow> (writeError 500 ''logout_failed'', s1)
         | (Inr _, s1) \<Rightarrow> (clearSessionCookies S (writeJSON 204 NoBody), s1)))"

definition me :: handler where
  "me S bt E r s =
    (case requireSession S (call E 0) r s of
       Inl rp \<Rightarrow> (rp, s)
     | Inr (session, _) \<Rightarrow> (writeJSON 200 (MeBody (ses_User session) (ses_ExpiresAt session)), s))"

definition users_handler :: handler where
  "users_handler S bt E r s =
    (case requireSession S (call E 0) r s of
       Inl rp \<Rightarrow> (rp, s)
     | Inr (session, _) \<Rightarrow>
         (case service_ListUsers (call E 1) (ses_User session) (srv_auth (bt 1 s)) of
            Inl e \<Rightarrow> (if e = auth_error.ErrForbidden then writeError 403 ''forbidden'' else writeError 500 ''users_unavailable'', bt 1 s)
          | Inr us \<Rightarrow> (writeJSON 200 (UsersBody us), bt 1 s)))"

definition oidcStart :: handler where
  "oidcStart S bt E r s =
    (case api_oidc S of
       None \<Rightarrow> (writeError 503 ''oidc_unavailable'', s)
     | Some P \<Rightarrow>
         (case on_auth (BeginOIDC (api_crypto S) (call E 1) (rq_Query r ''returnTo'')) s of
            (Inl _, s1) \<Rightarrow> (writeError 500 ''oidc_start_failed'', s1)
          | (Inr (state, _, challenge), s1) \<Rightarrow> (redirect (oidc_AuthCodeURL P state challenge), s1)))"

definition oidcCallback :: handler where
  "oidcCallback S bt E r s =
    (case api_oidc S of
       None \<Rightarrow> (writeError 503 ''oidc_unavailable'', s)
     | Some P \<Rightarrow>
         (case on_auth (ConsumeOIDC (api_crypto S) (call E 1) (rq_Query r ''state'')) s of
            (Inl _, s1) \<Rightarrow> (writeError 400 ''oidc_flow_invalid'', s1)
          | (Inr flow, s1) \<Rightarrow>
              (case oidc_Exchange P (call E 2) (rq_Query r ''code'') (flow_Verifier flow) of
                 Inl _ \<Rightarrow> (writeError 502 ''oidc_exchange_failed'', s1)
               | Inr identity \<Rightarrow>
                   (case on_auth (LoginOIDC (api_crypto S) (call E 3) (api_sessionTTL S) identity) (bt 3 s1) of
                      (Inl e, s2) \<Rightarrow> (if e = AuthPanic then aborted else writeError 401 ''oidc_identity_rejected'', s2)
                    | (Inr (_, sessionToken, csrfToken), s2) \<Rightarrow>
                        (setSessionCookies S sessionToken csrfToken (redirect (flow_ReturnTo flow)), s2)))))"

section \<open>Health\<close>

definition live :: handler where
  "live S bt E r s = (writeJSON 200 (HealthBody ''ok''), s)"

definition version :: handler where
  "version S bt E r s = (writeJSON 200 (VersionBody (if api_serviceVersion S = [] then ''dev'' else api_serviceVersion S)), s)"

text \<open>The readiness dependencies are asked in order until one fails.\<close>

fun ready_from :: "env \<Rightarrow> nat \<Rightarrow> (env \<Rightarrow> string option) list \<Rightarrow> bool" where
  "ready_from E k [] = True"
| "ready_from E k (check # rest) = (check (call E k) = None \<and> ready_from E (Suc k) rest)"

definition ready :: handler where
  "ready S bt E r s =
    (if fails E 0 \<or> \<not> ready_from E 1 (ready_checks S) then writeJSON 503 (HealthBody ''not_ready'')
     else writeJSON 200 (HealthBody ''ready''), s)"

definition securityHeaders :: "bool \<Rightarrow> bool \<Rightarrow> (string \<times> string) list" where
  "securityHeaders secureTransport tls =
    [(''Content-Security-Policy'', ''default-src 'none'; frame-ancestors 'none'' @ [CHR 0x27]),
     (''X-Content-Type-Options'', ''nosniff''), (''X-Frame-Options'', ''DENY''), (''Referrer-Policy'', ''no-referrer''),
     (''Permissions-Policy'', ''camera=(), microphone=(), geolocation=()'')] @
    (if secureTransport \<or> tls then [(''Strict-Transport-Security'', ''max-age=31536000; includeSubDomains'')] else [])"

end
