(* ===== verification/HTTP_API.thy ===== *)
theory HTTP_API
  imports HTTP_Auth
begin

text \<open>
  The handlers of tasks, approvals, repairs, automations and source control (\<open>tasks.go\<close>, \<open>approvals.go\<close>, \<open>repair.go\<close>, \<open>automations.go\<close>
  and \<open>scm.go\<close> of \<open>src/server/internal/httpserver\<close>). Each guards the request and hands it to the service that the other theories model; the
  mapping of service errors to statuses and codes is the one of the \<open>write...Error\<close> functions.
\<close>

section \<open>Values of the query string\<close>

definition Status_of :: "string \<Rightarrow> Status" where
  "Status_of v =
    (if v = ''queued'' then StatusQueued else if v = ''running'' then StatusRunning
     else if v = ''awaiting_approval'' then StatusAwaitingApproval else if v = ''succeeded'' then StatusSucceeded
     else if v = ''failed'' then StatusFailed else if v = ''cancelled'' then StatusCancelled
     else if v = ''superseded'' then StatusSuperseded else StatusOther v)"

definition Kind_of :: "string \<Rightarrow> Kind" where
  "Kind_of v =
    (if v = ''code_review'' then KindCodeReview else if v = ''ci_diagnosis'' then KindCIDiagnosis
     else if v = ''issue_repair'' then KindIssueRepair else KindOther v)"

definition approval_State_of :: "string \<Rightarrow> Approvals.State" where
  "approval_State_of v =
    (if v = ''pending'' then StatePending else if v = ''approved'' then StateApproved
     else if v = ''rejected'' then StateRejected else if v = ''expired'' then StateExpired
     else if v = ''cancelled'' then Approvals.StateCancelled else if v = ''consumed'' then StateConsumed
     else Approvals.StateOther v)"

definition repair_State_of :: "string \<Rightarrow> Repair_Policy.State" where
  "repair_State_of v =
    (if v = ''planning'' then StatePlanning else if v = ''awaiting_plan_approval'' then StateAwaitingPlanApproval
     else if v = ''plan_approved'' then StatePlanApproved else if v = ''patching'' then StatePatching
     else if v = ''awaiting_patch_approval'' then StateAwaitingPatchApproval else if v = ''patch_approved'' then StatePatchApproved
     else if v = ''published'' then StatePublished else if v = ''failed'' then StateFailed
     else if v = ''cancelled'' then Repair_Policy.StateCancelled else Repair_Policy.StateOther v)"

definition queryInt :: "http_request \<Rightarrow> string \<Rightarrow> int \<Rightarrow> int" where
  "queryInt r key fallback = (case ParseInt (rq_Query r key) of None \<Rightarrow> fallback | Some n \<Rightarrow> if n \<le> 0 then fallback else n)"

section \<open>Errors\<close>

definition taskErrorCode :: "task_error \<Rightarrow> string" where
  "taskErrorCode e =
    (case e of ErrTaskNotFound \<Rightarrow> ''task_not_found'' | task_error.ErrRunNotFound \<Rightarrow> ''run_not_found''
     | ErrInvalidKind \<Rightarrow> ''invalid_task_kind'' | ErrInvalidStatus \<Rightarrow> ''invalid_task_status''
     | ErrInvalidTransition _ _ \<Rightarrow> ''invalid_task_transition'' | ErrLeaseLost \<Rightarrow> ''task_lease_lost''
     | _ \<Rightarrow> ''task_operation_failed'')"

definition writeTaskError :: "task_error \<Rightarrow> http_reply" where
  "writeTaskError e = writeError
    (case e of ErrTaskNotFound \<Rightarrow> 404 | task_error.ErrRunNotFound \<Rightarrow> 404 | ErrInvalidKind \<Rightarrow> 400 | ErrInvalidStatus \<Rightarrow> 400
     | ErrInvalidTransition _ _ \<Rightarrow> 409 | ErrLeaseLost \<Rightarrow> 409 | _ \<Rightarrow> 500) (taskErrorCode e)"

definition approvalErrorCode :: "approval_error \<Rightarrow> string" where
  "approvalErrorCode e =
    (case e of approval_error.ErrNotFound \<Rightarrow> ''approval_not_found'' | approval_error.ErrForbidden \<Rightarrow> ''approval_forbidden''
     | ErrExpired \<Rightarrow> ''approval_expired'' | approval_error.ErrRejected \<Rightarrow> ''approval_rejected'' | approval_error.ErrCancelled \<Rightarrow> ''approval_cancelled''
     | ErrConsumed \<Rightarrow> ''approval_consumed'' | ErrDigestMismatch \<Rightarrow> ''approval_digest_mismatch''
     | ErrIdempotencyConflict \<Rightarrow> ''approval_idempotency_conflict'' | ErrAlreadyDecided \<Rightarrow> ''approval_already_decided''
     | ErrInvalidAction \<Rightarrow> ''invalid_approval_action'' | ErrInvalidRisk \<Rightarrow> ''invalid_approval_risk''
     | ErrInvalidDigest \<Rightarrow> ''invalid_action_digest'' | ErrInvalidExpiry \<Rightarrow> ''invalid_approval_expiry''
     | ErrInvalidIdempotency \<Rightarrow> ''invalid_idempotency_key'' | approval_error.ErrInvalidState \<Rightarrow> ''invalid_approval_state''
     | ErrInvalidStateOf _ \<Rightarrow> ''invalid_approval_state'' | _ \<Rightarrow> ''approval_unavailable'')"

definition writeApprovalError :: "approval_error \<Rightarrow> http_reply" where
  "writeApprovalError e = writeError
    (case e of approval_error.ErrNotFound \<Rightarrow> 404 | approval_error.ErrForbidden \<Rightarrow> 403
     | ErrInvalidAction \<Rightarrow> 400 | ErrInvalidRisk \<Rightarrow> 400 | ErrInvalidDigest \<Rightarrow> 400 | ErrInvalidExpiry \<Rightarrow> 400
     | ErrInvalidIdempotency \<Rightarrow> 400 | approval_error.ErrInvalidState \<Rightarrow> 400 | ErrInvalidStateOf _ \<Rightarrow> 400
     | ErrAlreadyDecided \<Rightarrow> 409 | ErrExpired \<Rightarrow> 409 | approval_error.ErrRejected \<Rightarrow> 409 | approval_error.ErrCancelled \<Rightarrow> 409 | ErrConsumed \<Rightarrow> 409
     | ErrDigestMismatch \<Rightarrow> 409 | ErrIdempotencyConflict \<Rightarrow> 409 | _ \<Rightarrow> 500) (approvalErrorCode e)"

definition repairErrorCode :: "repair_error \<Rightarrow> string" where
  "repairErrorCode e =
    (case e of repair_error.ErrNotFound \<Rightarrow> ''repair_not_found'' | repair_error.ErrInvalidTrigger \<Rightarrow> ''invalid_repair_trigger''
     | ErrUnsafePath \<Rightarrow> ''repair_unsafe_path'' | ErrProtectedPath \<Rightarrow> ''repair_protected_path''
     | ErrGeneratedFile \<Rightarrow> ''repair_generated_file'' | ErrBinaryFile \<Rightarrow> ''repair_binary_file''
     | ErrPatchTooLarge \<Rightarrow> ''repair_patch_too_large'' | ErrSecretDetected \<Rightarrow> ''repair_secret_detected''
     | ErrTestsFailed \<Rightarrow> ''repair_tests_failed'' | ErrApprovalPhase \<Rightarrow> ''repair_approval_phase''
     | ErrProviderFailure \<Rightarrow> ''repair_provider_failure''
     | RepairApproval ErrExpired \<Rightarrow> ''repair_approval_expired'' | RepairApproval approval_error.ErrRejected \<Rightarrow> ''repair_approval_rejected''
     | RepairApproval approval_error.ErrCancelled \<Rightarrow> ''repair_approval_cancelled'' | RepairApproval ErrConsumed \<Rightarrow> ''repair_approval_consumed''
     | RepairApproval ErrDigestMismatch \<Rightarrow> ''repair_approval_digest_mismatch''
     | RepairApproval ErrIdempotencyConflict \<Rightarrow> ''repair_approval_idempotency_conflict''
     | _ \<Rightarrow> ''repair_unavailable'')"

definition writeRepairError :: "repair_error \<Rightarrow> http_reply" where
  "writeRepairError e = writeError
    (case e of repair_error.ErrNotFound \<Rightarrow> 404
     | repair_error.ErrInvalidTrigger \<Rightarrow> 400 | ErrInvalidPlan \<Rightarrow> 400 | ErrInvalidPatch \<Rightarrow> 400 | ErrUnsafePath \<Rightarrow> 400 | ErrProtectedPath \<Rightarrow> 400
     | ErrGeneratedFile \<Rightarrow> 400 | ErrBinaryFile \<Rightarrow> 400 | ErrPatchTooLarge \<Rightarrow> 400 | ErrSecretDetected \<Rightarrow> 400
     | ErrApprovalPhase \<Rightarrow> 409 | ErrTestsFailed \<Rightarrow> 409 | ErrPublicationConflict \<Rightarrow> 409
     | RepairApproval approval_error.ErrForbidden \<Rightarrow> 403
     | RepairApproval ErrExpired \<Rightarrow> 409 | RepairApproval approval_error.ErrRejected \<Rightarrow> 409 | RepairApproval approval_error.ErrCancelled \<Rightarrow> 409
     | RepairApproval ErrConsumed \<Rightarrow> 409 | RepairApproval ErrDigestMismatch \<Rightarrow> 409 | RepairApproval ErrAlreadyDecided \<Rightarrow> 409
     | RepairApproval ErrIdempotencyConflict \<Rightarrow> 409
     | RepairApproval ErrInvalidDigest \<Rightarrow> 400 | RepairApproval ErrInvalidIdempotency \<Rightarrow> 400
     | ErrProviderFailure \<Rightarrow> 502 | _ \<Rightarrow> 500) (repairErrorCode e)"

definition http_writeAutomationError :: "api \<Rightarrow> automation_error \<Rightarrow> http_reply" where
  "http_writeAutomationError S e =
    (case writeAutomationError (server.truncate S) e of WebhookError status code \<Rightarrow> writeError status code | WebhookAccepted _ _ \<Rightarrow> aborted)"

section \<open>Guards\<close>

definition requireTaskMutator :: "api \<Rightarrow> env \<Rightarrow> http_request \<Rightarrow> server_db \<Rightarrow> http_reply + Session" where
  "requireTaskMutator S E r s =
    (case requireSession S E r s of
       Inl rp \<Rightarrow> Inl rp
     | Inr (session, _) \<Rightarrow>
         if user_Role (ses_User session) = RoleAuditor then Inl (writeError 403 ''forbidden'')
         else if \<not> csrf_ok S session r then Inl (writeError 403 ''csrf_failed'') else Inr session)"

definition requireApprovalMutation :: "api \<Rightarrow> env \<Rightarrow> http_request \<Rightarrow> server_db \<Rightarrow> http_reply + Session" where
  "requireApprovalMutation S E r s =
    (case requireSession S E r s of
       Inl rp \<Rightarrow> Inl rp
     | Inr (session, _) \<Rightarrow>
         if user_Role (ses_User session) = RoleAuditor then Inl (writeError 403 ''forbidden'')
         else if \<not> csrf_ok S session r then Inl (writeError 403 ''csrf_failed'') else Inr session)"

definition requireApprovalDecision :: "api \<Rightarrow> env \<Rightarrow> http_request \<Rightarrow> server_db \<Rightarrow> http_reply + Session" where
  "requireApprovalDecision S E r s =
    (case requireSession S E r s of
       Inl rp \<Rightarrow> Inl rp
     | Inr (session, _) \<Rightarrow> if \<not> csrf_ok S session r then Inl (writeError 403 ''csrf_failed'') else Inr session)"

definition requireRepairMutator :: "api \<Rightarrow> env \<Rightarrow> http_request \<Rightarrow> server_db \<Rightarrow> http_reply + Session" where
  "requireRepairMutator S E r s =
    (case requireSession S E r s of
       Inl rp \<Rightarrow> Inl rp
     | Inr (session, _) \<Rightarrow>
         if user_Role (ses_User session) \<noteq> RoleAdmin \<and> user_Role (ses_User session) \<noteq> RoleMaintainer then Inl (writeError 403 ''forbidden'')
         else if \<not> csrf_ok S session r then Inl (writeError 403 ''csrf_failed'') else Inr session)"

definition requireAutomationAdmin ::
  "api \<Rightarrow> (nat \<Rightarrow> server_db \<Rightarrow> server_db) \<Rightarrow> env \<Rightarrow> http_request \<Rightarrow> bool \<Rightarrow> server_db \<Rightarrow> (http_reply + Session) \<times> server_db" where
  "requireAutomationAdmin S bt E r mutation s =
    (case requireSession S (call E 0) r s of
       Inl rp \<Rightarrow> (Inl rp, s)
     | Inr (session, _) \<Rightarrow>
         if user_Role (ses_User session) \<noteq> RoleAdmin then (Inl (writeError 403 ''forbidden''), s)
         else if mutation \<and> \<not> csrf_ok S session r then (Inl (writeError 403 ''csrf_failed''), s)
         else if mutation then
           (if Reauthenticate (api_crypto S) (call E 1) (ses_User session) (rq_Header r ''X-Reauth-Password'') (srv_auth (bt 1 s)) = Inr ()
            then Inr session else Inl (writeError 401 ''reauthentication_required''), bt 1 s)
         else (Inr session, s))"

section \<open>Tasks (tasks.go)\<close>

definition recordTaskAudit :: "api \<Rightarrow> env \<Rightarrow> http_request \<Rightarrow> string \<Rightarrow> string \<Rightarrow> string \<Rightarrow> string \<Rightarrow> string \<Rightarrow> string \<Rightarrow> server_db \<Rightarrow> server_db" where
  "recordTaskAudit S E r actorID action resourceType resourceID outcome detail s =
    snd (on_core (service_RecordAudit E \<lparr>ai_ActorID = actorID, ai_Action = action, ai_ResourceType = resourceType, ai_ResourceID = resourceID,
      ai_Outcome = outcome, ai_CorrelationID = [],
      ai_Metadata = Some (api_marshal S [(''detail'', TrimSpace detail), (''method'', rq_Method r)])\<rparr>) s)"

definition listTasks :: handler where
  "listTasks S bt E r s =
    (case requireSession S (call E 0) r s of
       Inl rp \<Rightarrow> (rp, s)
     | Inr _ \<Rightarrow>
         let status = Status_of (TrimSpace (rq_Query r ''status'')); kind = Kind_of (TrimSpace (rq_Query r ''kind''))
         in if status \<noteq> StatusOther [] \<and> \<not> ValidStatus status then (writeError 400 ''invalid_task_status'', s)
            else if kind \<noteq> KindOther [] \<and> \<not> ValidKind kind then (writeError 400 ''invalid_task_kind'', s)
            else (case ListTasks (call E 1) \<lparr>lf_Status = status, lf_Kind = kind, lf_Limit = queryInt r ''limit'' 100\<rparr> (srv_core (bt 1 s)) of
              Inl e \<Rightarrow> (writeTaskError e, bt 1 s)
            | Inr items \<Rightarrow> (writeJSON 200 (TasksBody items), bt 1 s)))"

definition createTask :: handler where
  "createTask S bt E r s =
    (case requireTaskMutator S (call E 0) r s of
       Inl rp \<Rightarrow> (rp, s)
     | Inr session \<Rightarrow>
         (case decodeJSON (js_createTask (api_json S)) r of
            Inl rp \<Rightarrow> (rp, s)
          | Inr request \<Rightarrow>
              let source = (if blank (ctr_SourceKey request) then TrimSpace (ctr_IdempotencyKey request) else TrimSpace (ctr_SourceKey request))
              in (case on_core (service_Create (call E 1) \<lparr>in_Kind = ctr_Kind request, in_Title = ctr_Title request,
                  in_RepositoryID = ctr_RepositoryID request, in_RepositoryName = ctr_RepositoryName request, in_SourceKey = source,
                  in_Payload = ctr_Payload request, in_Priority = ctr_Priority request, in_MaxAttempts = ctr_MaxAttempts request,
                  in_CreatedBy = user_ID (ses_User session), in_CreatedAt = clock E\<rparr>) (bt 1 s) of
                (Inl e, s1) \<Rightarrow> (writeTaskError e, s1)
              | (Inr created, s1) \<Rightarrow>
                  (writeJSON 202 (TaskBody created),
                   recordTaskAudit S (call E 2) r (user_ID (ses_User session)) ''task.create'' ''task'' (task_ID created) ''accepted''
                     (task_SourceKey created) (bt 2 s1)))))"

definition getTask :: handler where
  "getTask S bt E r s =
    (case requireSession S (call E 0) r s of
       Inl rp \<Rightarrow> (rp, s)
     | Inr (session, _) \<Rightarrow>
         let s1 = bt 1 s in (case GetTask (call E 1) (rq_PathValue r ''id'') (srv_core s1) of
           Inl e \<Rightarrow> (writeTaskError e, s1)
         | Inr task \<Rightarrow>
         let s2 = bt 2 s1 in (case ListRuns (call E 2) (task_ID task) (srv_core s2) of
           Inl e \<Rightarrow> (writeTaskError e, s2)
         | Inr rs \<Rightarrow>
         let s3 = bt 3 s2 in (case ListAuditEvents (call E 3) \<lparr>af_ResourceType = ''task'', af_ResourceID = task_ID task, af_Limit = 100\<rparr> (srv_core s3) of
           Inl e \<Rightarrow> (writeTaskError e, s3)
         | Inr audit \<Rightarrow>
         let s4 = bt 4 s3 in (case ListFindings (call E 4) (task_ID task) (srv_core s4) of
           Inl e \<Rightarrow> (writeTaskError e, s4)
         | Inr fs \<Rightarrow>
         let s5 = bt 5 s4 in (case ListEvidence (call E 5) (task_ID task) (srv_core s5) of
           Inl e \<Rightarrow> (writeTaskError e, s5)
         | Inr ev \<Rightarrow> (writeJSON 200 (TaskDetail task rs fs ev audit (user_ID (ses_User session))), s5)))))))"

definition cancelTask :: handler where
  "cancelTask S bt E r s =
    (case requireTaskMutator S (call E 0) r s of
       Inl rp \<Rightarrow> (rp, s)
     | Inr session \<Rightarrow>
         (case decodeJSON (js_reason (api_json S)) r of
            Inl rp \<Rightarrow> (rp, s)
          | Inr reason \<Rightarrow>
              (case on_core (service_Cancel (call E 1) (rq_PathValue r ''id'') reason) (bt 1 s) of
                 (Inl e, s1) \<Rightarrow> (writeTaskError e, s1)
               | (Inr task, s1) \<Rightarrow>
                   (writeJSON 200 (TaskBody task),
                    recordTaskAudit S (call E 2) r (user_ID (ses_User session)) ''task.cancel'' ''task'' (task_ID task) ''accepted'' reason (bt 2 s1)))))"

definition retryTask :: handler where
  "retryTask S bt E r s =
    (case requireTaskMutator S (call E 0) r s of
       Inl rp \<Rightarrow> (rp, s)
     | Inr session \<Rightarrow>
         (case decodeJSON (js_reason (api_json S)) r of
            Inl rp \<Rightarrow> (rp, s)
          | Inr reason \<Rightarrow>
              (case on_core (service_Retry (call E 1) (rq_PathValue r ''id'') reason) (bt 1 s) of
                 (Inl e, s1) \<Rightarrow> (writeTaskError e, s1)
               | (Inr task, s1) \<Rightarrow>
                   (writeJSON 202 (TaskBody task),
                    recordTaskAudit S (call E 2) r (user_ID (ses_User session)) ''task.retry'' ''task'' (task_ID task) ''accepted'' reason (bt 2 s1)))))"

definition listTaskRuns :: handler where
  "listTaskRuns S bt E r s =
    (case requireSession S (call E 0) r s of
       Inl rp \<Rightarrow> (rp, s)
     | Inr _ \<Rightarrow>
         (case ListRuns (call E 1) (rq_PathValue r ''id'') (srv_core (bt 1 s)) of
            Inl e \<Rightarrow> (writeTaskError e, bt 1 s)
          | Inr rs \<Rightarrow> (writeJSON 200 (RunsBody rs), bt 1 s)))"

definition listRuns_handler :: handler where
  "listRuns_handler S bt E r s =
    (case requireSession S (call E 0) r s of
       Inl rp \<Rightarrow> (rp, s)
     | Inr _ \<Rightarrow>
         (case ListAllRuns (call E 1) (queryInt r ''limit'' 100) (srv_core (bt 1 s)) of
            Inl e \<Rightarrow> (writeTaskError e, bt 1 s)
          | Inr rs \<Rightarrow> (writeJSON 200 (RunsBody rs), bt 1 s)))"

definition getRun_handler :: handler where
  "getRun_handler S bt E r s =
    (case requireSession S (call E 0) r s of
       Inl rp \<Rightarrow> (rp, s)
     | Inr _ \<Rightarrow>
         let s1 = bt 1 s in (case GetRun (call E 1) (rq_PathValue r ''id'') (srv_core s1) of
           Inl e \<Rightarrow> (writeTaskError e, s1)
         | Inr run \<Rightarrow>
         let s2 = bt 2 s1 in (case ListRunEvents (call E 2) (run_ID run) 0 (srv_core s2) of
           Inl e \<Rightarrow> (writeTaskError e, s2)
         | Inr evs \<Rightarrow> (writeJSON 200 (RunBody run evs), s2))))"

definition auditEvents :: handler where
  "auditEvents S bt E r s =
    (case requireSession S (call E 0) r s of
       Inl rp \<Rightarrow> (rp, s)
     | Inr _ \<Rightarrow>
         (case ListAuditEvents (call E 1) \<lparr>af_ResourceType = TrimSpace (rq_Query r ''resourceType''),
             af_ResourceID = TrimSpace (rq_Query r ''resourceId''), af_Limit = queryInt r ''limit'' 100\<rparr> (srv_core (bt 1 s)) of
            Inl e \<Rightarrow> (writeTaskError e, bt 1 s)
          | Inr evs \<Rightarrow> (writeJSON 200 (AuditBody evs), bt 1 s)))"

section \<open>Approvals (approvals.go)\<close>

definition listApprovals :: handler where
  "listApprovals S bt E r s =
    (case requireSession S (call E 0) r s of
       Inl rp \<Rightarrow> (rp, s)
     | Inr _ \<Rightarrow>
         (case List_requests (call E 1) \<lparr>alf_State = approval_State_of (TrimSpace (rq_Query r ''state'')), alf_Limit = queryInt r ''limit'' 100\<rparr>
             (srv_core (bt 1 s)) of
            Inl e \<Rightarrow> (writeApprovalError e, bt 1 s)
          | Inr items \<Rightarrow> (writeJSON 200 (ApprovalsBody items), bt 1 s)))"

definition createApproval :: "approval_service \<Rightarrow> handler" where
  "createApproval A S bt E r s =
    (case requireApprovalMutation S (call E 0) r s of
       Inl rp \<Rightarrow> (rp, s)
     | Inr session \<Rightarrow>
         (case decodeJSON (js_createApproval (api_json S)) r of
            Inl rp \<Rightarrow> (rp, s)
          | Inr input \<Rightarrow>
              (case on_core (Approvals.Create A (call E 1) \<lparr>ci_Action = car_Action input, ci_Risk = car_Risk input,
                  ci_ActionDigest = car_ActionDigest input, ci_RequesterID = user_ID (ses_User session),
                  ci_EligibleRoles = (if car_EligibleRoles input = [] then [RoleAdmin, RoleMaintainer] else car_EligibleRoles input),
                  ci_ExpiresAt = car_ExpiresAt input, ci_Metadata = car_Metadata input, ci_RequestedAt = clock E\<rparr>) (bt 1 s) of
                 (Inl e, s1) \<Rightarrow> (writeApprovalError e, s1)
               | (Inr request, s1) \<Rightarrow> (writeJSON 201 (ApprovalBody request), s1))))"

definition getApproval :: handler where
  "getApproval S bt E r s =
    (case requireSession S (call E 0) r s of
       Inl rp \<Rightarrow> (rp, s)
     | Inr (session, _) \<Rightarrow>
         (case Approvals.Get (call E 1) (rq_PathValue r ''id'') (srv_core (bt 1 s)) of
            Inl e \<Rightarrow> (writeApprovalError e, bt 1 s)
          | Inr request \<Rightarrow>
              (writeJSON 200 (ApprovalDetail request
                 (user_Role (ses_User session) = RoleAdmin \<or> user_Role (ses_User session) = RoleMaintainer)), bt 1 s)))"

definition decideApproval :: "approval_service \<Rightarrow> handler" where
  "decideApproval A S bt E r s =
    (case requireApprovalDecision S (call E 0) r s of
       Inl rp \<Rightarrow> (rp, s)
     | Inr session \<Rightarrow>
         (case decodeJSON (js_decision (api_json S)) r of
            Inl rp \<Rightarrow> (rp, s)
          | Inr input \<Rightarrow>
              (case on_core (Decide A (call E 1) \<lparr>di_ApprovalID = rq_PathValue r ''id'', di_Actor = ses_User session, di_Decision = dar_Decision input,
                  di_Reason = dar_Reason input, di_IdempotencyKey = dar_IdempotencyKey input, di_Now = clock E\<rparr>) (bt 1 s) of
                 (Inl e, s1) \<Rightarrow> (writeApprovalError e, s1)
               | (Inr request, s1) \<Rightarrow> (writeJSON 200 (ApprovalBody request), s1))))"

definition consumeApproval :: "approval_service \<Rightarrow> handler" where
  "consumeApproval A S bt E r s =
    (case requireApprovalMutation S (call E 0) r s of
       Inl rp \<Rightarrow> (rp, s)
     | Inr session \<Rightarrow>
         (case decodeJSON (js_consume (api_json S)) r of
            Inl rp \<Rightarrow> (rp, s)
          | Inr input \<Rightarrow>
              (case on_core (Consume A (call E 1) \<lparr>coi_ApprovalID = rq_PathValue r ''id'', coi_ActorID = user_ID (ses_User session),
                  coi_ActionDigest = cor_ActionDigest input, coi_IdempotencyKey = cor_IdempotencyKey input, coi_Now = clock E\<rparr>) (bt 1 s) of
                 (Inl e, s1) \<Rightarrow> (writeApprovalError e, s1)
               | (Inr request, s1) \<Rightarrow> (writeJSON 200 (ApprovalBody request), s1))))"

definition cancelApproval :: "approval_service \<Rightarrow> handler" where
  "cancelApproval A S bt E r s =
    (case requireApprovalMutation S (call E 0) r s of
       Inl rp \<Rightarrow> (rp, s)
     | Inr session \<Rightarrow>
         (case decodeJSON (js_reason (api_json S)) r of
            Inl rp \<Rightarrow> (rp, s)
          | Inr reason \<Rightarrow>
              (case on_core (Approvals.Cancel A (call E 1) \<lparr>cai_ApprovalID = rq_PathValue r ''id'', cai_Actor = ses_User session,
                  cai_Reason = reason, cai_Now = clock E\<rparr>) (bt 1 s) of
                 (Inl e, s1) \<Rightarrow> (writeApprovalError e, s1)
               | (Inr request, s1) \<Rightarrow> (writeJSON 200 (ApprovalBody request), s1))))"

section \<open>Repairs (repair.go)\<close>

definition listRepairs :: handler where
  "listRepairs S bt E r s =
    (case requireSession S (call E 0) r s of
       Inl rp \<Rightarrow> (rp, s)
     | Inr _ \<Rightarrow>
         let state = repair_State_of (TrimSpace (rq_Query r ''state''))
         in if state \<noteq> Repair_Policy.StateOther [] \<and> \<not> Repair_Policy.ValidState state then (writeError 400 ''invalid_repair_state'', s)
            else (case List_repairs (call E 1) state (queryInt r ''limit'' 100) (srv_core (bt 1 s)) of
              Inl e \<Rightarrow> (writeRepairError e, bt 1 s)
            | Inr items \<Rightarrow> (writeJSON 200 (RepairsBody items), bt 1 s)))"

definition createRepair :: "world \<Rightarrow> (nat \<Rightarrow> repairs_db \<Rightarrow> repairs_db) \<Rightarrow> handler" where
  "createRepair W bc S bt E r s =
    (case requireRepairMutator S (call E 0) r s of
       Inl rp \<Rightarrow> (rp, s)
     | Inr session \<Rightarrow>
         (case decodeJSON (js_createRepair (api_json S)) r of
            Inl rp \<Rightarrow> (rp, s)
          | Inr input \<Rightarrow>
              (case on_core (CreateFromIssue W bc (call E 1) \<lparr>iss_Provider = ''github'', iss_RepositoryID = crr_RepositoryID input,
                  iss_Repository = crr_Repository input, iss_CloneURL = crr_CloneURL input, iss_WebURL = crr_WebURL input,
                  iss_InstallationID = crr_InstallationID input, iss_Number = crr_IssueNumber input, iss_Title = crr_Title input,
                  iss_Body = crr_Body input, iss_State = crr_State input, iss_IsPullRequest = False, iss_BaseBranch = crr_BaseBranch input,
                  iss_BaseSHA = crr_BaseSHA input\<rparr> (user_ID (ses_User session))) (bt 1 s) of
                 (Inl e, s1) \<Rightarrow> (writeRepairError e, s1)
               | (Inr created, s1) \<Rightarrow> (writeJSON 202 (RepairBody created), s1))))"

definition createRepairFromDiagnosis :: "world \<Rightarrow> (nat \<Rightarrow> repairs_db \<Rightarrow> repairs_db) \<Rightarrow> handler" where
  "createRepairFromDiagnosis W bc S bt E r s =
    (case requireRepairMutator S (call E 0) r s of
       Inl rp \<Rightarrow> (rp, s)
     | Inr session \<Rightarrow>
         (case decodeJSON (js_taskId (api_json S)) r of
            Inl rp \<Rightarrow> (rp, s)
          | Inr taskID \<Rightarrow>
              let s1 = bt 1 s in (case GetTask (call E 1) (TrimSpace taskID) (srv_core s1) of
                Inl e \<Rightarrow> (writeTaskError e, s1)
              | Inr diagnosisTask \<Rightarrow>
                  (case on_core (CreateFromDiagnosis W bc (call E 2) diagnosisTask (user_ID (ses_User session))) (bt 2 s1) of
                     (Inl e, s2) \<Rightarrow> (writeRepairError e, s2)
                   | (Inr created, s2) \<Rightarrow> (writeJSON 202 (RepairBody created), s2)))))"

definition getRepair :: handler where
  "getRepair S bt E r s =
    (case requireSession S (call E 0) r s of
       Inl rp \<Rightarrow> (rp, s)
     | Inr _ \<Rightarrow>
         (case Repair.Get (call E 1) (rq_PathValue r ''id'') (srv_core (bt 1 s)) of
            Inl e \<Rightarrow> (writeRepairError e, bt 1 s)
          | Inr item \<Rightarrow> (writeJSON 200 (RepairBody item), bt 1 s)))"

definition consumeRepairApproval :: "world \<Rightarrow> (nat \<Rightarrow> repairs_db \<Rightarrow> repairs_db) \<Rightarrow> string \<Rightarrow> handler" where
  "consumeRepairApproval W bc phase S bt E r s =
    (case requireRepairMutator S (call E 0) r s of
       Inl rp \<Rightarrow> (rp, s)
     | Inr session \<Rightarrow>
         (case decodeJSON (js_consume (api_json S)) r of
            Inl rp \<Rightarrow> (rp, s)
          | Inr input \<Rightarrow>
              (case on_core (ConsumeApproval W bc (call E 1) (rq_PathValue r ''id'') phase (cor_ActionDigest input) (cor_IdempotencyKey input)
                  (user_ID (ses_User session))) (bt 1 s) of
                 (Inl e, s1) \<Rightarrow> (writeRepairError e, s1)
               | (Inr item, s1) \<Rightarrow> (writeJSON 200 (RepairBody item), s1))))"

section \<open>Automations (automations.go)\<close>

definition countEnabled :: "Template list \<Rightarrow> int" where
  "countEnabled items = int (length (filter tpl_Enabled items))"

definition active_task_status :: "Status \<Rightarrow> bool" where
  "active_task_status st \<longleftrightarrow> st = StatusQueued \<or> st = StatusRunning \<or> st = StatusAwaitingApproval"

text \<open>The loop of \<open>automationOverview\<close>: the agent templates seen so far, the configured budget and the active runs; the \<open>k\<close>-th template's runs are read by call \<open>k\<close>.\<close>

fun overview_loop ::
  "(nat \<Rightarrow> server_db \<Rightarrow> server_db) \<Rightarrow> env \<Rightarrow> nat \<Rightarrow> Template list \<Rightarrow> string list \<Rightarrow> int \<Rightarrow> int \<Rightarrow> server_db \<Rightarrow>
   (automation_error + string list \<times> int \<times> int) \<times> server_db" where
  "overview_loop bt E k [] agents budget active s = (Inr (agents, budget, active), s)"
| "overview_loop bt E k (item # rest) agents budget active s =
    (let budget' = (if tpl_Enabled item then budget + tpl_ExecutionBudget item else budget);
       agents' = (if tpl_AgentTemplate item \<in> set agents then agents else agents @ [tpl_AgentTemplate item]);
       s1 = bt k s
     in case Automations.Runs (call E k) (tpl_ID item) 200 (automation_view s1) of
       Inl e \<Rightarrow> (Inl e, s1)
     | Inr rs \<Rightarrow>
         overview_loop bt E (Suc k) rest agents' budget' (active + int (length (filter (\<lambda>(_, st). active_task_status st) rs))) s1)"

definition automationOverview :: handler where
  "automationOverview S bt E r s =
    (case requireAutomationAdmin S bt (call E 0) r False s of
       (Inl rp, s1) \<Rightarrow> (rp, s1)
     | (Inr _, s1) \<Rightarrow>
         let s2 = bt 2 s1 in (case List_templates (call E 2) 200 (automation_view s2) of
           Inl e \<Rightarrow> (http_writeAutomationError S e, s2)
         | Inr items \<Rightarrow>
             (case overview_loop bt E 3 items [] 0 0 s2 of
                (Inl e, s3) \<Rightarrow> (http_writeAutomationError S e, s3)
              | (Inr (agents, budget, active), s3) \<Rightarrow>
                  (writeJSON 200 (OverviewBody
                    \<lparr>ov_scm = (if api_scm S then Some (Providers (sv_scm S)) else None),
                     ov_agentCompose = map_option (\<lambda>A. case xa_Health A of
                       Inl e \<Rightarrow> (''unavailable'', [], ac_text e) | Inr ver \<Rightarrow> (''ready'', vi_Version ver, [])) (api_execution S),
                     ov_agentTemplates = agents, ov_configured = budget, ov_activeRuns = active,
                     ov_total = int (length items), ov_enabled = countEnabled items\<rparr>), s3))))"

definition listAutomations :: handler where
  "listAutomations S bt E r s =
    (case requireSession S (call E 0) r s of
       Inl rp \<Rightarrow> (rp, s)
     | Inr _ \<Rightarrow>
         (case List_templates (call E 1) (queryInt r ''limit'' 100) (automation_view (bt 1 s)) of
            Inl e \<Rightarrow> (http_writeAutomationError S e, bt 1 s)
          | Inr items \<Rightarrow> (writeJSON 200 (AutomationsBody items), bt 1 s)))"

definition getAutomation :: handler where
  "getAutomation S bt E r s =
    (case requireSession S (call E 0) r s of
       Inl rp \<Rightarrow> (rp, s)
     | Inr _ \<Rightarrow>
         let s1 = bt 1 s in (case Automations.Get (call E 1) (rq_PathValue r ''id'') (automation_view s1) of
           Inl e \<Rightarrow> (http_writeAutomationError S e, s1)
         | Inr template \<Rightarrow>
         let s2 = bt 2 s1 in (case History (call E 2) (tpl_ID template) 100 (automation_view s2) of
           Inl e \<Rightarrow> (http_writeAutomationError S e, s2)
         | Inr versions \<Rightarrow>
         let s3 = bt 3 s2 in (case Automations.Runs (call E 3) (tpl_ID template) 100 (automation_view s3) of
           Inl e \<Rightarrow> (http_writeAutomationError S e, s3)
         | Inr rs \<Rightarrow> (writeJSON 200 (AutomationDetail template versions rs), s3)))))"

text \<open>The handlers that change a template differ in the request they decode and the operation they call.\<close>

definition createAutomation :: "automation_world \<Rightarrow> handler" where
  "createAutomation AW S bt E r s =
    (case requireAutomationAdmin S bt (call E 0) r True s of
       (Inl rp, s1) \<Rightarrow> (rp, s1)
     | (Inr session, s1) \<Rightarrow>
         (case decodeJSON (js_automation (api_json S)) r of
            Inl rp \<Rightarrow> (rp, s1)
          | Inr (input, _) \<Rightarrow>
              (case on_automations (Automations.Create AW (call E 2) input (user_ID (ses_User session))) (bt 2 s1) of
                 (Inl e, s2) \<Rightarrow> (http_writeAutomationError S e, s2)
               | (Inr created, s2) \<Rightarrow> (writeJSON 201 (AutomationBody created), s2))))"

definition updateAutomation :: "automation_world \<Rightarrow> handler" where
  "updateAutomation AW S bt E r s =
    (case requireAutomationAdmin S bt (call E 0) r True s of
       (Inl rp, s1) \<Rightarrow> (rp, s1)
     | (Inr session, s1) \<Rightarrow>
         (case decodeJSON (js_automation (api_json S)) r of
            Inl rp \<Rightarrow> (rp, s1)
          | Inr (input, expectedRevision) \<Rightarrow>
              (case on_automations (UpdateDraft AW (call E 2) (rq_PathValue r ''id'') expectedRevision input (user_ID (ses_User session))) (bt 2 s1) of
                 (Inl e, s2) \<Rightarrow> (http_writeAutomationError S e, s2)
               | (Inr updated, s2) \<Rightarrow> (writeJSON 200 (AutomationBody updated), s2))))"

definition publishAutomation :: "automation_world \<Rightarrow> handler" where
  "publishAutomation AW S bt E r s =
    (case requireAutomationAdmin S bt (call E 0) r True s of
       (Inl rp, s1) \<Rightarrow> (rp, s1)
     | (Inr session, s1) \<Rightarrow>
         (case decodeJSON (js_revision (api_json S)) r of
            Inl rp \<Rightarrow> (rp, s1)
          | Inr expectedRevision \<Rightarrow>
              (case on_automations (Publish AW (call E 2) (rq_PathValue r ''id'') expectedRevision (user_ID (ses_User session))) (bt 2 s1) of
                 (Inl e, s2) \<Rightarrow> (http_writeAutomationError S e, s2)
               | (Inr updated, s2) \<Rightarrow> (writeJSON 200 (AutomationBody updated), s2))))"

definition setAutomationEnabled :: "automation_world \<Rightarrow> bool \<Rightarrow> handler" where
  "setAutomationEnabled AW enabled S bt E r s =
    (case requireAutomationAdmin S bt (call E 0) r True s of
       (Inl rp, s1) \<Rightarrow> (rp, s1)
     | (Inr session, s1) \<Rightarrow>
         (case decodeJSON (js_revision (api_json S)) r of
            Inl rp \<Rightarrow> (rp, s1)
          | Inr expectedRevision \<Rightarrow>
              (case on_automations (SetEnabled AW (call E 2) (rq_PathValue r ''id'') expectedRevision enabled (user_ID (ses_User session))) (bt 2 s1) of
                 (Inl e, s2) \<Rightarrow> (http_writeAutomationError S e, s2)
               | (Inr updated, s2) \<Rightarrow> (writeJSON 200 (AutomationBody updated), s2))))"

definition deleteAutomation :: "automation_world \<Rightarrow> handler" where
  "deleteAutomation AW S bt E r s =
    (case requireAutomationAdmin S bt (call E 0) r True s of
       (Inl rp, s1) \<Rightarrow> (rp, s1)
     | (Inr session, s1) \<Rightarrow>
         (case decodeJSON (js_revision (api_json S)) r of
            Inl rp \<Rightarrow> (rp, s1)
          | Inr expectedRevision \<Rightarrow>
              (case on_automations (Delete AW (call E 2) (rq_PathValue r ''id'') expectedRevision (user_ID (ses_User session))) (bt 2 s1) of
                 (Inl e, s2) \<Rightarrow> (http_writeAutomationError S e, s2)
               | (Inr _, s2) \<Rightarrow> (writeJSON 204 NoBody, s2))))"

text \<open>\<open>Trigger\<close> always returns the existing reservation beside \<open>ErrDuplicateTrigger\<close>, so the branch without one is not taken.\<close>

definition triggerAutomation :: "automation_world \<Rightarrow> handler" where
  "triggerAutomation AW S bt E r s =
    (case requireAutomationAdmin S bt (call E 0) r True s of
       (Inl rp, s1) \<Rightarrow> (rp, s1)
     | (Inr session, s1) \<Rightarrow>
         (case decodeJSON (js_trigger (api_json S)) r of
            Inl rp \<Rightarrow> (rp, s1)
          | Inr request \<Rightarrow>
              (case on_automations (Trigger AW (call E 2) \<lparr>ti_TemplateID = rq_PathValue r ''id'', ti_TriggerKey = atr_TriggerKey request,
                  ti_Provider = atr_Provider request, ti_Event = atr_Event request, ti_Action = atr_Action request, ti_Branch = atr_Branch request,
                  ti_Repository = atr_Repository request, ti_RepositoryID = atr_RepositoryID request, ti_Title = atr_Title request,
                  ti_TaskPayload = atr_TaskPayload request, ti_SourcePayload = atr_SourcePayload request, ti_ActorID = user_ID (ses_User session),
                  ti_CreatedAt = 0\<rparr>) (bt 2 s1) of
                 (Inl (e, res), s2) \<Rightarrow>
                   (if e = ErrDuplicateTrigger then
                      (case res of
                         Some d \<Rightarrow> writeJSON (if tr_Duplicate d then 200 else 202) (TriggerBody (tr_Run d) (tr_Task d) (tr_Duplicate d))
                       | None \<Rightarrow> aborted)
                    else http_writeAutomationError S e, s2)
               | (Inr d, s2) \<Rightarrow>
                   (writeJSON (if tr_Duplicate d then 200 else 202) (TriggerBody (tr_Run d) (tr_Task d) (tr_Duplicate d)), s2))))"

definition automationVersions :: handler where
  "automationVersions S bt E r s =
    (case requireSession S (call E 0) r s of
       Inl rp \<Rightarrow> (rp, s)
     | Inr _ \<Rightarrow>
         (case History (call E 1) (rq_PathValue r ''id'') (queryInt r ''limit'' 100) (automation_view (bt 1 s)) of
            Inl e \<Rightarrow> (http_writeAutomationError S e, bt 1 s)
          | Inr versions \<Rightarrow> (writeJSON 200 (VersionsBody versions), bt 1 s)))"

definition automationRuns :: handler where
  "automationRuns S bt E r s =
    (case requireSession S (call E 0) r s of
       Inl rp \<Rightarrow> (rp, s)
     | Inr _ \<Rightarrow>
         (case Automations.Runs (call E 1) (rq_PathValue r ''id'') (queryInt r ''limit'' 100) (automation_view (bt 1 s)) of
            Inl e \<Rightarrow> (http_writeAutomationError S e, bt 1 s)
          | Inr rs \<Rightarrow> (writeJSON 200 (AutomationRunsBody rs), bt 1 s)))"

section \<open>Source control (scm.go)\<close>

definition scmProviders :: handler where
  "scmProviders S bt E r s =
    (case requireSession S (call E 0) r s of
       Inl rp \<Rightarrow> (rp, s)
     | Inr _ \<Rightarrow> (writeJSON 200 (ProvidersBody (Providers (sv_scm S))), s))"

definition scmConnections :: handler where
  "scmConnections S bt E r s =
    (case requireSession S (call E 0) r s of
       Inl rp \<Rightarrow> (rp, s)
     | Inr _ \<Rightarrow>
         (case ListConnections (sw_codec (sv_scm S)) (call E 1) (srv_scm (bt 1 s)) of
            Inl _ \<Rightarrow> (writeError 500 ''scm_connections_unavailable'', bt 1 s)
          | Inr connections \<Rightarrow> (writeJSON 200 (ConnectionsBody connections), bt 1 s)))"

definition scmConnect :: handler where
  "scmConnect S bt E r s =
    (case requireSession S (call E 0) r s of
       Inl rp \<Rightarrow> (rp, s)
     | Inr (session, _) \<Rightarrow>
         (case on_scm (BeginConnect (sv_scm S) (call E 1) (ses_User session) (rq_PathValue r ''provider'') (rq_Query r ''returnTo'')) (bt 1 s) of
            (Inl e, s1) \<Rightarrow>
              (if e = scm_error.ErrForbidden then writeError 403 ''forbidden''
               else if e = ErrProviderUnavailable then writeError 503 ''scm_provider_unavailable''
               else writeError 500 ''scm_connect_failed'', s1)
          | (Inr location, s1) \<Rightarrow> (redirect location, s1)))"

text \<open>
  The callback has no session: the state of the flow authorizes it. \<open>bs\<close> is what others do to the source-control tables while the provider answers. The
  redirect dereferences the parsed address without looking at the error of \<open>url.Parse\<close>.
\<close>

definition scmCallback :: "(scm_db \<Rightarrow> scm_db) \<Rightarrow> handler" where
  "scmCallback bs S bt E r s =
    (if rq_Query r ''error'' \<noteq> [] then (writeError 400 ''scm_authorization_rejected'', s)
     else case CompleteConnect (sv_scm S) bs (call E 1) (rq_PathValue r ''provider'') (rq_Query r ''state'')
         \<lparr>cb_Code = rq_Query r ''code'', cb_InstallationID = rq_Query r ''installation_id''\<rparr> [] (srv_scm s) of
       (None, _, d) \<Rightarrow> (unanswered, s\<lparr>srv_scm := d\<rparr>)
     | (Some (Inl e), _, d) \<Rightarrow>
         (if e = scm_error.ErrInvalidFlow then writeError 400 ''scm_flow_invalid''
          else if e = ErrProviderUnavailable then writeError 503 ''scm_provider_unavailable''
          else writeError 502 ''scm_callback_failed'', s\<lparr>srv_scm := d\<rparr>)
     | (Some (Inr (connection, returnTo)), _, d) \<Rightarrow>
         (case api_connectedURL S returnTo (con_Provider connection) of None \<Rightarrow> aborted | Some location \<Rightarrow> redirect location, s\<lparr>srv_scm := d\<rparr>))"

definition scmSync :: "(scm_db \<Rightarrow> scm_db) \<Rightarrow> handler" where
  "scmSync bs S bt E r s =
    (case requireSession S (call E 0) r s of
       Inl rp \<Rightarrow> (rp, s)
     | Inr (session, _) \<Rightarrow>
         if \<not> csrf_ok S session r then (writeError 403 ''csrf_failed'', s)
         else (case Sync (sv_scm S) bs (call E 1) (ses_User session) (rq_PathValue r ''id'') [] (srv_scm (bt 1 s)) of
           (None, _, d) \<Rightarrow> (unanswered, (bt 1 s)\<lparr>srv_scm := d\<rparr>)
         | (Some (Inl e), _, d) \<Rightarrow>
             (if e = scm_error.ErrForbidden then writeError 403 ''forbidden''
              else if e = ErrProviderUnavailable then writeError 503 ''scm_provider_unavailable''
              else writeError 502 ''scm_sync_failed'', (bt 1 s)\<lparr>srv_scm := d\<rparr>)
         | (Some (Inr connection), _, d) \<Rightarrow> (writeJSON 200 (ConnectionBody connection), (bt 1 s)\<lparr>srv_scm := d\<rparr>)))"

definition repositories_handler :: handler where
  "repositories_handler S bt E r s =
    (case requireSession S (call E 0) r s of
       Inl rp \<Rightarrow> (rp, s)
     | Inr _ \<Rightarrow>
         (case ListRepositories (sw_codec (sv_scm S)) (call E 1) (srv_scm (bt 1 s)) of
            Inl _ \<Rightarrow> (writeError 500 ''repositories_unavailable'', bt 1 s)
          | Inr rs \<Rightarrow> (writeJSON 200 (RepositoriesBody rs), bt 1 s)))"

definition repository_handler :: handler where
  "repository_handler S bt E r s =
    (case requireSession S (call E 0) r s of
       Inl rp \<Rightarrow> (rp, s)
     | Inr _ \<Rightarrow>
         (case service_GetRepository (sv_scm S) (call E 1) (rq_PathValue r ''id'') (srv_scm (bt 1 s)) of
            Inl e \<Rightarrow> (if e = scm_error.ErrRepositoryNotFound then writeError 404 ''repository_not_found'' else writeError 500 ''repository_unavailable'', bt 1 s)
          | Inr repo \<Rightarrow> (writeJSON 200 (RepositoryBody repo), bt 1 s)))"

text \<open>The webhook endpoints are \<open>handleWebhook\<close> of the theory of webhooks; \<open>partial\<close> says that the client broke off the body.\<close>

definition webhook_handler :: "Provider \<Rightarrow> (nat \<Rightarrow> repairs_db \<Rightarrow> repairs_db) \<Rightarrow> bool \<Rightarrow> handler" where
  "webhook_handler provider bc partial S bt E r s =
    (case handleWebhook (server.truncate S) bt bc E (rq_Header r) (if partial then None else Some (rq_Body r)) provider s of
       (WebhookError status code, s1) \<Rightarrow> (writeError status code, s1)
     | (WebhookAccepted status created, s1) \<Rightarrow> (writeJSON 202 (WebhookBody status created), s1))"

section \<open>Executions (execution.go)\<close>

text \<open>These endpoints do not touch the database after the session is read; their state is the deadlines of the execution client.\<close>

definition executionErrorCode :: "ac_error \<Rightarrow> string" where
  "executionErrorCode e = (case e of AC kind _ \<Rightarrow> ac_kind_text kind | Plain _ \<Rightarrow> ''ac_execution_failed'')"

definition writeExecutionError :: "ac_error \<Rightarrow> http_reply" where
  "writeExecutionError e = writeError
    (case e of AC ac_kind.ErrRejected _ \<Rightarrow> 400 | AC ErrIncompatible _ \<Rightarrow> 412 | AC ErrTimeout _ \<Rightarrow> 504 | AC ac_kind.ErrCancelled _ \<Rightarrow> 409
     | AC ErrUnavailable _ \<Rightarrow> 503 | _ \<Rightarrow> 502) (executionErrorCode e)"

definition requireExecutionOperator :: "api \<Rightarrow> env \<Rightarrow> http_request \<Rightarrow> bool \<Rightarrow> server_db \<Rightarrow> http_reply + Session" where
  "requireExecutionOperator S E r mutation s =
    (case requireSession S E r s of
       Inl rp \<Rightarrow> Inl rp
     | Inr (session, _) \<Rightarrow>
         if user_Role (ses_User session) \<noteq> RoleAdmin \<and> user_Role (ses_User session) \<noteq> RoleMaintainer then Inl (writeError 403 ''forbidden'')
         else if mutation \<and> \<not> csrf_ok S session r then Inl (writeError 403 ''csrf_failed'') else Inr session)"

definition startExecution :: "execution_adapter \<Rightarrow> api \<Rightarrow> env \<Rightarrow> http_request \<Rightarrow> server_db \<Rightarrow> deadlines \<Rightarrow> http_reply \<times> deadlines" where
  "startExecution A S E r s dl =
    (case requireExecutionOperator S (call E 0) r True s of
       Inl rp \<Rightarrow> (rp, dl)
     | Inr session \<Rightarrow>
         (case decodeJSON (js_execution (api_json S)) r of
            Inl rp \<Rightarrow> (rp, dl)
          | Inr request \<Rightarrow>
              (case xa_Start A (clock E) \<lparr>xr_CorrelationID = ser_CorrelationID request, xr_ProjectID = ser_ProjectID request,
                  xr_AgentName = ser_AgentName request, xr_Repository = ser_Repository request, xr_CommitSHA = ser_CommitSHA request,
                  xr_Prompt = ser_Prompt request, xr_Timeout = seconds64 (ser_TimeoutSeconds request), xr_OutputSchemaJSON = [],
                  xr_Driver = ser_Driver request, xr_Cleanup = ''remove'', xr_NetworkEnabled = ser_NetworkEnabled request\<rparr> dl of
                 (Inl e, dl1) \<Rightarrow> (writeExecutionError e, dl1)
               | (Inr run, dl1) \<Rightarrow> (writeJSON 202 (ExecutionBody run (user_ID (ses_User session))), dl1))))"

definition executionEvents :: "execution_adapter \<Rightarrow> bool \<Rightarrow> api \<Rightarrow> env \<Rightarrow> http_request \<Rightarrow> server_db \<Rightarrow> deadlines \<Rightarrow> http_reply \<times> deadlines" where
  "executionEvents A flusher S E r s dl =
    (case requireExecutionOperator S (call E 0) r False s of
       Inl rp \<Rightarrow> (rp, dl)
     | Inr _ \<Rightarrow>
         let offset = TrimSpace (rq_Query r ''after'')
         in (case (if offset = [] then Some 0 else ParseUint offset) of
           None \<Rightarrow> (writeError 400 ''invalid_event_offset'', dl)
         | Some after \<Rightarrow>
             if \<not> flusher then (writeError 500 ''streaming_unsupported'', dl)
             else (case xa_Events A (rq_PathValue r ''id'') after dl of
               (sent, err, dl1) \<Rightarrow>
                 (writeJSON 200 (StreamBody (map (\<lambda>ev. SseEvent (evt_Sequence ev) (ex_Kind ev) (api_marshal_event S ev)) sent @
                    (case err of None \<Rightarrow> [] | Some e \<Rightarrow> [SseError (executionErrorCode e)]))), dl1))))"

definition executionResult :: "execution_adapter \<Rightarrow> api \<Rightarrow> env \<Rightarrow> http_request \<Rightarrow> server_db \<Rightarrow> http_reply" where
  "executionResult A S E r s =
    (case requireExecutionOperator S (call E 0) r False s of
       Inl rp \<Rightarrow> rp
     | Inr _ \<Rightarrow> (case xa_Result A (rq_PathValue r ''id'') of Inl e \<Rightarrow> writeExecutionError e | Inr res \<Rightarrow> writeJSON 200 (ResultBody res)))"

definition cancelExecution :: "execution_adapter \<Rightarrow> api \<Rightarrow> env \<Rightarrow> http_request \<Rightarrow> server_db \<Rightarrow> http_reply" where
  "cancelExecution A S E r s =
    (case requireExecutionOperator S (call E 0) r True s of
       Inl rp \<Rightarrow> rp
     | Inr _ \<Rightarrow>
         (case decodeJSON (js_reason (api_json S)) r of
            Inl rp \<Rightarrow> rp
          | Inr reason \<Rightarrow> (case xa_Cancel A (rq_PathValue r ''id'') reason of Inl e \<Rightarrow> writeExecutionError e | Inr _ \<Rightarrow> writeJSON 204 NoBody)))"

section \<open>The event stream of a run (tasks.go)\<close>

text \<open>
  \<open>runEvents\<close> polls the run's events until a terminal one is sent, the client leaves or half a minute has passed. A \<open>poll\<close> is one turn of the loop: the
  environment of its query and the database it reads; the list holds the turns up to the one at which the client or the deadline ends the loop.
\<close>

fun poll_frames :: "api \<Rightarrow> RunEvent list \<Rightarrow> int \<Rightarrow> sse list \<times> int \<times> bool" where
  "poll_frames S [] after = ([], after, False)"
| "poll_frames S (ev # evs) after =
    (let frame = SseEvent (ev_Sequence ev) (ev_Kind ev) (api_marshal_run_event S ev)
     in if ev_Terminal ev then ([frame], ev_Sequence ev, True)
        else case poll_frames S evs (ev_Sequence ev) of (frames, next, over) \<Rightarrow> (frame # frames, next, over))"

fun stream_polls :: "api \<Rightarrow> string \<Rightarrow> int \<Rightarrow> (env \<times> server_db) list \<Rightarrow> sse list" where
  "stream_polls S runID after [] = []"
| "stream_polls S runID after ((E, s) # polls) =
    (case ListRunEvents E runID after (srv_core s) of
       Inl e \<Rightarrow> [SseError (taskErrorCode e)]
     | Inr evs \<Rightarrow>
         (case poll_frames S evs after of (frames, next, over) \<Rightarrow> if over then frames else frames @ stream_polls S runID next polls))"

definition runEvents :: "bool \<Rightarrow> api \<Rightarrow> env \<Rightarrow> http_request \<Rightarrow> (env \<times> server_db) list \<Rightarrow> server_db \<Rightarrow> http_reply" where
  "runEvents flusher S E r polls s =
    (case requireSession S (call E 0) r s of
       Inl rp \<Rightarrow> rp
     | Inr _ \<Rightarrow>
         let offset = TrimSpace (rq_Query r ''after'')
         in (case (if offset = [] then Some 0 else ParseInt offset) of
           None \<Rightarrow> writeError 400 ''invalid_event_offset''
         | Some after \<Rightarrow>
             if after < 0 then writeError 400 ''invalid_event_offset''
             else if \<not> flusher then writeError 500 ''streaming_unsupported''
             else writeJSON 200 (StreamBody (stream_polls S (rq_PathValue r ''id'') after polls))))"

end
