(* ===== verification/HTTP_Streams.thy ===== *)
theory HTTP_Streams
  imports HTTP_API
begin

text \<open>
  What the client of a run's event stream receives (\<open>runEvents\<close> of \<open>src/server/internal/httpserver/tasks.go\<close>): the polls of a growing log deliver
  every event once and in order.
\<close>

section \<open>The log of a run\<close>

definition events_of :: "string \<Rightarrow> server_db \<Rightarrow> RunEvent list" where
  "events_of runID s = filter (\<lambda>e. ev_RunID e = runID) (run_events (srv_core s))"

definition run_frame :: "api \<Rightarrow> RunEvent \<Rightarrow> sse" where
  "run_frame S ev = SseEvent (ev_Sequence ev) (ev_Kind ev) (api_marshal_run_event S ev)"

text \<open>The events up to and including the first terminal one.\<close>

fun until_terminal :: "RunEvent list \<Rightarrow> RunEvent list" where
  "until_terminal [] = []"
| "until_terminal (e # es) = (if ev_Terminal e then [e] else e # until_terminal es)"

abbreviation increasing :: "RunEvent list \<Rightarrow> bool" where
  "increasing \<equiv> sorted_wrt (\<lambda>a b. ev_Sequence a < ev_Sequence b)"

lemma until_terminal_append:
  "until_terminal (xs @ ys) = (if list_ex ev_Terminal xs then until_terminal xs else xs @ until_terminal ys)"
  by (induction xs) auto

lemma events_increasing: "tasks_inv (srv_core s) \<Longrightarrow> increasing (events_of runID s)"
proof -
  have "sorted_wrt P xs \<Longrightarrow> (\<And>a b. a \<in> set xs \<Longrightarrow> b \<in> set xs \<Longrightarrow> Q a \<Longrightarrow> Q b \<Longrightarrow> P a b \<Longrightarrow> R a b) \<Longrightarrow> sorted_wrt R (filter Q xs)" for P Q R and xs :: "RunEvent list"
    by (induction xs) auto
  then show "tasks_inv (srv_core s) \<Longrightarrow> increasing (events_of runID s)"
    by (auto simp: tasks_inv_def events_wf_def events_of_def)
qed

lemma increasing_sorted: "increasing xs \<Longrightarrow> sort_key ev_Sequence xs = xs"
  by (rule sort_key_id_if_sorted) (induction xs, auto simp: less_imp_le)

lemma ListRunEvents_of:
  assumes "tasks_inv (srv_core s)" "runID \<in> run_ID ` set (runs (srv_core s))" "\<not> fails E 0" "\<not> fails E 1"
  shows "ListRunEvents E runID after (srv_core s) = Inr (filter (\<lambda>e. after < ev_Sequence e) (events_of runID s))"
proof -
  have "filter (\<lambda>e. ev_RunID e = runID \<and> after < ev_Sequence e) (run_events (srv_core s)) = filter (\<lambda>e. after < ev_Sequence e) (events_of runID s)"
    by (simp add: events_of_def conj_commute)
  moreover have "increasing (filter (\<lambda>e. after < ev_Sequence e) (events_of runID s))"
    using events_increasing [OF assms(1)] by (rule sorted_wrt_filter)
  ultimately show ?thesis using assms(2-4) by (simp add: ListRunEvents_def increasing_sorted)
qed

section \<open>The polls\<close>

lemma poll_frames_eq:
  "poll_frames S evs after = (map (run_frame S) (until_terminal evs),
     (if until_terminal evs = [] then after else ev_Sequence (last (until_terminal evs))), list_ex ev_Terminal evs)"
proof (induction evs arbitrary: after)
  case (Cons e evs)
  have "until_terminal evs = [] \<longleftrightarrow> evs = []" by (cases evs) auto
  with Cons show ?case by (simp add: run_frame_def Let_def)
qed simp

lemma no_terminal: "\<not> list_ex ev_Terminal evs \<Longrightarrow> until_terminal evs = evs"
  by (induction evs) auto

text \<open>After a poll that saw \<open>L\<close>, the events later than the last one sent are those after the offset that \<open>L\<close> did not have.\<close>

lemma later_events:
  assumes "increasing (L @ M)" "evs = filter (\<lambda>e. after < ev_Sequence e) L" "sent = (if evs = [] then after else ev_Sequence (last evs))"
  shows "filter (\<lambda>e. sent < ev_Sequence e) (L @ M) = filter (\<lambda>e. after < ev_Sequence e) M"
proof (cases "evs = []")
  case True
  with assms(2,3) show ?thesis by simp
next
  case False
  have inc: "increasing L" "\<And>x y. x \<in> set L \<Longrightarrow> y \<in> set M \<Longrightarrow> ev_Sequence x < ev_Sequence y"
    using assms(1) by (auto simp: sorted_wrt_append)
  have incl: "increasing evs" using inc(1) assms(2) by (simp add: sorted_wrt_filter)
  have last: "last evs \<in> set L" "after < ev_Sequence (last evs)" using last_in_set [OF False] assms(2) by auto
  have top: "ev_Sequence e \<le> ev_Sequence (last evs)" if "e \<in> set evs" for e
    using incl that False by (induction evs rule: rev_induct) (auto simp: sorted_wrt_append less_imp_le)
  have "\<not> sent < ev_Sequence e" if "e \<in> set L" for e
  proof (cases "after < ev_Sequence e")
    case True
    with that top assms(2,3) False show ?thesis by (auto simp: not_less)
  next
    case False
    with last(2) assms(3) \<open>evs \<noteq> []\<close> show ?thesis by simp
  qed
  moreover have "sent < ev_Sequence e \<and> after < ev_Sequence e" if "e \<in> set M" for e
    using inc(2) [OF last(1) that] last(2) assms(3) False by simp
  ultimately show ?thesis by (simp add: filter_empty_conv cong: filter_cong)
qed

text \<open>
  C20. A client of the event stream misses nothing: while the log of the run grows between the polls and no query fails, the stream is exactly the events of the run after the offset
  the client gave, in the order of their sequence numbers, each once, up to the first terminal event, however the polls and the workers interleave.
\<close>

theorem stream_delivers_all:
  assumes "polls \<noteq> []"
    and "\<And>E s. (E, s) \<in> set polls \<Longrightarrow> tasks_inv (srv_core s) \<and> runID \<in> run_ID ` set (runs (srv_core s)) \<and> \<not> fails E 0 \<and> \<not> fails E 1"
    and "sorted_wrt (\<lambda>p q. prefix (events_of runID (snd p)) (events_of runID (snd q))) polls"
  shows "stream_polls S runID after polls =
    map (run_frame S) (until_terminal (filter (\<lambda>e. after < ev_Sequence e) (events_of runID (snd (last polls)))))"
  using assms
proof (induction polls arbitrary: after)
  case (Cons p polls)
  obtain E s where p: "p = (E, s)" by (cases p)
  let ?L = "events_of runID s"
  let ?evs = "filter (\<lambda>e. after < ev_Sequence e) ?L"
  have ok: "tasks_inv (srv_core s)" "runID \<in> run_ID ` set (runs (srv_core s))" "\<not> fails E 0" "\<not> fails E 1" using Cons.prems(2) [of E s] p by auto
  note listed = ListRunEvents_of [OF ok, of after]
  show ?case
  proof (cases "polls = []")
    case True
    have "until_terminal ?evs = [] \<longleftrightarrow> ?evs = []" by (cases ?evs) auto
    with True p listed show ?thesis by (simp add: poll_frames_eq)
  next
    case False
    obtain M where M: "events_of runID (snd (last polls)) = ?L @ M"
      using Cons.prems(3) p last_in_set [OF False] by (auto simp: prefix_def)
    have "tasks_inv (srv_core (snd (last polls)))" using Cons.prems(2) last_in_set [OF False] by (metis list.set_intros(2) prod.collapse)
    then have inc: "increasing (?L @ M)" using events_increasing [of "snd (last polls)" runID] M by simp
    show ?thesis
    proof (cases "list_ex ev_Terminal ?evs")
      case True
      with p listed False M show ?thesis by (simp add: poll_frames_eq until_terminal_append)
    next
      case quiet: False
      let ?sent = "if ?evs = [] then after else ev_Sequence (last ?evs)"
      have rest: "\<And>E s. (E, s) \<in> set polls \<Longrightarrow> tasks_inv (srv_core s) \<and> runID \<in> run_ID ` set (runs (srv_core s)) \<and> \<not> fails E 0 \<and> \<not> fails E 1"
        "sorted_wrt (\<lambda>p q. prefix (events_of runID (snd p)) (events_of runID (snd q))) polls"
        by (rule Cons.prems(2), simp) (use Cons.prems(3) in simp)
      have "stream_polls S runID ?sent polls = map (run_frame S) (until_terminal (filter (\<lambda>e. ?sent < ev_Sequence e) (?L @ M)))"
        using Cons.IH [OF False rest, of ?sent] unfolding M .
      then have next_polls: "stream_polls S runID ?sent polls = map (run_frame S) (until_terminal (filter (\<lambda>e. after < ev_Sequence e) M))"
        unfolding later_events [OF inc refl refl] .
      have "stream_polls S runID after (p # polls) = map (run_frame S) ?evs @ stream_polls S runID ?sent polls"
        using p listed quiet by (simp add: poll_frames_eq no_terminal)
      also have "\<dots> = map (run_frame S) (until_terminal (filter (\<lambda>e. after < ev_Sequence e) (?L @ M)))"
        unfolding next_polls filter_append until_terminal_append using quiet by simp
      finally show ?thesis using False M by simp
    qed
  qed
qed simp

section \<open>Witness\<close>

definition sample_row_event :: "int \<Rightarrow> bool \<Rightarrow> RunEvent" where
  "sample_row_event n terminal = \<lparr>ev_RunID = sample_run, ev_Sequence = n, ev_Kind = ''log'', ev_Stream = [], ev_Message = [], ev_Payload = ''{}'',
     ev_Terminal = terminal, ev_CreatedAt = n\<rparr>"

definition sample_log_db :: "RunEvent list \<Rightarrow> server_db" where
  "sample_log_db evs = sample_server_db\<lparr>srv_core := (srv_core sample_server_db)\<lparr>tasks := tasks sample_db2, runs := runs sample_db2, run_events := evs\<rparr>\<rparr>"

lemma sample_log_inv:
  assumes "\<forall>e \<in> set evs. 1 \<le> ev_Sequence e \<and> ev_RunID e = sample_run" "increasing evs"
  shows "tasks_inv (srv_core (sample_log_db evs)) \<and> sample_run \<in> run_ID ` set (runs (srv_core (sample_log_db evs)))"
proof -
  have "sample_run \<in> run_ID ` set (runs sample_db2)"
    using sample_facts(4) by (metis list.set_intros(1) list.set_map)
  moreover have "tasks_inv sample_db2" by (rule tq.reachable_inv [OF sample_steps(2)])
  moreover have "sorted_wrt (\<lambda>a b. ev_RunID a = ev_RunID b \<longrightarrow> ev_Sequence a < ev_Sequence b) evs"
    using assms(2) by (rule sorted_wrt_mono_rel [rotated]) simp
  ultimately show ?thesis using assms(1) by (auto simp: sample_log_db_def tasks_inv_def events_wf_def)
qed

definition sample_polls :: "(env \<times> server_db) list" where
  "sample_polls = [(zero_env 1, sample_log_db [sample_row_event 1 False]),
     (zero_env 2, sample_log_db [sample_row_event 1 False, sample_row_event 2 False, sample_row_event 3 True])]"

theorem stream_delivers_all_witness:
  "\<forall>S. stream_polls S sample_run 0 sample_polls = map (run_frame S) [sample_row_event 1 False, sample_row_event 2 False, sample_row_event 3 True]"
proof
  fix S
  have logs: "events_of sample_run (sample_log_db [sample_row_event 1 False]) = [sample_row_event 1 False]"
    "events_of sample_run (sample_log_db [sample_row_event 1 False, sample_row_event 2 False, sample_row_event 3 True]) =
      [sample_row_event 1 False, sample_row_event 2 False, sample_row_event 3 True]"
    by (simp_all add: events_of_def sample_log_db_def sample_row_event_def)
  have "stream_polls S sample_run 0 sample_polls =
      map (run_frame S) (until_terminal (filter (\<lambda>e. 0 < ev_Sequence e) (events_of sample_run (snd (last sample_polls)))))"
  proof (rule stream_delivers_all)
    fix E s
    assume "(E, s) \<in> set sample_polls"
    then show "tasks_inv (srv_core s) \<and> sample_run \<in> run_ID ` set (runs (srv_core s)) \<and> \<not> fails E 0 \<and> \<not> fails E 1"
      using sample_log_inv [of "[sample_row_event 1 False]"] sample_log_inv [of "[sample_row_event 1 False, sample_row_event 2 False, sample_row_event 3 True]"]
      by (auto simp: sample_polls_def zero_env_def quiet_env_def sample_row_event_def)
  qed (simp_all add: sample_polls_def logs)
  then show "stream_polls S sample_run 0 sample_polls = map (run_frame S) [sample_row_event 1 False, sample_row_event 2 False, sample_row_event 3 True]"
    by (simp add: sample_polls_def logs) (simp add: sample_row_event_def)
qed

end
