(* ===== verification/Metrics.thy ===== *)
theory Metrics
  imports Go_Strings "HOL-Library.AList" "HOL-Library.List_Lexorder" "HOL-Library.Char_ord"
begin

text \<open>
  The request metrics (\<open>src/server/internal/metrics/metrics.go\<close>): the registry, the middleware that counts responses, and the text that the
  endpoint \<open>/metrics\<close> exposes to Prometheus.

  \<^item> The registry's mutex makes each operation atomic. Its map is an association list whose order stands for the order in which Go enumerates it.
  \<^item> Counters are 64-bit words, and so is the sum of durations, which nothing reads.
\<close>

section \<open>The registry\<close>

record metric_key =
  mk_method :: string
  mk_route :: string
  mk_status :: string

record sample =
  sm_count :: "64 word"
  sm_sum :: "64 word"

record Registry =
  requests :: "(metric_key \<times> sample) list"
  build :: string
  rateLimitRejected :: "64 word"

definition sanitizeLabel :: "string \<Rightarrow> string" where
  "sanitizeLabel value0 =
    (let escaped = concat (map (\<lambda>c. if c = CHR 0x5C then [CHR 0x5C, CHR 0x5C] else [c]) value0);
       quoted = concat (map (\<lambda>c. if c = CHR 0x22 then [CHR 0x5C, CHR 0x22] else [c]) escaped)
     in filter (\<lambda>c. c \<noteq> CHR 0x0A) quoted)"

definition New_registry :: "string \<Rightarrow> Registry" where
  "New_registry serviceVersion = \<lparr>requests = [], build = sanitizeLabel serviceVersion, rateLimitRejected = 0\<rparr>"

definition request_key :: "string \<Rightarrow> string \<Rightarrow> int \<Rightarrow> metric_key" where
  "request_key verb route status =
    \<lparr>mk_method = verb, mk_route = (if route = [] then ''unknown'' else route), mk_status = itoa (status div 100) @ ''xx''\<rparr>"

definition Record_request :: "string \<Rightarrow> string \<Rightarrow> int \<Rightarrow> duration \<Rightarrow> Registry \<Rightarrow> Registry" where
  "Record_request verb route status elapsed r =
    (let k = request_key verb route status;
       item = (case map_of (requests r) k of None \<Rightarrow> \<lparr>sm_count = 0, sm_sum = 0\<rparr> | Some item \<Rightarrow> item)
     in r\<lparr>requests := AList.update k \<lparr>sm_count = sm_count item + 1, sm_sum = sm_sum item + word_of_int elapsed\<rparr> (requests r)\<rparr>)"

definition RecordRateLimitRejection :: "Registry \<Rightarrow> Registry" where
  "RecordRateLimitRejection r = r\<lparr>rateLimitRejected := rateLimitRejected r + 1\<rparr>"

section \<open>The middleware\<close>

text \<open>
  The wrapped response writer: its own status, and the calls that reach the writer below.
\<close>

datatype writer_call = WriteHeader int | Write string | Flush

record responseWriter =
  rw_status :: int
  rw_below :: "writer_call list"

definition rw_WriteHeader :: "int \<Rightarrow> responseWriter \<Rightarrow> responseWriter" where
  "rw_WriteHeader status w =
    (if rw_status w \<noteq> 0 then w else w\<lparr>rw_status := status, rw_below := rw_below w @ [WriteHeader status]\<rparr>)"

definition rw_Write :: "string \<Rightarrow> responseWriter \<Rightarrow> responseWriter" where
  "rw_Write content w =
    (let w1 = (if rw_status w = 0 then rw_WriteHeader 200 w else w) in w1\<lparr>rw_below := rw_below w1 @ [Write content]\<rparr>)"

definition rw_Flush :: "bool \<Rightarrow> responseWriter \<Rightarrow> responseWriter" where
  "rw_Flush flusher w =
    (let w1 = (if rw_status w = 0 then rw_WriteHeader 200 w else w)
     in if flusher then w1\<lparr>rw_below := rw_below w1 @ [Flush]\<rparr> else w1)"

fun rw_call :: "bool \<Rightarrow> writer_call \<Rightarrow> responseWriter \<Rightarrow> responseWriter" where
  "rw_call flusher (WriteHeader status) w = rw_WriteHeader status w"
| "rw_call flusher (Write content) w = rw_Write content w"
| "rw_call flusher Flush w = rw_Flush flusher w"

definition rw_new :: responseWriter where
  "rw_new = \<lparr>rw_status = 0, rw_below = []\<rparr>"

definition looksLikeID :: "string \<Rightarrow> bool" where
  "looksLikeID segment \<longleftrightarrow>
    32 \<le> length segment \<and> 2 \<le> length (filter (\<lambda>c. c = CHR ''-'') segment) \<or>
    16 \<le> length segment \<and> is_hex segment"

definition Trim_slashes :: "string \<Rightarrow> string" where
  "Trim_slashes s = rev (dropWhile (\<lambda>c. c = CHR ''/'') (rev (dropWhile (\<lambda>c. c = CHR ''/'') s)))"

definition normalizedPath :: "string \<Rightarrow> string" where
  "normalizedPath path =
    (if path = [] \<or> path = ''/'' then ''/''
     else ''/'' @ Join (map (\<lambda>part. if looksLikeID part then '':id'' else part) (Split (Trim_slashes path) (CHR ''/''))) ''/'')"

text \<open>The next handler is the calls it makes on the writer; \<open>pattern\<close> is what the multiplexer matched, empty when nothing did.\<close>

definition metrics_Middleware :: "bool \<Rightarrow> string \<Rightarrow> string \<Rightarrow> string \<Rightarrow> writer_call list \<Rightarrow> duration \<Rightarrow> Registry \<Rightarrow> writer_call list \<times> Registry" where
  "metrics_Middleware flusher verb pattern path calls elapsed r =
    (let w = fold (rw_call flusher) calls rw_new
     in (rw_below w, Record_request verb (if pattern = [] then normalizedPath path else pattern) (rw_status w) elapsed r))"

section \<open>The exposition\<close>

definition newline :: string where
  "newline = [CHR 0x0A]"

definition key_order :: "metric_key \<Rightarrow> string" where
  "key_order k = Join [mk_method k, mk_route k, mk_status k] [CHR 0x00]"

definition sample_line :: "metric_key \<times> sample \<Rightarrow> string" where
  "sample_line entry = (case entry of (k, item) \<Rightarrow>
    ''repomender_http_requests_total{method=\"'' @ sanitizeLabel (mk_method k) @ ''\",route=\"'' @ sanitizeLabel (mk_route k) @
    ''\",status_class=\"'' @ mk_status k @ ''\"} '' @ itoa (uint (sm_count item)) @ newline)"

definition exposition :: "Registry \<Rightarrow> string" where
  "exposition r =
    ''# HELP repomender_build_info Build information.'' @ newline @ ''# TYPE repomender_build_info gauge'' @ newline @
    ''repomender_build_info{version=\"'' @ build r @ ''\"} 1'' @ newline @
    ''# HELP repomender_http_requests_total HTTP requests by route and status class.'' @ newline @
    ''# TYPE repomender_http_requests_total counter'' @ newline @
    concat (map sample_line (sort_key (key_order \<circ> fst) (requests r))) @
    ''# HELP repomender_rate_limit_rejections_total Requests rejected by the M10 rate limiter.'' @ newline @
    ''# TYPE repomender_rate_limit_rejections_total counter'' @ newline @
    ''repomender_rate_limit_rejections_total '' @ itoa (uint (rateLimitRejected r)) @ newline"

text \<open>The answer of the endpoint: the status and the body.\<close>

definition metrics_Handler :: "string \<Rightarrow> string \<Rightarrow> Registry \<Rightarrow> int \<times> string" where
  "metrics_Handler metricsToken authorization r =
    (if metricsToken \<noteq> [] \<and> authorization \<noteq> ''Bearer '' @ metricsToken then (401, []) else (200, exposition r))"

section \<open>Labels\<close>

text \<open>
  A reader of the exposition format: the text of a label up to the closing quote, with the escapes undone, and what follows the quote.
\<close>

fun scan_label :: "string \<Rightarrow> (string \<times> string) option" where
  "scan_label [] = None"
| "scan_label [c] = (if c = CHR 0x22 then Some ([], []) else None)"
| "scan_label (c # d # s) =
    (if c = CHR 0x22 then Some ([], d # s)
     else if c = CHR 0x5C then
       (if d = CHR 0x5C \<or> d = CHR 0x22 then map_option (apfst (Cons d)) (scan_label s)
        else if d = CHR ''n'' then map_option (apfst (Cons (CHR 0x0A))) (scan_label s) else None)
     else if c = CHR 0x0A then None
     else map_option (apfst (Cons c)) (scan_label (d # s)))"

lemma sanitizeLabel_Nil: "sanitizeLabel [] = []"
  by (simp add: sanitizeLabel_def)

lemma sanitizeLabel_Cons:
  "sanitizeLabel (c # s) =
    (if c = CHR 0x0A then [] else if c = CHR 0x5C \<or> c = CHR 0x22 then [CHR 0x5C, c] else [c]) @ sanitizeLabel s"
  by (simp add: sanitizeLabel_def)

lemma scan_label_plain:
  "c \<noteq> CHR 0x22 \<Longrightarrow> c \<noteq> CHR 0x5C \<Longrightarrow> c \<noteq> CHR 0x0A \<Longrightarrow> s \<noteq> [] \<Longrightarrow> scan_label (c # s) = map_option (apfst (Cons c)) (scan_label s)"
  by (cases s) auto

text \<open>
  No label breaks out of its quotes: whatever method, path or version a client or the configuration supplies, a reader of the exposition format finds exactly that text without its
  newlines up to the closing quote, and then what the registry wrote after it.
\<close>

theorem label_roundtrip:
  "scan_label (sanitizeLabel label @ CHR 0x22 # rest) = Some (filter (\<lambda>c. c \<noteq> CHR 0x0A) label, rest)"
proof (induction label)
  case Nil
  then show ?case by (cases rest) (simp_all add: sanitizeLabel_Nil)
next
  case (Cons c label)
  then show ?case by (simp add: sanitizeLabel_Cons scan_label_plain)
qed

section \<open>Counting\<close>

definition counted :: "Registry \<Rightarrow> metric_key \<Rightarrow> 64 word" where
  "counted r k = (case map_of (requests r) k of None \<Rightarrow> 0 | Some item \<Rightarrow> sm_count item)"

lemma counted_Record:
  "counted (Record_request verb route status elapsed r) k = counted r k + (if request_key verb route status = k then 1 else 0)"
  by (simp add: counted_def Record_request_def Let_def update_conv split: option.splits)

lemma keys_Record:
  "distinct (map fst (requests r)) \<Longrightarrow> distinct (map fst (requests (Record_request verb route status elapsed r)))"
  "set (map fst (requests (Record_request verb route status elapsed r))) = insert (request_key verb route status) (set (map fst (requests r)))"
  by (simp_all add: Record_request_def Let_def distinct_update dom_update)

lemma counted_fold:
  "counted (fold (\<lambda>(verb, route, status, elapsed). Record_request verb route status elapsed) log r) k =
    counted r k + of_nat (length (filter (\<lambda>(verb, route, status, elapsed). request_key verb route status = k) log))"
  by (induction log arbitrary: r) (auto simp: counted_Record)

text \<open>
  Each response is counted once: after any sequence of recorded responses, in any order, the counter of a method, route and status class is the number of
  responses with them, modulo 2 to the 64, and the registry exposes one line for each such key, whether or not routes repeat.
\<close>

theorem requests_counted:
  "let r = fold (\<lambda>(verb, route, status, elapsed). Record_request verb route status elapsed) log (New_registry v)
   in counted r k = of_nat (length (filter (\<lambda>(verb, route, status, elapsed). request_key verb route status = k) log)) \<and>
      distinct (map fst (requests r)) \<and> set (map fst (requests r)) = {request_key verb route status | verb route status elapsed. (verb, route, status, elapsed) \<in> set log}"
proof -
  let ?step = "\<lambda>(verb, route, status, elapsed). Record_request verb route status elapsed"
  have "distinct (map fst (requests (fold ?step log r))) \<and>
      set (map fst (requests (fold ?step log r))) = set (map fst (requests r)) \<union> {request_key verb route status | verb route status elapsed. (verb, route, status, elapsed) \<in> set log}"
    if "distinct (map fst (requests r))" for r
    using that
  proof (induction log arbitrary: r)
    case (Cons entry log)
    obtain verb route status elapsed where e: "entry = (verb, route, status, elapsed)" by (cases entry) auto
    have "distinct (map fst (requests (?step entry r)))" "set (map fst (requests (?step entry r))) = insert (request_key verb route status) (set (map fst (requests r)))"
      using Cons.prems by (simp_all only: e prod.case keys_Record)
    with Cons.IH [of "?step entry r"] show ?case by (auto simp: e)
  qed simp
  from this [of "New_registry v"] show ?thesis by (simp add: Let_def counted_fold) (simp add: New_registry_def counted_def)
qed

section \<open>Routes that are not bounded\<close>

lemma Split_repeat: "sep \<notin> set s \<Longrightarrow> Split (s @ concat (replicate n (sep # s))) sep = replicate (Suc n) s"
proof (induction n)
  case 0
  then show ?case by (induction s) auto
next
  case (Suc n)
  have "sep \<notin> set u \<Longrightarrow> Split (u @ sep # t) sep = u # Split t sep" for u t by (induction u) auto
  with Suc show ?case by simp
qed

lemma Join_repeat: "Join (replicate (Suc n) s) sep = s @ concat (replicate n (sep @ s))"
  by (induction n) auto

lemma normalizedPath_repeat: "normalizedPath (concat (replicate (Suc n) ''/a'')) = concat (replicate (Suc n) ''/a'')"
proof -
  let ?t = "''a'' @ concat (replicate n (CHR ''/'' # ''a''))"
  have p: "concat (replicate (Suc n) ''/a'') = CHR ''/'' # ?t" by simp
  have "last ?t = CHR ''a''" by (induction n) auto
  then have "hd (rev ?t) = CHR ''a''" by (simp only: hd_rev)
  then have "dropWhile (\<lambda>c. c = CHR ''/'') (rev ?t) = rev ?t" by (simp only: dropWhile_eq_self_iff) simp
  then have "Trim_slashes (CHR ''/'' # ?t) = ?t" by (simp add: Trim_slashes_def)
  moreover have "\<not> looksLikeID ''a''" by code_simp
  moreover have "CHR ''/'' # ?t \<noteq> ''/''" by simp
  ultimately show ?thesis
    unfolding p normalizedPath_def using Split_repeat [of "CHR ''/''" "''a''" n] Join_repeat [of n "''a''" "''/''"] by simp
qed

text \<open>
  The registry is not bounded by its routes: requests that no route matches are recorded under their own path, of which only long identifiers are replaced, so a client
  can make the registry hold any number of keys, although its comment promises bounded cardinality.
\<close>

theorem cardinality_unbounded:
  "\<exists>paths. n \<le> length (requests (fold (\<lambda>path r. snd (metrics_Middleware True ''GET'' [] path [WriteHeader 404] 0 r)) paths (New_registry v)))"
proof -
  let ?path = "\<lambda>n. concat (replicate (Suc n) ''/a'')"
  let ?step = "\<lambda>path r. snd (metrics_Middleware True ''GET'' [] path [WriteHeader 404] 0 r)"
  let ?key = "\<lambda>n. request_key ''GET'' (?path n) 404"
  have len: "length (?path n) = 2 * Suc n" for n by (induction n) auto
  have step: "?step (?path n) r = Record_request ''GET'' (?path n) 404 0 r" for n r
    using normalizedPath_repeat [of n] by (simp add: metrics_Middleware_def rw_WriteHeader_def rw_new_def Let_def)
  have sub: "?key ` {..<n} \<subseteq> set (map fst (requests (fold ?step (map ?path [0..<n]) r)))" for r
  proof (induction n)
    case (Suc n)
    have "set (map fst (requests (fold ?step (map ?path [0..<Suc n]) r))) = insert (?key n) (set (map fst (requests (fold ?step (map ?path [0..<n]) r))))"
      by (simp only: upt_Suc_append map_append fold_append list.map fold_simps comp_apply step keys_Record le0)
    with Suc show ?case by (auto simp: lessThan_Suc simp del: set_map)
  qed simp
  have inj: "inj_on ?key {..<n}"
  proof (rule inj_onI)
    fix x y
    assume "?key x = ?key y"
    then have "mk_route (?key x) = mk_route (?key y)" by (rule arg_cong)
    moreover have "mk_route (request_key ''GET'' s 404) = s" if "s \<noteq> []" for s using that by (simp add: request_key_def)
    moreover have "?path k \<noteq> []" for k by simp
    ultimately have "?path x = ?path y" by (simp only: not_False_eq_True)
    then have "length (?path x) = length (?path y)" by (rule arg_cong)
    then show "x = y" unfolding len by simp
  qed
  have "card {..<n} \<le> card (set (map fst (requests (fold ?step (map ?path [0..<n]) (New_registry v)))))"
    by (rule card_inj_on_le [OF inj sub finite_set])
  also have "\<dots> \<le> length (requests (fold ?step (map ?path [0..<n]) (New_registry v)))"
    using card_length [of "map fst (requests (fold ?step (map ?path [0..<n]) (New_registry v)))"] by simp
  finally show ?thesis by (intro exI) (simp only: card_lessThan)
qed

end
