(* ===== verification/HTTP_Routes.thy ===== *)
theory HTTP_Routes
  imports HTTP_API Metrics
begin

text \<open>
  The route table of the API server (\<open>Handler\<close> of \<open>src/server/internal/httpserver/server.go\<close>) and what the guards of its handlers guarantee together.

  \<^item> \<open>routes\<close> is the table in the order of registration: method, pattern and handler, a group present when its service is. The parameters of a handler that are
    not part of the request (interference inside a service call, a body that breaks off, the polls of a stream) and the state of the process beside the database (the
    deadlines of the execution client, the metrics registry) are fields of \<open>gaps\<close>.
  \<^item> \<open>mux\<close> is \<open>http.ServeMux\<close> on cleaned paths: a segment in braces matches any one segment that is not empty, a pattern for \<open>GET\<close> also matches \<open>HEAD\<close>,
    a path known under another method is answered 405 and an unknown one 404.
\<close>

section \<open>The table\<close>

record gaps =
  gp_core :: "nat \<Rightarrow> repairs_db \<Rightarrow> repairs_db"
  gp_scm :: "scm_db \<Rightarrow> scm_db"
  gp_partial :: bool
  gp_deadlines :: deadlines
  gp_flusher :: bool
  gp_polls :: "(env \<times> server_db) list"
  gp_metrics :: "(Registry \<times> string) option"

type_synonym route = "string \<times> string \<times> handler"

definition metrics_handler :: "Registry \<Rightarrow> string \<Rightarrow> handler" where
  "metrics_handler registry metricsToken S bt E r s =
    (case metrics_Handler metricsToken (rq_Header r ''Authorization'') registry of (status, content) \<Rightarrow> (writeJSON status (TextBody content), s))"

definition health_routes :: "gaps \<Rightarrow> route list" where
  "health_routes G =
    [(''GET'', ''/health/live'', live), (''GET'', ''/health/ready'', ready)] @
    (case gp_metrics G of Some (registry, metricsToken) \<Rightarrow> [(''GET'', ''/metrics'', metrics_handler registry metricsToken)] | None \<Rightarrow> []) @
    [(''GET'', ''/health/version'', version)]"

definition auth_routes :: "route list" where
  "auth_routes =
    [(''POST'', ''/api/v1/auth/bootstrap'', bootstrap),
     (''POST'', ''/api/v1/auth/login'', login),
     (''POST'', ''/api/v1/auth/logout'', logout),
     (''GET'', ''/api/v1/auth/me'', me),
     (''GET'', ''/api/v1/auth/oidc/start'', oidcStart),
     (''GET'', ''/api/v1/auth/oidc/callback'', oidcCallback),
     (''GET'', ''/api/v1/users'', users_handler)]"

definition scm_routes :: "gaps \<Rightarrow> route list" where
  "scm_routes G =
    [(''GET'', ''/api/v1/scm/providers'', scmProviders),
     (''GET'', ''/api/v1/scm/connections'', scmConnections),
     (''GET'', ''/api/v1/scm/{provider}/connect'', scmConnect),
     (''GET'', ''/api/v1/scm/{provider}/callback'', scmCallback (gp_scm G)),
     (''POST'', ''/api/v1/scm/connections/{id}/sync'', scmSync (gp_scm G)),
     (''GET'', ''/api/v1/repositories'', repositories_handler),
     (''GET'', ''/api/v1/repositories/{id}'', repository_handler),
     (''POST'', ''/webhooks/github'', webhook_handler ProviderGitHub (gp_core G) (gp_partial G)),
     (''POST'', ''/webhooks/gitlab'', webhook_handler ProviderGitLab (gp_core G) (gp_partial G))]"

definition execution_routes :: "gaps \<Rightarrow> execution_adapter \<Rightarrow> route list" where
  "execution_routes G A =
    [(''POST'', ''/api/v1/internal/executions'', \<lambda>S bt E r s. (fst (startExecution A S E r s (gp_deadlines G)), s)),
     (''GET'', ''/api/v1/internal/executions/{id}/events'', \<lambda>S bt E r s. (fst (executionEvents A (gp_flusher G) S E r s (gp_deadlines G)), s)),
     (''GET'', ''/api/v1/internal/executions/{id}/result'', \<lambda>S bt E r s. (executionResult A S E r s, s)),
     (''POST'', ''/api/v1/internal/executions/{id}/cancel'', \<lambda>S bt E r s. (cancelExecution A S E r s, s))]"

definition task_routes :: "gaps \<Rightarrow> route list" where
  "task_routes G =
    [(''GET'', ''/api/v1/tasks'', listTasks),
     (''POST'', ''/api/v1/tasks'', createTask),
     (''GET'', ''/api/v1/tasks/{id}'', getTask),
     (''POST'', ''/api/v1/tasks/{id}/cancel'', cancelTask),
     (''POST'', ''/api/v1/tasks/{id}/retry'', retryTask),
     (''GET'', ''/api/v1/tasks/{id}/runs'', listTaskRuns),
     (''GET'', ''/api/v1/runs'', listRuns_handler),
     (''GET'', ''/api/v1/runs/{id}'', getRun_handler),
     (''GET'', ''/api/v1/runs/{id}/events'', \<lambda>S bt E r s. (runEvents (gp_flusher G) S E r (gp_polls G) s, s)),
     (''GET'', ''/api/v1/audit-events'', auditEvents)]"

definition approval_routes :: "approval_service \<Rightarrow> route list" where
  "approval_routes A =
    [(''GET'', ''/api/v1/approvals'', listApprovals),
     (''POST'', ''/api/v1/approvals'', createApproval A),
     (''GET'', ''/api/v1/approvals/{id}'', getApproval),
     (''POST'', ''/api/v1/approvals/{id}/decision'', decideApproval A),
     (''POST'', ''/api/v1/approvals/{id}/consume'', consumeApproval A),
     (''POST'', ''/api/v1/approvals/{id}/cancel'', cancelApproval A)]"

definition repair_routes :: "world \<Rightarrow> gaps \<Rightarrow> route list" where
  "repair_routes W G =
    [(''GET'', ''/api/v1/issue-repairs'', listRepairs),
     (''POST'', ''/api/v1/issue-repairs'', createRepair W (gp_core G)),
     (''POST'', ''/api/v1/issue-repairs/from-diagnosis'', createRepairFromDiagnosis W (gp_core G)),
     (''GET'', ''/api/v1/issue-repairs/{id}'', getRepair),
     (''POST'', ''/api/v1/issue-repairs/{id}/plan/consume'', consumeRepairApproval W (gp_core G) ''plan''),
     (''POST'', ''/api/v1/issue-repairs/{id}/patch/consume'', consumeRepairApproval W (gp_core G) ''patch'')]"

definition automation_routes :: "automation_world \<Rightarrow> route list" where
  "automation_routes AW =
    [(''GET'', ''/api/v1/admin/automation-overview'', automationOverview),
     (''GET'', ''/api/v1/automations'', listAutomations),
     (''POST'', ''/api/v1/automations'', createAutomation AW),
     (''GET'', ''/api/v1/automations/{id}'', getAutomation),
     (''PUT'', ''/api/v1/automations/{id}'', updateAutomation AW),
     (''DELETE'', ''/api/v1/automations/{id}'', deleteAutomation AW),
     (''POST'', ''/api/v1/automations/{id}/publish'', publishAutomation AW),
     (''POST'', ''/api/v1/automations/{id}/enable'', setAutomationEnabled AW True),
     (''POST'', ''/api/v1/automations/{id}/disable'', setAutomationEnabled AW False),
     (''POST'', ''/api/v1/automations/{id}/trigger'', triggerAutomation AW),
     (''GET'', ''/api/v1/automations/{id}/versions'', automationVersions),
     (''GET'', ''/api/v1/automations/{id}/runs'', automationRuns)]"

definition routes :: "api \<Rightarrow> gaps \<Rightarrow> route list" where
  "routes S G =
    health_routes G @
    (if api_auth S then auth_routes else []) @
    (if api_auth S \<and> api_scm S then scm_routes G else []) @
    (case api_execution S of Some A \<Rightarrow> if api_auth S then execution_routes G A else [] | None \<Rightarrow> []) @
    (if api_auth S \<and> api_tasks S then task_routes G else []) @
    (case api_approvals S of Some A \<Rightarrow> if api_auth S then approval_routes A else [] | None \<Rightarrow> []) @
    (case sv_repair S of Some W \<Rightarrow> if api_auth S then repair_routes W G else [] | None \<Rightarrow> []) @
    (case sv_automations S of Some AW \<Rightarrow> if api_auth S then automation_routes AW else [] | None \<Rightarrow> [])"

section \<open>Matching\<close>

definition segments :: "string \<Rightarrow> string list" where
  "segments path = Split (TrimPrefix path ''/'') (CHR ''/'')"

definition wildcard :: "string \<Rightarrow> bool" where
  "wildcard seg \<longleftrightarrow> seg \<noteq> [] \<and> hd seg = CHR ''{''"

definition segment_matches :: "string \<Rightarrow> string \<Rightarrow> bool" where
  "segment_matches pat seg \<longleftrightarrow> (if wildcard pat then seg \<noteq> [] else pat = seg)"

definition path_matches :: "string \<Rightarrow> string list \<Rightarrow> bool" where
  "path_matches pattern path \<longleftrightarrow> list_all2 segment_matches (segments pattern) path"

definition method_matches :: "string \<Rightarrow> string \<Rightarrow> bool" where
  "method_matches pat verb \<longleftrightarrow> verb = pat \<or> pat = ''GET'' \<and> verb = ''HEAD''"

definition bindings :: "string \<Rightarrow> string list \<Rightarrow> string \<Rightarrow> string" where
  "bindings pattern path name =
    (case map_of (map (\<lambda>(pat, seg). (butlast (tl pat), seg)) (filter (\<lambda>(pat, seg). wildcard pat) (zip (segments pattern) path))) name of
       None \<Rightarrow> [] | Some seg \<Rightarrow> seg)"

definition mux :: "api \<Rightarrow> gaps \<Rightarrow> (nat \<Rightarrow> server_db \<Rightarrow> server_db) \<Rightarrow> env \<Rightarrow> string list \<Rightarrow> http_request \<Rightarrow> server_db \<Rightarrow> http_reply \<times> server_db" where
  "mux S G bt E path r s =
    (case find (\<lambda>(verb, pattern, h). method_matches verb (rq_Method r) \<and> path_matches pattern path) (routes S G) of
       Some (verb, pattern, h) \<Rightarrow> h S bt E (r\<lparr>rq_PathValue := bindings pattern path\<rparr>) s
     | None \<Rightarrow>
         (if list_ex (\<lambda>(verb, pattern, h). path_matches pattern path) (routes S G) then writeJSON 405 NoBody else writeJSON 404 NoBody, s))"

section \<open>One row for a request\<close>

definition row_matches :: "string \<times> string \<Rightarrow> string \<Rightarrow> string list \<Rightarrow> bool" where
  "row_matches row verb path \<longleftrightarrow> method_matches (fst row) verb \<and> path_matches (snd row) path"

definition overlap :: "string \<times> string \<Rightarrow> string \<times> string \<Rightarrow> bool" where
  "overlap a b \<longleftrightarrow> fst a = fst b \<and> list_all2 (\<lambda>p q. wildcard p \<or> wildcard q \<or> p = q) (segments (snd a)) (segments (snd b))"

definition row_of :: "route \<Rightarrow> string \<times> string" where
  "row_of = (\<lambda>(verb, pattern, h). (verb, pattern))"

lemma both_match_overlap:
  assumes "row_matches a verb path" "row_matches b verb path" "fst a \<noteq> ''HEAD''" "fst b \<noteq> ''HEAD''"
  shows "overlap a b"
proof -
  have "list_all2 (\<lambda>p q. wildcard p \<or> wildcard q \<or> p = q) (segments (snd a)) (segments (snd b))"
    using assms(1,2) unfolding row_matches_def path_matches_def segment_matches_def list_all2_conv_all_nth by metis
  then show ?thesis
    using assms by (auto simp: overlap_def row_matches_def method_matches_def)
qed

lemma overlap_sym: "overlap a b \<Longrightarrow> overlap b a"
  by (auto simp: overlap_def list_all2_conv_all_nth)

definition health_rows :: "(string \<times> string) list" where
  "health_rows = [(''GET'', ''/health/live''), (''GET'', ''/health/ready'')]"

definition metrics_rows :: "(string \<times> string) list" where
  "metrics_rows = [(''GET'', ''/metrics'')]"

definition version_rows :: "(string \<times> string) list" where
  "version_rows = [(''GET'', ''/health/version'')]"

definition execution_rows :: "(string \<times> string) list" where
  "execution_rows = map row_of (execution_routes undefined undefined)"

definition task_rows :: "(string \<times> string) list" where
  "task_rows = map row_of (task_routes undefined)"

definition scm_rows :: "(string \<times> string) list" where
  "scm_rows = map row_of (scm_routes undefined)"

definition approval_rows :: "(string \<times> string) list" where
  "approval_rows = map row_of (approval_routes undefined)"

definition repair_rows :: "(string \<times> string) list" where
  "repair_rows = map row_of (repair_routes undefined undefined)"

definition automation_rows :: "(string \<times> string) list" where
  "automation_rows = map row_of (automation_routes undefined)"

lemma group_rows:
  "map row_of (execution_routes G X) = execution_rows" "map row_of (task_routes G) = task_rows"
  "map row_of (scm_routes G) = scm_rows" "map row_of (approval_routes A) = approval_rows"
  "map row_of (repair_routes W G) = repair_rows" "map row_of (automation_routes AW) = automation_rows"
  by (simp_all add: execution_rows_def task_rows_def execution_routes_def task_routes_def scm_rows_def approval_rows_def repair_rows_def automation_rows_def
      scm_routes_def approval_routes_def repair_routes_def automation_routes_def row_of_def)

definition table_rows :: "(string \<times> string) list list" where
  "table_rows = [health_rows, metrics_rows, version_rows, map row_of auth_routes, scm_rows, execution_rows, task_rows, approval_rows, repair_rows, automation_rows]"

lemma table_unambiguous: "sorted_wrt (\<lambda>a b. \<not> overlap a b) (concat table_rows) \<and> list_all (\<lambda>a. fst a \<noteq> ''HEAD'') (concat table_rows)"
  by (simp only: table_rows_def health_rows_def metrics_rows_def version_rows_def execution_rows_def task_rows_def execution_routes_def scm_rows_def approval_rows_def repair_rows_def automation_rows_def auth_routes_def scm_routes_def
     task_routes_def approval_routes_def repair_routes_def automation_routes_def row_of_def list.map prod.case concat.simps append.simps) code_simp

definition select_rows :: "bool list \<Rightarrow> (string \<times> string) list list \<Rightarrow> (string \<times> string) list" where
  "select_rows cs xss = concat (map (\<lambda>(c, xs). if c then xs else []) (zip cs xss))"

lemma set_select_rows: "set (select_rows cs xss) \<subseteq> set (concat xss)"
  by (auto simp: select_rows_def dest: set_zip_rightD split: if_splits)

lemma sorted_wrt_select: "sorted_wrt P (concat xss) \<Longrightarrow> sorted_wrt P (select_rows cs xss)"
proof (induction xss arbitrary: cs)
  case (Cons xs xss)
  show ?case
  proof (cases cs)
    case (Cons c cs')
    have "sorted_wrt P (select_rows cs' xss)" "sorted_wrt P xs" "\<forall>x \<in> set xs. \<forall>y \<in> set (select_rows cs' xss). P x y"
      using Cons.prems Cons.IH set_select_rows [of cs' xss] by (auto simp: sorted_wrt_append)
    then show ?thesis using Cons by (auto simp: select_rows_def sorted_wrt_append)
  qed (simp add: select_rows_def)
qed (simp add: select_rows_def)

lemma rows_of_routes:
  "map row_of (routes S G) = select_rows [True, gp_metrics G \<noteq> None, True, api_auth S, api_auth S \<and> api_scm S, api_execution S \<noteq> None \<and> api_auth S, api_auth S \<and> api_tasks S,
     api_approvals S \<noteq> None \<and> api_auth S, sv_repair S \<noteq> None \<and> api_auth S, sv_automations S \<noteq> None \<and> api_auth S] table_rows"
proof -
  have "map row_of (health_routes G) = health_rows @ (if gp_metrics G \<noteq> None then metrics_rows else []) @ version_rows"
    by (cases "gp_metrics G") (auto simp: row_of_def health_rows_def metrics_rows_def version_rows_def health_routes_def)
  then show ?thesis
    unfolding routes_def select_rows_def table_rows_def map_append
    by (cases "api_approvals S"; cases "sv_repair S"; cases "sv_automations S"; cases "api_execution S") (simp_all add: group_rows)
qed

text \<open>
  A request has at most one handler: whatever services are enabled, no method and path match two rows of the route table, so the order of registration
  does not matter and no handler shadows another. (\<open>http.ServeMux\<close> would refuse to register two such patterns.)
\<close>

theorem routes_unambiguous:
  assumes "i < length (routes S G)" "j < length (routes S G)"
    and "row_matches (row_of (routes S G ! i)) verb path" "row_matches (row_of (routes S G ! j)) verb path"
  shows "i = j"
proof -
  let ?rows = "map row_of (routes S G)"
  have rows: "sorted_wrt (\<lambda>a b. \<not> overlap a b) ?rows" "set ?rows \<subseteq> set (concat table_rows)"
    unfolding rows_of_routes using table_unambiguous sorted_wrt_select set_select_rows by blast+
  have "fst (?rows ! k) \<noteq> ''HEAD''" if "k < length ?rows" for k
    using table_unambiguous rows(2) nth_mem [OF that] by (auto simp: list_all_iff)
  then have "overlap (?rows ! i) (?rows ! j)"
    using assms both_match_overlap [of "?rows ! i" verb path "?rows ! j"] by simp
  moreover have "\<not> overlap (?rows ! k) (?rows ! l)" if "k < l" "l < length ?rows" for k l
    using sorted_wrt_nth_less [OF rows(1) that] .
  ultimately show ?thesis
    using assms(1,2) overlap_sym by (metis length_map linorder_neqE_nat)
qed

section \<open>Sessions and CSRF tokens\<close>

lemma routes_all:
  assumes "list_all Q (health_routes G)"
    and "list_all Q auth_routes" "list_all Q (scm_routes G)" "\<And>A. list_all Q (execution_routes G A)" "list_all Q (task_routes G)"
    and "\<And>A. list_all Q (approval_routes A)" "\<And>W. list_all Q (repair_routes W G)" "\<And>AW. list_all Q (automation_routes AW)"
  shows "list_all Q (routes S G)"
  using assms by (auto simp: routes_def split: option.splits)

lemma listed_route: "list_all Q rows \<Longrightarrow> (verb, pattern, h) \<in> set rows \<Longrightarrow> Q (verb, pattern, h)"
  by (simp add: list_all_iff)

lemma call_nested [simp]: "call (call E 0) 0 = call E 0"
  by (simp add: call_def)

lemma requireSession_Inl: "requireSession S E r s = Inl rp \<Longrightarrow> rp = writeError 401 ''authentication_required''"
  by (auto simp: requireSession_def split: option.splits sum.splits)

lemmas group_defs = auth_routes_def scm_routes_def execution_routes_def task_routes_def approval_routes_def repair_routes_def automation_routes_def
lemmas guard_defs = requireTaskMutator_def requireApprovalMutation_def requireApprovalDecision_def requireRepairMutator_def requireAutomationAdmin_def
  requireExecutionOperator_def
lemmas read_defs = executionEvents_def executionResult_def runEvents_def me_def users_handler_def scmProviders_def scmConnections_def repositories_handler_def repository_handler_def listTasks_def getTask_def
  listTaskRuns_def listRuns_handler_def getRun_handler_def auditEvents_def listApprovals_def getApproval_def listRepairs_def getRepair_def
  automationOverview_def listAutomations_def getAutomation_def automationVersions_def automationRuns_def

text \<open>A guard that refuses a request ends the handler behind it: its reply is the guard's, and nothing else happens.\<close>

lemma task_refused:
  assumes "requireTaskMutator S (call E 0) r s = Inl rp"
  shows "createTask S bt E r s = (rp, s)" "cancelTask S bt E r s = (rp, s)" "retryTask S bt E r s = (rp, s)"
  using assms by (simp_all add: createTask_def cancelTask_def retryTask_def)

lemma approval_refused:
  assumes "requireApprovalMutation S (call E 0) r s = Inl rp"
  shows "createApproval A S bt E r s = (rp, s)" "consumeApproval A S bt E r s = (rp, s)" "cancelApproval A S bt E r s = (rp, s)"
  using assms by (simp_all add: createApproval_def consumeApproval_def cancelApproval_def)

lemma decision_refused: "requireApprovalDecision S (call E 0) r s = Inl rp \<Longrightarrow> decideApproval A S bt E r s = (rp, s)"
  by (simp add: decideApproval_def)

lemma repair_refused:
  assumes "requireRepairMutator S (call E 0) r s = Inl rp"
  shows "createRepair W bc S bt E r s = (rp, s)" "createRepairFromDiagnosis W bc S bt E r s = (rp, s)" "consumeRepairApproval W bc phase S bt E r s = (rp, s)"
  using assms by (simp_all add: createRepair_def createRepairFromDiagnosis_def consumeRepairApproval_def)

lemma automation_refused:
  assumes "requireAutomationAdmin S bt (call E 0) r True s = (Inl rp, s1)"
  shows "createAutomation AW S bt E r s = (rp, s1)" "updateAutomation AW S bt E r s = (rp, s1)" "deleteAutomation AW S bt E r s = (rp, s1)"
    "publishAutomation AW S bt E r s = (rp, s1)" "setAutomationEnabled AW enabled S bt E r s = (rp, s1)" "triggerAutomation AW S bt E r s = (rp, s1)"
  using assms by (simp_all add: createAutomation_def updateAutomation_def deleteAutomation_def publishAutomation_def setAutomationEnabled_def triggerAutomation_def)

lemma execution_refused:
  assumes "requireExecutionOperator S (call E 0) r True s = Inl rp"
  shows "startExecution A S E r s dl = (rp, dl)" "cancelExecution A S E r s = rp"
  using assms by (simp_all add: startExecution_def cancelExecution_def)

lemmas handler_refused = task_refused approval_refused decision_refused repair_refused automation_refused execution_refused

definition open_patterns :: "string list" where
  "open_patterns = [''/health/live'', ''/health/ready'', ''/metrics'', ''/health/version'', ''/api/v1/auth/bootstrap'', ''/api/v1/auth/login'',
     ''/api/v1/auth/oidc/start'', ''/api/v1/auth/oidc/callback'', ''/api/v1/scm/{provider}/callback'', ''/webhooks/github'', ''/webhooks/gitlab'']"

text \<open>
  C8. Every endpoint but the eleven open ones (health and metrics, login and bootstrap, the OIDC and source-control callbacks, the webhooks) needs a session: a request
  whose cookie is missing, unknown or expired, or whose user is inactive, is answered 401 by every other handler of the table, and the database is left as it was.
\<close>

theorem protected_needs_session:
  assumes "(verb, pattern, h) \<in> set (routes S G)" "pattern \<notin> set open_patterns" "requireSession S (call E 0) r s = Inl rp"
  shows "h S bt E r s = (writeError 401 ''authentication_required'', s)"
proof -
  note refused = assms(3) [unfolded requireSession_Inl [OF assms(3)]]
  have guards: "requireTaskMutator S (call E 0) r s = Inl (writeError 401 ''authentication_required'')"
    "requireApprovalMutation S (call E 0) r s = Inl (writeError 401 ''authentication_required'')"
    "requireApprovalDecision S (call E 0) r s = Inl (writeError 401 ''authentication_required'')"
    "requireRepairMutator S (call E 0) r s = Inl (writeError 401 ''authentication_required'')"
    "requireAutomationAdmin S bt (call E 0) r mutation s = (Inl (writeError 401 ''authentication_required''), s)"
    "requireExecutionOperator S (call E 0) r mutation s = Inl (writeError 401 ''authentication_required'')" for mutation
    by (simp_all add: guard_defs refused)
  let ?Q = "\<lambda>(verb, pattern, h). pattern \<notin> set open_patterns \<longrightarrow> h S bt E r s = (writeError 401 ''authentication_required'', s)"
  have "list_all ?Q (routes S G)"
  proof (rule routes_all)
    show "list_all ?Q (health_routes G)" by (simp add: health_routes_def open_patterns_def split: option.splits)
  qed (simp_all add: group_defs open_patterns_def guards handler_refused read_defs logout_def scmSync_def scmConnect_def refused)
  from listed_route [OF this assms(1)] assms(2) show ?thesis unfolding prod.case by blast
qed

lemma forged_guards:
  assumes "\<forall>session token. requireSession S (call E 0) r s = Inr (session, token) \<longrightarrow> \<not> csrf_ok S session r"
  shows "\<exists>rp. requireTaskMutator S (call E 0) r s = Inl rp \<and> rp_Status rp \<in> {401, 403}"
    "\<exists>rp. requireApprovalMutation S (call E 0) r s = Inl rp \<and> rp_Status rp \<in> {401, 403}"
    "\<exists>rp. requireApprovalDecision S (call E 0) r s = Inl rp \<and> rp_Status rp \<in> {401, 403}"
    "\<exists>rp. requireRepairMutator S (call E 0) r s = Inl rp \<and> rp_Status rp \<in> {401, 403}"
    "\<exists>rp. requireAutomationAdmin S bt (call E 0) r True s = (Inl rp, s) \<and> rp_Status rp \<in> {401, 403}"
    "\<exists>rp. requireExecutionOperator S (call E 0) r True s = Inl rp \<and> rp_Status rp \<in> {401, 403}"
    "\<exists>rp. logout S bt E r s = (rp, s) \<and> rp_Status rp \<in> {401, 403}" "\<exists>rp. scmSync bs S bt E r s = (rp, s) \<and> rp_Status rp \<in> {401, 403}"
proof -
  have session: "(\<exists>rp. requireSession S (call E 0) r s = Inl rp \<and> rp_Status rp = 401) \<or>
      (\<exists>session token. requireSession S (call E 0) r s = Inr (session, token) \<and> \<not> csrf_ok S session r)"
  proof (cases "requireSession S (call E 0) r s")
    case (Inl rp)
    with requireSession_Inl [OF Inl] show ?thesis by (simp add: writeError_def writeJSON_def)
  next
    case (Inr a)
    with assms show ?thesis by (cases a) auto
  qed
  have status: "rp_Status (writeError 403 code) = 403" for code by (simp add: writeError_def writeJSON_def)
  show "\<exists>rp. requireTaskMutator S (call E 0) r s = Inl rp \<and> rp_Status rp \<in> {401, 403}"
    "\<exists>rp. requireApprovalMutation S (call E 0) r s = Inl rp \<and> rp_Status rp \<in> {401, 403}"
    "\<exists>rp. requireApprovalDecision S (call E 0) r s = Inl rp \<and> rp_Status rp \<in> {401, 403}"
    "\<exists>rp. requireRepairMutator S (call E 0) r s = Inl rp \<and> rp_Status rp \<in> {401, 403}"
    "\<exists>rp. requireAutomationAdmin S bt (call E 0) r True s = (Inl rp, s) \<and> rp_Status rp \<in> {401, 403}"
    "\<exists>rp. requireExecutionOperator S (call E 0) r True s = Inl rp \<and> rp_Status rp \<in> {401, 403}"
    "\<exists>rp. logout S bt E r s = (rp, s) \<and> rp_Status rp \<in> {401, 403}" "\<exists>rp. scmSync bs S bt E r s = (rp, s) \<and> rp_Status rp \<in> {401, 403}"
    using session by (auto simp: guard_defs logout_def scmSync_def status)
qed

text \<open>
  C9. No cross-site request changes anything: an endpoint with a method other than \<open>GET\<close>, apart from login, bootstrap and the webhooks, refuses a request whose
  \<open>X-CSRF-Token\<close> header does not hash to the token of its session (401 without a session, 403 with one), before it touches the database.
\<close>

theorem mutations_need_csrf:
  assumes "(verb, pattern, h) \<in> set (routes S G)" "verb \<noteq> ''GET''"
    and "pattern \<notin> {''/api/v1/auth/bootstrap'', ''/api/v1/auth/login'', ''/webhooks/github'', ''/webhooks/gitlab''}"
    and "\<And>session token. requireSession S (call E 0) r s = Inr (session, token) \<Longrightarrow> \<not> csrf_ok S session r"
  shows "rp_Status (fst (h S bt E r s)) \<in> {401, 403} \<and> snd (h S bt E r s) = s"
proof -
  let ?Q = "\<lambda>(verb, pattern, h). verb \<noteq> ''GET'' \<longrightarrow>
      pattern \<notin> {''/api/v1/auth/bootstrap'', ''/api/v1/auth/login'', ''/webhooks/github'', ''/webhooks/gitlab''} \<longrightarrow>
      rp_Status (fst (h S bt E r s)) \<in> {401, 403} \<and> snd (h S bt E r s) = s"
  have forged: "\<forall>session token. requireSession S (call E 0) r s = Inr (session, token) \<longrightarrow> \<not> csrf_ok S session r" using assms(4) by blast
  have "list_all ?Q (routes S G)"
  proof (rule routes_all)
    show "list_all ?Q (health_routes G)" by (simp add: health_routes_def split: option.splits)
    show "list_all ?Q auth_routes" using forged_guards(7) [OF forged, where bt = bt] by (auto simp: auth_routes_def)
    show "list_all ?Q (scm_routes G)" using forged_guards(8) [OF forged, where bt = bt and bs = "gp_scm G"] by (auto simp: scm_routes_def)
    show "list_all ?Q (execution_routes G A)" for A
      using forged_guards(6) [OF forged] by (auto simp: execution_routes_def execution_refused)
    show "list_all ?Q (task_routes G)" using forged_guards(1) [OF forged] by (auto simp: task_routes_def task_refused)
    show "list_all ?Q (approval_routes A)" for A
      using forged_guards(2,3) [OF forged] by (auto simp: approval_routes_def approval_refused decision_refused)
    show "list_all ?Q (repair_routes W G)" for W using forged_guards(4) [OF forged] by (auto simp: repair_routes_def repair_refused)
    show "list_all ?Q (automation_routes AW)" for AW
      using forged_guards(5) [OF forged, where bt = bt] by (auto simp: automation_routes_def automation_refused)
  qed
  from listed_route [OF this assms(1)] assms(2,3) show ?thesis unfolding prod.case by blast
qed

text \<open>What the environment keeps: a property that no other process disturbs, and one that does not look at the audit log.\<close>

definition undisturbed :: "(nat \<Rightarrow> server_db \<Rightarrow> server_db) \<Rightarrow> (server_db \<Rightarrow> bool) \<Rightarrow> bool" where
  "undisturbed bt P \<longleftrightarrow> (\<forall>n s. P s \<longrightarrow> P (bt n s))"

definition audit_blind :: "(server_db \<Rightarrow> bool) \<Rightarrow> bool" where
  "audit_blind P \<longleftrightarrow> (\<forall>s a. P s \<longrightarrow> P (s\<lparr>srv_core := (srv_core s)\<lparr>audit_events := a\<rparr>\<rparr>))"

lemma undisturbedD [simp]: "undisturbed bt P \<Longrightarrow> P s \<Longrightarrow> P (bt n s)"
  by (simp add: undisturbed_def)

lemma overview_loop_keeps: "undisturbed bt P \<Longrightarrow> P s \<Longrightarrow> P (snd (overview_loop bt E k items agents budget active s))"
proof (induction bt E k items agents budget active s rule: overview_loop.induct)
  case (2 bt E k item rest agents budget active s)
  then show ?case by (cases "Automations.Runs (call E k) (tpl_ID item) 200 (automation_view (bt k s))") (auto simp: Let_def)
qed simp

lemma identity_reads:
  assumes "undisturbed bt P" "P s"
  shows "P (snd (me S bt E r s))" "P (snd (users_handler S bt E r s))"
  using assms by (auto simp: me_def users_handler_def split: sum.splits)

lemma scm_reads:
  assumes "undisturbed bt P" "P s"
  shows "P (snd (scmProviders S bt E r s))" "P (snd (scmConnections S bt E r s))" "P (snd (repositories_handler S bt E r s))"
    "P (snd (repository_handler S bt E r s))"
  using assms by (auto simp: scmProviders_def scmConnections_def repositories_handler_def repository_handler_def split: sum.splits)

lemma task_reads:
  assumes "undisturbed bt P" "P s"
  shows "P (snd (listTasks S bt E r s))" "P (snd (getTask S bt E r s))" "P (snd (listTaskRuns S bt E r s))" "P (snd (listRuns_handler S bt E r s))"
    "P (snd (getRun_handler S bt E r s))" "P (snd (auditEvents S bt E r s))"
  using assms by (auto simp: listTasks_def getTask_def listTaskRuns_def listRuns_handler_def getRun_handler_def auditEvents_def Let_def split: sum.splits)

lemma gate_reads:
  assumes "undisturbed bt P" "P s"
  shows "P (snd (listApprovals S bt E r s))" "P (snd (getApproval S bt E r s))" "P (snd (listRepairs S bt E r s))" "P (snd (getRepair S bt E r s))"
  using assms by (auto simp: listApprovals_def getApproval_def listRepairs_def getRepair_def Let_def split: sum.splits)

lemma automationAdmin_keeps:
  assumes "undisturbed bt P" "P s"
  shows "P (snd (requireAutomationAdmin S bt E r mutation s))"
  using assms by (auto simp: requireAutomationAdmin_def split: sum.splits)

lemma overview_reads:
  assumes "undisturbed bt P" "P s"
  shows "P (snd (automationOverview S bt E r s))"
proof -
  obtain guard s1 where g: "requireAutomationAdmin S bt (call E 0) r False s = (guard, s1)" by fastforce
  then have s2: "P s1" "P (bt 2 s1)" using automationAdmin_keeps [OF assms, of S "call E 0" r False] assms(1) by auto
  show ?thesis
  proof (cases guard)
    case (Inl rp)
    with g s2 show ?thesis by (simp add: automationOverview_def)
  next
    case (Inr session)
    show ?thesis
    proof (cases "List_templates (call E 2) 200 (automation_view (bt 2 s1))")
      case (Inl e)
      with g Inr s2 show ?thesis by (simp add: automationOverview_def Let_def)
    next
      case items: (Inr items)
      have "P (snd (overview_loop bt E 3 items [] 0 0 (bt 2 s1)))" by (rule overview_loop_keeps [OF assms(1) s2(2)])
      with g Inr items show ?thesis by (auto simp: automationOverview_def Let_def split: prod.splits sum.splits)
    qed
  qed
qed

lemma automation_reads:
  assumes "undisturbed bt P" "P s"
  shows "P (snd (listAutomations S bt E r s))" "P (snd (getAutomation S bt E r s))" "P (snd (automationVersions S bt E r s))"
    "P (snd (automationRuns S bt E r s))"
  using assms by (auto simp: listAutomations_def getAutomation_def automationVersions_def automationRuns_def Let_def split: sum.splits)

lemmas reads_keep = identity_reads scm_reads task_reads gate_reads overview_reads automation_reads

text \<open>
  Reading changes nothing: the \<open>GET\<close> endpoints, apart from the four that take part in an OIDC or source-control login, do nothing to the database. What the
  requests of others keep between their queries, whatever it is, they keep.
\<close>

theorem reads_change_nothing:
  assumes "(''GET'', pattern, h) \<in> set (routes S G)" "undisturbed bt P" "P s"
    and "pattern \<notin> {''/api/v1/auth/oidc/start'', ''/api/v1/auth/oidc/callback'', ''/api/v1/scm/{provider}/connect'', ''/api/v1/scm/{provider}/callback''}"
  shows "P (snd (h S bt E r s))"
proof -
  let ?Q = "\<lambda>(verb, pattern, h). verb = ''GET'' \<longrightarrow>
    pattern \<notin> {''/api/v1/auth/oidc/start'', ''/api/v1/auth/oidc/callback'', ''/api/v1/scm/{provider}/connect'', ''/api/v1/scm/{provider}/callback''} \<longrightarrow>
    P (snd (h S bt E r s))"
  have "list_all ?Q (routes S G)"
  proof (rule routes_all)
    show "list_all ?Q (health_routes G)"
      using assms(3) by (simp add: health_routes_def live_def ready_def version_def metrics_handler_def split: option.splits prod.splits)
  qed (simp_all add: group_defs reads_keep [OF assms(2,3)] assms(3))
  from listed_route [OF this assms(1)] assms(4) show ?thesis unfolding prod.case by blast
qed

lemma audit_only: "X\<lparr>audit_events := []\<rparr> = Y\<lparr>audit_events := []\<rparr> \<Longrightarrow> X = Y\<lparr>audit_events := audit_events X\<rparr>" for X Y :: "'z tasks_db_scheme"
  by (cases X, cases Y) simp

lemma decide_by_auditor:
  assumes "\<not> isPrivileged (user_Role (di_Actor input))"
  shows "\<exists>a. snd (Decide A E input db) = db\<lparr>audit_events := a\<rparr>"
proof -
  have log: "\<exists>a. record_event A E' u v w x m db = db\<lparr>audit_events := a\<rparr>" for E' u v w x m
    using audit_only [OF record_event_rest] by blast
  have same: "\<exists>a. db = db\<lparr>audit_events := a\<rparr>" by (rule exI [of _ "audit_events db"]) simp
  show ?thesis
  proof (cases "(di_Decision input = StateApproved \<or> di_Decision input = StateRejected) \<and> validateIdempotencyKey (di_IdempotencyKey input) = None \<and>
      \<not> isl (Approvals.store_Get (call E 0) (TrimSpace (di_ApprovalID input)) db)")
    case True
    then obtain request where "Approvals.store_Get (call E 0) (TrimSpace (di_ApprovalID input)) db = Inr request"
      by (metis sum.collapse(2))
    with True assms have "\<exists>E' u v w x m. snd (Decide A E input db) = record_event A E' u v w x m db"
      by (simp add: Decide_def Let_def canDecide_def) blast
    with log show ?thesis by metis
  next
    case False
    then have "snd (Decide A E input db) = db"
      by (auto simp: Decide_def Let_def isl_def split: option.splits)
    with same show ?thesis by simp
  qed
qed

text \<open>
  C14. Auditors only look: whatever request a user with the role auditor sends to any endpoint that needs a session, logging out excepted, nothing in the
  database changes but the audit log, which gets an entry when the auditor tries to decide an approval.
\<close>

theorem auditor_reads_only:
  assumes "(verb, pattern, h) \<in> set (routes S G)" "pattern \<notin> set open_patterns" "pattern \<noteq> ''/api/v1/auth/logout''"
    and "requireSession S (call E 0) r s = Inr (session, token)" "user_Role (ses_User session) = RoleAuditor"
    and "undisturbed bt P" "audit_blind P" "P s"
  shows "P (snd (h S bt E r s))"
proof -
  note found = assms(4,5)
  have guards: "requireTaskMutator S (call E 0) r s = Inl (writeError 403 ''forbidden'')" "requireApprovalMutation S (call E 0) r s = Inl (writeError 403 ''forbidden'')"
    "requireRepairMutator S (call E 0) r s = Inl (writeError 403 ''forbidden'')" "requireExecutionOperator S (call E 0) r True s = Inl (writeError 403 ''forbidden'')"
    "requireAutomationAdmin S bt (call E 0) r True s = (Inl (writeError 403 ''forbidden''), s)"
    by (simp_all add: guard_defs found)
  have decide: "P (snd (decideApproval A S bt E r s))" for A
  proof (cases "csrf_ok S session r \<and> \<not> isl (decodeJSON (js_decision (api_json S)) r)")
    case True
    then obtain input where input: "decodeJSON (js_decision (api_json S)) r = Inr input" by (auto simp: isl_def) (metis sum.exhaust)
    let ?in = "\<lparr>di_ApprovalID = rq_PathValue r ''id'', di_Actor = ses_User session, di_Decision = dar_Decision input,
                  di_Reason = dar_Reason input, di_IdempotencyKey = dar_IdempotencyKey input, di_Now = clock E\<rparr>"
    have "\<not> isPrivileged (user_Role (di_Actor ?in))" using found by (simp add: isPrivileged_def)
    then obtain a where "snd (Decide A (call E 1) ?in (srv_core (bt 1 s))) = (srv_core (bt 1 s))\<lparr>audit_events := a\<rparr>"
      using decide_by_auditor by blast
    moreover have "P ((bt 1 s)\<lparr>srv_core := (srv_core (bt 1 s))\<lparr>audit_events := a\<rparr>\<rparr>)"
      using assms(6-8) by (simp add: audit_blind_def)
    moreover have "snd (decideApproval A S bt E r s) = (bt 1 s)\<lparr>srv_core := snd (Decide A (call E 1) ?in (srv_core (bt 1 s)))\<rparr>"
      using True found(1) input by (auto simp: decideApproval_def requireApprovalDecision_def on_core_def split: prod.splits sum.splits)
    ultimately show ?thesis by simp
  next
    case False
    then show ?thesis
      using found assms(8) by (auto simp: decideApproval_def requireApprovalDecision_def isl_def split: sum.splits)
  qed
  have same: "s'\<lparr>srv_scm := srv_scm s'\<rparr> = s'" for s' :: server_db by simp
  have scm: "P (snd (scmConnect S bt E r s))" "P (snd (scmSync bs S bt E r s))" for bs
    using assms(6,8) found by (simp_all add: scmConnect_def scmSync_def on_scm_def BeginConnect_def Sync_def same)
  let ?Q = "\<lambda>(verb, pattern, h). pattern \<notin> set open_patterns \<longrightarrow> pattern \<noteq> ''/api/v1/auth/logout'' \<longrightarrow> P (snd (h S bt E r s))"
  have "list_all ?Q (routes S G)"
  proof (rule routes_all)
    show "list_all ?Q (health_routes G)" by (simp add: health_routes_def open_patterns_def split: option.splits)
    show "list_all ?Q (scm_routes G)" by (simp add: scm_routes_def open_patterns_def scm reads_keep [OF assms(6,8)])
    show "list_all ?Q (approval_routes A)" for A by (simp add: approval_routes_def decide reads_keep [OF assms(6,8)] guards handler_refused assms(8))
  qed (simp_all add: auth_routes_def execution_routes_def task_routes_def repair_routes_def automation_routes_def open_patterns_def reads_keep [OF assms(6,8)]
      guards handler_refused assms(8))
  from listed_route [OF this assms(1)] assms(2,3) show ?thesis unfolding prod.case by blast
qed

section \<open>Witnesses\<close>

definition sample_gaps :: gaps where
  "sample_gaps = \<lparr>gp_core = (\<lambda>_ c. c), gp_scm = (\<lambda>d. d), gp_partial = False, gp_deadlines = (\<lambda>_. None), gp_flusher = True, gp_polls = [],
     gp_metrics = Some (New_registry ''1.0'', ''scrape'')\<rparr>"

definition sample_api :: api where
  "sample_api = server.extend (sample_server\<lparr>sv_automations := Some sample_aw\<rparr>) (api.fields Auth.sample_crypto 100 None True True True (Some Approvals.sample_sv) None True ''1.0'' []
     \<lparr>js_credentials = (\<lambda>b. Some \<lparr>cr_Email = ''root@x'', cr_Password = b\<rparr>), js_createTask = (\<lambda>_. None), js_reason = Some,
      js_createApproval = (\<lambda>_. None), js_decision = (\<lambda>b. Some \<lparr>dar_Decision = StateApproved, dar_Reason = b, dar_IdempotencyKey = ''k''\<rparr>),
      js_consume = (\<lambda>_. None), js_createRepair = (\<lambda>_. None), js_taskId = Some, js_automation = (\<lambda>_. None), js_revision = (\<lambda>_. None),
      js_trigger = (\<lambda>_. None), js_execution = (\<lambda>_. None)\<rparr>
     (\<lambda>_. ''{}'') (\<lambda>_. ''{}'') (\<lambda>_. ''{}'') (\<lambda>_ _. None))"

text \<open>A site with one user of the given role, who has the session \<open>t\<close> with the CSRF token \<open>c\<close> until time 100.\<close>

definition sample_site :: "Role \<Rightarrow> server_db" where
  "sample_site role = sample_server_db\<lparr>srv_auth := \<lparr>users = [\<lparr>user_ID = ''u1'', user_Email = ''root@x'', user_DisplayName = ''root'', user_Role = role,
       user_AuthSource = ''local'', user_Active = True, user_CreatedAt = 1, row_Subject = None, row_PasswordHash = Some (map of_char ''correct horse''), row_UpdatedAt = 1\<rparr>],
     sessions = [\<lparr>srow_TokenHash = Auth.digest Auth.sample_crypto ''t'', srow_CSRFHash = Auth.digest Auth.sample_crypto ''c'', srow_UserID = ''u1'', srow_ExpiresAt = 100\<rparr>],
     oidc_flows = []\<rparr>\<rparr>"

definition sample_call :: "string \<Rightarrow> string option \<Rightarrow> string \<Rightarrow> http_request" where
  "sample_call verb cookie csrf = \<lparr>rq_Method = verb, rq_PathValue = (\<lambda>_. ''a1''), rq_Cookie = (\<lambda>n. if n = sessionCookie then cookie else None),
     rq_Header = (\<lambda>n. if n = ''X-CSRF-Token'' then csrf else []), rq_Query = (\<lambda>_. []), rq_Body = ''correct horse''\<rparr>"

lemma sample_api_simps [simp]:
  "api_auth sample_api" "api_scm sample_api" "api_tasks sample_api" "api_approvals sample_api = Some Approvals.sample_sv" "sv_repair sample_api = None"
  "sv_automations sample_api = Some sample_aw"
  by (simp_all add: sample_api_def sample_server_def server.defs api.defs)

lemma sample_table_row:
  "(''GET'', ''/api/v1/tasks/{id}'', getTask) \<in> set (routes sample_api sample_gaps)"
  "(''POST'', ''/api/v1/tasks/{id}/cancel'', cancelTask) \<in> set (routes sample_api sample_gaps)"
  "(''POST'', ''/api/v1/approvals/{id}/decision'', decideApproval Approvals.sample_sv) \<in> set (routes sample_api sample_gaps)"
  by (simp_all add: routes_def task_routes_def approval_routes_def)

lemma sample_session:
  "\<exists>session. requireSession sample_api (call (zero_env 50) 0) (sample_call verb (Some ''t'') csrf) (sample_site role) = Inr (session, ''t'') \<and>
     user_Role (ses_User session) = role \<and> ses_CSRFHash session = Auth.digest Auth.sample_crypto ''c''"
  by (simp add: requireSession_def sample_api_def sample_call_def sample_site_def Authenticate_def FindSession_def zero_env_def quiet_env_def call_def select_by_def
      api.defs server.defs User.truncate_def)

theorem routes_unambiguous_witness:
  "row_matches (row_of (routes sample_api sample_gaps ! 1)) ''HEAD'' [''health'', ''ready''] \<and>
   \<not> row_matches (row_of (routes sample_api sample_gaps ! 25)) ''HEAD'' [''health'', ''ready'']"
proof -
  have "25 < length (routes sample_api sample_gaps)"
    by (simp add: routes_def health_routes_def sample_gaps_def auth_routes_def scm_routes_def task_routes_def)
  moreover have "row_matches (row_of (routes sample_api sample_gaps ! 1)) ''HEAD'' [''health'', ''ready'']"
    unfolding routes_def health_routes_def row_of_def row_matches_def path_matches_def by simp code_simp
  ultimately show ?thesis
    using routes_unambiguous [of 1 sample_api sample_gaps 25 "''HEAD''" "[''health'', ''ready'']"] by auto
qed

theorem protected_needs_session_witness:
  "getTask sample_api (\<lambda>_ d. d) (zero_env 50) (sample_call ''GET'' None []) (sample_site RoleAdmin) =
    (writeError 401 ''authentication_required'', sample_site RoleAdmin)"
proof -
  have "requireSession sample_api (call (zero_env 50) 0) (sample_call ''GET'' None []) (sample_site RoleAdmin) = Inl (writeError 401 ''authentication_required'')"
    by (simp add: requireSession_def sample_call_def)
  from protected_needs_session [OF sample_table_row(1) _ this] show ?thesis by (simp add: open_patterns_def)
qed

theorem mutations_need_csrf_witness:
  "rp_Status (fst (cancelTask sample_api (\<lambda>_ d. d) (zero_env 50) (sample_call ''POST'' (Some ''t'') ''x'') (sample_site RoleAdmin))) \<in> {401, 403} \<and>
   snd (cancelTask sample_api (\<lambda>_ d. d) (zero_env 50) (sample_call ''POST'' (Some ''t'') ''x'') (sample_site RoleAdmin)) = sample_site RoleAdmin"
proof (rule mutations_need_csrf [OF sample_table_row(2)])
  fix session token
  assume "requireSession sample_api (call (zero_env 50) 0) (sample_call ''POST'' (Some ''t'') ''x'') (sample_site RoleAdmin) = Inr (session, token)"
  with sample_session [of "''POST''" "''x''" RoleAdmin] have "ses_CSRFHash session = Auth.digest Auth.sample_crypto ''c''" by auto
  moreover have "Auth.digest Auth.sample_crypto ''x'' \<noteq> Auth.digest Auth.sample_crypto ''c''" "length (Auth.digest Auth.sample_crypto ''x'') = length (Auth.digest Auth.sample_crypto ''c'')"
    by code_simp+
  ultimately show "\<not> csrf_ok sample_api session (sample_call ''POST'' (Some ''t'') ''x'')"
    by (simp add: csrf_ok_def sample_call_def sample_api_def VerifyCSRF_def Let_def subtleCompare_iff server.defs api.defs)
qed simp_all

theorem reads_change_nothing_witness:
  "snd (getTask sample_api (\<lambda>_ d. d) (zero_env 50) (sample_call ''GET'' (Some ''t'') []) (sample_site RoleAdmin)) = sample_site RoleAdmin"
  by (rule reads_change_nothing [OF sample_table_row(1), of _ "\<lambda>d. d = sample_site RoleAdmin"]) (simp_all add: undisturbed_def)

theorem auditor_reads_only_witness:
  "tasks (srv_core (snd (decideApproval Approvals.sample_sv sample_api (\<lambda>_ d. d) (zero_env 50) (sample_call ''POST'' (Some ''t'') ''c'') (sample_site RoleAuditor)))) =
   tasks (srv_core (sample_site RoleAuditor))"
proof -
  obtain session where "requireSession sample_api (call (zero_env 50) 0) (sample_call ''POST'' (Some ''t'') ''c'') (sample_site RoleAuditor) = Inr (session, ''t'')"
    "user_Role (ses_User session) = RoleAuditor"
    using sample_session by blast
  from auditor_reads_only [OF sample_table_row(3) _ _ this, of "\<lambda>_ d. d" "\<lambda>d. tasks (srv_core d) = tasks (srv_core (sample_site RoleAuditor))"]
  show ?thesis by (simp add: open_patterns_def undisturbed_def audit_blind_def)
qed

end
