(* ===== verification/HTTP_Safety.thy ===== *)
theory HTTP_Safety
  imports HTTP_Routes Repair_Safety
begin

text \<open>
  What the API server adds to the guarantees of the services behind it: a login opens exactly the session its cookies name, automations change only with the password of
  an administrator, and a request does nothing to tasks, approvals and repairs that the services' own operations could not do, so that what is
  proved of their histories holds of a served database.
\<close>

section \<open>Logging in\<close>

lemma createSession_tokens:
  "createSession C E ttl u db = (Inr (user, token, csrf), db') \<Longrightarrow> csrf \<noteq> []"
  by (auto simp: createSession_def split: option.splits prod.splits sum.splits dest: randomToken_nonempty)

lemma login_session:
  assumes "auth_inv db" "LoginLocal C E ttl email password db = (Inr (user, token, csrf), db1)" "clock E2 < clock E + ttl" "\<not> fails E2 0"
  shows "Authenticate C E2 token db1 = Inr \<lparr>ses_User = user, ses_ExpiresAt = clock E + ttl, ses_CSRFHash = Auth.digest C csrf\<rparr> \<and> csrf \<noteq> []"
proof -
  from assms(2) obtain u h where found: "FindLocalUser E (projr (normalizeEmail C email)) db = Inr (u, h)" "user_Active u"
    and cs: "createSession C E ttl u db = (Inr (user, token, csrf), db1)"
    by (auto simp: LoginLocal_def split: sum.splits prod.splits if_splits)
  note new = createSession_effect [OF cs]
  obtain row where row: "row \<in> set (users db)" "u = User.truncate row" using FindLocalUser_row [OF found(1)] by auto
  then have "select_by user_ID (user_ID u) (users db) = Some row"
    using select_by_unique [of user_ID "users db" row] assms(1) by (simp add: auth_inv_def users_wf_def User.truncate_def)
  moreover have "find (\<lambda>s. srow_TokenHash s = Auth.digest C token \<and> clock E2 < srow_ExpiresAt s) (sessions db1) =
      Some \<lparr>srow_TokenHash = Auth.digest C token, srow_CSRFHash = Auth.digest C csrf, srow_UserID = user_ID u, srow_ExpiresAt = clock E + ttl\<rparr>"
    using new assms(3) by (simp, subst find_append_new) (auto simp: image_iff)
  ultimately show ?thesis
    using new found(2) row(2) assms(4) createSession_tokens [OF cs] by (simp add: Authenticate_def FindSession_def)
qed

text \<open>
  C21. Login opens the session it announces: when \<open>login\<close> answers 200, the body and the two cookies carry the session token and the CSRF token, and until the lifetime
  is over a request with them passes \<open>requireSession\<close> as the user that logged in and passes the CSRF check; any other answer is 400 or 401 and sets no cookie.
\<close>

theorem login_opens_session:
  assumes "auth_inv (srv_auth s)" "login S bt E r s = (rp, s1)"
  shows "(if rp_Status rp = 200
     then \<exists>user token csrf. rp_Body rp = LoginBody user csrf \<and> map (\<lambda>c. (ck_Name c, ck_Value c)) (rp_Cookies rp) = [(sessionCookie, token), (csrfCookie, csrf)] \<and>
       (\<forall>E2 r2. rq_Cookie r2 sessionCookie = Some token \<longrightarrow> rq_Header r2 ''X-CSRF-Token'' = csrf \<longrightarrow> clock E2 < clock E + api_sessionTTL S \<longrightarrow> \<not> fails E2 0 \<longrightarrow>
          (\<exists>session. requireSession S E2 r2 s1 = Inr (session, token) \<and> ses_User session = user \<and> csrf_ok S session r2))
     else rp_Status rp \<in> {400, 401} \<and> rp_Cookies rp = [])"
proof (cases "decodeJSON (js_credentials (api_json S)) r")
  case (Inl e)
  with assms(2) show ?thesis by (auto simp: login_def decodeJSON_def writeError_def writeJSON_def split: option.splits)
next
  case (Inr request)
  obtain res db1 where run: "LoginLocal (api_crypto S) (call E 1) (api_sessionTTL S) (cr_Email request) (cr_Password request) (srv_auth s) = (res, db1)" by fastforce
  show ?thesis
  proof (cases res)
    case (Inl e)
    with assms(2) Inr run show ?thesis by (auto simp: login_def on_auth_def writeError_def writeJSON_def)
  next
    case ok: (Inr a)
    then obtain user token csrf where a: "res = Inr (user, token, csrf)" by (cases a) auto
    have rp: "rp = setSessionCookies S token csrf (writeJSON 200 (LoginBody user csrf))" "s1 = s\<lparr>srv_auth := db1\<rparr>"
      using assms(2) Inr run a by (auto simp: login_def on_auth_def)
    have "\<exists>session. requireSession S E2 r2 s1 = Inr (session, token) \<and> ses_User session = user \<and> csrf_ok S session r2"
      if "rq_Cookie r2 sessionCookie = Some token" "rq_Header r2 ''X-CSRF-Token'' = csrf" "clock E2 < clock E + api_sessionTTL S" "\<not> fails E2 0" for E2 and r2 :: http_request
      using that login_session [OF assms(1) run [unfolded a], of E2] rp(2)
      by (simp add: requireSession_def csrf_ok_def VerifyCSRF_def subtleCompare_iff)
    then show ?thesis by (simp add: rp(1) setSessionCookies_def writeJSON_def)
  qed
qed

section \<open>Automations\<close>

lemma call_outer [simp]: "call (call E 0) 1 = call E 1"
  by (simp add: call_def)

text \<open>
  C15. The automation API acts only under a password: every endpoint of it that creates, edits, publishes, enables, disables or deletes an automation, or triggers one by hand, refuses, with
  401 or 403 and without touching the database, a request that is not from an administrator's session whose \<open>X-Reauth-Password\<close> header is
  that administrator's password; an account of an OIDC provider has none, and is always refused. The webhook endpoint is not part of that API: a signed delivery starts the
  published templates that match it, without a session.
\<close>

theorem automation_needs_password:
  assumes "(verb, pattern, h) \<in> set (automation_routes AW)" "verb \<noteq> ''GET''"
    and "\<And>session token. requireSession S (call E 0) r s = Inr (session, token) \<Longrightarrow>
      user_Role (ses_User session) \<noteq> RoleAdmin \<or> user_AuthSource (ses_User session) \<noteq> ''local'' \<or>
      Reauthenticate (api_crypto S) (call E 1) (ses_User session) (rq_Header r ''X-Reauth-Password'') (srv_auth (bt 1 s)) \<noteq> Inr ()"
  shows "rp_Status (fst (h S bt E r s)) \<in> {401, 403} \<and> snd (h S bt E r s) \<in> {s, bt 1 s}"
proof -
  obtain guard s1 where g: "requireAutomationAdmin S bt (call E 0) r True s = (guard, s1)" by fastforce
  have "\<exists>rp. guard = Inl rp \<and> rp_Status rp \<in> {401, 403} \<and> s1 \<in> {s, bt 1 s}"
  proof (cases "requireSession S (call E 0) r s")
    case (Inl rp)
    with g show ?thesis by (auto simp: requireAutomationAdmin_def requireSession_Inl [OF Inl] writeError_def writeJSON_def)
  next
    case (Inr a)
    then obtain session token where found: "requireSession S (call E 0) r s = Inr (session, token)" by (cases a) auto
    have "Reauthenticate (api_crypto S) (call E 1) (ses_User session) (rq_Header r ''X-Reauth-Password'') (srv_auth (bt 1 s)) \<noteq> Inr ()"
      if "user_Role (ses_User session) = RoleAdmin"
      using assms(3) [OF found] that by (auto simp: Reauthenticate_def)
    with g found show ?thesis by (auto simp: requireAutomationAdmin_def writeError_def writeJSON_def split: if_splits simp del: One_nat_def)
  qed
  then obtain rp where "requireAutomationAdmin S bt (call E 0) r True s = (Inl rp, s1)" "rp_Status rp \<in> {401, 403}" "s1 \<in> {s, bt 1 s}"
    using g by blast
  then have "list_all (\<lambda>(verb, pattern, h). verb \<noteq> ''GET'' \<longrightarrow> rp_Status (fst (h S bt E r s)) \<in> {401, 403} \<and> snd (h S bt E r s) \<in> {s, bt 1 s}) (automation_routes AW)"
    by (simp add: automation_routes_def automation_refused)
  from listed_route [OF this assms(1)] assms(2) show ?thesis unfolding prod.case by blast
qed

section \<open>Requests refine the services\<close>

text \<open>The tasks, approvals and repairs of \<open>t\<close> come from those of \<open>s\<close> by operations of the services.\<close>

definition core_steps :: "world \<Rightarrow> server_db \<Rightarrow> server_db \<Rightarrow> bool" where
  "core_steps W s t \<longleftrightarrow> (repair_step W)\<^sup>*\<^sup>* (srv_core s) (srv_core t)"

lemma core_steps_refl [simp]: "core_steps W s s"
  by (simp add: core_steps_def)

lemma core_steps_trans: "core_steps W s t \<Longrightarrow> core_steps W t u \<Longrightarrow> core_steps W s u"
  by (auto simp: core_steps_def)

lemma core_steps_same: "core_steps W s t \<Longrightarrow> srv_core u = srv_core t \<Longrightarrow> core_steps W s u"
  by (simp add: core_steps_def)

lemma on_core_step:
  assumes "core_steps W s t" "on_core f t = (r, u)" "\<And>r d. f (srv_core t) = (r, d) \<Longrightarrow> repair_step W (srv_core t) d"
  shows "core_steps W s u"
  using assms by (auto simp: on_core_def core_steps_def split: prod.splits)

lemma other_tables:
  assumes "core_steps W s t"
  shows "on_auth f t = (ra, u) \<Longrightarrow> core_steps W s u" "on_scm g t = (rs, u) \<Longrightarrow> core_steps W s u" "core_steps W s (t\<lparr>srv_scm := d\<rparr>)"
  using assms by (auto simp: on_auth_def on_scm_def core_steps_def split: prod.splits)

lemma task_calls:
  assumes "core_steps W s t"
  shows "on_core (service_Create E ci) t = (r, u) \<Longrightarrow> core_steps W s u" "on_core (service_Cancel E i reason) t = (r, u) \<Longrightarrow> core_steps W s u"
    "on_core (service_Retry E i reason) t = (r, u) \<Longrightarrow> core_steps W s u"
  using assms by (auto simp: service_defs elim!: on_core_step intro: rs_approvals ap_task st_create st_cancel st_retry)

lemma audit_call [simp]: "core_steps W s t \<Longrightarrow> core_steps W s (recordTaskAudit S E r actor action kind i outcome detail t)"
  unfolding recordTaskAudit_def service_RecordAudit_def
  by (rule on_core_step [OF _ prod.collapse [symmetric]]) (auto intro: rs_approvals ap_task st_audit)

lemma approval_calls:
  assumes "core_steps W s t"
  shows "on_core (Approvals.Create A E ci) t = (r, u) \<Longrightarrow> core_steps W s u" "on_core (Decide A E di) t = (r, u) \<Longrightarrow> core_steps W s u"
    "on_core (Consume A E coi) t = (r, u) \<Longrightarrow> core_steps W s u" "on_core (Approvals.Cancel A E cai) t = (r, u) \<Longrightarrow> core_steps W s u"
  using assms by (auto elim!: on_core_step intro: rs_approvals approvals_step.intros)

lemma own_world: "W\<lparr>w_adapter := w_adapter W, w_provider := w_provider W\<rparr> = W" for W :: world
  by simp

lemma repair_service_steps:
  assumes "\<And>n d. (repair_step W)\<^sup>*\<^sup>* d (bc n d)"
  shows "CreateFromIssue W bc E issue actor db = (r, d) \<Longrightarrow> repair_step W db d"
    "CreateFromDiagnosis W bc E task actor db = (r', d) \<Longrightarrow> repair_step W db d"
    "ConsumeApproval W bc E i phase dg key actor db = (r'', d) \<Longrightarrow> repair_step W db d"
  by (simp_all add: assms rs_issue [of W bc "w_provider W" "w_adapter W" E issue actor db r d] rs_diagnosis [of W bc "w_provider W" "w_adapter W" E task actor db r' d]
    rs_consume [of W bc "w_provider W" "w_adapter W" E i phase dg key actor db r'' d])

lemma repair_calls:
  assumes "core_steps W s t" "\<And>n d. (repair_step W)\<^sup>*\<^sup>* d (bc n d)"
  shows "on_core (CreateFromIssue W bc E issue actor) t = (r, u) \<Longrightarrow> core_steps W s u"
    "on_core (CreateFromDiagnosis W bc E task actor) t = (r', u) \<Longrightarrow> core_steps W s u"
    "on_core (ConsumeApproval W bc E i phase dg key actor) t = (r'', u) \<Longrightarrow> core_steps W s u"
  using assms(1) by (auto elim!: on_core_step intro: repair_service_steps [OF assms(2)])

lemma core_steps_tables [simp]:
  "core_steps W s (t\<lparr>srv_auth := x\<rparr>) = core_steps W s t" "core_steps W s (t\<lparr>srv_scm := y\<rparr>) = core_steps W s t"
  by (simp_all add: core_steps_def)

lemma auth_requests:
  assumes "undisturbed bt (core_steps W s)"
  shows "core_steps W s (snd (bootstrap S bt E r s))" "core_steps W s (snd (login S bt E r s))" "core_steps W s (snd (logout S bt E r s))"
    "core_steps W s (snd (oidcStart S bt E r s))" "core_steps W s (snd (oidcCallback S bt E r s))"
proof -
  note split = sum.split prod.split option.split
  show "core_steps W s (snd (bootstrap S bt E r s))" by (simp add: bootstrap_def on_auth_def split: split) auto
  show "core_steps W s (snd (login S bt E r s))" by (simp add: login_def on_auth_def split: split) auto
  show "core_steps W s (snd (logout S bt E r s))" using assms by (simp add: logout_def on_auth_def split: split) auto
  show "core_steps W s (snd (oidcStart S bt E r s))" by (simp add: oidcStart_def on_auth_def split: split)
  show "core_steps W s (snd (oidcCallback S bt E r s))" using assms by (simp add: oidcCallback_def on_auth_def split: split) auto
qed

lemma scm_requests:
  assumes "undisturbed bt (core_steps W s)"
  shows "core_steps W s (snd (scmConnect S bt E r s))" "core_steps W s (snd (scmCallback bs S bt E r s))" "core_steps W s (snd (scmSync bs S bt E r s))"
proof -
  note split = sum.split prod.split option.split
  show "core_steps W s (snd (scmConnect S bt E r s))" using assms by (simp add: scmConnect_def on_scm_def split: split) auto
  show "core_steps W s (snd (scmCallback bs S bt E r s))" by (simp add: scmCallback_def split: split)
  show "core_steps W s (snd (scmSync bs S bt E r s))" using assms by (simp add: scmSync_def split: split)
qed

lemma task_requests:
  assumes "undisturbed bt (core_steps W s)"
  shows "core_steps W s (snd (createTask S bt E r s))" "core_steps W s (snd (cancelTask S bt E r s))" "core_steps W s (snd (retryTask S bt E r s))"
proof -
  have bt: "core_steps W s (bt 1 s)" using assms by simp
  note split = sum.split prod.split
  show "core_steps W s (snd (createTask S bt E r s))"
    using assms task_calls(1) [OF bt] by (simp add: createTask_def Let_def split: split)
  show "core_steps W s (snd (cancelTask S bt E r s))"
    using assms task_calls(2) [OF bt] by (simp add: cancelTask_def split: split)
  show "core_steps W s (snd (retryTask S bt E r s))"
    using assms task_calls(3) [OF bt] by (simp add: retryTask_def split: split)
qed

lemma approval_requests_step:
  assumes "undisturbed bt (core_steps W s)"
  shows "core_steps W s (snd (createApproval A S bt E r s))" "core_steps W s (snd (decideApproval A S bt E r s))"
    "core_steps W s (snd (consumeApproval A S bt E r s))" "core_steps W s (snd (cancelApproval A S bt E r s))"
proof -
  have bt: "core_steps W s (bt 1 s)" using assms by simp
  note split = sum.split prod.split
  show "core_steps W s (snd (createApproval A S bt E r s))"
    using approval_calls(1) [OF bt] by (simp add: createApproval_def split: split)
  show "core_steps W s (snd (decideApproval A S bt E r s))"
    using approval_calls(2) [OF bt] by (simp add: decideApproval_def split: split)
  show "core_steps W s (snd (consumeApproval A S bt E r s))"
    using approval_calls(3) [OF bt] by (simp add: consumeApproval_def split: split)
  show "core_steps W s (snd (cancelApproval A S bt E r s))"
    using approval_calls(4) [OF bt] by (simp add: cancelApproval_def split: split)
qed

lemma repair_requests:
  assumes "undisturbed bt (core_steps W s)" "\<And>n d. (repair_step W)\<^sup>*\<^sup>* d (bc n d)"
  shows "core_steps W s (snd (createRepair W bc S bt E r s))" "core_steps W s (snd (createRepairFromDiagnosis W bc S bt E r s))"
    "core_steps W s (snd (consumeRepairApproval W bc phase S bt E r s))"
proof -
  have bt: "core_steps W s (bt 1 s)" "core_steps W s (bt 2 (bt 1 s))" using assms(1) by simp_all
  note split = sum.split prod.split
  show "core_steps W s (snd (createRepair W bc S bt E r s))"
    using repair_calls(1) [OF bt(1) assms(2)] by (simp add: createRepair_def split: split)
  show "core_steps W s (snd (createRepairFromDiagnosis W bc S bt E r s))"
    using bt repair_calls(2) [OF bt(2) assms(2)] by (simp add: createRepairFromDiagnosis_def Let_def split: split)
  show "core_steps W s (snd (consumeRepairApproval W bc phase S bt E r s))"
    using repair_calls(3) [OF bt(1) assms(2)] by (simp add: consumeRepairApproval_def split: split)
qed

text \<open>
  C5. A served database is a history of the services: every endpoint of the API but the webhooks and the changes of automations
  moves tasks, approvals and repairs only by the operations of the task queue, the approval service and the repair service, in steps that other processes may come between; and so
  the invariant of the whole repair service survives any request.
\<close>

theorem requests_refine_services:
  assumes "(verb, pattern, h) \<in> set (routes S G)" "undisturbed bt (core_steps W s)" "\<And>n d. (repair_step W)\<^sup>*\<^sup>* d (gp_core G n d)"
    and "sv_repair S \<in> {None, Some W}" "verb = ''GET'' \<or> \<not> prefix ''/api/v1/automations'' pattern"
    and "pattern \<notin> {''/webhooks/github'', ''/webhooks/gitlab''}"
  shows "(repair_step W)\<^sup>*\<^sup>* (srv_core s) (srv_core (snd (h S bt E r s))) \<and>
    (json_ok W \<longrightarrow> repairs_inv W (srv_core s) \<longrightarrow> repairs_inv W (srv_core (snd (h S bt E r s))))"
proof -
  let ?Q = "\<lambda>(verb, pattern, h). pattern \<notin> {''/webhooks/github'', ''/webhooks/gitlab''} \<longrightarrow>
    verb = ''GET'' \<or> \<not> prefix ''/api/v1/automations'' pattern \<longrightarrow> core_steps W s (snd (h S bt E r s))"
  note reads = reads_keep [OF assms(2) core_steps_refl]
  have reps: "list_all ?Q (repair_routes W' G)" if "sv_repair S = Some W'" for W'
    using that assms(4) repair_requests [OF assms(2,3)] by (simp add: repair_routes_def reads)
  have autos: "list_all ?Q (automation_routes AW)" for AW
    by (auto simp: list_all_iff automation_routes_def reads)
  have "list_all ?Q (health_routes G)"
    by (simp add: health_routes_def live_def ready_def version_def metrics_handler_def split: option.split prod.split)
  moreover have "list_all ?Q auth_routes" by (simp add: auth_routes_def auth_requests [OF assms(2)] reads)
  moreover have "list_all ?Q (scm_routes G)" by (simp add: scm_routes_def scm_requests [OF assms(2)] reads)
  moreover have "list_all ?Q (execution_routes G A)" for A by (simp add: execution_routes_def)
  moreover have "list_all ?Q (task_routes G)" by (simp add: task_routes_def task_requests [OF assms(2)] reads)
  moreover have "list_all ?Q (approval_routes A)" for A by (simp add: approval_routes_def approval_requests_step [OF assms(2)] reads)
  ultimately have "list_all ?Q (routes S G)"
    using reps autos by (simp add: routes_def split: option.split)
  with assms(1,5,6) have run: "(repair_step W)\<^sup>*\<^sup>* (srv_core s) (srv_core (snd (h S bt E r s)))"
    by (auto simp: list_all_iff core_steps_def)
  moreover have "repairs_inv W d'" if "(repair_step W)\<^sup>*\<^sup>* d d'" "json_ok W" "repairs_inv W d" for d d'
    using that by (induction rule: rtranclp_induct) (auto dest: repair_service.step_inv)
  ultimately show ?thesis by blast
qed

section \<open>Witnesses\<close>

theorem login_opens_session_witness:
  "\<exists>rp s1 user token csrf session. login sample_api (\<lambda>_ d. d) (zero_env 10) (sample_call ''POST'' None []) (sample_site RoleAdmin) = (rp, s1) \<and>
     rp_Body rp = LoginBody user csrf \<and> requireSession sample_api (zero_env 50) (sample_call ''GET'' (Some token) csrf) s1 = Inr (session, token) \<and>
     ses_User session = user"
proof -
  let ?run = "login sample_api (\<lambda>_ d. d) (zero_env 10) (sample_call ''POST'' None []) (sample_site RoleAdmin)"
  have "auth_inv (srv_auth (sample_site RoleAdmin))"
    by (simp add: auth_inv_def users_wf_def sample_site_def)
  note opened = login_opens_session [OF this prod.collapse [symmetric], of sample_api "\<lambda>_ d. d" "zero_env 10" "sample_call ''POST'' None []"]
  have "rp_Status (fst ?run) = 200" by code_simp
  with opened obtain user token csrf where body: "rp_Body (fst ?run) = LoginBody user csrf"
    and session: "\<And>E2 r2. rq_Cookie r2 sessionCookie = Some token \<Longrightarrow> rq_Header r2 ''X-CSRF-Token'' = csrf \<Longrightarrow>
      clock E2 < clock (zero_env 10) + api_sessionTTL sample_api \<Longrightarrow> \<not> fails E2 0 \<Longrightarrow>
      \<exists>session. requireSession sample_api E2 r2 (snd ?run) = Inr (session, token) \<and> ses_User session = user \<and> csrf_ok sample_api session r2"
    by (metis (no_types, lifting))
  have "\<exists>session. requireSession sample_api (zero_env 50) (sample_call ''GET'' (Some token) csrf) (snd ?run) = Inr (session, token) \<and> ses_User session = user \<and>
      csrf_ok sample_api session (sample_call ''GET'' (Some token) csrf)"
    by (rule session) (simp_all add: sample_call_def zero_env_def sample_api_def server.defs api.defs)
  with body show ?thesis by (metis prod.collapse)
qed

theorem automation_needs_password_witness:
  "rp_Status (fst (publishAutomation sample_aw sample_api (\<lambda>_ d. d) (zero_env 50) (sample_call ''POST'' (Some ''t'') ''c'') (sample_site RoleAdmin))) \<in> {401, 403} \<and>
   snd (publishAutomation sample_aw sample_api (\<lambda>_ d. d) (zero_env 50) (sample_call ''POST'' (Some ''t'') ''c'') (sample_site RoleAdmin)) = sample_site RoleAdmin"
proof -
  have "(''POST'', ''/api/v1/automations/{id}/publish'', publishAutomation sample_aw) \<in> set (automation_routes sample_aw)"
    by (simp add: automation_routes_def)
  from automation_needs_password [OF this, of sample_api "zero_env 50" "sample_call ''POST'' (Some ''t'') ''c''" "sample_site RoleAdmin" "\<lambda>_ d. d"]
  show ?thesis by (simp add: sample_call_def Reauthenticate_def)
qed

theorem requests_refine_services_witness:
  "(repair_step Repair_Safety.sample_world)\<^sup>*\<^sup>* (srv_core (sample_site RoleAdmin))
     (srv_core (snd (cancelTask sample_api (\<lambda>_ d. d) (zero_env 50) (sample_call ''POST'' (Some ''t'') ''c'') (sample_site RoleAdmin))))"
proof -
  have "undisturbed (\<lambda>_ d. d) (core_steps Repair_Safety.sample_world (sample_site RoleAdmin))" by (simp add: undisturbed_def)
  from requests_refine_services [OF sample_table_row(2) this] show ?thesis by (simp add: sample_gaps_def)
qed

end
