(* ===== verification/Config.thy ===== *)
theory Config
  imports GitLab
begin

text \<open>
  The configuration of all the processes (\<open>src/server/internal/config/config.go\<close>): the variables of the environment, their defaults, and the checks a
  configuration passes before anything is started.

  \<^item> \<open>lookup\<close> is \<open>os.LookupEnv\<close>; \<open>parse_url\<close> is \<open>url.Parse\<close>, of which the checks use scheme and host; \<open>read_file\<close> is \<open>os.ReadFile\<close>.
  \<^item> Base64 (\<open>base64.StdEncoding\<close>), \<open>strconv\<close> and the 64-bit product of a duration are written out.
\<close>

section \<open>Values (config.go)\<close>

record Config =
  cfg_HTTPAddress :: string
  cfg_PublicURL :: string
  cfg_DatabaseURL :: string
  cfg_ShutdownTimeout :: duration
  cfg_WorkerPoll :: duration
  cfg_SessionTTL :: duration
  cfg_CookieSecure :: bool
  cfg_OIDCIssuer :: string
  cfg_OIDCClientID :: string
  cfg_OIDCClientSecret :: string
  cfg_FeatureM2SCM :: bool
  cfg_FeatureM3ACExecution :: bool
  cfg_FeatureM4Tasks :: bool
  cfg_FeatureM5CodeReview :: bool
  cfg_FeatureM6CIDiagnosis :: bool
  cfg_FeatureM7Approvals :: bool
  cfg_FeatureM8IssueRepair :: bool
  cfg_FeatureM9Automations :: bool
  cfg_FeatureM10Hardening :: bool
  cfg_FeatureGitLab :: bool
  cfg_ServiceVersion :: string
  cfg_MetricsToken :: string
  cfg_OTELExporterEndpoint :: string
  cfg_RetentionDays :: int
  cfg_RateLimitPerMinute :: int
  cfg_BackupDirectory :: string
  cfg_SCMMasterKey :: "8 word list"
  cfg_GitHubAppID :: int
  cfg_GitHubAppSlug :: string
  cfg_GitHubPrivateKey :: string
  cfg_GitHubPrivateKeyFile :: string
  cfg_GitHubWebhookSecret :: string
  cfg_GitHubAPIBaseURL :: string
  cfg_GitHubWebBaseURL :: string
  cfg_GitLabClientID :: string
  cfg_GitLabClientSecret :: string
  cfg_GitLabWebhookSecret :: string
  cfg_GitLabAPIBaseURL :: string
  cfg_GitLabWebBaseURL :: string
  cfg_ACBaseURL :: string
  cfg_ACProjectID :: string
  cfg_ACAgentName :: string
  cfg_ACAuthToken :: string
  cfg_ACRequiredVersion :: string
  cfg_ACRequiredDriver :: string
  cfg_ACRequestTimeout :: duration
  cfg_ACSensitivePatterns :: "string list"

definition on_success :: "'e + 'a \<Rightarrow> ('a \<Rightarrow> 'e + 'b) \<Rightarrow> 'e + 'b" where
  "on_success r f = (case r of Inl e \<Rightarrow> Inl e | Inr x \<Rightarrow> f x)"

definition valueOrDefault :: "(string \<rightharpoonup> string) \<Rightarrow> string \<Rightarrow> string \<Rightarrow> string" where
  "valueOrDefault lookup key fallback = (case lookup key of Some v \<Rightarrow> if v \<noteq> [] then v else fallback | None \<Rightarrow> fallback)"

definition ParseBool :: "string \<Rightarrow> bool option" where
  "ParseBool s =
    (if s \<in> set [''1'', ''t'', ''T'', ''TRUE'', ''true'', ''True''] then Some True
     else if s \<in> set [''0'', ''f'', ''F'', ''FALSE'', ''false'', ''False''] then Some False else None)"

definition boolOrDefault :: "(string \<rightharpoonup> string) \<Rightarrow> string \<Rightarrow> bool \<Rightarrow> string + bool" where
  "boolOrDefault lookup key fallback =
    (case valueOrDefault lookup key [] of [] \<Rightarrow> Inr fallback
     | v \<Rightarrow> (case ParseBool v of None \<Rightarrow> Inl (key @ '' must be true or false'') | Some b \<Rightarrow> Inr b))"

text \<open>\<open>intOrDefault\<close> and \<open>int64OrDefault\<close>: on the 64-bit platforms of the program \<open>Atoi\<close> and \<open>ParseInt\<close> accept the same numbers.\<close>

definition intOrDefault :: "(string \<rightharpoonup> string) \<Rightarrow> string \<Rightarrow> int \<Rightarrow> string + int" where
  "intOrDefault lookup key fallback =
    (case valueOrDefault lookup key [] of [] \<Rightarrow> Inr fallback
     | v \<Rightarrow> (case ParseInt v of
          None \<Rightarrow> Inl (key @ '' must be a positive integer'')
        | Some n \<Rightarrow> if n \<le> 0 then Inl (key @ '' must be a positive integer'') else Inr n))"

definition durationOrDefault :: "(string \<rightharpoonup> string) \<Rightarrow> string \<Rightarrow> duration \<Rightarrow> duration" where
  "durationOrDefault lookup key fallback =
    (case valueOrDefault lookup key [] of [] \<Rightarrow> fallback
     | v \<Rightarrow> (case ParseInt v of None \<Rightarrow> - 1 | Some n \<Rightarrow> seconds64 n))"

definition splitNonEmpty :: "string \<Rightarrow> string list" where
  "splitNonEmpty value0 = filter (\<lambda>item. item \<noteq> []) (map TrimSpace (Split value0 (CHR '','')))"

text \<open>\<open>DecodeString\<close> skips line breaks; the last four characters may end in padding.\<close>

definition base64_digit :: "char \<Rightarrow> nat option" where
  "base64_digit c =
    (let n = of_char c :: nat
     in if 65 \<le> n \<and> n \<le> 90 then Some (n - 65) else if 97 \<le> n \<and> n \<le> 122 then Some (n - 71)
        else if 48 \<le> n \<and> n \<le> 57 then Some (n + 4) else if c = CHR ''+'' then Some 62 else if c = CHR ''/'' then Some 63 else None)"

fun decode_quads :: "string \<Rightarrow> string option" where
  "decode_quads [] = Some []"
| "decode_quads (a # b # c # d # rest) =
    (case (base64_digit a, base64_digit b) of
       (Some x, Some y) \<Rightarrow>
         if c = CHR ''='' then (if d = CHR ''='' \<and> rest = [] then Some [char_of (4 * x + y div 16)] else None)
         else (case base64_digit c of
           None \<Rightarrow> None
         | Some z \<Rightarrow>
             if d = CHR ''='' then (if rest = [] then Some [char_of (4 * x + y div 16), char_of (16 * (y mod 16) + z div 4)] else None)
             else (case (base64_digit d, decode_quads rest) of
               (Some w, Some others) \<Rightarrow> Some (char_of (4 * x + y div 16) # char_of (16 * (y mod 16) + z div 4) # char_of (64 * (z mod 4) + w) # others)
             | _ \<Rightarrow> None))
     | _ \<Rightarrow> None)"
| "decode_quads _ = None"

definition StdDecodeString :: "string \<Rightarrow> string option" where
  "StdDecodeString s = decode_quads (filter (\<lambda>c. c \<noteq> CHR 0x0D \<and> c \<noteq> CHR 0x0A) s)"

definition decodeBase64Value :: "(string \<rightharpoonup> string) \<Rightarrow> string \<Rightarrow> string + string" where
  "decodeBase64Value lookup key =
    (case valueOrDefault lookup key [] of [] \<Rightarrow> Inr []
     | v \<Rightarrow> (case StdDecodeString v of None \<Rightarrow> Inl (key @ '' must be standard base64'') | Some bytes \<Rightarrow> Inr bytes))"

definition partiallyConfigured :: "bool list \<Rightarrow> bool" where
  "partiallyConfigured vs = (let configured = length (filter (\<lambda>v. v) vs) in configured \<noteq> 0 \<and> configured \<noteq> length vs)"

definition allConfigured :: "bool list \<Rightarrow> bool" where
  "allConfigured vs = list_all (\<lambda>v. v) vs"

section \<open>Loading\<close>

text \<open>The first half of \<open>load\<close>: the variables, in the order in which the code reads those that can be rejected.\<close>

definition read_config :: "(string \<rightharpoonup> string) \<Rightarrow> string + Config" where
  "read_config lookup =
    on_success (boolOrDefault lookup ''REPOMENDER_COOKIE_SECURE'' False) (\<lambda>cookieSecure.
    on_success (boolOrDefault lookup ''REPOMENDER_FEATURE_M2_SCM'' False) (\<lambda>m2.
    on_success (boolOrDefault lookup ''REPOMENDER_FEATURE_GITLAB'' False) (\<lambda>gitLab.
    on_success (boolOrDefault lookup ''REPOMENDER_FEATURE_M3_AC_EXECUTION'' False) (\<lambda>m3.
    on_success (boolOrDefault lookup ''REPOMENDER_FEATURE_M4_TASKS'' False) (\<lambda>m4.
    on_success (boolOrDefault lookup ''REPOMENDER_FEATURE_M5_CODE_REVIEW'' False) (\<lambda>m5.
    on_success (boolOrDefault lookup ''REPOMENDER_FEATURE_M6_CI_DIAGNOSIS'' False) (\<lambda>m6.
    on_success (boolOrDefault lookup ''REPOMENDER_FEATURE_M7_APPROVALS'' False) (\<lambda>m7.
    on_success (boolOrDefault lookup ''REPOMENDER_FEATURE_M8_ISSUE_REPAIR'' False) (\<lambda>m8.
    on_success (boolOrDefault lookup ''REPOMENDER_FEATURE_M9_AUTOMATIONS'' False) (\<lambda>m9.
    on_success (boolOrDefault lookup ''REPOMENDER_FEATURE_M10_HARDENING'' False) (\<lambda>m10.
    on_success (intOrDefault lookup ''REPOMENDER_RETENTION_DAYS'' 365) (\<lambda>retentionDays.
    on_success (intOrDefault lookup ''REPOMENDER_RATE_LIMIT_PER_MINUTE'' 120) (\<lambda>rateLimitPerMinute.
    on_success (decodeBase64Value lookup ''REPOMENDER_MASTER_KEY'') (\<lambda>masterKey.
    on_success (decodeBase64Value lookup ''REPOMENDER_GITHUB_APP_PRIVATE_KEY_B64'') (\<lambda>githubPrivateKey.
    on_success (intOrDefault lookup ''REPOMENDER_GITHUB_APP_ID'' 0) (\<lambda>githubAppID.
      Inr \<lparr>cfg_HTTPAddress = valueOrDefault lookup ''REPOMENDER_HTTP_ADDRESS'' '':8080'',
       cfg_PublicURL = valueOrDefault lookup ''REPOMENDER_PUBLIC_URL'' ''http://localhost:8088'',
       cfg_DatabaseURL = valueOrDefault lookup ''REPOMENDER_DATABASE_URL'' [],
       cfg_ShutdownTimeout = durationOrDefault lookup ''REPOMENDER_SHUTDOWN_TIMEOUT'' (10 * second),
       cfg_WorkerPoll = durationOrDefault lookup ''REPOMENDER_WORKER_POLL_INTERVAL'' (2 * second),
       cfg_SessionTTL = durationOrDefault lookup ''REPOMENDER_SESSION_TTL'' (8 * 60 * minute),
       cfg_CookieSecure = cookieSecure,
       cfg_OIDCIssuer = valueOrDefault lookup ''REPOMENDER_OIDC_ISSUER'' [],
       cfg_OIDCClientID = valueOrDefault lookup ''REPOMENDER_OIDC_CLIENT_ID'' [],
       cfg_OIDCClientSecret = valueOrDefault lookup ''REPOMENDER_OIDC_CLIENT_SECRET'' [],
       cfg_FeatureM2SCM = m2,
       cfg_FeatureM3ACExecution = m3,
       cfg_FeatureM4Tasks = m4,
       cfg_FeatureM5CodeReview = m5,
       cfg_FeatureM6CIDiagnosis = m6,
       cfg_FeatureM7Approvals = m7,
       cfg_FeatureM8IssueRepair = m8,
       cfg_FeatureM9Automations = m9,
       cfg_FeatureM10Hardening = m10,
       cfg_FeatureGitLab = gitLab,
       cfg_ServiceVersion = valueOrDefault lookup ''REPOMENDER_SERVICE_VERSION'' ''dev'',
       cfg_MetricsToken = valueOrDefault lookup ''REPOMENDER_METRICS_TOKEN'' [],
       cfg_OTELExporterEndpoint = TrimRight (valueOrDefault lookup ''OTEL_EXPORTER_OTLP_ENDPOINT'' []) (CHR ''/''),
       cfg_RetentionDays = retentionDays,
       cfg_RateLimitPerMinute = rateLimitPerMinute,
       cfg_BackupDirectory = valueOrDefault lookup ''REPOMENDER_BACKUP_DIRECTORY'' ''/var/lib/repomender/backups'',
       cfg_SCMMasterKey = map of_char masterKey,
       cfg_GitHubAppID = githubAppID,
       cfg_GitHubAppSlug = valueOrDefault lookup ''REPOMENDER_GITHUB_APP_SLUG'' [],
       cfg_GitHubPrivateKey = githubPrivateKey,
       cfg_GitHubPrivateKeyFile = valueOrDefault lookup ''REPOMENDER_GITHUB_APP_PRIVATE_KEY_FILE'' [],
       cfg_GitHubWebhookSecret = valueOrDefault lookup ''REPOMENDER_GITHUB_WEBHOOK_SECRET'' [],
       cfg_GitHubAPIBaseURL = valueOrDefault lookup ''REPOMENDER_GITHUB_API_BASE_URL'' ''https://api.github.com'',
       cfg_GitHubWebBaseURL = valueOrDefault lookup ''REPOMENDER_GITHUB_WEB_BASE_URL'' ''https://github.com'',
       cfg_GitLabClientID = valueOrDefault lookup ''REPOMENDER_GITLAB_CLIENT_ID'' [],
       cfg_GitLabClientSecret = valueOrDefault lookup ''REPOMENDER_GITLAB_CLIENT_SECRET'' [],
       cfg_GitLabWebhookSecret = valueOrDefault lookup ''REPOMENDER_GITLAB_WEBHOOK_SECRET'' [],
       cfg_GitLabAPIBaseURL = valueOrDefault lookup ''REPOMENDER_GITLAB_API_BASE_URL'' ''https://gitlab.com/api/v4'',
       cfg_GitLabWebBaseURL = valueOrDefault lookup ''REPOMENDER_GITLAB_WEB_BASE_URL'' ''https://gitlab.com'',
       cfg_ACBaseURL = TrimRight (valueOrDefault lookup ''REPOMENDER_AC_BASE_URL'' []) (CHR ''/''),
       cfg_ACProjectID = valueOrDefault lookup ''REPOMENDER_AC_PROJECT_ID'' [],
       cfg_ACAgentName = valueOrDefault lookup ''REPOMENDER_AC_AGENT_NAME'' ''codex'',
       cfg_ACAuthToken = valueOrDefault lookup ''REPOMENDER_AC_AUTH_TOKEN'' [],
       cfg_ACRequiredVersion = valueOrDefault lookup ''REPOMENDER_AC_REQUIRED_VERSION'' [],
       cfg_ACRequiredDriver = valueOrDefault lookup ''REPOMENDER_AC_REQUIRED_DRIVER'' ''docker'',
       cfg_ACRequestTimeout = durationOrDefault lookup ''REPOMENDER_AC_REQUEST_TIMEOUT'' (10 * second),
       cfg_ACSensitivePatterns = splitNonEmpty (valueOrDefault lookup ''REPOMENDER_AC_SENSITIVE_PATTERNS'' [])\<rparr>))))))))))))))))"

definition githubValues :: "Config \<Rightarrow> bool list" where
  "githubValues cfg = [cfg_GitHubAppID cfg > 0, cfg_GitHubAppSlug cfg \<noteq> [], cfg_GitHubPrivateKey cfg \<noteq> [] \<or> cfg_GitHubPrivateKeyFile cfg \<noteq> [],
     cfg_GitHubWebhookSecret cfg \<noteq> []]"

text \<open>The second half: the conditions under which a configuration is refused, in order, with the message of each.\<close>

definition config_checks :: "(string \<Rightarrow> (string \<times> string) option) \<Rightarrow> Config \<Rightarrow> (bool \<times> string) list" where
  "config_checks parse_url cfg =
    [(cfg_DatabaseURL cfg = [], ''REPOMENDER_DATABASE_URL is required''),
     (cfg_ShutdownTimeout cfg \<le> 0 \<or> cfg_WorkerPoll cfg \<le> 0 \<or> cfg_SessionTTL cfg \<le> 0 \<or> cfg_ACRequestTimeout cfg \<le> 0,
       ''timeouts and polling intervals must be positive''),
     (partiallyConfigured [cfg_OIDCIssuer cfg \<noteq> [], cfg_OIDCClientID cfg \<noteq> [], cfg_OIDCClientSecret cfg \<noteq> []],
       ''OIDC issuer, client ID, and client secret must be configured together''),
     (cfg_FeatureM2SCM cfg \<and> length (cfg_SCMMasterKey cfg) \<noteq> 32, ''REPOMENDER_MASTER_KEY must decode to 32 bytes when M2 SCM is enabled''),
     (partiallyConfigured (githubValues cfg), ''GitHub App ID, slug, private key, and webhook secret must be configured together''),
     (cfg_FeatureGitLab cfg \<and> partiallyConfigured [cfg_GitLabClientID cfg \<noteq> [], cfg_GitLabClientSecret cfg \<noteq> [], cfg_GitLabWebhookSecret cfg \<noteq> []],
       ''GitLab client ID, client secret, and webhook secret must be configured together''),
     (cfg_FeatureM3ACExecution cfg \<and> cfg_ACBaseURL cfg = [], ''REPOMENDER_AC_BASE_URL is required when M3 AC execution is enabled''),
     (cfg_FeatureM3ACExecution cfg \<and> (case parse_url (cfg_ACBaseURL cfg) of None \<Rightarrow> True
         | Some (scheme, host) \<Rightarrow> (scheme \<noteq> ''http'' \<and> scheme \<noteq> ''https'') \<or> host = []),
       ''REPOMENDER_AC_BASE_URL must be an absolute HTTP(S) URL''),
     (cfg_FeatureM5CodeReview cfg \<and> (\<not> cfg_FeatureM2SCM cfg \<or> \<not> cfg_FeatureM3ACExecution cfg \<or> \<not> cfg_FeatureM4Tasks cfg),
       ''REPOMENDER_FEATURE_M5_CODE_REVIEW requires M2 SCM, M3 AC execution, and M4 tasks''),
     (cfg_FeatureM5CodeReview cfg \<and> \<not> allConfigured (githubValues cfg), ''GitHub App configuration is required when M5 code review is enabled''),
     (cfg_FeatureM5CodeReview cfg \<and> blank (cfg_ACProjectID cfg), ''REPOMENDER_AC_PROJECT_ID is required when M5 code review is enabled''),
     (cfg_FeatureM6CIDiagnosis cfg \<and> (\<not> cfg_FeatureM2SCM cfg \<or> \<not> cfg_FeatureM3ACExecution cfg \<or> \<not> cfg_FeatureM4Tasks cfg \<or> \<not> cfg_FeatureM5CodeReview cfg),
       ''REPOMENDER_FEATURE_M6_CI_DIAGNOSIS requires M2 SCM, M3 AC execution, M4 tasks, and M5 code review''),
     (cfg_FeatureM6CIDiagnosis cfg \<and> blank (cfg_ACProjectID cfg), ''REPOMENDER_AC_PROJECT_ID is required when M6 CI diagnosis is enabled''),
     (cfg_FeatureM7Approvals cfg \<and> (\<not> cfg_FeatureM4Tasks cfg \<or> \<not> cfg_FeatureM6CIDiagnosis cfg),
       ''REPOMENDER_FEATURE_M7_APPROVALS requires M4 tasks and M6 CI diagnosis''),
     (cfg_FeatureM8IssueRepair cfg \<and> (\<not> cfg_FeatureM2SCM cfg \<or> \<not> cfg_FeatureM3ACExecution cfg \<or> \<not> cfg_FeatureM4Tasks cfg \<or> \<not> cfg_FeatureM7Approvals cfg),
       ''REPOMENDER_FEATURE_M8_ISSUE_REPAIR requires M2 SCM, M3 AC execution, M4 tasks, and M7 approvals''),
     (cfg_FeatureM8IssueRepair cfg \<and> \<not> allConfigured (githubValues cfg), ''GitHub App configuration is required when M8 issue repair is enabled''),
     (cfg_FeatureM8IssueRepair cfg \<and> blank (cfg_ACProjectID cfg), ''REPOMENDER_AC_PROJECT_ID is required when M8 issue repair is enabled''),
     (cfg_FeatureM9Automations cfg \<and> (\<not> cfg_FeatureM2SCM cfg \<or> \<not> cfg_FeatureM3ACExecution cfg \<or> \<not> cfg_FeatureM4Tasks cfg \<or>
         \<not> cfg_FeatureM5CodeReview cfg \<or> \<not> cfg_FeatureM6CIDiagnosis cfg \<or> \<not> cfg_FeatureM7Approvals cfg \<or> \<not> cfg_FeatureM8IssueRepair cfg),
       ''REPOMENDER_FEATURE_M9_AUTOMATIONS requires M2 SCM through M8 issue repair''),
     (cfg_FeatureM9Automations cfg \<and> \<not> allConfigured (githubValues cfg), ''GitHub App configuration is required when M9 automations are enabled''),
     (cfg_FeatureM9Automations cfg \<and> blank (cfg_ACProjectID cfg), ''REPOMENDER_AC_PROJECT_ID is required when M9 automations are enabled''),
     (cfg_RetentionDays cfg \<le> 0 \<or> cfg_RateLimitPerMinute cfg \<le> 0, ''retention days and rate limit must be positive''),
     (cfg_FeatureM10Hardening cfg \<and> \<not> cfg_FeatureM9Automations cfg, ''REPOMENDER_FEATURE_M10_HARDENING requires M9 automations'')]"

definition config_load :: "(string \<Rightarrow> (string \<times> string) option) \<Rightarrow> (string \<rightharpoonup> string) \<Rightarrow> string + Config" where
  "config_load parse_url lookup =
    on_success (read_config lookup) (\<lambda>cfg. case find fst (config_checks parse_url cfg) of Some (_, message) \<Rightarrow> Inl message | None \<Rightarrow> Inr cfg)"

definition Load :: "(string \<Rightarrow> (string \<times> string) option) \<Rightarrow> (string \<rightharpoonup> string) \<Rightarrow> (string \<rightharpoonup> string) \<Rightarrow> string + Config" where
  "Load parse_url read_file lookup =
    on_success (config_load parse_url lookup) (\<lambda>cfg.
      if cfg_GitHubPrivateKey cfg = [] \<and> cfg_GitHubPrivateKeyFile cfg \<noteq> [] then
        (case read_file (cfg_GitHubPrivateKeyFile cfg) of
           None \<Rightarrow> Inl ''read GitHub App private key file''
         | Some privateKey \<Rightarrow> Inr (cfg\<lparr>cfg_GitHubPrivateKey := privateKey\<rparr>))
      else Inr cfg)"

section \<open>What a loaded configuration promises\<close>

lemma loaded_checked: "config_load parse_url lookup = Inr cfg \<Longrightarrow> \<forall>(refused, message) \<in> set (config_checks parse_url cfg). \<not> refused"
  by (auto simp: config_load_def on_success_def find_None_iff split: sum.splits option.splits)

lemma Load_parts:
  "Load parse_url read_file lookup = Inr cfg \<Longrightarrow> \<exists>cfg0 key. config_load parse_url lookup = Inr cfg0 \<and> cfg = cfg0\<lparr>cfg_GitHubPrivateKey := key\<rparr> \<and>
     (cfg_GitHubPrivateKey cfg0 \<noteq> [] \<longrightarrow> key = cfg_GitHubPrivateKey cfg0)"
  by (auto simp: Load_def on_success_def split: sum.splits option.splits if_splits intro!: exI [of _ "cfg_GitHubPrivateKey cfg"])

text \<open>
  The features of a loaded configuration are closed downwards: a configuration that \<open>Load\<close> accepts enables with each of the features from code review on every feature it is built on, has the
  GitHub App and the project of the agent runtime when one of them needs them, a key of 32 bytes when credentials are to be sealed, and positive timeouts, retention and rate limit.
\<close>

theorem loaded_config_consistent:
  assumes "Load parse_url read_file lookup = Inr cfg"
  shows "(cfg_FeatureM10Hardening cfg \<longrightarrow> cfg_FeatureM9Automations cfg) \<and> (cfg_FeatureM9Automations cfg \<longrightarrow> cfg_FeatureM8IssueRepair cfg) \<and>
    (cfg_FeatureM8IssueRepair cfg \<longrightarrow> cfg_FeatureM7Approvals cfg) \<and> (cfg_FeatureM7Approvals cfg \<longrightarrow> cfg_FeatureM6CIDiagnosis cfg) \<and>
    (cfg_FeatureM6CIDiagnosis cfg \<longrightarrow> cfg_FeatureM5CodeReview cfg) \<and>
    (cfg_FeatureM5CodeReview cfg \<longrightarrow> cfg_FeatureM4Tasks cfg \<and> cfg_FeatureM3ACExecution cfg \<and> cfg_FeatureM2SCM cfg \<and> cfg_GitHubAppID cfg > 0 \<and>
       cfg_GitHubAppSlug cfg \<noteq> [] \<and> cfg_GitHubWebhookSecret cfg \<noteq> [] \<and> \<not> blank (cfg_ACProjectID cfg)) \<and>
    (cfg_FeatureM3ACExecution cfg \<longrightarrow> cfg_ACBaseURL cfg \<noteq> []) \<and> (cfg_FeatureM2SCM cfg \<longrightarrow> length (cfg_SCMMasterKey cfg) = 32) \<and>
    cfg_DatabaseURL cfg \<noteq> [] \<and> 0 < cfg_SessionTTL cfg \<and> 0 < cfg_WorkerPoll cfg \<and> 0 < cfg_ACRequestTimeout cfg \<and> 0 < cfg_ShutdownTimeout cfg \<and>
    0 < cfg_RetentionDays cfg \<and> 0 < cfg_RateLimitPerMinute cfg"
proof -
  obtain cfg0 key where "config_load parse_url lookup = Inr cfg0" and cfg: "cfg = cfg0\<lparr>cfg_GitHubPrivateKey := key\<rparr>"
    using Load_parts [OF assms] by blast
  from loaded_checked [OF this(1)] show ?thesis
    unfolding cfg by (simp add: config_checks_def githubValues_def allConfigured_def not_le)
qed

section \<open>A sample environment\<close>

text \<open>Everything enabled; the master key is 32 times the letter A.\<close>

definition sample_lookup :: "string \<rightharpoonup> string" where
  "sample_lookup = map_of
    ((''REPOMENDER_DATABASE_URL'', ''postgres://db'') # (''REPOMENDER_MASTER_KEY'', ''QUFBQUFBQUFBQUFBQUFBQUFBQUFBQUFBQUFBQUFBQUE='') #
     (''REPOMENDER_GITHUB_APP_ID'', ''7'') # (''REPOMENDER_GITHUB_APP_SLUG'', ''mender'') # (''REPOMENDER_GITHUB_APP_PRIVATE_KEY_FILE'', ''/run/key'') #
     (''REPOMENDER_GITHUB_WEBHOOK_SECRET'', ''hook'') # (''REPOMENDER_AC_BASE_URL'', ''http://ac:7410/'') # (''REPOMENDER_AC_PROJECT_ID'', ''p1'') #
     map (\<lambda>k. (''REPOMENDER_FEATURE_'' @ k, ''true''))
       [''M2_SCM'', ''M3_AC_EXECUTION'', ''M4_TASKS'', ''M5_CODE_REVIEW'', ''M6_CI_DIAGNOSIS'', ''M7_APPROVALS'', ''M8_ISSUE_REPAIR'', ''M9_AUTOMATIONS'', ''M10_HARDENING''])"

definition sample_parse_url :: "string \<Rightarrow> (string \<times> string) option" where
  "sample_parse_url u = (if HasPrefix u ''http://'' then Some (''http'', drop 7 u) else None)"

definition sample_files :: "string \<rightharpoonup> string" where
  "sample_files = [''/run/key'' \<mapsto> ''PEM'']"

definition sample_loaded :: "string + Config" where
  "sample_loaded = Load sample_parse_url sample_files sample_lookup"

lemma sample_loaded_ok: "sample_loaded = Inr (projr sample_loaded)"
proof -
  have "\<not> isl sample_loaded" by code_simp
  then show ?thesis by (simp add: sum.collapse(2))
qed

theorem loaded_config_consistent_witness:
  "length (cfg_SCMMasterKey (projr sample_loaded)) = 32 \<and> cfg_FeatureM5CodeReview (projr sample_loaded)"
proof -
  have "cfg_FeatureM10Hardening (projr sample_loaded)" by code_simp
  with loaded_config_consistent [OF sample_loaded_ok [unfolded sample_loaded_def]] show ?thesis by (simp add: sample_loaded_def)
qed

text \<open>
  Durations are multiplied in 64 bits before they are checked: a session lifetime of 18446744074 seconds, which is 584 years, is accepted and becomes 290 milliseconds, so
  that every session is over before it can be used.
\<close>

theorem long_ttl_accepted:
  "\<exists>cfg. Load sample_parse_url sample_files (sample_lookup(''REPOMENDER_SESSION_TTL'' \<mapsto> ''18446744074'')) = Inr cfg \<and>
     cfg_SessionTTL cfg = 290448384 \<and> cfg_SessionTTL cfg < second"
proof -
  let ?r = "Load sample_parse_url sample_files (sample_lookup(''REPOMENDER_SESSION_TTL'' \<mapsto> ''18446744074''))"
  have "\<not> isl ?r" "cfg_SessionTTL (projr ?r) = 290448384" by code_simp+
  moreover from this(1) have "?r = Inr (projr ?r)" by (simp add: sum.collapse(2))
  ultimately show ?thesis by (intro exI [of _ "projr ?r"]) simp
qed

end
