(* ===== verification/Rate_Limit.thy ===== *)
theory Rate_Limit
  imports Go_Strings "HOL-Library.Signed_Division"
begin

text \<open>
  The request limiter (\<open>src/server/internal/ratelimit/limiter.go\<close>): a fixed window per client address, the middleware that applies it and
  the sweep that forgets inactive clients.

  \<^item> The limiter's mutex makes each call of \<open>allow\<close> and \<open>Sweep\<close> atomic, so a run of the server is a list of such events with the
    time each was handled at.
  \<^item> Durations are 64-bit: \<open>Sub\<close> saturates and arithmetic on durations wraps, as in Go.
\<close>

section \<open>Durations\<close>

definition wrap64 :: "int \<Rightarrow> int" where
  "wrap64 x = (x + 9223372036854775808) mod 18446744073709551616 - 9223372036854775808"

definition Sub :: "time \<Rightarrow> time \<Rightarrow> duration" where
  "Sub t u = max (- 9223372036854775808) (min 9223372036854775807 (t - u))"

lemma wrap64_id: "- 9223372036854775808 \<le> x \<Longrightarrow> x < 9223372036854775808 \<Longrightarrow> wrap64 x = x"
  by (simp add: wrap64_def)

lemma Sub_ge_iff: "0 < w \<Longrightarrow> w \<le> 9223372036854775807 \<Longrightarrow> w \<le> Sub t u \<longleftrightarrow> u + w \<le> t"
  by (auto simp: Sub_def max_def min_def)

section \<open>The limiter (limiter.go)\<close>

record window =
  started :: time
  count :: int

record Limiter =
  limit :: int
  window_length :: duration
  clients :: "string \<rightharpoonup> window"
  rejections :: "nat option"

definition New :: "int \<Rightarrow> nat option \<Rightarrow> Limiter" where
  "New perMinute registry =
    \<lparr>limit = (if perMinute \<le> 0 then 120 else perMinute), window_length = minute, clients = (\<lambda>_. None), rejections = registry\<rparr>"

definition allow :: "string \<Rightarrow> time \<Rightarrow> Limiter \<Rightarrow> (bool \<times> int) \<times> Limiter" where
  "allow client now l =
    (case clients l client of
       None \<Rightarrow> ((True, 0), l\<lparr>clients := (clients l)(client \<mapsto> \<lparr>started = now, count = 1\<rparr>)\<rparr>)
     | Some item \<Rightarrow>
         if Sub now (started item) \<ge> window_length l
         then ((True, 0), l\<lparr>clients := (clients l)(client \<mapsto> \<lparr>started = now, count = 1\<rparr>)\<rparr>)
         else if count item \<ge> limit l then
           let remaining = wrap64 (window_length l - Sub now (started item))
           in ((False, wrap64 (wrap64 (remaining + second) - 1) sdiv second), l)
         else ((True, 0), l\<lparr>clients := (clients l)(client \<mapsto> item\<lparr>count := count item + 1\<rparr>)\<rparr>))"

definition Sweep :: "time \<Rightarrow> Limiter option \<Rightarrow> Limiter option" where
  "Sweep now lo =
    (case lo of
       None \<Rightarrow> None
     | Some l \<Rightarrow> Some (l\<lparr>clients := (\<lambda>key. case clients l key of
           None \<Rightarrow> None | Some item \<Rightarrow> if Sub now (started item) \<ge> window_length l then None else Some item)\<rparr>))"

section \<open>The middleware\<close>

text \<open>\<open>net.SplitHostPort\<close>, of which the limiter uses the host.\<close>

fun last_index :: "char \<Rightarrow> string \<Rightarrow> nat option" where
  "last_index c [] = None"
| "last_index c (x # s) = (case last_index c s of Some i \<Rightarrow> Some (Suc i) | None \<Rightarrow> if x = c then Some 0 else None)"

fun index_byte :: "char \<Rightarrow> string \<Rightarrow> nat option" where
  "index_byte c [] = None"
| "index_byte c (x # s) = (if x = c then Some 0 else map_option Suc (index_byte c s))"

definition SplitHostPort :: "string \<Rightarrow> string option" where
  "SplitHostPort hostport =
    (case last_index (CHR '':'') hostport of
       None \<Rightarrow> None
     | Some i \<Rightarrow>
         (case (if hd hostport = CHR ''[''
                then (case index_byte (CHR '']'') hostport of
                        None \<Rightarrow> None
                      | Some e \<Rightarrow> if e + 1 = i then Some (take (e - 1) (drop 1 hostport), 1, e + 1) else None)
                else if CHR '':'' \<in> set (take i hostport) then None
                else Some (take i hostport, 0, 0)) of
            None \<Rightarrow> None
          | Some (host, j, k) \<Rightarrow>
              if CHR ''['' \<in> set (drop j hostport) \<or> CHR '']'' \<in> set (drop k hostport) then None else Some host))"

definition clientKey :: "string \<Rightarrow> string" where
  "clientKey remoteAddr =
    (case SplitHostPort remoteAddr of
       Some host \<Rightarrow> if host \<noteq> [] then host else if remoteAddr \<noteq> [] then remoteAddr else ''unknown''
     | None \<Rightarrow> if remoteAddr \<noteq> [] then remoteAddr else ''unknown'')"

definition exempt :: "string \<Rightarrow> bool" where
  "exempt path \<longleftrightarrow> path = ''/health/live'' \<or> path = ''/health/ready'' \<or> path = ''/metrics''"

text \<open>What the middleware answers: the next handler's response, or status 429 with the \<open>Retry-After\<close> header and the body.\<close>

datatype reply = Next | TooManyRequests string string

definition Middleware :: "string \<Rightarrow> string \<Rightarrow> time \<Rightarrow> Limiter option \<Rightarrow> reply \<times> Limiter option" where
  "Middleware path remoteAddr now lo =
    (case lo of
       None \<Rightarrow> (Next, None)
     | Some l \<Rightarrow>
         if exempt path then (Next, Some l)
         else (case allow (clientKey remoteAddr) now l of
           ((allowed, retryAfter), l1) \<Rightarrow>
             if \<not> allowed
             then (TooManyRequests (itoa retryAfter) (''{\"error\":\"rate_limited\"}'' @ [CHR 0x0A]),
                   Some (l1\<lparr>rejections := map_option Suc (rejections l1)\<rparr>))
             else (Next, Some l1)))"

section \<open>Runs\<close>

datatype limiter_event = Request string time | Swept time

fun event_time :: "limiter_event \<Rightarrow> time" where
  "event_time (Request c t) = t"
| "event_time (Swept t) = t"

text \<open>
  A run of the limiter over a list of events: the limiter afterwards, with the times at which requests of a given client were let through.
\<close>

fun run_events :: "string \<Rightarrow> limiter_event list \<Rightarrow> Limiter \<Rightarrow> time list \<times> Limiter" where
  "run_events c [] l = ([], l)"
| "run_events c (Request d t # es) l =
    (case allow d t l of ((ok, _), l1) \<Rightarrow>
       (case run_events c es l1 of (ts, l2) \<Rightarrow> (if ok \<and> d = c then t # ts else ts, l2)))"
| "run_events c (Swept t # es) l = run_events c es (the (Sweep t (Some l)))"

section \<open>What a run keeps\<close>

lemma run_events_append:
  "run_events c (es @ fs) l =
     (fst (run_events c es l) @ fst (run_events c fs (snd (run_events c es l))), snd (run_events c fs (snd (run_events c es l))))"
  by (induction c es l rule: run_events.induct) (auto split: prod.splits)

definition within :: "time \<Rightarrow> time \<Rightarrow> time list \<Rightarrow> nat" where
  "within a b ts = length (filter (\<lambda>x. a \<le> x \<and> x < b) ts)"

lemma within_snoc [simp]: "within a b (ts @ [x]) = within a b ts + (if a \<le> x \<and> x < b then 1 else 0)"
  by (simp add: within_def)

lemma within_Nil [simp]: "within a b [] = 0"
  by (simp add: within_def)

lemma within_split: "a \<le> m \<Longrightarrow> m \<le> b \<Longrightarrow> within a b ts = within a m ts + within m b ts"
  by (induction ts) (auto simp: within_def)

lemma within_mono: "a \<le> a' \<Longrightarrow> b' \<le> b \<Longrightarrow> within a' b' ts \<le> within a b ts"
  unfolding within_def by (rule length_filter_imp) auto

text \<open>
  The state of one client after requests let through at \<open>ts\<close>, seen at time \<open>now\<close>: its last window began at \<open>s\<close>, at most the limit were
  let through since, and at most the limit in the window's length before \<open>s\<close>.
\<close>

definition client_ok :: "string \<Rightarrow> nat \<Rightarrow> time \<Rightarrow> time list \<Rightarrow> Limiter \<Rightarrow> time \<Rightarrow> bool" where
  "client_ok c L now ts l s \<longleftrightarrow> limit l = int L \<and> window_length l = minute \<and> (\<forall>x \<in> set ts. x \<le> now \<and> x < s + minute) \<and>
     within s (now + 1) ts \<le> L \<and> within (s - minute + 1) s ts \<le> L \<and> (\<forall>t. within t (t + minute) ts \<le> 2 * L) \<and>
     (case clients l c of Some item \<Rightarrow> started item = s \<and> count item = int (within s (now + 1) ts) \<and> s \<le> now
      | None \<Rightarrow> s + minute \<le> now \<or> ts = [])"

lemma within_now: "(\<forall>x \<in> set ts. x \<le> now) \<Longrightarrow> now < b \<Longrightarrow> within a b ts = within a (now + 1) ts"
  unfolding within_def by (rule arg_cong [where f = length], rule filter_cong) auto

lemma client_ok_later: "client_ok c L now ts l s \<Longrightarrow> now \<le> later \<Longrightarrow> client_ok c L later ts l s"
  using within_now [of ts now "later + 1" s] by (fastforce simp: client_ok_def split: option.splits)

lemma client_ok_again:
  assumes "client_ok c L now ts l s" "clients l c = Some item" "now < s + minute" "count item < limit l"
    and "clients l' c = Some (item\<lparr>count := count item + 1\<rparr>)" "limit l' = limit l" "window_length l' = window_length l"
  shows "client_ok c L now (ts @ [now]) l' s"
proof -
  have here: "within s (now + 1) ts < L" "s \<le> now" "\<And>x. x \<in> set ts \<Longrightarrow> x \<le> now" using assms by (auto simp: client_ok_def)
  have "within t (t + minute) (ts @ [now]) \<le> 2 * L" for t
  proof (cases "t \<le> now \<and> now < t + minute")
    case True
    have new: "within t (t + minute) ts = within t (now + 1) ts" using within_now here(3) True by auto
    show ?thesis
    proof (cases "s \<le> t")
      case True
      then have "within t (now + 1) ts \<le> within s (now + 1) ts" by (intro within_mono) auto
      with new here(1) show ?thesis by simp
    next
      case False
      then have "within t (now + 1) ts = within t s ts + within s (now + 1) ts" using here(2) by (intro within_split) auto
      moreover have "within t s ts \<le> within (s - minute + 1) s ts" using True here(2) by (intro within_mono) auto
      ultimately show ?thesis using new here(1) assms(1) by (simp add: client_ok_def)
    qed
  next
    case False
    with assms(1) show ?thesis by (auto simp: client_ok_def)
  qed
  with assms here show ?thesis by (auto simp: client_ok_def)
qed

lemma client_ok_window:
  assumes "client_ok c L now ts l s" "0 < L" "s + minute \<le> now \<or> ts = []"
    and "clients l' c = Some \<lparr>started = now, count = 1\<rparr>" "limit l' = limit l" "window_length l' = window_length l"
  shows "client_ok c L now (ts @ [now]) l' now"
proof -
  have old: "within t (now + 1) ts \<le> L" if "now - minute < t" for t
    using assms(3)
  proof
    assume "s + minute \<le> now"
    then have "within t (now + 1) ts \<le> within s (now + 1) ts" using that by (intro within_mono) auto
    with assms(1) show ?thesis by (simp add: client_ok_def)
  qed simp
  have le: "\<And>x. x \<in> set ts \<Longrightarrow> x \<le> now" using assms(1) by (simp add: client_ok_def)
  have none: "within now (now + 1) ts = 0"
    using assms(1,3) by (fastforce simp: client_ok_def within_def filter_empty_conv)
  have "within t (t + minute) (ts @ [now]) \<le> 2 * L" for t
  proof (cases "t \<le> now \<and> now < t + minute")
    case True
    then have "within t (t + minute) ts = within t (now + 1) ts" using within_now le by auto
    with old [of t] True assms(2) show ?thesis by simp
  next
    case False
    with assms(1) show ?thesis by (auto simp: client_ok_def)
  qed
  moreover have "within (now - minute + 1) now (ts @ [now]) \<le> L"
    using old [of "now - minute + 1"] within_mono [of "now - minute + 1" "now - minute + 1" now "now + 1" ts] by simp
  ultimately show ?thesis using assms le none by (auto simp: client_ok_def)
qed

lemma allow_other: "c \<noteq> d \<Longrightarrow> clients (snd (allow d t l)) c = clients l c"
  by (auto simp: allow_def Let_def split: option.splits)

lemma allow_keeps: "limit (snd (allow d t l)) = limit l" "window_length (snd (allow d t l)) = window_length l"
  by (auto simp: allow_def Let_def split: option.splits)

lemma client_ok_allow:
  assumes "client_ok c L now ts l s" "0 < L" "allow c now l = ((ok, r), l')"
  shows "\<exists>s'. client_ok c L now (if ok then ts @ [now] else ts) l' s'"
proof (cases "clients l c")
  case None
  moreover have "s + minute \<le> now \<or> ts = []" using None assms(1) by (simp add: client_ok_def)
  ultimately show ?thesis
    using assms(3) client_ok_window [OF assms(1,2), of l'] by (auto simp: allow_def)
next
  case (Some item)
  have s: "started item = s" "window_length l = minute" using assms(1) Some by (auto simp: client_ok_def)
  show ?thesis
  proof (cases "s + minute \<le> now")
    case True
    then show ?thesis
      using assms Some s client_ok_window [OF assms(1,2), of l'] by (auto simp: allow_def Sub_ge_iff)
  next
    case False
    then show ?thesis
      using assms Some s client_ok_again [OF assms(1) Some, of l'] by (auto simp: allow_def Sub_ge_iff Let_def split: if_splits)
  qed
qed

lemma client_ok_sweep:
  "client_ok c L now ts l s \<Longrightarrow> client_ok c L now ts (the (Sweep now (Some l))) s"
  by (auto simp: client_ok_def Sweep_def Sub_ge_iff split: option.splits)

lemma run_ok:
  assumes "sorted (map event_time es)" "0 < L" "client_ok c L t0 [] l t0" "\<forall>e \<in> set es. t0 \<le> event_time e"
  shows "\<exists>s. client_ok c L (if es = [] then t0 else event_time (last es)) (fst (run_events c es l)) (snd (run_events c es l)) s"
  using assms(1,4)
proof (induction es rule: rev_induct)
  case Nil
  then show ?case using assms(3) by auto
next
  case (snoc e es)
  let ?r = "run_events c es l"
  from snoc obtain s where s: "client_ok c L (if es = [] then t0 else event_time (last es)) (fst ?r) (snd ?r) s"
    by (auto simp: sorted_append)
  have le: "(if es = [] then t0 else event_time (last es)) \<le> event_time e"
    using snoc.prems by (auto simp: sorted_append)
  note now = client_ok_later [OF s le]
  show ?case
  proof (cases e)
    case (Request d t)
    obtain ok r l' where a: "allow d t (snd ?r) = ((ok, r), l')" by (metis prod.exhaust)
    show ?thesis
    proof (cases "d = c")
      case True
      with client_ok_allow [of c L t "fst ?r" "snd ?r" s ok r l'] now a Request assms(2) show ?thesis
        by (auto simp: run_events_append)
    next
      case False
      have "client_ok c L t (fst ?r) l' s"
        using now Request a False allow_other [of c d t "snd ?r"] allow_keeps [of d t "snd ?r"]
        by (simp add: client_ok_def)
      with Request a False show ?thesis by (auto simp: run_events_append)
    qed
  next
    case (Swept t)
    with client_ok_sweep [OF now] show ?thesis by (auto simp: run_events_append)
  qed
qed

lemma client_ok_new: "client_ok c (nat (limit (New n registry))) t0 [] (New n registry) t0"
  by (auto simp: client_ok_def New_def)

lemma other_events_keep:
  assumes "\<forall>e \<in> set es. event_time e < t \<and> (\<forall>u. e \<noteq> Request c u)" "clients l c = Some item" "t \<le> started item + window_length l"
    and "0 < window_length l" "window_length l \<le> 9223372036854775807"
  shows "clients (snd (run_events c es l)) c = Some item \<and> limit (snd (run_events c es l)) = limit l \<and>
    window_length (snd (run_events c es l)) = window_length l"
  using assms
proof (induction es arbitrary: l)
  case (Cons e es)
  show ?case
  proof (cases e)
    case (Request d u)
    obtain ok r l' where a: "allow d u l = ((ok, r), l')" by (metis prod.exhaust)
    with Request Cons.prems allow_other [of c d u l] allow_keeps [of d u l] Cons.IH [of l'] show ?thesis
      by (auto split: prod.splits)
  next
    case (Swept u)
    let ?l' = "the (Sweep u (Some l))"
    have "clients ?l' c = Some item" "limit ?l' = limit l" "window_length ?l' = window_length l"
      using Cons.prems Swept by (auto simp: Sweep_def Sub_ge_iff)
    with Cons.prems Cons.IH [of ?l'] Swept show ?thesis by simp
  qed
qed simp

section \<open>Sweeping is transparent\<close>

text \<open>The swept limiter simulates the unswept one: it has the same windows, less those that have ended.\<close>

definition swept_of :: "time \<Rightarrow> Limiter \<Rightarrow> Limiter \<Rightarrow> bool" where
  "swept_of now l1 l2 \<longleftrightarrow> limit l1 = limit l2 \<and> window_length l1 = minute \<and> window_length l2 = minute \<and>
     (\<forall>c. clients l1 c = clients l2 c \<or> clients l1 c = None \<and> (\<exists>item. clients l2 c = Some item \<and> started item + minute \<le> now))"

lemma swept_of_later: "swept_of now l1 l2 \<Longrightarrow> now \<le> later \<Longrightarrow> swept_of later l1 l2"
  unfolding swept_of_def by force

lemma swept_of_sweep: "swept_of now l1 l2 \<Longrightarrow> swept_of now (the (Sweep now (Some l1))) l2"
proof -
  assume l: "swept_of now l1 l2"
  have w: "limit l1 = limit l2" "window_length l1 = minute" "window_length l2 = minute" using l by (simp_all add: swept_of_def)
  have "clients (the (Sweep now (Some l1))) c = clients l2 c \<or>
      clients (the (Sweep now (Some l1))) c = None \<and> (\<exists>item. clients l2 c = Some item \<and> started item + minute \<le> now)" for c
  proof (cases "clients l1 c")
    case None
    moreover have "clients l2 c = None \<or> (\<exists>item. clients l2 c = Some item \<and> started item + minute \<le> now)"
      using None l unfolding swept_of_def by metis
    ultimately show ?thesis by (auto simp: Sweep_def)
  next
    case (Some item)
    then have "clients l2 c = Some item" using l unfolding swept_of_def by (metis option.distinct(1))
    with Some w show ?thesis by (simp add: Sweep_def Sub_ge_iff)
  qed
  with w show ?thesis by (simp add: swept_of_def Sweep_def)
qed

lemma swept_of_allow:
  assumes "swept_of now l1 l2"
  shows "fst (allow c now l1) = fst (allow c now l2)" "swept_of now (snd (allow c now l1)) (snd (allow c now l2))"
proof -
  have w: "limit l1 = limit l2" "window_length l1 = minute" "window_length l2 = minute" using assms by (simp_all add: swept_of_def)
  consider (same) "clients l1 c = clients l2 c"
    | (gone) item where "clients l1 c = None" "clients l2 c = Some item" "started item + minute \<le> now"
    using assms by (auto simp: swept_of_def)
  then show "fst (allow c now l1) = fst (allow c now l2)" "swept_of now (snd (allow c now l1)) (snd (allow c now l2))"
  proof (atomize (full), cases)
    case same
    with w assms show "fst (allow c now l1) = fst (allow c now l2) \<and> swept_of now (snd (allow c now l1)) (snd (allow c now l2))"
      by (cases "clients l2 c") (auto simp: swept_of_def allow_def Let_def)
  next
    case gone
    with w assms show "fst (allow c now l1) = fst (allow c now l2) \<and> swept_of now (snd (allow c now l1)) (snd (allow c now l2))"
      by (auto simp: swept_of_def allow_def Sub_ge_iff)
  qed
qed

definition without_sweeps :: "limiter_event list \<Rightarrow> limiter_event list" where
  "without_sweeps es = filter (\<lambda>e. \<exists>c t. e = Request c t) es"

lemma swept_run:
  "sorted (map event_time es) \<Longrightarrow> (\<forall>e \<in> set es. now \<le> event_time e) \<Longrightarrow> swept_of now l1 l2 \<Longrightarrow>
     fst (run_events c es l1) = fst (run_events c (without_sweeps es) l2)"
proof (induction es arbitrary: now l1 l2)
  case (Cons e es)
  then have here: "swept_of (event_time e) l1 l2" using swept_of_later by auto
  show ?case
  proof (cases e)
    case (Request d t)
    obtain ok r l1' where a: "allow d t l1 = ((ok, r), l1')" by (metis prod.exhaust)
    moreover obtain ok2 r2 l2' where b: "allow d t l2 = ((ok2, r2), l2')" by (metis prod.exhaust)
    moreover have "ok = ok2" "swept_of t l1' l2'" using swept_of_allow [of t l1 l2 d] here Request a b by auto
    moreover have "fst (run_events c es l1') = fst (run_events c (without_sweeps es) l2')"
      using Cons.IH [of t l1' l2'] Cons.prems Request calculation by auto
    ultimately show ?thesis using Request by (auto simp: without_sweeps_def split: prod.splits)
  next
    case (Swept t)
    then have "swept_of t (the (Sweep t (Some l1))) l2" using here swept_of_sweep by simp
    then show ?thesis using Cons Swept by (auto simp: without_sweeps_def)
  qed
qed (simp add: without_sweeps_def)

section \<open>Properties\<close>

text \<open>
  C40. The limiter bounds every client. Whatever the traffic of all clients and whenever inactive clients are swept, as long as the clock does not
  run backwards a new limiter lets at most twice its limit of one client's requests through in any minute, wherever the minute begins; so
  windows that meet, and sweeping, never add up to more than that.
\<close>

theorem any_minute_bounded:
  assumes "sorted (map event_time es)"
  shows "within t (t + minute) (fst (run_events c es (New perMinute registry))) \<le> 2 * nat (if perMinute \<le> 0 then 120 else perMinute)"
proof (cases es)
  case (Cons e es')
  let ?t0 = "event_time e"
  have L: "limit (New perMinute registry) = (if perMinute \<le> 0 then 120 else perMinute)" by (simp add: New_def)
  from assms Cons have "\<forall>e \<in> set es. ?t0 \<le> event_time e" by auto
  from run_ok [OF assms _ client_ok_new this, of perMinute registry c] L
  obtain s where "client_ok c (nat (limit (New perMinute registry))) (event_time (last es))
      (fst (run_events c es (New perMinute registry))) (snd (run_events c es (New perMinute registry))) s"
    using Cons by (auto split: if_splits)
  with L show ?thesis by (simp add: client_ok_def)
qed simp

theorem any_minute_bounded_witness:
  "within 59 (59 + minute) (fst (run_events ''a'' [Request ''a'' 0, Request ''b'' 1, Request ''a'' 59, Request ''a'' 60, Swept minute,
     Request ''a'' minute, Request ''a'' minute, Request ''a'' minute] (New 2 None))) \<le> 4"
  using any_minute_bounded [of "[Request ''a'' 0, Request ''b'' 1, Request ''a'' 59, Request ''a'' 60, Swept minute,
     Request ''a'' minute, Request ''a'' minute, Request ''a'' minute]" 59 "''a''" 2 None] by simp

text \<open>
  \<open>Retry-After\<close> is honest. A refused request of a client whose window is one minute gets a delay of between one and sixty seconds, and whatever
  other clients do and whenever clients are swept meanwhile, the client's next request is let through once the delay has passed.
\<close>

theorem retry_after_honest:
  assumes "allow c now l = ((False, r), l')" "window_length l = minute" "clients l c = Some item" "started item \<le> now"
    and "\<forall>e \<in> set es. event_time e < started item + minute \<and> (\<forall>u. e \<noteq> Request c u)" "now + r * second \<le> later"
  shows "1 \<le> r \<and> r \<le> 60 \<and> fst (allow c later (snd (run_events c es l'))) = (True, 0)"
proof -
  let ?d = "now - started item"
  have d: "Sub now (started item) < minute" "l' = l"
    "r = wrap64 (wrap64 (wrap64 (minute - Sub now (started item)) + second) - 1) sdiv second"
    using assms(1-3) by (auto simp: allow_def Let_def split: if_splits)
  have "Sub now (started item) = ?d" "0 \<le> ?d" "?d < minute" using d(1) assms(4) by (auto simp: Sub_def)
  then have r: "r = (minute - ?d + second - 1) div second"
    using d(3) by (simp add: wrap64_id signed_divide_int_def sgn_if)
  have b: "1 \<le> r" "r \<le> 60" using r \<open>0 \<le> ?d\<close> \<open>?d < minute\<close> by linarith+
  have late: "started item + minute \<le> later" using r assms(6) by linarith
  have "clients (snd (run_events c es l')) c = Some item \<and> window_length (snd (run_events c es l')) = minute"
    using other_events_keep [OF assms(5,3)] assms(2) d(2) by simp
  then show ?thesis using b late by (simp add: allow_def Sub_ge_iff)
qed

theorem retry_after_honest_witness:
  "fst (allow ''a'' (minute + 10) (snd (run_events ''a'' [Request ''b'' 11] (snd (run_events ''a'' [Request ''a'' 5] (New 1 None)))))) = (True, 0)"
proof -
  let ?l = "snd (run_events ''a'' [Request ''a'' 5] (New 1 None))"
  have "allow ''a'' 10 ?l = ((False, 60), ?l)"
    by (simp add: New_def allow_def Sub_def wrap64_def signed_divide_int_def)
  from retry_after_honest [OF this, of "\<lparr>started = 5, count = 1\<rparr>" "[Request ''b'' 11]" "minute + 10"] show ?thesis
    by (simp add: New_def allow_def Sub_def)
qed

text \<open>
  Sweeping is transparent: as long as the clock does not run backwards, a new limiter lets exactly the same requests of every client through
  whether inactive clients are swept away at any times or kept for ever.
\<close>

theorem sweeping_transparent:
  assumes "sorted (map event_time es)"
  shows "fst (run_events c es (New perMinute registry)) = fst (run_events c (without_sweeps es) (New perMinute registry))"
proof (cases es)
  case (Cons e es')
  then have "\<forall>x \<in> set es. event_time e \<le> event_time x" using assms by auto
  moreover have "swept_of (event_time e) (New perMinute registry) (New perMinute registry)" by (simp add: swept_of_def New_def)
  ultimately show ?thesis using assms by (rule swept_run [rotated])
qed (simp add: without_sweeps_def)

theorem sweeping_transparent_witness:
  "fst (run_events ''a'' [Request ''a'' 0, Swept minute, Request ''a'' minute] (New 1 None)) =
   fst (run_events ''a'' (without_sweeps [Request ''a'' 0, Swept minute, Request ''a'' minute]) (New 1 None))"
  by (rule sweeping_transparent) simp

end
