(* ===== verification/Telemetry.thy ===== *)
theory Telemetry
  imports Go_Strings
begin

text \<open>
  W3C trace context (\<open>src/server/internal/telemetry/trace.go\<close>): parsing and printing of the \<open>traceparent\<close> header and the middleware that
  continues an incoming trace or starts a new one.
\<close>

record SpanContext =
  TraceID :: string
  Parent :: string

definition no_span :: SpanContext where
  "no_span = \<lparr>TraceID = [], Parent = []\<rparr>"

definition all_zero :: "string \<Rightarrow> bool" where
  "all_zero s \<longleftrightarrow> list_all (\<lambda>c. c = CHR ''0'') s"

definition ParseTraceparent :: "string \<Rightarrow> SpanContext" where
  "ParseTraceparent value =
    (case Split (TrimSpace value) (CHR ''-'') of
       [p0, p1, p2, p3] \<Rightarrow>
         if length p0 \<noteq> 2 \<or> p0 \<noteq> ''00'' \<or> length p1 \<noteq> 32 \<or> length p2 \<noteq> 16 \<or> length p3 \<noteq> 2 then no_span
         else if \<not> is_hex p1 \<or> \<not> is_hex p2 \<or> \<not> is_hex p3 \<or> all_zero p1 then no_span
         else \<lparr>TraceID = p1, Parent = p2\<rparr>
     | _ \<Rightarrow> no_span)"

definition FormatTraceparent :: "SpanContext \<Rightarrow> string" where
  "FormatTraceparent span =
    (if TraceID span = [] then []
     else let parent = (if length (Parent span) \<noteq> 16 \<or> \<not> is_hex (Parent span) then ''0000000000000001'' else Parent span)
       in ''00-'' @ TraceID span @ ''-'' @ parent @ ''-01'')"

definition randomHex :: "env \<Rightarrow> nat \<Rightarrow> nat \<Rightarrow> nat \<Rightarrow> string" where
  "randomHex E n size_bytes fallbackLength =
    (case rand_read E n size_bytes of
       None \<Rightarrow> replicate (fallbackLength - 1) (CHR ''0'') @ ''1''
     | Some bytes \<Rightarrow> EncodeToString bytes)"

definition newTraceID :: "env \<Rightarrow> nat \<Rightarrow> string" where
  "newTraceID E n = randomHex E n 16 32"

definition newSpanID :: "env \<Rightarrow> nat \<Rightarrow> string" where
  "newSpanID E n = randomHex E n 8 16"

text \<open>The middleware: the span the next handler finds in its context, and the two response headers.\<close>

definition Middleware :: "env \<Rightarrow> string \<Rightarrow> SpanContext \<times> string \<times> string" where
  "Middleware E header =
    (let span0 = ParseTraceparent header;
       span1 = (if TraceID span0 = [] then span0\<lparr>TraceID := newTraceID E 0\<rparr> else span0);
       span = span1\<lparr>Parent := newSpanID E 1\<rparr>
     in (span, FormatTraceparent span, TraceID span))"

section \<open>Lemmas\<close>

definition valid_span :: "SpanContext \<Rightarrow> bool" where
  "valid_span span \<longleftrightarrow> length (TraceID span) = 32 \<and> is_hex (TraceID span) \<and> \<not> all_zero (TraceID span) \<and>
     length (Parent span) = 16 \<and> is_hex (Parent span)"

lemma dash_not_hex: "is_hex s \<Longrightarrow> CHR ''-'' \<notin> set s"
  by (auto simp: list_all_iff is_hex_char_def)

lemma Split_part: "sep \<notin> set s \<Longrightarrow> Split s sep = [s]"
  by (induction s) auto

lemma Split_append: "sep \<notin> set s \<Longrightarrow> Split (s @ sep # t) sep = s # Split t sep"
  by (induction s) auto

lemma hex_visible: "is_hex s \<Longrightarrow> list_all visible s"
  by (auto simp: list_all_iff is_hex_visible)

lemma Parse_parts:
  assumes "is_hex p1" "is_hex p2" "is_hex p3" "length p1 = 32" "length p2 = 16" "length p3 = 2" "\<not> all_zero p1"
  shows "ParseTraceparent (''00-'' @ p1 @ ''-'' @ p2 @ ''-'' @ p3) = \<lparr>TraceID = p1, Parent = p2\<rparr>"
proof -
  have "list_all visible (''00-'' @ p1 @ ''-'' @ p2 @ ''-'' @ p3)"
    using assms(1-3) hex_visible by (simp add: visible_def)
  moreover have "Split (''00-'' @ p1 @ ''-'' @ p2 @ ''-'' @ p3) (CHR ''-'') = [''00'', p1, p2, p3]"
    using Split_append [of "CHR ''-''"] assms(1-3) [THEN dash_not_hex] by (simp add: Split_part)
  ultimately show ?thesis using assms by (simp add: ParseTraceparent_def TrimSpace_visible)
qed

lemma Parse_valid: "TraceID (ParseTraceparent h) \<noteq> [] \<Longrightarrow> valid_span (ParseTraceparent h)"
  by (auto simp: ParseTraceparent_def no_span_def valid_span_def split: list.splits if_splits)

lemma randomHex_hex: "is_hex (randomHex E n k m)"
proof (cases "rand_read E n k")
  case None
  then show ?thesis by (auto simp: randomHex_def is_hex_char_def list_all_iff)
qed (simp add: randomHex_def EncodeToString_is_hex)

lemma randomHex_length: "0 < m \<Longrightarrow> m = 2 * k \<Longrightarrow> length (randomHex E n k m) = m"
  by (auto simp: randomHex_def rand_read_length split: option.splits)

lemma valid_round: "valid_span span \<Longrightarrow> ParseTraceparent (FormatTraceparent span) = span"
  using Parse_parts [of "TraceID span" "Parent span" "''01''"]
  by (auto simp: valid_span_def FormatTraceparent_def is_hex_char_def)

section \<open>Properties\<close>

text \<open>
  Printing and parsing a trace context are inverse: what is printed for a well-formed span parses back to that span, and for every header, the
  span it parses to prints to a header that parses to the same span, malformed headers (which carry no span) included.
\<close>

theorem traceparent_roundtrip:
  "(valid_span span \<longrightarrow> ParseTraceparent (FormatTraceparent span) = span) \<and>
   ParseTraceparent (FormatTraceparent (ParseTraceparent header)) = ParseTraceparent header"
proof -
  have "ParseTraceparent (FormatTraceparent (ParseTraceparent header)) = ParseTraceparent header"
  proof (cases "TraceID (ParseTraceparent header) = []")
    case True
    then have "ParseTraceparent header = no_span"
      by (auto simp: ParseTraceparent_def split: list.splits if_splits)
    moreover have "ParseTraceparent [] = no_span" by (simp add: ParseTraceparent_def)
    ultimately show ?thesis by (simp add: FormatTraceparent_def no_span_def)
  qed (simp add: Parse_valid valid_round)
  then show ?thesis by (simp add: valid_round)
qed

definition sample_span :: SpanContext where
  "sample_span = \<lparr>TraceID = ''4bf92f3577b34da6a3ce929d0e0e4736'', Parent = ''00f067aa0ba902b7''\<rparr>"

theorem traceparent_roundtrip_witness: "ParseTraceparent (FormatTraceparent sample_span) = sample_span"
proof -
  have "valid_span sample_span" by code_simp
  with traceparent_roundtrip [of sample_span "[]"] show ?thesis by simp
qed

text \<open>
  The middleware always continues a trace. With any random source, also an unavailable one, as long as it does not draw sixteen zero bytes:
  the response header parses to exactly the span the handlers see, that span is well formed and fresh, its trace is the incoming one when
  the request carried a valid header, and \<open>X-Request-ID\<close> is that trace.
\<close>

theorem trace_propagates:
  assumes "Middleware E header = (span, traceparent, requestID)" "\<not> all_zero (newTraceID E 0)"
  shows "ParseTraceparent traceparent = span \<and> valid_span span \<and> Parent span = newSpanID E 1 \<and> requestID = TraceID span \<and>
    (TraceID (ParseTraceparent header) \<noteq> [] \<longrightarrow> TraceID span = TraceID (ParseTraceparent header))"
proof -
  let ?p = "ParseTraceparent header"
  have span: "span = \<lparr>TraceID = (if TraceID ?p = [] then newTraceID E 0 else TraceID ?p), Parent = newSpanID E 1\<rparr>"
    and rest: "traceparent = FormatTraceparent span" "requestID = TraceID span"
    using assms(1) [symmetric] by (auto simp: Middleware_def Let_def)
  have "valid_span span"
    unfolding span using Parse_valid [of header] assms(2)
    by (simp add: valid_span_def newTraceID_def newSpanID_def randomHex_hex randomHex_length)
  then show ?thesis using span rest valid_round [of span] by simp
qed

theorem trace_propagates_witness:
  "TraceID (fst (Middleware (quiet_env 0 (\<lambda>_. None)) (FormatTraceparent sample_span))) = TraceID sample_span"
proof -
  have "\<not> all_zero (newTraceID (quiet_env 0 (\<lambda>_. None)) 0)" by code_simp
  moreover have "ParseTraceparent (FormatTraceparent sample_span) = sample_span" by code_simp
  moreover obtain span h i where m: "Middleware (quiet_env 0 (\<lambda>_. None)) (FormatTraceparent sample_span) = (span, h, i)"
    by (rule prod_cases3)
  moreover have "TraceID sample_span \<noteq> []" by (simp add: sample_span_def)
  ultimately show ?thesis
    using trace_propagates [OF m] by simp
qed

end
