(* ===== verification/API_Server.thy ===== *)
theory API_Server
  imports HTTP_Safety Config Rate_Limit Telemetry Worker
begin

text \<open>
  The API process as a whole (\<open>Run\<close>, \<open>buildServer\<close>, \<open>WithM10Hardening\<close> and the middleware chain at the end of \<open>Handler\<close> in
  \<open>src/server/internal/httpserver/server.go\<close>) and the commands of \<open>src/server/cmd/repomender/main.go\<close> that choose what a process does.

  \<^item> \<open>parts\<close> are the services as the other theories model them, with their parameters; \<open>assemble\<close> configures and switches them on as \<open>Run\<close> does.
  \<^item> \<open>process\<close> is the state of a running server beside the database: the metrics registry with its token, and the limiter.
  \<^item> \<open>serve\<close> is one request through the chain: security headers, trace context, rate limit, metrics, route. A handler that panics, or never returns,
    is not recorded: the middleware records after the handler, and not in a deferred call.
\<close>

section \<open>The OIDC provider (oidc.go)\<close>

text \<open>
  The libraries go-oidc and oauth2 are the fields of \<open>oidc_world\<close>: discovery of the issuer's endpoint, the address of the login page, the exchange of the code
  (with the \<open>id_token\<close> of the answer, if it has one), the verification of a token for an issuer and a client, and the claims of a verified token.
\<close>

record oauth_config =
  oa_ClientID :: string
  oa_ClientSecret :: string
  oa_Endpoint :: string
  oa_RedirectURL :: string
  oa_Scopes :: "string list"

record oidc_world =
  ow_discover :: "string \<Rightarrow> string + string"
  ow_AuthCodeURL :: "oauth_config \<Rightarrow> string \<Rightarrow> (string \<times> string) list \<Rightarrow> string"
  ow_Exchange :: "oauth_config \<Rightarrow> env \<Rightarrow> string \<Rightarrow> (string \<times> string) list \<Rightarrow> string + string option"
  ow_Verify :: "string \<Rightarrow> string \<Rightarrow> env \<Rightarrow> string \<Rightarrow> string + json"
  ow_Claims :: "json \<Rightarrow> string + Identity"

definition provider_AuthCodeURL :: "oidc_world \<Rightarrow> oauth_config \<Rightarrow> string \<Rightarrow> string \<Rightarrow> string" where
  "provider_AuthCodeURL W oauth state challenge =
    ow_AuthCodeURL W oauth state [(''access_type'', ''offline''), (''code_challenge'', challenge), (''code_challenge_method'', ''S256'')]"

definition provider_Exchange :: "oidc_world \<Rightarrow> string \<Rightarrow> oauth_config \<Rightarrow> env \<Rightarrow> string \<Rightarrow> string \<Rightarrow> string + Identity" where
  "provider_Exchange W issuer oauth E code verifier =
    on_success (ow_Exchange W oauth (call E 0) code [(''code_verifier'', verifier)]) (\<lambda>extra.
      let rawIDToken = (case extra of Some raw \<Rightarrow> raw | None \<Rightarrow> [])
      in on_success (ow_Verify W issuer (oa_ClientID oauth) (call E 1) rawIDToken) (ow_Claims W))"

definition NewProvider :: "oidc_world \<Rightarrow> string \<Rightarrow> string \<Rightarrow> string \<Rightarrow> string \<Rightarrow> string + OIDCProvider" where
  "NewProvider W issuer clientID clientSecret redirectURL =
    on_success (ow_discover W issuer) (\<lambda>endpoint.
      let oauth = \<lparr>oa_ClientID = clientID, oa_ClientSecret = clientSecret, oa_Endpoint = endpoint, oa_RedirectURL = redirectURL,
        oa_Scopes = [''openid'', ''profile'', ''email'']\<rparr>
      in Inr \<lparr>oidc_AuthCodeURL = provider_AuthCodeURL W oauth, oidc_Exchange = provider_Exchange W issuer oauth\<rparr>)"

section \<open>Assembly (server.go)\<close>

record parts =
  pt_github :: github_world
  pt_gitlab :: gitlab_world
  pt_gcm :: "8 word list \<Rightarrow> string + aead"
  pt_scm :: scm_world
  pt_review :: review_world
  pt_diagnosis :: diagnosis_world
  pt_approvals :: approval_service
  pt_repair :: world
  pt_automations :: automation_world
  pt_runtime :: ac_world
  pt_stream :: "time option \<Rightarrow> stream_context"
  pt_oidc :: oidc_world
  pt_api :: api

definition github_config :: "Config \<Rightarrow> GitHubConfig" where
  "github_config cfg = \<lparr>ghc_AppID = cfg_GitHubAppID cfg, ghc_Slug = cfg_GitHubAppSlug cfg, ghc_PrivateKeyPEM = cfg_GitHubPrivateKey cfg,
     ghc_WebhookSecret = cfg_GitHubWebhookSecret cfg, ghc_APIBaseURL = cfg_GitHubAPIBaseURL cfg, ghc_WebBaseURL = cfg_GitHubWebBaseURL cfg\<rparr>"

definition gitlab_config :: "Config \<Rightarrow> GitLabConfig" where
  "gitlab_config cfg = \<lparr>glc_ClientID = cfg_GitLabClientID cfg, glc_ClientSecret = cfg_GitLabClientSecret cfg, glc_WebhookSecret = cfg_GitLabWebhookSecret cfg,
     glc_RedirectURL = TrimRight (cfg_PublicURL cfg) (CHR ''/'') @ ''/api/v1/scm/gitlab/callback'',
     glc_APIBaseURL = cfg_GitLabAPIBaseURL cfg, glc_WebBaseURL = cfg_GitLabWebBaseURL cfg\<rparr>"

definition runtime_config :: "Config \<Rightarrow> ac_config" where
  "runtime_config cfg = \<lparr>acc_BaseURL = cfg_ACBaseURL cfg, acc_AuthToken = cfg_ACAuthToken cfg, acc_RequiredVersion = cfg_ACRequiredVersion cfg,
     acc_RequiredDriver = cfg_ACRequiredDriver cfg, acc_RequestTimeout = cfg_ACRequestTimeout cfg, acc_SensitivePatterns = cfg_ACSensitivePatterns cfg\<rparr>"

definition oidc_of :: "parts \<Rightarrow> Config \<Rightarrow> OIDCProvider option" where
  "oidc_of P cfg =
    (if cfg_OIDCIssuer cfg = [] then None
     else case NewProvider (pt_oidc P) (cfg_OIDCIssuer cfg) (cfg_OIDCClientID cfg) (cfg_OIDCClientSecret cfg)
         (TrimRight (cfg_PublicURL cfg) (CHR ''/'') @ ''/api/v1/auth/oidc/callback'') of Inl _ \<Rightarrow> None | Inr discovered \<Rightarrow> Some discovered)"

definition scm_of :: "parts \<Rightarrow> Config \<Rightarrow> bool \<Rightarrow> string + scm_world" where
  "scm_of P cfg withGitLab =
    on_success (NewSecretBox (pt_gcm P) (cfg_SCMMasterKey cfg)) (\<lambda>box.
    on_success (NewGitHubAdapter (pt_github P) (github_config cfg)) (\<lambda>github.
      Inr ((pt_scm P)\<lparr>sw_box := box, sw_adapters := NewService (Some (github_adapter (pt_github P) github) #
        (if withGitLab then [Some (gitlab_adapter (pt_gitlab P) (NewGitLabAdapter (gitlab_config cfg)))] else []))\<rparr>)))"

definition optionally :: "bool \<Rightarrow> string + 'a \<Rightarrow> string + 'a option" where
  "optionally enabled r = (if enabled then map_sum id Some r else Inr None)"

text \<open>
  The services of the API. The readiness dependency that is an execution adapter is the client of the agent runtime; the version is known to the server
  only with M10, in which \<open>buildServer\<close> adds observability.
\<close>

definition assemble :: "parts \<Rightarrow> Config \<Rightarrow> string + api" where
  "assemble P cfg =
    on_success (optionally (cfg_FeatureM2SCM cfg) (scm_of P cfg (cfg_FeatureGitLab cfg))) (\<lambda>scmService.
    on_success (optionally (cfg_FeatureM3ACExecution cfg) (ac_New (runtime_config cfg))) (\<lambda>acClient.
      let taskService = cfg_FeatureM4Tasks cfg;
          approvalService = (if cfg_FeatureM7Approvals cfg \<and> cfg_FeatureM4Tasks cfg \<and> taskService then Some (pt_approvals P) else None)
      in Inr ((pt_api P)\<lparr>
        sv_scm := (case scmService of None \<Rightarrow> pt_scm P | Some W \<Rightarrow> W),
        sv_review := (if cfg_FeatureM5CodeReview cfg \<and> cfg_FeatureM2SCM cfg \<and> cfg_FeatureM4Tasks cfg \<and> scmService \<noteq> None \<and> taskService
          then Some (pt_review P) else None),
        sv_diagnosis := (if cfg_FeatureM6CIDiagnosis cfg \<and> cfg_FeatureM2SCM cfg \<and> cfg_FeatureM4Tasks cfg \<and> scmService \<noteq> None \<and> taskService
          then Some (pt_diagnosis P) else None),
        sv_repair := (if cfg_FeatureM8IssueRepair cfg \<and> cfg_FeatureM7Approvals cfg \<and> cfg_FeatureM4Tasks cfg \<and> taskService \<and>
            approvalService \<noteq> None \<and> scmService \<noteq> None then Some (pt_repair P) else None),
        sv_automations := (if cfg_FeatureM9Automations cfg \<and> taskService then Some (pt_automations P) else None),
        api_sessionTTL := cfg_SessionTTL cfg, api_oidc := oidc_of P cfg, api_auth := True, api_scm := (scmService \<noteq> None),
        api_tasks := taskService, api_approvals := approvalService,
        api_execution := map_option (\<lambda>C. client_adapter (pt_runtime P) C (pt_stream P)) acClient,
        api_cookieSecure := cfg_CookieSecure cfg, api_serviceVersion := (if cfg_FeatureM10Hardening cfg then cfg_ServiceVersion cfg else []),
        ready_checks := (case acClient of None \<Rightarrow> [] | Some C \<Rightarrow> [\<lambda>E. map_option ac_text (Check (pt_runtime P) C)])\<rparr>)))"

record process =
  pr_registry :: "(Registry \<times> string) option"
  pr_limiter :: "Limiter option"

definition buildServer :: "Config \<Rightarrow> process" where
  "buildServer cfg =
    (if cfg_FeatureM10Hardening cfg
     then \<lparr>pr_registry = Some (New_registry (cfg_ServiceVersion cfg), cfg_MetricsToken cfg), pr_limiter = Some (New (cfg_RateLimitPerMinute cfg) (Some 0))\<rparr>
     else \<lparr>pr_registry = None, pr_limiter = None\<rparr>)"

section \<open>One request\<close>

record arrival =
  arr_tls :: bool
  arr_remote :: string
  arr_now :: time
  arr_elapsed :: duration
  arr_path :: string
  arr_request :: http_request

definition matched_pattern :: "api \<Rightarrow> gaps \<Rightarrow> string \<Rightarrow> string list \<Rightarrow> string" where
  "matched_pattern S G verb path =
    (case find (\<lambda>(m, pattern, h). method_matches m verb \<and> path_matches pattern path) (routes S G) of
       Some (m, pattern, h) \<Rightarrow> m @ '' '' @ pattern | None \<Rightarrow> [])"

definition answered :: "http_reply \<Rightarrow> bool" where
  "answered rp = (case rp_Body rp of Aborted \<Rightarrow> False | Unanswered \<Rightarrow> False | _ \<Rightarrow> True)"

definition rate_limited :: http_reply where
  "rate_limited = writeError 429 ''rate_limited''"

definition serve ::
  "api \<Rightarrow> gaps \<Rightarrow> (nat \<Rightarrow> server_db \<Rightarrow> server_db) \<Rightarrow> env \<Rightarrow> arrival \<Rightarrow> process \<Rightarrow> server_db \<Rightarrow>
   ((string \<times> string) list \<times> http_reply) \<times> process \<times> server_db" where
  "serve S G bt E a p s =
    (let headers = securityHeaders (api_cookieSecure S) (arr_tls a); r = arr_request a; path = segments (arr_path a); G1 = G\<lparr>gp_metrics := pr_registry p\<rparr>
     in case pr_registry p of
       None \<Rightarrow> (case mux S G1 bt (call E 1) path r s of (rp, s1) \<Rightarrow> ((headers, rp), p, s1))
     | Some (registry, metricsToken) \<Rightarrow>
         (case Telemetry.Middleware (call E 0) (rq_Header r ''traceparent'') of (_, traceparent, requestID) \<Rightarrow>
         (case Rate_Limit.Middleware (arr_path a) (arr_remote a) (arr_now a) (pr_limiter p) of
            (TooManyRequests retryAfter _, limiter) \<Rightarrow>
              ((headers @ [(''traceparent'', traceparent), (''X-Request-ID'', requestID), (''Retry-After'', retryAfter)], rate_limited),
               p\<lparr>pr_registry := Some (RecordRateLimitRejection registry, metricsToken), pr_limiter := limiter\<rparr>, s)
          | (Next, limiter) \<Rightarrow>
              (case mux S G1 bt (call E 1) path r s of (rp, s1) \<Rightarrow>
                 let pattern = matched_pattern S G1 (rq_Method r) path;
                     registry1 = (if answered rp
                       then Record_request (rq_Method r) (if pattern = [] then normalizedPath (arr_path a) else pattern) (rp_Status rp) (arr_elapsed a) registry
                       else registry)
                 in ((headers @ [(''traceparent'', traceparent), (''X-Request-ID'', requestID)], rp),
                     p\<lparr>pr_registry := Some (registry1, metricsToken), pr_limiter := limiter\<rparr>, s1)))))"

text \<open>A run of the server: the arrivals with what surrounds them, and the replies with their headers.\<close>

fun serve_all ::
  "api \<Rightarrow> (gaps \<times> (nat \<Rightarrow> server_db \<Rightarrow> server_db) \<times> env \<times> arrival) list \<Rightarrow> process \<Rightarrow> server_db \<Rightarrow>
   ((string \<times> string) list \<times> http_reply) list \<times> process \<times> server_db" where
  "serve_all S [] p s = ([], p, s)"
| "serve_all S ((G, bt, E, a) # rest) p s =
    (case serve S G bt E a p s of (rp, p1, s1) \<Rightarrow> case serve_all S rest p1 s1 of (rps, p2, s2) \<Rightarrow> (rp # rps, p2, s2))"

section \<open>Commands (main.go)\<close>

datatype action = PrintVersion string | StartAPI Config | StartWorker Config | MigrateTo bool | PingDatabase | PruneOnce Config | Stop string

text \<open>
  \<open>run\<close> up to the point where the command starts: the configuration is loaded for every command but \<open>version\<close>. \<open>opened\<close> is the error of
  \<open>database.Open\<close>, if any; the migrations before \<open>api\<close> and \<open>worker\<close> are part of the start.
\<close>

definition run_command ::
  "(string \<Rightarrow> (string \<times> string) option) \<Rightarrow> (string \<rightharpoonup> string) \<Rightarrow> (string \<rightharpoonup> string) \<Rightarrow> string \<Rightarrow> (string \<Rightarrow> string option) \<Rightarrow> string list \<Rightarrow> action" where
  "run_command parse_url read_file lookup buildVersion opened args =
    (case args of
       [] \<Rightarrow> Stop ''usage: repomender <api|worker|migrate|retention|healthcheck|version>''
     | command # options \<Rightarrow>
         if command = ''version'' then
           (case valueOrDefault lookup ''REPOMENDER_SERVICE_VERSION'' [] of v \<Rightarrow> PrintVersion (if v = [] \<or> v = ''dev'' then buildVersion else v))
         else (case Load parse_url read_file lookup of
           Inl e \<Rightarrow> Stop (''load configuration: '' @ e)
         | Inr cfg0 \<Rightarrow>
             let cfg = (if cfg_ServiceVersion cfg0 = ''dev'' \<and> buildVersion \<noteq> ''dev'' then cfg0\<lparr>cfg_ServiceVersion := buildVersion\<rparr> else cfg0)
             in case opened (cfg_DatabaseURL cfg) of
                  Some e \<Rightarrow> Stop (''connect database: '' @ e)
                | None \<Rightarrow>
                    if command = ''api'' then StartAPI cfg
                    else if command = ''worker'' then StartWorker cfg
                    else if command = ''migrate'' then
                      (let direction = (case options of [] \<Rightarrow> ''up'' | d # _ \<Rightarrow> d)
                       in if direction = ''up'' then MigrateTo True else if direction = ''down'' then MigrateTo False
                          else Stop (''unknown migration direction '' @ direction))
                    else if command = ''healthcheck'' then PingDatabase
                    else if command = ''retention'' then
                      (if \<not> cfg_FeatureM10Hardening cfg then Stop ''retention requires REPOMENDER_FEATURE_M10_HARDENING=true'' else PruneOnce cfg)
                    else Stop (''unknown command '' @ command)))"

text \<open>What the worker starts: nothing but health checks without M4; else the retention loop, if M10 asks for it, and the queue with the processors of the enabled features.\<close>

definition newGitHubService :: "parts \<Rightarrow> Config \<Rightarrow> string + scm_world" where
  "newGitHubService P cfg = scm_of P cfg False"

definition worker_start :: "parts \<Rightarrow> Config \<Rightarrow> string + (bool \<times> worker_config \<times> (Client \<times> scm_world) option) option" where
  "worker_start P cfg =
    (if \<not> cfg_FeatureM4Tasks cfg then Inr None
     else
       let queue = \<lparr>FeatureM5CodeReview = cfg_FeatureM5CodeReview cfg, FeatureM6CIDiagnosis = cfg_FeatureM6CIDiagnosis cfg,
         FeatureM8IssueRepair = cfg_FeatureM8IssueRepair cfg, FeatureM10Hardening = cfg_FeatureM10Hardening cfg,
         RetentionDays = cfg_RetentionDays cfg, WorkerPoll = cfg_WorkerPoll cfg\<rparr>
       in if cfg_FeatureM5CodeReview cfg \<or> cfg_FeatureM6CIDiagnosis cfg \<or> cfg_FeatureM8IssueRepair cfg
          then if \<not> cfg_FeatureM3ACExecution cfg then Inl ''M5/M6 execution requires M3 AC execution''
               else on_success (ac_New (runtime_config cfg)) (\<lambda>acClient.
                 on_success (newGitHubService P cfg) (\<lambda>githubService. Inr (Some (cfg_FeatureM10Hardening cfg, queue, Some (acClient, githubService)))))
          else Inr (Some (cfg_FeatureM10Hardening cfg, queue, None)))"

definition workerOwner :: "string option \<Rightarrow> nat \<Rightarrow> string" where
  "workerOwner hostname pid = (case hostname of None \<Rightarrow> ''unknown-host'' | Some h \<Rightarrow> if h = [] then ''unknown-host'' else h) @ '':'' @ itoa (int pid)"

section \<open>Properties\<close>

lemma on_success_Inr: "on_success r f = Inr y \<longleftrightarrow> (\<exists>x. r = Inr x \<and> f x = Inr y)"
  by (cases r) (simp_all add: on_success_def)

lemma optionally_Inr: "optionally c r = Inr y \<longleftrightarrow> (if c then \<exists>x. r = Inr x \<and> y = Some x else y = None)"
  by (cases r) (auto simp: optionally_def)

text \<open>
  C22. What is configured is served: for a configuration that was loaded, the assembled server has each service exactly when its feature is enabled. The further conditions
  that \<open>Run\<close> puts on each service never disable one, and the agent runtime, whose client is the execution adapter, is asked for readiness.
\<close>

theorem configured_is_served:
  assumes "Load parse_url read_file lookup = Inr cfg" "assemble P cfg = Inr S"
  shows "api_scm S = cfg_FeatureM2SCM cfg \<and> (api_execution S \<noteq> None) = cfg_FeatureM3ACExecution cfg \<and> api_tasks S = cfg_FeatureM4Tasks cfg \<and>
    (sv_review S \<noteq> None) = cfg_FeatureM5CodeReview cfg \<and> (sv_diagnosis S \<noteq> None) = cfg_FeatureM6CIDiagnosis cfg \<and>
    (api_approvals S \<noteq> None) = cfg_FeatureM7Approvals cfg \<and> (sv_repair S \<noteq> None) = cfg_FeatureM8IssueRepair cfg \<and>
    (sv_automations S \<noteq> None) = cfg_FeatureM9Automations cfg \<and> (pr_registry (buildServer cfg) \<noteq> None) = cfg_FeatureM10Hardening cfg \<and>
    api_auth S \<and> 0 < api_sessionTTL S \<and> (ready_checks S \<noteq> []) = cfg_FeatureM3ACExecution cfg"
proof -
  note cfg = loaded_config_consistent [OF assms(1)]
  obtain scmService acClient where parts: "optionally (cfg_FeatureM2SCM cfg) (scm_of P cfg (cfg_FeatureGitLab cfg)) = Inr scmService"
    "optionally (cfg_FeatureM3ACExecution cfg) (ac_New (runtime_config cfg)) = Inr acClient"
    using assms(2) by (auto simp: assemble_def on_success_Inr)
  then have on: "(scmService \<noteq> None) = cfg_FeatureM2SCM cfg" "(acClient \<noteq> None) = cfg_FeatureM3ACExecution cfg"
    by (auto simp: optionally_Inr split: if_splits)
  note S = assms(2) [unfolded assemble_def parts on_success_def sum.case Let_def sum.inject, symmetric]
  have flags: "api_scm S = (scmService \<noteq> None)" "api_tasks S = cfg_FeatureM4Tasks cfg" "api_auth S" "api_sessionTTL S = cfg_SessionTTL cfg"
      "(api_execution S \<noteq> None) = (acClient \<noteq> None)" "(ready_checks S \<noteq> []) = (acClient \<noteq> None)"
    by (simp_all add: S split: option.splits)
  have gates: "(api_approvals S \<noteq> None) = (cfg_FeatureM7Approvals cfg \<and> cfg_FeatureM4Tasks cfg)"
      "(sv_review S \<noteq> None) = (cfg_FeatureM5CodeReview cfg \<and> cfg_FeatureM2SCM cfg \<and> cfg_FeatureM4Tasks cfg \<and> scmService \<noteq> None)"
      "(sv_diagnosis S \<noteq> None) = (cfg_FeatureM6CIDiagnosis cfg \<and> cfg_FeatureM2SCM cfg \<and> cfg_FeatureM4Tasks cfg \<and> scmService \<noteq> None)"
      "(sv_repair S \<noteq> None) = (cfg_FeatureM8IssueRepair cfg \<and> cfg_FeatureM7Approvals cfg \<and> cfg_FeatureM4Tasks cfg \<and> scmService \<noteq> None)"
      "(sv_automations S \<noteq> None) = (cfg_FeatureM9Automations cfg \<and> cfg_FeatureM4Tasks cfg)"
    by (simp_all add: S)
  have "(pr_registry (buildServer cfg) \<noteq> None) = cfg_FeatureM10Hardening cfg" by (simp add: buildServer_def)
  then show ?thesis
    using cfg flags(3) unfolding flags gates on by (intro conjI) auto
qed

text \<open>
  The worker starts where the API does: a loaded configuration whose API can be assembled also starts the worker, with processors for exactly the enabled kinds of task; the error
  about a missing agent runtime cannot occur.
\<close>

theorem worker_starts_with_api:
  assumes "Load parse_url read_file lookup = Inr cfg" "assemble P cfg = Inr S"
  shows "\<exists>plan. worker_start P cfg = Inr plan \<and> (plan \<noteq> None) = cfg_FeatureM4Tasks cfg \<and>
    (\<forall>hardened queue runtime. plan = Some (hardened, queue, runtime) \<longrightarrow>
       (runtime \<noteq> None) = (cfg_FeatureM5CodeReview cfg) \<and> (FeatureM6CIDiagnosis queue \<longrightarrow> FeatureM5CodeReview queue) \<and>
       (hardened \<longrightarrow> FeatureM8IssueRepair queue) \<and> 0 < WorkerPoll queue)"
proof -
  note cfg = loaded_config_consistent [OF assms(1)]
  show ?thesis
  proof (cases "cfg_FeatureM5CodeReview cfg")
    case True
    with cfg have on: "cfg_FeatureM2SCM cfg" "cfg_FeatureM3ACExecution cfg" "cfg_FeatureM4Tasks cfg" by auto
    obtain W C where parts: "scm_of P cfg (cfg_FeatureGitLab cfg) = Inr W" "ac_New (runtime_config cfg) = Inr C"
      using assms(2) on by (auto simp: assemble_def on_success_Inr optionally_Inr)
    then obtain W' where "newGitHubService P cfg = Inr W'"
      by (auto simp: newGitHubService_def scm_of_def on_success_Inr)
    with parts on True cfg show ?thesis by (auto simp: worker_start_def on_success_def Let_def)
  next
    case False
    with cfg show ?thesis by (auto simp: worker_start_def Let_def)
  qed
qed

text \<open>
  C23. An OIDC session needs a verified token: when the callback sets cookies, the state of the request was that of an open flow, the identity provider exchanged the code for the flow's own
  PKCE verifier, the token it returned was verified for the configured issuer and client, and its claims have a subject and a verified address.
\<close>

theorem oidc_session_verified:
  assumes "NewProvider W issuer clientID clientSecret redirectURL = Inr provider" "api_oidc S = Some provider"
    and "rp_Cookies (fst (oidcCallback S bt E r s)) \<noteq> []"
  shows "\<exists>flow db oauth extra content identity. ConsumeOIDC (api_crypto S) (call E 1) (rq_Query r ''state'') (srv_auth s) = (Inr flow, db) \<and>
    ow_Exchange W oauth (call (call E 2) 0) (rq_Query r ''code'') [(''code_verifier'', flow_Verifier flow)] = Inr extra \<and>
    ow_Verify W issuer clientID (call (call E 2) 1) (case extra of Some raw \<Rightarrow> raw | None \<Rightarrow> []) = Inr content \<and>
    ow_Claims W content = Inr identity \<and> id_Subject identity \<noteq> [] \<and> id_EmailVerified identity"
proof -
  have no_cookie: "rp_Cookies (writeError status code) = []" "rp_Cookies aborted = []" for status code
    by (simp_all add: writeError_def writeJSON_def aborted_def)
  obtain fr db where consume: "ConsumeOIDC (api_crypto S) (call E 1) (rq_Query r ''state'') (srv_auth s) = (fr, db)" by fastforce
  with assms(2,3) obtain flow where flow: "fr = Inr flow"
    by (cases fr) (auto simp: oidcCallback_def on_auth_def no_cookie)
  with assms(2,3) consume obtain identity where identity: "oidc_Exchange provider (call E 2) (rq_Query r ''code'') (flow_Verifier flow) = Inr identity"
    by (cases "oidc_Exchange provider (call E 2) (rq_Query r ''code'') (flow_Verifier flow)") (auto simp: oidcCallback_def on_auth_def no_cookie)
  have "\<not> isl (fst (LoginOIDC (api_crypto S) (call E 3) (api_sessionTTL S) identity (srv_auth (bt 3 (s\<lparr>srv_auth := db\<rparr>)))))"
    using assms(2,3) consume flow identity by (auto simp: oidcCallback_def on_auth_def no_cookie isl_def split: prod.splits sum.splits if_splits)
  then have "id_Subject identity \<noteq> []" "id_EmailVerified identity" by (auto simp: LoginOIDC_def split: sum.splits if_splits)
  moreover obtain endpoint where "provider = \<lparr>oidc_AuthCodeURL = provider_AuthCodeURL W \<lparr>oa_ClientID = clientID, oa_ClientSecret = clientSecret,
      oa_Endpoint = endpoint, oa_RedirectURL = redirectURL, oa_Scopes = [''openid'', ''profile'', ''email'']\<rparr>,
    oidc_Exchange = provider_Exchange W issuer \<lparr>oa_ClientID = clientID, oa_ClientSecret = clientSecret, oa_Endpoint = endpoint,
      oa_RedirectURL = redirectURL, oa_Scopes = [''openid'', ''profile'', ''email'']\<rparr>\<rparr>"
    using assms(1) by (auto simp: NewProvider_def on_success_Inr Let_def)
  ultimately show ?thesis
    using consume flow identity by (auto simp: provider_Exchange_def on_success_Inr Let_def)
qed

section \<open>Accounting\<close>

text \<open>The pattern a request matches does not depend on what the registry holds.\<close>

lemma find_row: "find (\<lambda>(m, pattern, h). P m pattern) rs = None \<longleftrightarrow> find (\<lambda>(m, pattern). P m pattern) (map row_of rs) = None"
  "find (\<lambda>(m, pattern, h). P m pattern) rs = Some (m, pattern, h) \<Longrightarrow> find (\<lambda>(m, pattern). P m pattern) (map row_of rs) = Some (m, pattern)"
  by (induction rs) (auto simp: row_of_def split: if_splits)

lemma matched_pattern_rows:
  "matched_pattern S G verb path =
    (case find (\<lambda>(m, pattern). method_matches m verb \<and> path_matches pattern path) (map row_of (routes S G)) of
       Some (m, pattern) \<Rightarrow> m @ '' '' @ pattern | None \<Rightarrow> [])"
  using find_row [of "\<lambda>m pattern. method_matches m verb \<and> path_matches pattern path" "routes S G"]
  by (cases "find (\<lambda>(m, pattern, h). method_matches m verb \<and> path_matches pattern path) (routes S G)") (auto simp: matched_pattern_def)

lemma matched_pattern_registry:
  "matched_pattern S (G\<lparr>gp_metrics := Some x\<rparr>) verb path = matched_pattern S (G\<lparr>gp_metrics := Some y\<rparr>) verb path"
  by (simp add: matched_pattern_rows rows_of_routes)

text \<open>
  How a reply is accounted for: refused by the limiter, which is the only part of the chain that sets \<open>Retry-After\<close>, or under its method, its route and the class of its status. The
  route is the pattern the multiplexer matched, and the normalised path when nothing matched.
\<close>

definition refused :: "(string \<times> string) list \<times> http_reply \<Rightarrow> bool" where
  "refused reply \<longleftrightarrow> ''Retry-After'' \<in> fst ` set (fst reply)"

definition reply_key :: "api \<Rightarrow> Config \<Rightarrow> gaps \<Rightarrow> arrival \<Rightarrow> http_reply \<Rightarrow> metric_key" where
  "reply_key S cfg G a rp =
    (let pattern = matched_pattern S (G\<lparr>gp_metrics := pr_registry (buildServer cfg)\<rparr>) (rq_Method (arr_request a)) (segments (arr_path a))
     in \<lparr>mk_method = rq_Method (arr_request a), mk_route = (if pattern = [] then normalizedPath (arr_path a) else pattern),
         mk_status = itoa (rp_Status rp div 100) @ ''xx''\<rparr>)"

definition replies_with :: "api \<Rightarrow> Config \<Rightarrow> metric_key \<Rightarrow> ((gaps \<times> (nat \<Rightarrow> server_db \<Rightarrow> server_db) \<times> env \<times> arrival) \<times> (string \<times> string) list \<times> http_reply) list \<Rightarrow> nat" where
  "replies_with S cfg k served =
    length (filter (\<lambda>((G, bt, E, a), reply). \<not> refused reply \<and> answered (snd reply) \<and> reply_key S cfg G a (snd reply) = k) served)"

lemma counted_refusal [simp]: "counted (RecordRateLimitRejection r) k = counted r k"
  by (simp add: counted_def RecordRateLimitRejection_def)

lemma rejected_Record [simp]: "rateLimitRejected (Record_request verb route status elapsed r) = rateLimitRejected r"
  by (simp add: Record_request_def Let_def)

lemma security_headers_refused: "''Retry-After'' \<notin> fst ` set (securityHeaders secure tls)"
  by (auto simp: securityHeaders_def)

lemma normalizedPath_nonempty: "normalizedPath path \<noteq> []"
  by (simp add: normalizedPath_def)

text \<open>One request moves exactly one counter of the registry by one, unless it is not answered.\<close>

lemma serve_accounts:
  assumes "serve S G bt E a p s = (reply, p', s')" "pr_registry p = Some (registry, token)" "cfg_FeatureM10Hardening cfg"
  shows "\<exists>registry'. pr_registry p' = Some (registry', token) \<and>
    rateLimitRejected registry' = rateLimitRejected registry + of_bool (refused reply) \<and>
    (\<forall>k. counted registry' k = counted registry k + of_nat (replies_with S cfg k [((G, bt, E, a), reply)]))"
proof -
  obtain headers rp where reply: "reply = (headers, rp)" by fastforce
  have start: "pr_registry (buildServer cfg) = Some (New_registry (cfg_ServiceVersion cfg), cfg_MetricsToken cfg)"
    using assms(3) by (simp add: buildServer_def)
  obtain limiter answer where lim: "Rate_Limit.Middleware (arr_path a) (arr_remote a) (arr_now a) (pr_limiter p) = (answer, limiter)" by fastforce
  obtain rp1 s1 where mux: "mux S (G\<lparr>gp_metrics := pr_registry p\<rparr>) bt (call E 1) (segments (arr_path a)) (arr_request a) s = (rp1, s1)" by fastforce
  obtain v traceparent requestID where trace: "Telemetry.Middleware (call E 0) (rq_Header (arr_request a) ''traceparent'') = (v, traceparent, requestID)"
    by (metis prod.exhaust)
  show ?thesis
  proof (cases answer)
    case Next
    let ?pattern = "matched_pattern S (G\<lparr>gp_metrics := pr_registry p\<rparr>) (rq_Method (arr_request a)) (segments (arr_path a))"
    let ?route = "if ?pattern = [] then normalizedPath (arr_path a) else ?pattern"
    have out: "pr_registry p' = Some (if answered rp then Record_request (rq_Method (arr_request a)) ?route (rp_Status rp) (arr_elapsed a) registry else registry, token)"
      and headers: "headers = securityHeaders (api_cookieSecure S) (arr_tls a) @ [(''traceparent'', traceparent), (''X-Request-ID'', requestID)]"
      using assms(1,2) lim mux trace Next unfolding reply serve_def Let_def by auto
    have "reply_key S cfg G a rp = request_key (rq_Method (arr_request a)) ?route (rp_Status rp)"
      unfolding reply_key_def start matched_pattern_registry [where x = "(New_registry (cfg_ServiceVersion cfg), cfg_MetricsToken cfg)" and y = "(registry, token)"]
      using assms(2) normalizedPath_nonempty by (simp add: request_key_def Let_def)
    moreover have "\<not> refused reply" using security_headers_refused by (auto simp: refused_def reply headers)
    ultimately show ?thesis using out by (auto simp: replies_with_def reply counted_Record)
  next
    case (TooManyRequests retryAfter content)
    have out: "pr_registry p' = Some (RecordRateLimitRejection registry, token)" and "(''Retry-After'', retryAfter) \<in> set headers"
      using assms(1,2) lim trace TooManyRequests unfolding reply serve_def Let_def by auto
    then have "refused reply" unfolding refused_def reply by force
    then show ?thesis using out by (auto simp: replies_with_def) (simp add: RecordRateLimitRejection_def)
  qed
qed

lemma replies_with_Cons: "replies_with S cfg k (x # xs) = replies_with S cfg k [x] + replies_with S cfg k xs"
  by (simp add: replies_with_def)

lemma serve_all_accounts:
  assumes "serve_all S arrivals p s = (rps, p', s')" "pr_registry p = Some (registry, token)" "cfg_FeatureM10Hardening cfg"
  shows "length rps = length arrivals \<and> (\<exists>registry'. pr_registry p' = Some (registry', token) \<and>
    rateLimitRejected registry' = rateLimitRejected registry + of_nat (length (filter refused rps)) \<and>
    (\<forall>k. counted registry' k = counted registry k + of_nat (replies_with S cfg k (zip arrivals rps))))"
  using assms(1,2)
proof (induction S arrivals p s arbitrary: rps p' s' registry rule: serve_all.induct)
  case (1 S p s)
  then show ?case by (simp add: replies_with_def)
next
  case (2 S G bt E a rest p s)
  obtain reply p1 s1 where run: "serve S G bt E a p s = (reply, p1, s1)" by (metis prod.exhaust)
  obtain rps' p2 s2 where more: "serve_all S rest p1 s1 = (rps', p2, s2)" by (metis prod.exhaust)
  have out: "rps = reply # rps'" "p' = p2" using "2.prems"(1) run more by simp_all
  from serve_accounts [OF run "2.prems"(2) assms(3)] obtain r1 where r1: "pr_registry p1 = Some (r1, token)"
    "rateLimitRejected r1 = rateLimitRejected registry + of_bool (refused reply)"
    "\<And>k. counted r1 k = counted registry k + of_nat (replies_with S cfg k [((G, bt, E, a), reply)])" by blast
  from "2.IH" [OF run [symmetric] refl more r1(1)] obtain r2 where r2: "length rps' = length rest" "pr_registry p2 = Some (r2, token)"
    "rateLimitRejected r2 = rateLimitRejected r1 + of_nat (length (filter refused rps'))"
    "\<And>k. counted r2 k = counted r1 k + of_nat (replies_with S cfg k (zip rest rps'))" by blast
  have "counted r2 k = counted registry k + of_nat (replies_with S cfg k (zip ((G, bt, E, a) # rest) (reply # rps')))" for k
    unfolding zip_Cons_Cons replies_with_Cons [of S cfg k _ "zip rest rps'"] by (simp add: r1(3) r2(4) algebra_simps)
  with r1 r2 show ?case by (auto simp: out algebra_simps)
qed

text \<open>
  C38. Nothing goes uncounted: from its start, a server with observability counts every reply exactly once, whatever mixture of clients, routes and other processes it serves. The counter of rejections is the number of
  requests that the limiter refused, which carry \<open>Retry-After\<close> and are counted nowhere else; and for every method, route and status class, its counter is the number of the other answered replies with that
  method, route and status class, all modulo 2 to the 64. (A handler that panics or never returns answers nothing and is not counted. The comment on the metrics middleware says that it records the refusals too, but the
  chain puts it inside the limiter.)
\<close>

theorem every_reply_counted:
  assumes "serve_all S arrivals (buildServer cfg) s = (rps, p, s')" "cfg_FeatureM10Hardening cfg"
  shows "length rps = length arrivals \<and> (\<exists>registry metricsToken. pr_registry p = Some (registry, metricsToken) \<and>
    rateLimitRejected registry = of_nat (length (filter refused rps)) \<and>
    (\<forall>k. counted registry k = of_nat (length (filter
      (\<lambda>((G, bt, E, a), reply). \<not> refused reply \<and> answered (snd reply) \<and> reply_key S cfg G a (snd reply) = k) (zip arrivals rps)))))"
proof -
  have "pr_registry (buildServer cfg) = Some (New_registry (cfg_ServiceVersion cfg), cfg_MetricsToken cfg)"
    using assms(2) by (simp add: buildServer_def)
  from serve_all_accounts [OF assms(1) this assms(2)] show ?thesis
    by (simp add: replies_with_def) (auto simp: New_registry_def counted_def)
qed

text \<open>
  A refused request is inert, but no response of the metrics: when the limiter refuses a request, it is answered 429, the database is untouched, and the registry
  counts a rejection but no response, for \<open>Handler\<close> puts the metrics inside the limiter; the comment on the metrics middleware says that it records the failures of the rate-limit layer too.
\<close>

theorem refused_request_inert:
  assumes "pr_registry p = Some (registry, metricsToken)" "Rate_Limit.Middleware (arr_path a) (arr_remote a) (arr_now a) (pr_limiter p) = (TooManyRequests retryAfter content, limiter)"
  shows "snd (fst (serve S G bt E a p s)) = rate_limited \<and> snd (snd (serve S G bt E a p s)) = s \<and>
    (''Retry-After'', retryAfter) \<in> set (fst (fst (serve S G bt E a p s))) \<and>
    (\<exists>registry'. pr_registry (fst (snd (serve S G bt E a p s))) = Some (registry', metricsToken) \<and>
       requests registry' = requests registry \<and> rateLimitRejected registry' = rateLimitRejected registry + 1)"
  using assms by (simp add: serve_def Let_def RecordRateLimitRejection_def split: prod.splits)

section \<open>Witnesses\<close>

definition sample_oidc :: oidc_world where
  "sample_oidc = \<lparr>ow_discover = (\<lambda>issuer. Inr (issuer @ ''/token'')), ow_AuthCodeURL = (\<lambda>c state _. oa_Endpoint c @ state), ow_Exchange = (\<lambda>c E code extra. Inr (Some code)),
     ow_Verify = (\<lambda>issuer client E raw. if raw = ''good'' then Inr raw else Inl ''signature''),
     ow_Claims = (\<lambda>_. Inr \<lparr>id_Subject = ''s1'', id_Email = ''dev@x'', id_Name = ''Dev'', id_EmailVerified = True\<rparr>)\<rparr>"

definition sample_parts :: parts where
  "sample_parts = \<lparr>pt_github = sample_github, pt_gitlab = sample_gitlab, pt_gcm = (\<lambda>_. Inr sample_aead), pt_scm = SCM.sample_world, pt_review = sample_review,
     pt_diagnosis = sample_diagnosis, pt_approvals = Approvals.sample_sv, pt_repair = Repair_Safety.sample_world, pt_automations = sample_aw,
     pt_runtime = sample_daemon, pt_stream = (\<lambda>_. sample_context), pt_oidc = sample_oidc, pt_api = sample_api\<rparr>"

lemma sample_loading: "Load sample_parse_url sample_files sample_lookup = Inr (projr sample_loaded)"
  by (fold sample_loaded_def) (rule sample_loaded_ok)

lemma sample_assembled: "assemble sample_parts (projr sample_loaded) = Inr (projr (assemble sample_parts (projr sample_loaded)))"
proof -
  have "\<not> isl (assemble sample_parts (projr sample_loaded))" by code_simp
  then show ?thesis by (simp add: sum.collapse(2))
qed

theorem configured_is_served_witness:
  "sv_automations (projr (assemble sample_parts (projr sample_loaded))) \<noteq> None \<and> api_scm (projr (assemble sample_parts (projr sample_loaded)))"
proof -
  have "cfg_FeatureM9Automations (projr sample_loaded)" "cfg_FeatureM2SCM (projr sample_loaded)" by code_simp+
  with configured_is_served [OF sample_loading sample_assembled]
  show ?thesis by simp
qed

theorem worker_starts_with_api_witness:
  "\<exists>hardened queue runtime. worker_start sample_parts (projr sample_loaded) = Inr (Some (hardened, queue, Some runtime)) \<and> 0 < WorkerPoll queue"
proof -
  have "cfg_FeatureM4Tasks (projr sample_loaded)" "cfg_FeatureM5CodeReview (projr sample_loaded)" by code_simp+
  with worker_starts_with_api [OF sample_loading sample_assembled]
  show ?thesis by auto
qed

text \<open>A quiet server whose limiter admits one request of a client in a minute.\<close>

definition sample_arrival :: "string \<Rightarrow> gaps \<times> (nat \<Rightarrow> server_db \<Rightarrow> server_db) \<times> env \<times> arrival" where
  "sample_arrival path = (sample_gaps, \<lambda>_ s. s, zero_env 50, \<lparr>arr_tls = False, arr_remote = ''10.0.0.7:4711'', arr_now = 50, arr_elapsed = 3, arr_path = path,
     arr_request = sample_call ''GET'' None []\<rparr>)"

definition sample_limits :: Config where
  "sample_limits = (projr sample_loaded)\<lparr>cfg_RateLimitPerMinute := 1\<rparr>"

definition sample_served :: "((string \<times> string) list \<times> http_reply) list \<times> process \<times> server_db" where
  "sample_served = serve_all (sample_api\<lparr>api_auth := False\<rparr>) (map sample_arrival [''/health/live'', ''/nowhere'', ''/nowhere'']) (buildServer sample_limits) (sample_site RoleAdmin)"

lemma sample_limits_hardened: "cfg_FeatureM10Hardening sample_limits"
  by code_simp

lemma sample_served_replies:
  "map (\<lambda>reply. (refused reply, answered (snd reply), rp_Status (snd reply))) (fst sample_served) = [(False, True, 200), (False, True, 404), (True, True, 429)]"
  by code_simp

lemma sample_live_key:
  "reply_key (sample_api\<lparr>api_auth := False\<rparr>) sample_limits sample_gaps (snd (snd (snd (sample_arrival path)))) rp =
     \<lparr>mk_method = ''GET'', mk_route = ''GET /health/live'', mk_status = ''2xx''\<rparr> \<longleftrightarrow> path = ''/health/live'' \<and> itoa (rp_Status rp div 100) = ''2''"
  if "path \<in> {''/health/live'', ''/nowhere''}"
proof -
  have "matched_pattern (sample_api\<lparr>api_auth := False\<rparr>) (sample_gaps\<lparr>gp_metrics := Some (New_registry [], [])\<rparr>) ''GET'' (segments ''/health/live'') = ''GET /health/live''"
    "matched_pattern (sample_api\<lparr>api_auth := False\<rparr>) (sample_gaps\<lparr>gp_metrics := Some (New_registry [], [])\<rparr>) ''GET'' (segments ''/nowhere'') = []"
    "normalizedPath ''/nowhere'' = ''/nowhere''" by code_simp+
  moreover have "pr_registry (buildServer sample_limits) = Some (New_registry (cfg_ServiceVersion sample_limits), cfg_MetricsToken sample_limits)"
    using sample_limits_hardened by (simp add: buildServer_def)
  ultimately show ?thesis
    using that matched_pattern_registry [where G = sample_gaps and x = "(New_registry [], [])"
        and y = "(New_registry (cfg_ServiceVersion sample_limits), cfg_MetricsToken sample_limits)"]
    by (auto simp: reply_key_def sample_arrival_def sample_call_def Let_def)
qed

text \<open>One of the three requests is for a route, one for no route, and the third is refused.\<close>

theorem every_reply_counted_witness:
  "\<exists>registry metricsToken. pr_registry (fst (snd sample_served)) = Some (registry, metricsToken) \<and> rateLimitRejected registry = 1 \<and>
     counted registry \<lparr>mk_method = ''GET'', mk_route = ''GET /health/live'', mk_status = ''2xx''\<rparr> = 1"
proof -
  let ?S = "sample_api\<lparr>api_auth := False\<rparr>" and ?arrivals = "map sample_arrival [''/health/live'', ''/nowhere'', ''/nowhere'']"
  let ?live = "\<lparr>mk_method = ''GET'', mk_route = ''GET /health/live'', mk_status = ''2xx''\<rparr>"
  obtain r1 r2 r3 where replies: "fst sample_served = [r1, r2, r3]" "\<not> refused r1" "\<not> refused r2" "refused r3" "answered (snd r1)"
    "rp_Status (snd r1) = 200" using sample_served_replies by (auto simp: map_eq_Cons_conv)
  have "itoa (200 div 100) = ''2''" by code_simp
  then have "length (filter (\<lambda>((G, bt, E, a), reply). \<not> refused reply \<and> answered (snd reply) \<and> reply_key ?S sample_limits G a (snd reply) = ?live)
      (zip ?arrivals (fst sample_served))) = 1"
    using replies sample_live_key [of "''/health/live''" "snd r1"] sample_live_key [of "''/nowhere''" "snd r2"] by (simp add: sample_arrival_def)
  moreover have "length (filter refused (fst sample_served)) = 1" using replies by simp
  moreover note every_reply_counted [of ?S ?arrivals sample_limits "sample_site RoleAdmin" "fst sample_served" "fst (snd sample_served)" "snd (snd sample_served)"]
  ultimately show ?thesis using sample_limits_hardened by (auto simp: sample_served_def)
qed

theorem refused_request_inert_witness:
  "\<exists>a p. pr_limiter p = pr_limiter (fst (snd sample_served)) \<and> snd (fst (serve sample_api sample_gaps (\<lambda>_ s. s) (zero_env 50) a p (sample_site RoleAdmin))) = rate_limited"
proof -
  let ?p = "fst (snd sample_served)"
  let ?a = "snd (snd (snd (sample_arrival ''/nowhere'')))"
  let ?m = "Rate_Limit.Middleware (arr_path ?a) (arr_remote ?a) (arr_now ?a) (pr_limiter ?p)"
  have "pr_registry ?p \<noteq> None" "fst ?m \<noteq> Next" by code_simp+
  then obtain registry metricsToken retryAfter content where "pr_registry ?p = Some (registry, metricsToken)" "?m = (TooManyRequests retryAfter content, snd ?m)"
    by (metis option.exhaust prod.exhaust reply.exhaust prod.collapse)
  from refused_request_inert [OF this] show ?thesis by blast
qed

definition sample_oidc_provider :: OIDCProvider where
  "sample_oidc_provider = projr (NewProvider sample_oidc ''https://id'' ''c1'' ''k'' ''https://me/cb'')"

definition sample_oidc_api :: api where
  "sample_oidc_api = sample_api\<lparr>api_oidc := Some sample_oidc_provider\<rparr>"

text \<open>The site after a login was begun, and the browser's return from the identity provider.\<close>

definition sample_oidc_site :: server_db where
  "sample_oidc_site = snd (oidcStart sample_oidc_api (\<lambda>_ s. s) (zero_env 20) (sample_call ''GET'' None []) (sample_site RoleAdmin))"

definition sample_return :: http_request where
  "sample_return = (sample_call ''GET'' None [])\<lparr>rq_Query := (\<lambda>k. if k = ''code'' then ''good''
     else fst (projr (fst (BeginOIDC Auth.sample_crypto (call (zero_env 20) 1) [] (srv_auth (sample_site RoleAdmin))))))\<rparr>"

theorem oidc_session_verified_witness:
  "\<exists>oauth extra content. ow_Exchange sample_oidc oauth (call (call (zero_env 30) 2) 0) ''good'' extra = Inr content"
proof -
  have "rp_Cookies (fst (oidcCallback sample_oidc_api (\<lambda>_ s. s) (zero_env 30) sample_return sample_oidc_site)) \<noteq> []" by code_simp
  moreover have "NewProvider sample_oidc ''https://id'' ''c1'' ''k'' ''https://me/cb'' = Inr sample_oidc_provider"
    by (simp add: sample_oidc_provider_def NewProvider_def on_success_def sample_oidc_def Let_def)
  moreover have "api_oidc sample_oidc_api = Some sample_oidc_provider" by (simp add: sample_oidc_api_def)
  ultimately show ?thesis
    using oidc_session_verified [of sample_oidc "''https://id''" "''c1''" "''k''" "''https://me/cb''" sample_oidc_provider sample_oidc_api "\<lambda>_ s. s" "zero_env 30"
        sample_return sample_oidc_site] by (auto simp: sample_return_def)
qed

end
