(* ===== verification/Migrations.thy ===== *)
theory Migrations
  imports AgentCompose "HOL-Library.List_Lexorder" "HOL-Library.Char_ord"
begin

text \<open>
  The schema migrations (\<open>migrate\<close> of \<open>src/server/internal/database/postgres.go\<close>), which the API and the worker run when they start.

  \<^item> \<open>files\<close> is the embedded directory, \<open>exec\<close> what the database does with a script; both are parameters, as is \<open>coll\<close>, the key by which the
    database orders text. \<open>fails\<close> numbers the statements: begin, lock, table, commit, and from 4 those of the loop.
  \<^item> The transaction holds an advisory lock, so that runs of several processes follow each other, and an error undoes all of it.
\<close>

section \<open>migrate (postgres.go)\<close>

record 'd schema =
  schema_migrations :: "string list"
  sch_tables :: 'd

definition HasSuffix :: "string \<Rightarrow> string \<Rightarrow> bool" where
  "HasSuffix s suf \<longleftrightarrow> length suf \<le> length s \<and> drop (length s - length suf) s = suf"

definition TrimSuffix :: "string \<Rightarrow> string \<Rightarrow> string" where
  "TrimSuffix s suf = (if HasSuffix s suf then take (length s - length suf) s else s)"

definition up_version :: "string \<Rightarrow> string" where
  "up_version path = TrimSuffix (TrimPrefix path ''migrations/'') ''.up.sql''"

fun apply_up :: "env \<Rightarrow> (string \<Rightarrow> 'd \<Rightarrow> 'd option) \<Rightarrow> nat \<Rightarrow> (string \<times> string) list \<Rightarrow> 'd schema \<Rightarrow> string + 'd schema" where
  "apply_up E exec k [] st = Inr st"
| "apply_up E exec k ((path, sql) # rest) st =
    (if \<not> HasSuffix path ''.up.sql'' then apply_up E exec k rest st
     else let version = up_version path in
       if fails E k then Inl ''query''
       else if version \<in> set (schema_migrations st) then apply_up E exec (k + 1) rest st
       else case (if fails E (k + 1) then None else exec sql (sch_tables st)) of
         None \<Rightarrow> Inl (''apply migration '' @ version)
       | Some tables \<Rightarrow>
           if fails E (k + 2) then Inl ''insert''
           else apply_up E exec (k + 3) rest (st\<lparr>schema_migrations := schema_migrations st @ [version], sch_tables := tables\<rparr>))"

definition in_transaction :: "env \<Rightarrow> (string + 'd schema) \<Rightarrow> 'd schema \<Rightarrow> (string + unit) \<times> 'd schema" where
  "in_transaction E r st =
    (if fails E 0 \<or> fails E 1 \<or> fails E 2 then (Inl ''connection'', st)
     else case r of Inl e \<Rightarrow> (Inl e, st) | Inr st' \<Rightarrow> if fails E 3 then (Inl ''commit'', st) else (Inr (), st'))"

definition MigrateUp :: "env \<Rightarrow> (string \<Rightarrow> 'd \<Rightarrow> 'd option) \<Rightarrow> (string \<times> string) list \<Rightarrow> 'd schema \<Rightarrow> (string + unit) \<times> 'd schema" where
  "MigrateUp E exec files st = in_transaction E (apply_up E exec 4 (sort_key fst files) st) st"

definition latest_version :: "(string \<Rightarrow> string) \<Rightarrow> string list \<Rightarrow> string option" where
  "latest_version coll vs = (if vs = [] then None else Some (last (sort_key coll vs)))"

definition undo_latest ::
  "env \<Rightarrow> (string \<Rightarrow> 'd \<Rightarrow> 'd option) \<Rightarrow> (string \<Rightarrow> string) \<Rightarrow> (string \<times> string) list \<Rightarrow> 'd schema \<Rightarrow> string + 'd schema" where
  "undo_latest E exec coll files st =
    (if fails E 4 then Inl ''query''
     else case latest_version coll (schema_migrations st) of
       None \<Rightarrow> Inr st
     | Some latest \<Rightarrow>
         (case map_of files (''migrations/'' @ latest @ ''.down.sql'') of
            None \<Rightarrow> Inl (''read rollback migration '' @ latest)
          | Some sql \<Rightarrow>
              (case (if fails E 5 then None else exec sql (sch_tables st)) of
                 None \<Rightarrow> Inl (''rollback migration '' @ latest)
               | Some tables \<Rightarrow>
                   if fails E 6 then Inl ''delete''
                   else Inr (st\<lparr>schema_migrations := filter (\<lambda>v. v \<noteq> latest) (schema_migrations st), sch_tables := tables\<rparr>))))"

definition MigrateDown ::
  "env \<Rightarrow> (string \<Rightarrow> 'd \<Rightarrow> 'd option) \<Rightarrow> (string \<Rightarrow> string) \<Rightarrow> (string \<times> string) list \<Rightarrow> 'd schema \<Rightarrow> (string + unit) \<times> 'd schema" where
  "MigrateDown E exec coll files st = in_transaction E (undo_latest E exec coll files st) st"

section \<open>Starting twice\<close>

definition up_files :: "(string \<times> string) list \<Rightarrow> (string \<times> string) list" where
  "up_files files = filter (\<lambda>(path, sql). HasSuffix path ''.up.sql'') files"

lemma apply_up_versions:
  "apply_up E exec k files st = Inr st' \<Longrightarrow>
    set (schema_migrations st') = set (schema_migrations st) \<union> (up_version \<circ> fst) ` set (up_files files) \<and>
    (distinct (schema_migrations st) \<longrightarrow> distinct (schema_migrations st'))"
  by (induction E exec k files st rule: apply_up.induct) (auto simp: Let_def up_files_def split: if_splits option.splits)

lemma apply_up_current:
  assumes "(up_version \<circ> fst) ` set (up_files files) \<subseteq> set (schema_migrations st)" "\<And>n. \<not> fails E n"
  shows "apply_up E exec k files st = Inr st"
  using assms(1)
proof (induction files arbitrary: k)
  case (Cons f files)
  then show ?case using assms(2) by (cases f) (auto simp: up_files_def split: if_splits)
qed simp

lemma up_files_sort: "set (up_files (sort_key fst files)) = set (up_files files)"
  by (simp add: up_files_def)

text \<open>
  A schema is migrated once: after a successful \<open>MigrateUp\<close> exactly the versions applied before and those of the embedded files are recorded, each once, an error changes
  nothing, and when the worker migrates after the API, its run finds nothing to do and leaves the database as it is.
\<close>

theorem migrate_once:
  assumes "MigrateUp E exec files st = (r, st')" "distinct (schema_migrations st)"
  shows "(case r of Inl _ \<Rightarrow> st' = st
    | Inr _ \<Rightarrow> set (schema_migrations st') = set (schema_migrations st) \<union> (up_version \<circ> fst) ` set (up_files files) \<and> distinct (schema_migrations st') \<and>
        (\<forall>E2. (\<forall>n. \<not> fails E2 n) \<longrightarrow> MigrateUp E2 exec files st' = (Inr (), st')))"
proof (cases r)
  case (Inl e)
  with assms(1) show ?thesis by (auto simp: MigrateUp_def in_transaction_def split: if_splits sum.splits)
next
  case (Inr u)
  with assms(1) have "apply_up E exec 4 (sort_key fst files) st = Inr st'"
    by (auto simp: MigrateUp_def in_transaction_def split: if_splits sum.splits)
  from apply_up_versions [OF this] have versions: "set (schema_migrations st') = set (schema_migrations st) \<union> (up_version \<circ> fst) ` set (up_files files)"
    and "distinct (schema_migrations st')"
    using assms(2) by (auto simp: up_files_sort)
  moreover have "MigrateUp E2 exec files st' = (Inr (), st')" if "\<forall>n. \<not> fails E2 n" for E2
    using that versions by (simp add: MigrateUp_def in_transaction_def apply_up_current up_files_sort)
  ultimately show ?thesis using Inr by simp
qed

section \<open>Up and down\<close>

lemma insort_before_last: "key x < key v \<Longrightarrow> insort_key key x (zs @ [v]) = insort_key key x zs @ [v]"
  by (induction zs) auto

lemma last_sort_key_max:
  assumes "\<And>w. w \<in> set vs \<Longrightarrow> coll w < coll v"
  shows "latest_version coll (vs @ [v]) = Some v"
proof -
  have "sort_key coll (vs @ [v]) = sort_key coll vs @ [v]"
    using assms by (induction vs) (simp_all add: insort_before_last)
  then show ?thesis by (simp add: latest_version_def)
qed

text \<open>
  Down undoes up: when \<open>MigrateUp\<close> applied one version, which the database orders after those it had, and the rollback script undoes the tables, then \<open>MigrateDown\<close>
  restores the database, and a further \<open>MigrateUp\<close> applies the version again.
\<close>

theorem down_undoes_up:
  assumes "MigrateUp E exec files st = (Inr (), st')" "schema_migrations st' = schema_migrations st @ [v]" "\<And>w. w \<in> set (schema_migrations st) \<Longrightarrow> coll w < coll v"
    and "map_of files (''migrations/'' @ v @ ''.down.sql'') = Some undo" "exec undo (sch_tables st') = Some (sch_tables st)" "\<And>n. \<not> fails E2 n"
  shows "MigrateDown E2 exec coll files st' = (Inr (), st)"
proof -
  have "v \<notin> set (schema_migrations st)" using assms(3) by blast
  then have "filter (\<lambda>w. w \<noteq> v) (schema_migrations st) = schema_migrations st" by (auto intro: filter_True)
  then show ?thesis
    using assms(2,4-6) last_sort_key_max [of "schema_migrations st" coll v] assms(3)
    by (simp add: MigrateDown_def in_transaction_def undo_latest_def)
qed

section \<open>Witnesses\<close>

definition sample_scripts :: "(string \<times> string) list" where
  "sample_scripts = [(''migrations/000002_b.up.sql'', ''+b''), (''migrations/000001_a.down.sql'', ''-''), (''migrations/000001_a.up.sql'', ''+a''),
     (''migrations/000002_b.down.sql'', ''-'')]"

definition sample_exec :: "string \<Rightarrow> string \<Rightarrow> string option" where
  "sample_exec sql tables = (if sql = ''-'' then Some (butlast tables) else Some (tables @ tl sql))"

definition sample_quiet :: env where
  "sample_quiet = quiet_env 1 (\<lambda>_. None)"

definition sample_schema1 :: "string schema" where
  "sample_schema1 = \<lparr>schema_migrations = [''000001_a''], sch_tables = ''a''\<rparr>"

lemma sample_schema_up:
  "MigrateUp sample_quiet sample_exec sample_scripts sample_schema1 = (Inr (), \<lparr>schema_migrations = [''000001_a'', ''000002_b''], sch_tables = ''ab''\<rparr>)"
  by code_simp

lemma sample_quiet_ok: "\<not> fails sample_quiet n"
  by (simp add: sample_quiet_def quiet_env_def)

theorem migrate_once_witness:
  "MigrateUp sample_quiet sample_exec sample_scripts \<lparr>schema_migrations = [''000001_a'', ''000002_b''], sch_tables = ''ab''\<rparr> =
    (Inr (), \<lparr>schema_migrations = [''000001_a'', ''000002_b''], sch_tables = ''ab''\<rparr>)"
proof -
  have "distinct (schema_migrations sample_schema1)" by code_simp
  from migrate_once [OF sample_schema_up this] sample_quiet_ok show ?thesis by auto
qed

theorem down_undoes_up_witness:
  "MigrateDown sample_quiet sample_exec (\<lambda>v. v) sample_scripts \<lparr>schema_migrations = [''000001_a'', ''000002_b''], sch_tables = ''ab''\<rparr> = (Inr (), sample_schema1)"
proof -
  have versions: "schema_migrations \<lparr>schema_migrations = [''000001_a'', ''000002_b''], sch_tables = ''ab''\<rparr> = schema_migrations sample_schema1 @ [''000002_b'']"
    by (simp add: sample_schema1_def)
  have "''000001_a'' < ''000002_b''" by code_simp
  then have order: "\<And>w. w \<in> set (schema_migrations sample_schema1) \<Longrightarrow> w < ''000002_b''" by (simp add: sample_schema1_def)
  have down: "map_of sample_scripts (''migrations/'' @ ''000002_b'' @ ''.down.sql'') = Some ''-''"
    "sample_exec ''-'' (sch_tables \<lparr>schema_migrations = [''000001_a'', ''000002_b''], sch_tables = ''ab''\<rparr>) = Some (sch_tables sample_schema1)"
    by code_simp+
  show ?thesis by (rule down_undoes_up [where coll = "\<lambda>v. v", OF sample_schema_up versions order down sample_quiet_ok])
qed

end
