(* ===== verification/Spec2Isabelle.thy ===== *)
theory Spec2Isabelle
  imports Retention HTTP_Streams API_Server Migrations
begin

text \<open>
  \<^bold>\<open>The RepoMender server.\<close> RepoMender watches Git repositories and lets an agent runtime review pull requests, diagnose failed builds and repair issues. The server
  (\<open>src/server\<close>, Go) receives webhooks, turns them into durable tasks, hands the tasks to workers, asks people for approval where a change would be published, and publishes
  through the provider. This development models its packages as functions on tables and proves what makes them correct, from the commands of the program and its configuration over
  the endpoints of the API down to the statements on the tables.

  \<^bold>\<open>Parts and their interaction.\<close>
  \<^item> \<open>scm\<close> authenticates a webhook and knows the synchronised repositories; \<open>httpserver/scm.go\<close> passes the event either to \<open>automations\<close> (published templates) or to the triggers
    of \<open>review\<close>, \<open>diagnosis\<close> and \<open>repair\<close>, and records the delivery with its outbox event.
  \<^item> All of these create rows of \<open>tasks\<close>. A \<open>worker\<close> claims a task under a lease, runs the processor of its kind and completes the task; completion is fenced by the run.
  \<^item> \<open>review\<close> and \<open>diagnosis\<close> run the agent on one immutable commit and publish a check; \<open>repair\<close> moves an issue through plan, approval, patch, approval and publication,
    with \<open>approvals\<close> as the gate.
  \<^item> \<open>auth\<close> owns users, sessions and OIDC flows; \<open>ratelimit\<close>, \<open>metrics\<close> and \<open>telemetry\<close> wrap every request; \<open>retention\<close> prunes history.
  \<^item> \<open>httpserver\<close> puts the services behind endpoints: a guard (session, role, CSRF token, password), the decoded request, one or more service calls, the reply. \<open>Run\<close> assembles the server
    from the configuration that \<open>config\<close> read and checked; the worker starts from the same configuration, after the same migrations (\<open>database\<close>).
  \<^item> \<open>execution/agentcompose\<close> is the client of the agent runtime: the execution adapter of the processors and of the internal endpoints.

  \<^bold>\<open>How the code is represented.\<close>
  \<^item> A package's tables are a record of lists of rows (\<open>tasks_db\<close>, \<open>auth_db\<close>, \<open>scm_db\<close>; \<open>approvals_db\<close>, \<open>repairs_db\<close> and \<open>automations_db\<close> extend \<open>tasks_db\<close>; \<open>server_db\<close>
    holds all of them). A store method is one function on that record: it is one transaction, so it returns the new tables, or an error with the old ones. Unique and primary
    keys are checked where the code relies on them; any statement may fail for any other reason.
  \<^item> What the operation meets is the record \<open>env\<close>: which of its calls fail, the clocks and the random bytes. \<open>call E k\<close> hands the \<open>k\<close>-th inner call its own 16 slots.
  \<^item> A service method that makes several transactions takes the interference of other processes between them as an argument (\<open>bt\<close>, one function for each gap), so that a
    property of the method holds for every interleaving.
  \<^item> Errors are values of a sum type, one \<open>datatype\<close> for each package; a panic is such a value. Time is an integer of nanoseconds, 0 Go's zero time. Strings are byte lists. Floats are
    their 64 bits. Durations computed from a server's answer are reduced to 64 bits.
  \<^item> What lies outside the repository is a parameter: SHA-256, HMAC, bcrypt, AES-GCM, RSA, JSON encoding and decoding, the Unicode tables, the zip reader, the agent runtime and the HTTP servers of the
    providers. A server is a function of the whole log of requests, so it may answer differently every time. Laws that a property needs of them are hypotheses of the property, and
    its witness gives concrete functions that satisfy them.
  \<^item> There is no fuel: loops are recursions on their data, with a termination proof where the recursion is not structural (trimming, log chunks, decimal numbers), and the one loop of the
    program that may never end, the paging of a provider's listing, is a \<open>partial_function\<close> whose value \<open>None\<close> means that it does not return.

  \<^bold>\<open>Theories.\<close>
  \<^item> \<open>Prelude\<close>: environment, tables (\<open>select_by\<close>, \<open>update_where\<close>, \<open>delete_where\<close>, \<open>order_limit\<close>), the locale \<open>transition_system\<close> (start, step, invariant). \<open>Go_Strings\<close>: the functions of
    Go's \<open>strings\<close>, \<open>fmt\<close> and \<open>hex\<close> that the code uses.
  \<^item> \<open>Tasks\<close> (tasks/types.go, store.go, service.go): the queue. Reachable states have one running run for a running task; stale workers are fenced; statuses follow the state machine; claims take the
    best candidate; errors change nothing. The removal of old history by retention is one of the steps.
  \<^item> \<open>Auth\<close> (auth/auth.go, store.go): nobody gains a role by logging in; sessions and OIDC flows expire and are used once.
  \<^item> \<open>Approvals\<close> (approvals/*.go): requests are decided only by eligible actors, in \<open>Decide\<close>, before expiry, and consumed at most once, by one key and digest.
  \<^item> \<open>Repair_Policy\<close>, \<open>Repair\<close>, \<open>Repair_Safety\<close> (repair/*.go): patch and path policy; store, service and processor; the safety of the whole workflow: what is published passed the policy and was
    approved twice.
  \<^item> \<open>Review\<close> (review/*.go), \<open>Diagnosis_Logs\<close> and \<open>Diagnosis\<close> (diagnosis/*.go): triggers, result validation, processors; redaction leaves no token, and chunking loses nothing but line breaks between chunks.
    The locale \<open>task_client\<close> states what a processor may do to the queue; it is interpreted on the task system and, in \<open>Worker\<close>, on the repair system.
  \<^item> \<open>Automations\<close> (automations/*.go): templates, published versions and triggers, with their invariant.
  \<^item> \<open>Worker\<close> (worker/*.go and the worker mode of cmd/repomender/main.go): the loop over the queue. The locales \<open>durable_queue\<close> and \<open>finishing_queue\<close> are the contract between loop and
    store; they are interpreted on the model of the store, as part of the repair system, and give that a worker only takes steps of that system and finishes what it claims, with the
    retention loop and operations of the queue, approvals and repairs between its own. An automation that is triggered inserts its task in a transaction of its own, which is a step of
    \<open>Automations\<close> and not of the repair system.
  \<^item> \<open>SCM_Store\<close> (scm/types.go, secret.go, store.go): connections, repository snapshots, deliveries. A synchronisation refines the replacement of one finite map by another.
    \<open>GitHub\<close> and \<open>GitLab\<close> (scm/github.go, gitlab.go): the adapters, as sequences of requests (\<open>'a http\<close>, \<open>sends\<close>). \<open>SCM\<close> (scm/service.go, repair/provider_scm.go): the service; the locale
    \<open>scm_adapter\<close> is what it relies on in an adapter, interpreted on both; \<open>scm_step\<close> is the system of all handlers.
  \<^item> \<open>Webhooks\<close> (httpserver/scm.go: \<open>handleWebhook\<close>): the endpoint where the components meet, over the combined database.
  \<^item> \<open>Retention\<close> (retention/retention.go, and its loop in main.go; on the tables of the queue it is \<open>prune_history\<close> of \<open>Tasks\<close> and \<open>retention_tick\<close> of \<open>Worker\<close>), \<open>Rate_Limit\<close> (ratelimit/limiter.go), \<open>Telemetry\<close> (telemetry/trace.go).

  \<^item> \<open>AgentCompose\<close> (execution/execution.go, agentcompose/*.go): the client of the runtime, with the frames of its log stream. Frames are read back as they were written, a stream that succeeds
    ended with a final event, results are of runs that succeeded, and configured secrets of four bytes or more do not pass; two theorems state where the client falls short (cancelling what is canceled, a secret split over chunks).
  \<^item> \<open>HTTP_Auth\<close> (httpserver/server.go: requests, replies, sessions, login, OIDC, health) and \<open>HTTP_API\<close> (tasks.go, approvals.go, repair.go, automations.go, scm.go, execution.go): one function for each
    endpoint, from the request and the database to the reply and the database. \<open>HTTP_Routes\<close> is the table of \<open>Handler\<close> with the matching of patterns, and what holds of every row: which
    endpoints need a session, a CSRF token, a role, and which change nothing. \<open>HTTP_Safety\<close> joins the endpoints with the services: a request moves the tables only as the services do, so that their
    invariants hold of a served database. \<open>HTTP_Streams\<close> is the event stream of a run, equal to the log it polls.
  \<^item> \<open>Metrics\<close> (metrics/metrics.go), \<open>Config\<close> (config/config.go), \<open>Migrations\<close> (database/postgres.go: \<open>migrate\<close>).
  \<^item> \<open>API_Server\<close> (auth/oidc.go, httpserver/server.go: \<open>Run\<close>, \<open>buildServer\<close>, the middleware chain; cmd/repomender/main.go): configuration, services, middleware and routes put together. What is
    configured is served and the worker starts where the API does; every answered request is counted once, as a rejection or under its method, route and status class; an OIDC session rests on a token verified for the configured client.

  \<^bold>\<open>Bounds.\<close> Limits of the code (page sizes, 2 MiB bodies, 8 MiB logs, 512-byte trigger keys and so on) are integers as in the source. The 16 slots of \<open>call\<close> are enough because no operation makes
  more than 16 numbered calls of its own; a loop that makes more of them is the last call of its operation, so that its slots overlap no others. The chunker needs a positive chunk size, which its constant is.

  \<^bold>\<open>Not modelled.\<close> Listening, shutdown and signals; the redirects of \<open>ServeMux\<close> for paths that are not clean; the timers behind the loops (a stream is a list of polls, the queue loop a
  list of passes, the retention loop a list of ticks); the chain of \<open>NewWith\<close> constructors, which \<open>assemble\<close> folds into one; the connection pool (its tables are the records above); log
  messages; the load test, the fixture server and the browser client. Replies keep their status, cookies and headers and a value for the body, not its JSON text. The order of rows that a query
  leaves unspecified is insertion order.
\<close>

end
